(* ===== verification/Prelude.thy ===== *)
theory Prelude
  imports Main "HOL-Library.Word"
begin

text \<open>
  Shared vocabulary of the development: the machine types of the Rust sources, their saturating
  and checked arithmetic, fixed-width big-endian byte encodings, and the generic list facts the
  component theories use.

  \<^item> A Rust \<open>u8\<close> is an \<^typ>\<open>8 word\<close>, a \<open>u16\<close> a \<^typ>\<open>16 word\<close>, a \<open>u32\<close> a \<^typ>\<open>32 word\<close> and a
    \<open>u64\<close> a \<^typ>\<open>64 word\<close>. A \<open>usize\<close> that only counts elements of an in-memory sequence is a
    \<^typ>\<open>nat\<close>; where the code does checked \<open>usize\<close> arithmetic the bound is written out.
  \<^item> A Rust \<open>String\<close> or \<open>&str\<close> is a \<^typ>\<open>string\<close>, one \<^typ>\<open>char\<close> per UTF-8 byte, so that \<open>len()\<close> is
    \<^const>\<open>length\<close>; theory \<open>Text\<close> decodes the bytes where the code iterates over \<open>chars()\<close>.
  \<^item> A fallible operation returns \<open>Inl\<close> of an error value or \<open>Inr\<close> of its result.
\<close>

type_synonym byte = "8 word"
type_synonym u16 = "16 word"
type_synonym u32 = "32 word"
type_synonym u64 = "64 word"
type_synonym bytes = "byte list"

named_theorems u64_arith \<open>characterisations of the 64-bit operations by their unsigned values\<close>

section \<open>Saturating and checked arithmetic on u64\<close>

definition saturating_add :: "u64 \<Rightarrow> u64 \<Rightarrow> u64" where
  "saturating_add a b = (if unat a + unat b < 2 ^ 64 then a + b else - 1)"

definition saturating_sub :: "u64 \<Rightarrow> u64 \<Rightarrow> u64" where
  "saturating_sub a b = (if b \<le> a then a - b else 0)"

definition checked_sub :: "u64 \<Rightarrow> u64 \<Rightarrow> u64 option" where
  "checked_sub a b = (if b \<le> a then Some (a - b) else None)"

lemma unat_u64_bound: "unat (a :: u64) < 18446744073709551616"
proof -
  have "unat a < 2 ^ LENGTH(64)" by (rule unsigned_less)
  then show ?thesis by simp
qed

lemma unat_u64_max [simp]: "unat (- 1 :: u64) = 18446744073709551615"
  by (simp add: unsigned_minus_1_eq_mask mask_eq_exp_minus_1)

lemma unat_saturating_add [u64_arith]:
  "unat (saturating_add a b) = min (unat a + unat b) 18446744073709551615"
  by (auto simp: saturating_add_def unat_word_ariths)

lemma unat_saturating_sub [u64_arith]:
  "unat (saturating_sub a b) = unat a - unat b"
  by (auto simp: saturating_sub_def unat_sub word_le_nat_alt)

lemma checked_sub_None [u64_arith]: "checked_sub a b = None \<longleftrightarrow> unat a < unat b"
  by (auto simp: checked_sub_def word_le_nat_alt)

lemma checked_sub_Some [u64_arith]:
  "checked_sub a b = Some c \<longleftrightarrow> unat b \<le> unat a \<and> unat c = unat a - unat b"
  by (auto simp: checked_sub_def word_le_nat_alt unat_sub word_unat_eq_iff)

lemmas u64_order [u64_arith] = word_le_nat_alt word_less_nat_alt word_unat_eq_iff

section \<open>Big-endian encodings\<close>

text \<open>\<open>to_be_bytes\<close> and \<open>from_be_bytes\<close> of the unsigned integer types, at a width in bytes.\<close>

fun be_bytes :: "nat \<Rightarrow> nat \<Rightarrow> bytes" where
  "be_bytes 0 n = []"
| "be_bytes (Suc k) n = be_bytes k (n div 256) @ [word_of_nat (n mod 256)]"

definition from_be :: "bytes \<Rightarrow> nat" where
  "from_be bs = foldl (\<lambda>a b. a * 256 + unat b) 0 bs"

definition from_le :: "bytes \<Rightarrow> nat" where
  "from_le bs = from_be (rev bs)"

lemma length_be_bytes [simp]: "length (be_bytes k n) = k"
  by (induction k arbitrary: n) auto

lemma from_be_snoc: "from_be (bs @ [b]) = from_be bs * 256 + unat b"
  by (simp add: from_be_def)

lemma unat_byte_of_nat: "n < 256 \<Longrightarrow> unat (word_of_nat n :: byte) = n"
  by (simp add: unat_of_nat)

lemma from_be_be_bytes: "n < 256 ^ k \<Longrightarrow> from_be (be_bytes k n) = n"
proof (induction k arbitrary: n)
  case 0
  then show ?case by (simp add: from_be_def)
next
  case (Suc k)
  from Suc.prems have "n div 256 < 256 ^ k"
    by (simp add: less_mult_imp_div_less mult.commute)
  then have "from_be (be_bytes k (n div 256)) = n div 256" by (rule Suc.IH)
  then show ?case by (simp add: from_be_snoc unat_byte_of_nat)
qed

lemma be_bytes_inject:
  assumes "n < 256 ^ k" and "m < 256 ^ k"
  shows "be_bytes k n = be_bytes k m \<longleftrightarrow> n = m"
  using assms from_be_be_bytes by metis

section \<open>Lists\<close>

text \<open>Concatenations of fixed-width fields are injective field by field.\<close>

lemma append_eq_same_length:
  "length xs = length ys \<Longrightarrow> xs @ us = ys @ vs \<longleftrightarrow> xs = ys \<and> us = vs"
  by auto

lemma find_Some_set: "find P xs = Some x \<Longrightarrow> x \<in> set xs \<and> P x"
  by (auto simp: find_Some_iff)

lemma find_None_set: "find P xs = None \<longleftrightarrow> (\<forall>x \<in> set xs. \<not> P x)"
  by (auto simp: find_None_iff)

lemma filter_length_less_iff:
  "length (filter P xs) < length xs \<longleftrightarrow> (\<exists>x \<in> set xs. \<not> P x)"
  by (metis length_filter_less filter_id_conv less_irrefl)

lemma distinct_map_filter_inj:
  "distinct (map f xs) \<Longrightarrow> x \<in> set xs \<Longrightarrow> y \<in> set xs \<Longrightarrow> f x = f y \<Longrightarrow> x = y"
  by (auto simp: distinct_map dest: inj_onD)

text \<open>A first-match search over a list with distinct keys finds the one element with the key.\<close>

lemma find_distinct_key:
  assumes "distinct (map f xs)" and "x \<in> set xs" and "f x = k"
  shows "find (\<lambda>y. f y = k) xs = Some x"
proof (cases "find (\<lambda>y. f y = k) xs")
  case None
  with assms show ?thesis by (auto simp: find_None_set)
next
  case (Some y)
  then have "y \<in> set xs" and "f y = k" by (auto dest: find_Some_set)
  with assms Some show ?thesis using distinct_map_filter_inj [of f xs x y] by simp
qed

lemma map_filter_simps [simp]:
  "List.map_filter f [] = []"
  "List.map_filter f (x # xs) = (case f x of None \<Rightarrow> List.map_filter f xs
                                 | Some y \<Rightarrow> y # List.map_filter f xs)"
  by (simp_all add: List.map_filter_simps)

lemma map_filter_append [simp]:
  "List.map_filter f (xs @ ys) = List.map_filter f xs @ List.map_filter f ys"
  by (induction xs) (auto split: option.splits)

lemma set_map_filter [simp]: "y \<in> set (List.map_filter f xs) \<longleftrightarrow> (\<exists>x \<in> set xs. f x = Some y)"
  by (induction xs) (auto split: option.splits)

text \<open>With a unique column, two rows with the same value are the same row.\<close>

lemma map_filter_distinct_eq:
  assumes "distinct (List.map_filter f xs)" and "distinct xs"
    and "x \<in> set xs" "y \<in> set xs" "f x = Some v" "f y = Some v"
  shows "x = y"
  using assms by (induction xs) (auto split: option.splits)

lemma filter_unique:
  assumes "x \<in> set xs" and "P x" and "\<And>y. y \<in> set xs \<Longrightarrow> P y \<Longrightarrow> y = x" and "distinct xs"
  shows "filter P xs = [x]"
  using assms
proof (induction xs)
  case (Cons a xs)
  show ?case
  proof (cases "x = a")
    case True
    with Cons.prems have "\<forall>y \<in> set xs. \<not> P y" by (metis distinct.simps(2) list.set_intros(2))
    with True Cons.prems show ?thesis by (simp add: filter_empty_conv)
  next
    case False
    with Cons show ?thesis by (metis filter.simps(2) list.set_intros(1,2) set_ConsD distinct.simps(2))
  qed
qed simp

section \<open>Results and state\<close>

text \<open>
  \<open>and_then\<close> is Rust's \<open>?\<close> on a result; \<open>then_st\<close> is the same for an operation that also returns the
  state it leaves, which stays as it was when the error was raised.
\<close>

definition and_then :: "'e + 'a \<Rightarrow> ('a \<Rightarrow> 'e + 'b) \<Rightarrow> 'e + 'b" where
  "and_then r f = (case r of Inl e \<Rightarrow> Inl e | Inr x \<Rightarrow> f x)"

definition map_err :: "('e \<Rightarrow> 'f) \<Rightarrow> 'e + 'a \<Rightarrow> 'f + 'a" where
  "map_err g r = (case r of Inl e \<Rightarrow> Inl (g e) | Inr x \<Rightarrow> Inr x)"

definition ok_or :: "'e \<Rightarrow> 'a option \<Rightarrow> 'e + 'a" where
  "ok_or e x = (case x of None \<Rightarrow> Inl e | Some y \<Rightarrow> Inr y)"

definition then_st ::
  "('e + 'a) \<times> 's \<Rightarrow> ('a \<Rightarrow> 's \<Rightarrow> ('e + 'b) \<times> 's) \<Rightarrow> ('e + 'b) \<times> 's" where
  "then_st m k = (case m of (Inl e, s) \<Rightarrow> (Inl e, s) | (Inr x, s) \<Rightarrow> k x s)"

lemma and_then_simps [simp]: "and_then (Inl e) f = Inl e" "and_then (Inr x) f = f x"
  by (simp_all add: and_then_def)

lemma map_err_simps [simp]: "map_err g (Inl e) = Inl (g e)" "map_err g (Inr x) = Inr x"
  by (simp_all add: map_err_def)

lemma ok_or_simps [simp]: "ok_or e None = Inl e" "ok_or e (Some x) = Inr x"
  by (simp_all add: ok_or_def)

lemma then_st_simps [simp]: "then_st (Inl e, s) k = (Inl e, s)" "then_st (Inr x, s) k = k x s"
  by (simp_all add: then_st_def)

lemma and_then_Inr [simp]: "and_then r f = Inr y \<longleftrightarrow> (\<exists>x. r = Inr x \<and> f x = Inr y)"
  by (cases r) auto

lemma map_err_Inr [simp]: "map_err g r = Inr y \<longleftrightarrow> r = Inr y"
  by (cases r) auto

lemma ok_or_Inr [simp]: "ok_or e x = Inr y \<longleftrightarrow> x = Some y"
  by (cases x) auto

lemma then_st_Inr:
  "then_st m k = (Inr y, s') \<longleftrightarrow> (\<exists>x s. m = (Inr x, s) \<and> k x s = (Inr y, s'))"
  by (cases m; cases "fst m") auto

text \<open>A state predicate kept by both halves of a sequence is kept by the sequence.\<close>

lemma then_st_keeps:
  assumes "P (snd m)" and "\<And>x s. P s \<Longrightarrow> P (snd (k x s))"
  shows "P (snd (then_st m k))"
  using assms by (cases m; cases "fst m") auto

section \<open>Runs\<close>

text \<open>
  A component that handles one request at a time: an invariant of the single step holds along
  every sequence of requests, and so does every fact that the steps preserve under it.
\<close>

locale step_invariant =
  fixes inv :: "'s \<Rightarrow> bool"
    and step :: "'r \<Rightarrow> 's \<Rightarrow> 's"
  assumes inv_step: "inv s \<Longrightarrow> inv (step r s)"
begin

lemma run_inv: "inv s \<Longrightarrow> inv (fold step rs s)"
  by (induction rs arbitrary: s) (auto intro: inv_step)

lemma run_keeps:
  assumes "inv s" and "P s" and "\<And>r s. inv s \<Longrightarrow> P s \<Longrightarrow> P (step r s)"
  shows "P (fold step rs s)"
  using assms by (induction rs arbitrary: s) (auto intro: inv_step)

end

section \<open>Ordered maps\<close>

text \<open>An ordered map is an association list sorted by its keys; this is its \<open>insert\<close>.\<close>

fun ordered_insert :: "'k :: linorder \<Rightarrow> 'v \<Rightarrow> ('k \<times> 'v) list \<Rightarrow> ('k \<times> 'v) list" where
  "ordered_insert k v [] = [(k, v)]"
| "ordered_insert k v ((k', v') # kvs) =
     (if k < k' then (k, v) # (k', v') # kvs
      else if k = k' then (k, v) # kvs
      else (k', v') # ordered_insert k v kvs)"

lemma map_of_ordered_insert [simp]: "map_of (ordered_insert k v m) = (map_of m)(k \<mapsto> v)"
  by (induction k v m rule: ordered_insert.induct) auto

lemma set_ordered_insert: "set (ordered_insert k v m) \<subseteq> insert (k, v) (set m)"
  by (induction k v m rule: ordered_insert.induct) auto

section \<open>Durations\<close>

text \<open>Durations are counted in nanoseconds.\<close>

type_synonym duration = nat

definition from_secs :: "nat \<Rightarrow> duration" where "from_secs n = n * 10 ^ 9"
definition as_millis :: "duration \<Rightarrow> nat" where "as_millis d = d div 10 ^ 6"

end
