(* ===== verification/Text.thy ===== *)
theory Text
  imports Prelude
begin

text \<open>
  Rust strings. A \<^typ>\<open>string\<close> holds the UTF-8 bytes of a \<open>str\<close>; \<open>utf8_decode\<close> is the validation
  and decoding that \<open>str::from_utf8\<close> and \<open>chars()\<close> perform (the well-formed sequences of the
  Unicode standard: no overlong forms, no surrogates, nothing above 10FFFF), and the
  predicates on scalar values are those of \<open>char\<close>. The ASCII predicates are those of \<open>u8\<close>.
\<close>

section \<open>UTF-8\<close>

abbreviation byte_val :: "char \<Rightarrow> nat" where
  "byte_val c \<equiv> of_char c"

definition utf8_cont :: "nat \<Rightarrow> bool" where
  "utf8_cont b \<longleftrightarrow> 128 \<le> b \<and> b \<le> 191"

fun utf8_decode :: "nat list \<Rightarrow> nat list option" where
  "utf8_decode [] = Some []"
| "utf8_decode (a # r) =
    (if a \<le> 127 then map_option (Cons a) (utf8_decode r)
     else case r of
       [] \<Rightarrow> None
     | b # r2 \<Rightarrow>
        (if 194 \<le> a \<and> a \<le> 223 then
           (if utf8_cont b
            then map_option (Cons ((a - 192) * 64 + (b - 128))) (utf8_decode r2) else None)
         else case r2 of
           [] \<Rightarrow> None
         | c # r3 \<Rightarrow>
            (if 224 \<le> a \<and> a \<le> 239 then
               (if utf8_cont b \<and> utf8_cont c \<and> (a = 224 \<longrightarrow> 160 \<le> b) \<and> (a = 237 \<longrightarrow> b \<le> 159)
                then map_option (Cons ((a - 224) * 4096 + (b - 128) * 64 + (c - 128)))
                       (utf8_decode r3)
                else None)
             else case r3 of
               [] \<Rightarrow> None
             | d # r4 \<Rightarrow>
                (if 240 \<le> a \<and> a \<le> 244 \<and> utf8_cont b \<and> utf8_cont c \<and> utf8_cont d
                    \<and> (a = 240 \<longrightarrow> 144 \<le> b) \<and> (a = 244 \<longrightarrow> b \<le> 143)
                 then map_option
                        (Cons ((a - 240) * 262144 + (b - 128) * 4096 + (c - 128) * 64 + (d - 128)))
                        (utf8_decode r4)
                 else None))))"

declare utf8_decode.simps(2) [simp del]

definition is_utf8 :: "string \<Rightarrow> bool" where
  "is_utf8 s \<longleftrightarrow> utf8_decode (map byte_val s) \<noteq> None"

definition chars :: "string \<Rightarrow> nat list" where
  "chars s = (case utf8_decode (map byte_val s) of Some cs \<Rightarrow> cs | None \<Rightarrow> [])"

lemma utf8_decode_ascii: "\<forall>b \<in> set bs. b \<le> 127 \<Longrightarrow> utf8_decode bs = Some bs"
  by (induction bs) (auto simp: utf8_decode.simps)

lemma chars_ascii: "\<forall>c \<in> set s. byte_val c \<le> 127 \<Longrightarrow> chars s = map byte_val s"
  by (simp add: chars_def utf8_decode_ascii)

lemma is_utf8_ascii: "\<forall>c \<in> set s. byte_val c \<le> 127 \<Longrightarrow> is_utf8 s"
  by (simp add: is_utf8_def utf8_decode_ascii)

lemma utf8_decode_eq_Nil: "utf8_decode bs = Some [] \<longleftrightarrow> bs = []"
  by (cases bs) (auto simp: utf8_decode.simps split: if_splits list.splits)

lemma chars_eq_Nil: "is_utf8 s \<Longrightarrow> chars s = [] \<longleftrightarrow> s = []"
  by (auto simp: is_utf8_def chars_def utf8_decode_eq_Nil split: option.splits)

section \<open>Predicates of char\<close>

text \<open>\<open>char::is_control\<close>: general category Cc. \<open>char::is_whitespace\<close>: property White\_Space.\<close>

definition char_is_control :: "nat \<Rightarrow> bool" where
  "char_is_control c \<longleftrightarrow> c \<le> 31 \<or> 127 \<le> c \<and> c \<le> 159"

definition char_is_whitespace :: "nat \<Rightarrow> bool" where
  "char_is_whitespace c \<longleftrightarrow>
     9 \<le> c \<and> c \<le> 13 \<or> c = 32 \<or> c = 133 \<or> c = 160 \<or> c = 5760 \<or> 8192 \<le> c \<and> c \<le> 8202
     \<or> c = 8232 \<or> c = 8233 \<or> c = 8239 \<or> c = 8287 \<or> c = 12288"

definition trim_chars :: "nat list \<Rightarrow> nat list" where
  "trim_chars cs = rev (dropWhile char_is_whitespace (rev (dropWhile char_is_whitespace cs)))"

text \<open>\<open>value.trim() != value\<close>.\<close>

definition not_trimmed :: "string \<Rightarrow> bool" where
  "not_trimmed s \<longleftrightarrow> trim_chars (chars s) \<noteq> chars s"

lemma trim_chars_id_iff:
  "trim_chars cs = cs \<longleftrightarrow>
     cs = [] \<or> \<not> char_is_whitespace (hd cs) \<and> \<not> char_is_whitespace (last cs)"
proof (cases cs)
  case Nil
  then show ?thesis by (simp add: trim_chars_def)
next
  case (Cons c r)
  show ?thesis
  proof
    assume eq: "trim_chars cs = cs"
    have le: "length (trim_chars cs) \<le> length (dropWhile char_is_whitespace cs)"
      by (simp add: trim_chars_def) (metis length_dropWhile_le length_rev)
    with eq have "length cs \<le> length (dropWhile char_is_whitespace cs)" by simp
    with Cons have h: "\<not> char_is_whitespace c"
      using length_dropWhile_le [of char_is_whitespace r] by (auto split: if_splits)
    then have "trim_chars cs = rev (dropWhile char_is_whitespace (rev cs))"
      using Cons by (simp add: trim_chars_def)
    with eq have "dropWhile char_is_whitespace (rev cs) = rev cs" by (metis rev_rev_ident)
    then have "\<not> char_is_whitespace (hd (rev cs))"
      using Cons by (metis hd_dropWhile list.distinct(1) rev_is_Nil_conv)
    with h Cons show "cs = [] \<or> \<not> char_is_whitespace (hd cs) \<and> \<not> char_is_whitespace (last cs)"
      by (metis hd_rev list.sel(1))
  next
    assume r: "cs = [] \<or> \<not> char_is_whitespace (hd cs) \<and> \<not> char_is_whitespace (last cs)"
    with Cons have h: "\<not> char_is_whitespace (hd cs)" and l: "\<not> char_is_whitespace (hd (rev cs))"
      by (metis list.distinct(1), metis hd_rev list.distinct(1))
    from h Cons have 1: "dropWhile char_is_whitespace cs = cs" by simp
    from l Cons have 2: "dropWhile char_is_whitespace (rev cs) = rev cs"
      by (metis dropWhile.simps(2) list.collapse list.distinct(1) rev_is_Nil_conv)
    show "trim_chars cs = cs" by (simp only: trim_chars_def 1 2 rev_rev_ident)
  qed
qed

section \<open>ASCII predicates of u8\<close>

definition is_ascii_digit :: "char \<Rightarrow> bool" where
  "is_ascii_digit c \<longleftrightarrow> 48 \<le> byte_val c \<and> byte_val c \<le> 57"

definition is_ascii_lowercase :: "char \<Rightarrow> bool" where
  "is_ascii_lowercase c \<longleftrightarrow> 97 \<le> byte_val c \<and> byte_val c \<le> 122"

definition is_ascii_uppercase :: "char \<Rightarrow> bool" where
  "is_ascii_uppercase c \<longleftrightarrow> 65 \<le> byte_val c \<and> byte_val c \<le> 90"

definition is_ascii_alphanumeric :: "char \<Rightarrow> bool" where
  "is_ascii_alphanumeric c \<longleftrightarrow> is_ascii_digit c \<or> is_ascii_lowercase c \<or> is_ascii_uppercase c"

definition is_ascii_hexdigit :: "char \<Rightarrow> bool" where
  "is_ascii_hexdigit c \<longleftrightarrow>
     is_ascii_digit c \<or> 97 \<le> byte_val c \<and> byte_val c \<le> 102 \<or> 65 \<le> byte_val c \<and> byte_val c \<le> 70"

definition is_lower_hexdigit :: "char \<Rightarrow> bool" where
  "is_lower_hexdigit c \<longleftrightarrow> is_ascii_digit c \<or> 97 \<le> byte_val c \<and> byte_val c \<le> 102"

definition to_ascii_lowercase_char :: "char \<Rightarrow> char" where
  "to_ascii_lowercase_char c = (if is_ascii_uppercase c then char_of (byte_val c + 32) else c)"

definition to_ascii_lowercase :: "string \<Rightarrow> string" where
  "to_ascii_lowercase s = map to_ascii_lowercase_char s"

lemmas ascii_defs = is_ascii_digit_def is_ascii_lowercase_def is_ascii_uppercase_def
  is_ascii_alphanumeric_def is_ascii_hexdigit_def is_lower_hexdigit_def

lemma byte_val_less: "byte_val c < 256"
  by simp

lemma to_ascii_lowercase_char_id: "is_ascii_lowercase c \<or> is_ascii_digit c \<Longrightarrow> to_ascii_lowercase_char c = c"
  by (auto simp: to_ascii_lowercase_char_def ascii_defs)

lemma to_ascii_lowercase_id:
  "\<forall>c \<in> set s. \<not> is_ascii_uppercase c \<Longrightarrow> to_ascii_lowercase s = s"
  by (simp add: to_ascii_lowercase_def to_ascii_lowercase_char_def map_idI)

lemma to_ascii_lowercase_no_upper: "c \<in> set (to_ascii_lowercase s) \<Longrightarrow> \<not> is_ascii_uppercase c"
  by (auto simp: to_ascii_lowercase_def to_ascii_lowercase_char_def is_ascii_uppercase_def)

section \<open>Bytes of a string\<close>

definition as_bytes :: "string \<Rightarrow> bytes" where
  "as_bytes s = map of_char s"

lemma length_as_bytes [simp]: "length (as_bytes s) = length s"
  by (simp add: as_bytes_def)

lemma as_bytes_append [simp]: "as_bytes (s @ t) = as_bytes s @ as_bytes t"
  by (simp add: as_bytes_def)

lemma of_char_byte_inj: "inj (of_char :: char \<Rightarrow> byte)"
proof
  fix c d :: char
  assume "(of_char c :: byte) = of_char d"
  then have "unat (of_char c :: byte) = unat (of_char d :: byte)" by simp
  then have "byte_val c = byte_val d"
    by (metis byte_val_less of_nat_of_char unat_byte_of_nat)
  then show "c = d" by simp
qed

lemma as_bytes_inject [simp]: "as_bytes s = as_bytes t \<longleftrightarrow> s = t"
  by (simp add: as_bytes_def inj_map_eq_map of_char_byte_inj)

end
