(* ===== verification/Hosted_Proto.thy ===== *)
theory Hosted_Proto
  imports Text
begin

text \<open>
  The hosted protocol's shared definitions (\<open>omachat-proto/src/hosted.rs\<close>): the byte transcripts
  that devices, servers and Nostr keys sign, the error codes, the reply frames and the validators
  of client-supplied text. The main result is that the four transcript kinds never collide.
\<close>

section \<open>JSON values\<close>

text \<open>
  \<open>serde_json::Value\<close>; an object is the association list of its members in the order in which the
  program inserts them, or in which the text has them. A \<open>JFloat\<close> is a number that is not an integer
  of 64 bits; it is kept as text because no struct of the program accepts one.
\<close>

datatype json =
    JNull
  | JBool bool
  | JInt int
  | JFloat string
  | JStr string
  | JArr "json list"
  | JObj "(string \<times> json) list"

fun json_get :: "json \<Rightarrow> string \<Rightarrow> json option" where
  "json_get (JObj ms) k = map_of ms k"
| "json_get _ k = None"

section \<open>Constants\<close>

definition PROTOCOL_VERSION :: u16 where "PROTOCOL_VERSION = 1"
definition MAX_FRAME_BYTES :: nat where "MAX_FRAME_BYTES = 16 * 1024"
definition MAX_TEXT_BYTES :: nat where "MAX_TEXT_BYTES = 8 * 1024"
definition MAX_ENCODED_TEXT_BYTES :: nat where "MAX_ENCODED_TEXT_BYTES = MAX_TEXT_BYTES + 4 * 1024"
definition MAX_REQUEST_ID_BYTES :: nat where "MAX_REQUEST_ID_BYTES = 64"
definition MAX_CLIENT_ID_BYTES :: nat where "MAX_CLIENT_ID_BYTES = 64"
definition MAX_NAME_BYTES :: nat where "MAX_NAME_BYTES = 64"
definition KEY_BYTES :: nat where "KEY_BYTES = 32"
definition SIGNATURE_BYTES :: nat where "SIGNATURE_BYTES = 64"
definition NOSTR_PROOF_SKEW_SECONDS :: u64 where "NOSTR_PROOF_SKEW_SECONDS = 300"

definition AUTH_DOMAIN :: bytes where
  "AUTH_DOMAIN = as_bytes ''omachat-server-auth-v1'' @ [0]"
definition HELLO_DOMAIN :: bytes where
  "HELLO_DOMAIN = as_bytes ''omachat-server-hello-v1'' @ [0]"
definition NOSTR_BIND_DOMAIN :: bytes where
  "NOSTR_BIND_DOMAIN = as_bytes ''omachat-nostr-bind-v1'' @ [0]"
definition NOSTR_UNBIND_DOMAIN :: bytes where
  "NOSTR_UNBIND_DOMAIN = as_bytes ''omachat-nostr-unbind-v1'' @ [0]"

section \<open>Transcripts\<close>

definition hello_transcript :: "bytes \<Rightarrow> bytes \<Rightarrow> bytes" where
  "hello_transcript challenge device_public_key = HELLO_DOMAIN @ challenge @ device_public_key"

definition auth_transcript :: "bytes \<Rightarrow> bytes \<Rightarrow> bytes \<Rightarrow> bytes" where
  "auth_transcript server_public_key challenge device_public_key =
     AUTH_DOMAIN @ server_public_key @ challenge @ device_public_key"

text \<open>
  \<open>u16::try_from(len).unwrap_or(u16::MAX)\<close>: a longer value is cut to its first 65535 bytes.
\<close>

definition push_str :: "bytes \<Rightarrow> string \<Rightarrow> bytes" where
  "push_str transcript value =
     (let len = (if length value < 2 ^ 16 then length value else 2 ^ 16 - 1) in
      transcript @ be_bytes 2 len @ take len (as_bytes value))"

definition proof_transcript ::
  "bytes \<Rightarrow> bytes \<Rightarrow> string \<Rightarrow> string \<Rightarrow> bytes \<Rightarrow> bytes \<Rightarrow> u64 \<Rightarrow> bytes" where
  "proof_transcript domain server_public_key account_id handle nostr_public_key nonce timestamp =
     (let t = domain @ server_public_key;
          t = push_str t account_id;
          t = push_str t handle in
      t @ nostr_public_key @ nonce @ be_bytes 8 (unat timestamp))"

definition nostr_bind_transcript ::
  "bytes \<Rightarrow> string \<Rightarrow> string \<Rightarrow> bytes \<Rightarrow> bytes \<Rightarrow> u64 \<Rightarrow> bytes" where
  "nostr_bind_transcript = proof_transcript NOSTR_BIND_DOMAIN"

definition nostr_unbind_transcript ::
  "bytes \<Rightarrow> string \<Rightarrow> string \<Rightarrow> bytes \<Rightarrow> bytes \<Rightarrow> u64 \<Rightarrow> bytes" where
  "nostr_unbind_transcript = proof_transcript NOSTR_UNBIND_DOMAIN"

section \<open>Errors and frames\<close>

datatype error_code =
    UnsupportedVersion | InvalidRequest | NotAuthenticated | AlreadyAuthenticated
  | InvalidSignature | InvalidHandle | HandleTaken | HandleAlreadySet | InvalidName
  | NostrPubkeyTaken | ReplayedProof | NotFound | TooLarge | RateLimited | Storage | Internal

record server_error =
  code :: error_code
  message :: string

abbreviation server_err :: "error_code \<Rightarrow> string \<Rightarrow> server_error" where
  "server_err c m \<equiv> \<lparr>code = c, message = m\<rparr>"

text \<open>The kebab-case names that serde derives for the codes.\<close>

fun error_code_name :: "error_code \<Rightarrow> string" where
  "error_code_name UnsupportedVersion = ''unsupported-version''"
| "error_code_name InvalidRequest = ''invalid-request''"
| "error_code_name NotAuthenticated = ''not-authenticated''"
| "error_code_name AlreadyAuthenticated = ''already-authenticated''"
| "error_code_name InvalidSignature = ''invalid-signature''"
| "error_code_name InvalidHandle = ''invalid-handle''"
| "error_code_name HandleTaken = ''handle-taken''"
| "error_code_name HandleAlreadySet = ''handle-already-set''"
| "error_code_name InvalidName = ''invalid-name''"
| "error_code_name NostrPubkeyTaken = ''nostr-pubkey-taken''"
| "error_code_name ReplayedProof = ''replayed-proof''"
| "error_code_name NotFound = ''not-found''"
| "error_code_name TooLarge = ''too-large''"
| "error_code_name RateLimited = ''rate-limited''"
| "error_code_name Storage = ''storage''"
| "error_code_name Internal = ''internal''"

definition success_frame :: "string \<Rightarrow> json \<Rightarrow> json" where
  "success_frame rid result =
     JObj [(''version'', JInt (uint PROTOCOL_VERSION)), (''id'', JStr rid), (''ok'', JBool True),
           (''result'', result)]"

definition failure_frame :: "string \<Rightarrow> server_error \<Rightarrow> json" where
  "failure_frame rid error =
     JObj [(''version'', JInt (uint PROTOCOL_VERSION)), (''id'', JStr rid), (''ok'', JBool False),
           (''error'', JObj [(''code'', JStr (error_code_name (code error))),
                             (''message'', JStr (message error))])]"

definition event_frame :: "string \<Rightarrow> json \<Rightarrow> json" where
  "event_frame kind data =
     JObj [(''version'', JInt (uint PROTOCOL_VERSION)), (''event'', JStr kind), (''data'', data)]"

section \<open>Validators\<close>

definition validate_name :: "string \<Rightarrow> server_error + string" where
  "validate_name value =
     (if value = [] \<or> MAX_NAME_BYTES < length value \<or> not_trimmed value
         \<or> list_ex char_is_control (chars value)
      then Inl (server_err InvalidName
        ''names are 1 to 64 bytes without control characters or surrounding whitespace'')
      else Inr value)"

definition validate_client_id :: "string \<Rightarrow> server_error + string" where
  "validate_client_id value =
     (if value = [] \<or> MAX_CLIENT_ID_BYTES < length value
         \<or> \<not> list_all (\<lambda>b. is_ascii_alphanumeric b \<or> b = CHR ''-'' \<or> b = CHR ''_'') value
      then Inl (server_err InvalidRequest
        (''client_id is 1 to 64 ASCII letters, digits, '-' or '_'' @ [CHR 0x27]))
      else Inr value)"

text \<open>\<open>encoded_len\<close> is the length of \<open>serde_json::to_string\<close> of the value.\<close>

definition validate_text :: "(string \<Rightarrow> nat) \<Rightarrow> string \<Rightarrow> server_error + string" where
  "validate_text encoded_len value =
     (if value = [] then Inl (server_err InvalidRequest ''message text is empty'')
      else if MAX_TEXT_BYTES < length value \<or> MAX_ENCODED_TEXT_BYTES < encoded_len value
      then Inl (server_err TooLarge
        ''message text exceeds 8192 UTF-8 bytes or 12288 JSON bytes'')
      else Inr value)"

lemmas hosted_consts = PROTOCOL_VERSION_def MAX_FRAME_BYTES_def MAX_TEXT_BYTES_def
  MAX_ENCODED_TEXT_BYTES_def MAX_REQUEST_ID_BYTES_def MAX_CLIENT_ID_BYTES_def MAX_NAME_BYTES_def
  KEY_BYTES_def SIGNATURE_BYTES_def

section \<open>Transcripts identify what they sign\<close>

text \<open>The statements that the protocol's keys sign, and the transcript of each.\<close>

datatype statement =
    Hello bytes bytes
  | Auth bytes bytes bytes
  | Bind bytes string string bytes bytes u64
  | Unbind bytes string string bytes bytes u64

fun transcript :: "statement \<Rightarrow> bytes" where
  "transcript (Hello challenge device) = hello_transcript challenge device"
| "transcript (Auth server challenge device) = auth_transcript server challenge device"
| "transcript (Bind server account handle nostr nonce t) =
     nostr_bind_transcript server account handle nostr nonce t"
| "transcript (Unbind server account handle nostr nonce t) =
     nostr_unbind_transcript server account handle nostr nonce t"

text \<open>The array arguments have their 32 bytes, and the strings fit the 16-bit length prefix.\<close>

fun statement_ok :: "statement \<Rightarrow> bool" where
  "statement_ok (Hello challenge device) \<longleftrightarrow>
     length challenge = KEY_BYTES \<and> length device = KEY_BYTES"
| "statement_ok (Auth server challenge device) \<longleftrightarrow>
     length server = KEY_BYTES \<and> length challenge = KEY_BYTES \<and> length device = KEY_BYTES"
| "statement_ok (Bind server account handle nostr nonce t) \<longleftrightarrow>
     length server = KEY_BYTES \<and> length account < 2 ^ 16 \<and> length handle < 2 ^ 16
     \<and> length nostr = KEY_BYTES \<and> length nonce = KEY_BYTES"
| "statement_ok (Unbind server account handle nostr nonce t) \<longleftrightarrow>
     length server = KEY_BYTES \<and> length account < 2 ^ 16 \<and> length handle < 2 ^ 16
     \<and> length nostr = KEY_BYTES \<and> length nonce = KEY_BYTES"

lemma push_str_short:
  "length s < 2 ^ 16 \<Longrightarrow> push_str t s = t @ be_bytes 2 (length s) @ as_bytes s"
  by (simp add: push_str_def)

text \<open>A length-prefixed string is a self-delimiting field.\<close>

lemma prefixed_inject:
  assumes "length s < 2 ^ 16" and "length s' < 2 ^ 16"
    and "be_bytes 2 (length s) @ as_bytes s @ r = be_bytes 2 (length s') @ as_bytes s' @ r'"
  shows "s = s' \<and> r = r'"
proof -
  from assms(3) have "be_bytes 2 (length s) = be_bytes 2 (length s')"
    and eq: "as_bytes s @ r = as_bytes s' @ r'"
    by (auto simp: append_eq_same_length)
  with assms(1,2) have "length s = length s'" by (simp add: be_bytes_inject)
  with eq show ?thesis by (simp add: append_eq_same_length)
qed

lemma proof_transcript_inject:
  assumes "length server = KEY_BYTES" "length server' = KEY_BYTES"
    and "length account < 2 ^ 16" "length account' < 2 ^ 16"
    and "length handle < 2 ^ 16" "length handle' < 2 ^ 16"
    and "length nostr = KEY_BYTES" "length nostr' = KEY_BYTES"
    and "length nonce = KEY_BYTES" "length nonce' = KEY_BYTES"
    and eq: "proof_transcript d server account handle nostr nonce t
      = proof_transcript d server' account' handle' nostr' nonce' t'"
  shows "server = server' \<and> account = account' \<and> handle = handle' \<and> nostr = nostr'
    \<and> nonce = nonce' \<and> t = t'"
proof -
  let ?tail = "\<lambda>n c u. n @ c @ be_bytes 8 (unat (u :: u64))"
  from eq assms have s: "server = server'"
    and a: "be_bytes 2 (length account) @ as_bytes account @ be_bytes 2 (length handle)
        @ as_bytes handle @ ?tail nostr nonce t
      = be_bytes 2 (length account') @ as_bytes account' @ be_bytes 2 (length handle')
        @ as_bytes handle' @ ?tail nostr' nonce' t'"
    by (auto simp: proof_transcript_def push_str_short append_eq_same_length)
  from prefixed_inject [OF assms(3,4) a] have acc: "account = account'"
    and h: "be_bytes 2 (length handle) @ as_bytes handle @ ?tail nostr nonce t
      = be_bytes 2 (length handle') @ as_bytes handle' @ ?tail nostr' nonce' t'"
    by auto
  from prefixed_inject [OF assms(5,6) h] have hd: "handle = handle'"
    and r: "?tail nostr nonce t = ?tail nostr' nonce' t'"
    by auto
  from r assms have "nostr = nostr'" "nonce = nonce'" "be_bytes 8 (unat t) = be_bytes 8 (unat t')"
    by (auto simp: append_eq_same_length)
  then show ?thesis
    using s acc hd unat_u64_bound [of t] unat_u64_bound [of t']
    by (simp add: be_bytes_inject word_unat_eq_iff)
qed

lemmas domain_defs = AUTH_DOMAIN_def HELLO_DOMAIN_def NOSTR_BIND_DOMAIN_def NOSTR_UNBIND_DOMAIN_def

text \<open>Byte 15 of a transcript tells the four kinds apart.\<close>

fun kind_byte :: "statement \<Rightarrow> byte" where
  "kind_byte (Hello _ _) = 104"
| "kind_byte (Auth _ _ _) = 97"
| "kind_byte (Bind _ _ _ _ _ _) = 105"
| "kind_byte (Unbind _ _ _ _ _ _) = 110"

lemma transcript_kind: "transcript x ! 15 = kind_byte x"
  by (cases x; simp add: hello_transcript_def auth_transcript_def nostr_bind_transcript_def
      nostr_unbind_transcript_def proof_transcript_def push_str_def Let_def domain_defs as_bytes_def)

text \<open>
  C1. Signatures bind exactly one statement. Two well-formed statements of the hosted protocol
  with the same transcript are the same statement: the kind (server hello, device authentication,
  handle binding, handle unbinding), every key, the account, the handle, the nonce and the
  timestamp agree. A signature made for one purpose, server, account or handle cannot be read as
  one for another.
\<close>

theorem transcript_inject:
  assumes "statement_ok x" and "statement_ok y"
  shows "transcript x = transcript y \<longleftrightarrow> x = y"
proof
  assume eq: "transcript x = transcript y"
  then have "kind_byte x = kind_byte y" using transcript_kind by metis
  then show "x = y"
    using assms eq
    by (cases x; cases y)
      (auto simp: hello_transcript_def auth_transcript_def append_eq_same_length
        nostr_bind_transcript_def nostr_unbind_transcript_def
        dest: proof_transcript_inject [rotated -1])
qed simp

text \<open>Two bindings of one account that differ in the handle only.\<close>

theorem transcript_inject_witness:
  "let k = replicate 32 (7 :: byte);
       x = Bind k ''id'' ''ada'' k k 5; y = Bind k ''id'' ''eve'' k k 5 in
   statement_ok x \<and> statement_ok y \<and> x \<noteq> y \<and> transcript x \<noteq> transcript y"
  using transcript_inject
    [of "Bind (replicate 32 7) ''id'' ''ada'' (replicate 32 7) (replicate 32 7) 5"
      "Bind (replicate 32 7) ''id'' ''eve'' (replicate 32 7) (replicate 32 7) 5"]
  by (simp add: KEY_BYTES_def Let_def)

end
