(* ===== verification/Primitives.thy ===== *)
theory Primitives
  imports Hosted_Proto
begin

text \<open>
  The third-party crates the program calls for encodings and cryptography are one record of
  functions that the definitions take as an argument; nothing is assumed of them unless a
  theorem names a law below as its hypothesis. Each law is documented behaviour of the crate.
  \<open>reference_crates\<close> is an executable instance for concrete runs: its hexadecimal codec is the real
  one, its signatures and ciphertexts are transparent stand-ins with the same interface.
\<close>

record crates =
  hex_encode :: "bytes \<Rightarrow> string"
  hex_decode :: "string \<Rightarrow> bytes option"
  bech32_encode :: "string \<Rightarrow> bytes \<Rightarrow> string option"
  bech32_checked :: "string \<Rightarrow> (string \<times> bytes) option"
  ed_key_ok :: "bytes \<Rightarrow> bool"
  ed_verify_strict :: "bytes \<Rightarrow> bytes \<Rightarrow> bytes \<Rightarrow> bool"
  ed_public :: "bytes \<Rightarrow> bytes"
  ed_sign :: "bytes \<Rightarrow> bytes \<Rightarrow> bytes"
  schnorr_secret_ok :: "bytes \<Rightarrow> bool"
  schnorr_public :: "bytes \<Rightarrow> bytes"
  schnorr_sign :: "bytes \<Rightarrow> bytes \<Rightarrow> bytes \<Rightarrow> bytes option"
  schnorr_key_ok :: "bytes \<Rightarrow> bool"
  schnorr_sig_ok :: "bytes \<Rightarrow> bool"
  schnorr_verify :: "bytes \<Rightarrow> bytes \<Rightarrow> bytes \<Rightarrow> bool"
  xchacha_encrypt :: "bytes \<Rightarrow> bytes \<Rightarrow> bytes \<Rightarrow> bytes \<Rightarrow> bytes option"
  xchacha_decrypt :: "bytes \<Rightarrow> bytes \<Rightarrow> bytes \<Rightarrow> bytes \<Rightarrow> bytes option"
  sha256 :: "bytes \<Rightarrow> bytes"

text \<open>
  \<open>hex_decode\<close> is \<open>hex::decode\<close> (\<open>None\<close> for an error); \<open>bech32_encode hrp data\<close> is \<open>Hrp::parse\<close>
  followed by \<open>bech32::encode\<close>; \<open>bech32_checked\<close> is \<open>CheckedHrpstring::new\<close> with the lower-case
  prefix and the bytes of \<open>byte_iter\<close>; \<open>ed_key_ok\<close> and \<open>schnorr_key_ok\<close> tell whether
  \<open>VerifyingKey::from_bytes\<close> accepts the key; \<open>schnorr_sign secret message aux\<close> is \<open>sign_raw\<close>;
  \<open>xchacha_encrypt key nonce aad message\<close> is the XChaCha20-Poly1305 AEAD.
\<close>

section \<open>Documented laws\<close>

definition hex_laws :: "crates \<Rightarrow> bool" where
  "hex_laws c \<longleftrightarrow>
     (\<forall>bs. hex_decode c (hex_encode c bs) = Some bs
       \<and> length (hex_encode c bs) = 2 * length bs
       \<and> list_all is_lower_hexdigit (hex_encode c bs))
     \<and> (\<forall>s bs. hex_decode c s = Some bs \<longrightarrow> length s = 2 * length bs)"

definition bech32_laws :: "crates \<Rightarrow> bool" where
  "bech32_laws c \<longleftrightarrow>
     (\<forall>hrp bs s. bech32_encode c hrp bs = Some s \<longrightarrow>
        bech32_checked c s = Some (hrp, bs)
        \<and> (length hrp = 4 \<longrightarrow> length bs = KEY_BYTES \<longrightarrow> length s \<le> 90)
        \<and> list_all (\<lambda>x. 33 \<le> byte_val x \<and> byte_val x \<le> 126) s)"

definition schnorr_laws :: "crates \<Rightarrow> bool" where
  "schnorr_laws c \<longleftrightarrow>
     (\<forall>sk m aux s. schnorr_secret_ok c sk \<longrightarrow> schnorr_sign c sk m aux = Some s \<longrightarrow>
        length s = SIGNATURE_BYTES \<and> schnorr_sig_ok c s
        \<and> schnorr_verify c (schnorr_public c sk) m s)
     \<and> (\<forall>sk. schnorr_secret_ok c sk \<longrightarrow>
        length (schnorr_public c sk) = KEY_BYTES \<and> schnorr_key_ok c (schnorr_public c sk))"

definition ed_laws :: "crates \<Rightarrow> bool" where
  "ed_laws c \<longleftrightarrow>
     (\<forall>sk m. length sk = KEY_BYTES \<longrightarrow>
        length (ed_public c sk) = KEY_BYTES \<and> length (ed_sign c sk m) = SIGNATURE_BYTES
        \<and> ed_key_ok c (ed_public c sk) \<and> ed_verify_strict c (ed_public c sk) m (ed_sign c sk m))"

definition aead_laws :: "crates \<Rightarrow> bool" where
  "aead_laws c \<longleftrightarrow>
     (\<forall>k n aad m ct. xchacha_encrypt c k n aad m = Some ct \<longrightarrow>
        length ct = length m + 16 \<and> xchacha_decrypt c k n aad ct = Some m)"

lemma hex_laws_roundtrip: "hex_laws c \<Longrightarrow> hex_decode c (hex_encode c bs) = Some bs"
  by (simp add: hex_laws_def)

lemma hex_laws_length: "hex_laws c \<Longrightarrow> length (hex_encode c bs) = 2 * length bs"
  by (simp add: hex_laws_def)

lemma hex_laws_inject: "hex_laws c \<Longrightarrow> hex_encode c a = hex_encode c b \<longleftrightarrow> a = b"
  by (metis hex_laws_roundtrip option.inject)

lemma hex_laws_lower: "hex_laws c \<Longrightarrow> x \<in> set (hex_encode c bs) \<Longrightarrow> is_lower_hexdigit x"
  by (auto simp: hex_laws_def list_all_iff)

section \<open>An executable instance\<close>

definition hex_digit :: "nat \<Rightarrow> char" where
  "hex_digit n = char_of (if n < 10 then 48 + n else 87 + n)"

definition hex_value :: "char \<Rightarrow> nat option" where
  "hex_value x =
     (let b = byte_val x in
      if 48 \<le> b \<and> b \<le> 57 then Some (b - 48)
      else if 97 \<le> b \<and> b \<le> 102 then Some (b - 87)
      else if 65 \<le> b \<and> b \<le> 70 then Some (b - 55)
      else None)"

fun hex_string :: "bytes \<Rightarrow> string" where
  "hex_string [] = []"
| "hex_string (b # bs) = hex_digit (unat b div 16) # hex_digit (unat b mod 16) # hex_string bs"

fun hex_parse :: "string \<Rightarrow> bytes option" where
  "hex_parse [] = Some []"
| "hex_parse [x] = None"
| "hex_parse (x # y # r) =
    (case (hex_value x, hex_value y, hex_parse r) of
       (Some a, Some b, Some bs) \<Rightarrow> Some (word_of_nat (16 * a + b) # bs)
     | _ \<Rightarrow> None)"

lemma hex_value_digit: "n < 16 \<Longrightarrow> hex_value (hex_digit n) = Some n"
  by (simp add: hex_value_def hex_digit_def Let_def)

lemma hex_digit_lower: "n < 16 \<Longrightarrow> is_lower_hexdigit (hex_digit n)"
  by (simp add: hex_digit_def ascii_defs)

lemma unat_byte_bound: "unat (b :: byte) < 256"
proof -
  have "unat b < 2 ^ LENGTH(8)" by (rule unsigned_less)
  then show ?thesis by simp
qed

lemma unat_of_char_byte: "unat (of_char x :: byte) = of_char x"
  by (metis byte_val_less of_nat_of_char unat_byte_of_nat)

lemma hex_parse_string: "hex_parse (hex_string bs) = Some bs"
proof (induction bs)
  case (Cons b bs)
  have "unat b div 16 < 16" using unat_byte_bound [of b] by (simp add: less_mult_imp_div_less)
  moreover have "16 * (unat b div 16) + unat b mod 16 = unat b" by simp
  ultimately show ?case
    using Cons by (simp add: hex_value_digit del: mult_div_mod_eq)
qed simp

lemma length_hex_string: "length (hex_string bs) = 2 * length bs"
  by (induction bs) auto

lemma hex_string_lower: "list_all is_lower_hexdigit (hex_string bs)"
proof (induction bs)
  case (Cons b bs)
  have "unat b div 16 < 16" using unat_byte_bound [of b] by (simp add: less_mult_imp_div_less)
  with Cons show ?case by (simp add: hex_digit_lower)
qed simp

lemma hex_parse_length: "hex_parse s = Some bs \<Longrightarrow> length s = 2 * length bs"
  by (induction s arbitrary: bs rule: hex_parse.induct) (auto split: option.splits)

text \<open>A stand-in signature: the message's low length byte, repeated, tagged with the key.\<close>

definition stamp :: "bytes \<Rightarrow> bytes \<Rightarrow> bytes" where
  "stamp key m = take 32 (key @ replicate 32 0) @ replicate 32 (word_of_nat (length m))"

definition reference_crates :: crates where
  "reference_crates =
    \<lparr>hex_encode = hex_string, hex_decode = hex_parse,
     bech32_encode = (\<lambda>hrp bs.
        if hrp = ''npub'' \<or> hrp = ''nsec'' then Some (hrp @ ''1'' @ hex_string bs) else None),
     bech32_checked = (\<lambda>s. map_option (Pair (take 4 s)) (hex_parse (drop 5 s))),
     ed_key_ok = (\<lambda>k. length k = 32), ed_verify_strict = (\<lambda>k m s. s = stamp k m),
     ed_public = (\<lambda>k. k), ed_sign = stamp,
     schnorr_secret_ok = (\<lambda>k. length k = 32), schnorr_public = (\<lambda>k. k),
     schnorr_sign = (\<lambda>k m aux. Some (stamp k m)),
     schnorr_key_ok = (\<lambda>k. length k = 32), schnorr_sig_ok = (\<lambda>s. length s = 64),
     schnorr_verify = (\<lambda>k m s. s = stamp k m),
     xchacha_encrypt = (\<lambda>k n aad m. Some (m @ take 16 (k @ replicate 16 0))),
     xchacha_decrypt = (\<lambda>k n aad ct.
        if 16 \<le> length ct \<and> drop (length ct - 16) ct = take 16 (k @ replicate 16 0)
        then Some (take (length ct - 16) ct) else None),
     sha256 = (\<lambda>m. take 32 (m @ replicate 32 0))\<rparr>"

lemma reference_hex_laws: "hex_laws reference_crates"
  by (simp add: hex_laws_def reference_crates_def hex_parse_string length_hex_string
      hex_string_lower hex_parse_length)

lemma length_stamp: "length (stamp k m) = 64"
  by (simp add: stamp_def)

lemma reference_schnorr_laws: "schnorr_laws reference_crates"
  by (simp add: schnorr_laws_def reference_crates_def length_stamp KEY_BYTES_def SIGNATURE_BYTES_def)

lemma reference_ed_laws: "ed_laws reference_crates"
  by (simp add: ed_laws_def reference_crates_def length_stamp KEY_BYTES_def SIGNATURE_BYTES_def)

lemma reference_bech32_laws: "bech32_laws reference_crates"
proof -
  have "list_all (\<lambda>x. 33 \<le> byte_val x \<and> byte_val x \<le> 126) (hex_string bs)" for bs
    using hex_string_lower [of bs] by (auto simp: list_all_iff ascii_defs)
  then show ?thesis
    by (auto simp: bech32_laws_def reference_crates_def hex_parse_string length_hex_string
        KEY_BYTES_def)
qed

lemma reference_aead_laws: "aead_laws reference_crates"
  by (simp add: aead_laws_def reference_crates_def min_def)

lemmas reference_laws = reference_hex_laws reference_schnorr_laws reference_ed_laws
  reference_bech32_laws reference_aead_laws

end
