(* ===== verification/Keys.thy ===== *)
theory Keys
  imports Primitives
begin

text \<open>
  Handles and display names (\<open>omachat-crypto/src/account.rs\<close>), Nostr keys
  (\<open>omachat-crypto/src/nostr.rs\<close>) and the device and server signatures
  (\<open>omachat-server/src/auth.rs\<close>).
\<close>

section \<open>Handles and display names\<close>

datatype account_error = Account_InvalidHandle | Account_InvalidDisplayName

definition MIN_HANDLE_BYTES :: nat where "MIN_HANDLE_BYTES = 3"
definition MAX_HANDLE_BYTES :: nat where "MAX_HANDLE_BYTES = 32"
definition MAX_DISPLAY_NAME_CHARS :: nat where "MAX_DISPLAY_NAME_CHARS = 80"
definition MAX_DISPLAY_NAME_BYTES :: nat where "MAX_DISPLAY_NAME_BYTES = 256"

text \<open>\<open>value.strip_prefix('@').unwrap_or(value)\<close>.\<close>

fun strip_at :: "string \<Rightarrow> string" where
  "strip_at [] = []"
| "strip_at (c # s) = (if c = CHR ''@'' then s else c # s)"

definition handle_char :: "char \<Rightarrow> bool" where
  "handle_char b \<longleftrightarrow> is_ascii_lowercase b \<or> is_ascii_digit b \<or> b = CHR ''_''"

definition GlobalHandle_parse :: "string \<Rightarrow> account_error + string" where
  "GlobalHandle_parse value =
     (let canonical = strip_at value in
      if \<not> (MIN_HANDLE_BYTES \<le> length canonical \<and> length canonical \<le> MAX_HANDLE_BYTES)
         \<or> \<not> is_ascii_lowercase (canonical ! 0)
         \<or> \<not> list_all handle_char (drop 1 canonical)
      then Inl Account_InvalidHandle
      else Inr canonical)"

definition is_unsafe_display_format :: "nat \<Rightarrow> bool" where
  "is_unsafe_display_format c \<longleftrightarrow>
     c = 0xad \<or> c = 0x61c \<or> 0x200b \<le> c \<and> c \<le> 0x200f \<or> 0x202a \<le> c \<and> c \<le> 0x202e
     \<or> 0x2060 \<le> c \<and> c \<le> 0x206f \<or> c = 0xfeff \<or> 0xfff9 \<le> c \<and> c \<le> 0xfffb
     \<or> 0xe0000 \<le> c \<and> c \<le> 0xe007f"

definition DisplayName_parse :: "string \<Rightarrow> account_error + string" where
  "DisplayName_parse value =
     (let characters = length (chars value) in
      if characters = 0 \<or> MAX_DISPLAY_NAME_CHARS < characters
         \<or> MAX_DISPLAY_NAME_BYTES < length value \<or> not_trimmed value
         \<or> list_ex (\<lambda>c. char_is_control c \<or> is_unsafe_display_format c) (chars value)
      then Inl Account_InvalidDisplayName
      else Inr value)"

section \<open>Nostr keys\<close>

datatype nostr_identity_error =
    Nostr_Random | Nostr_InvalidSecret | Nostr_InvalidPublicKey | Nostr_InvalidSignature
  | Nostr_Sign | Nostr_Bech32

record nostr_secret =
  secret :: bytes

definition NostrSecret_from_bytes ::
  "crates \<Rightarrow> bytes \<Rightarrow> nostr_identity_error + nostr_secret" where
  "NostrSecret_from_bytes c sk =
     (if schnorr_secret_ok c sk then Inr \<lparr>secret = sk\<rparr> else Inl Nostr_InvalidSecret)"

text \<open>\<open>random\<close> is what \<open>getrandom::fill\<close> delivers: the bytes, or nothing when it fails.\<close>

definition NostrSecret_generate ::
  "crates \<Rightarrow> bytes option \<Rightarrow> nostr_identity_error + nostr_secret" where
  "NostrSecret_generate c random =
     (case random of None \<Rightarrow> Inl Nostr_Random | Some sk \<Rightarrow> NostrSecret_from_bytes c sk)"

definition encode_key :: "crates \<Rightarrow> string \<Rightarrow> bytes \<Rightarrow> nostr_identity_error + string" where
  "encode_key c hrp_text key =
     (case bech32_encode c hrp_text key of None \<Rightarrow> Inl Nostr_Bech32 | Some s \<Rightarrow> Inr s)"

text \<open>
  The loop over \<open>byte_iter\<close> fills a 32-byte array and refuses a 33rd byte; what is left to check
  is that there were 32.
\<close>

fun collect_key :: "nat \<Rightarrow> bytes \<Rightarrow> bytes \<Rightarrow> bytes option" where
  "collect_key index key [] = Some key"
| "collect_key index key (b # bs) =
    (if KEY_BYTES \<le> index then None else collect_key (index + 1) (key @ [b]) bs)"

definition decode_bech32_key :: "crates \<Rightarrow> string \<Rightarrow> string \<Rightarrow> nostr_identity_error + bytes" where
  "decode_bech32_key c encoded expected_hrp =
     (if 90 < length encoded \<or> list_ex char_is_whitespace (chars encoded) then Inl Nostr_Bech32
      else case bech32_checked c encoded of
        None \<Rightarrow> Inl Nostr_Bech32
      | Some (hrp, data) \<Rightarrow>
          if hrp \<noteq> expected_hrp then Inl Nostr_Bech32
          else case collect_key 0 [] data of
            None \<Rightarrow> Inl Nostr_Bech32
          | Some key \<Rightarrow> if length key \<noteq> KEY_BYTES then Inl Nostr_Bech32 else Inr key)"

definition NostrSecret_from_nsec :: "crates \<Rightarrow> string \<Rightarrow> nostr_identity_error + nostr_secret" where
  "NostrSecret_from_nsec c nsec =
     (case decode_bech32_key c nsec ''nsec'' of
        Inl e \<Rightarrow> Inl e | Inr bs \<Rightarrow> NostrSecret_from_bytes c bs)"

definition NostrSecret_public_key :: "crates \<Rightarrow> nostr_secret \<Rightarrow> bytes" where
  "NostrSecret_public_key c s = schnorr_public c (secret s)"

definition NostrSecret_sign ::
  "crates \<Rightarrow> bytes option \<Rightarrow> nostr_secret \<Rightarrow> bytes \<Rightarrow> nostr_identity_error + bytes" where
  "NostrSecret_sign c random s msg =
     (if \<not> schnorr_secret_ok c (secret s) then Inl Nostr_InvalidSecret
      else case random of
        None \<Rightarrow> Inl Nostr_Random
      | Some aux \<Rightarrow>
          (case schnorr_sign c (secret s) msg aux of
             None \<Rightarrow> Inl Nostr_Sign | Some sig \<Rightarrow> Inr sig))"

definition npub_from_public_key :: "crates \<Rightarrow> bytes \<Rightarrow> nostr_identity_error + string" where
  "npub_from_public_key c public_key = encode_key c ''npub'' public_key"

definition public_key_from_npub :: "crates \<Rightarrow> string \<Rightarrow> nostr_identity_error + bytes" where
  "public_key_from_npub c npub = decode_bech32_key c npub ''npub''"

definition NostrSecret_nsec :: "crates \<Rightarrow> nostr_secret \<Rightarrow> nostr_identity_error + string" where
  "NostrSecret_nsec c s = encode_key c ''nsec'' (secret s)"

definition verify_nostr ::
  "crates \<Rightarrow> bytes \<Rightarrow> bytes \<Rightarrow> bytes \<Rightarrow> nostr_identity_error + unit" where
  "verify_nostr c public_key msg signature =
     (if \<not> schnorr_key_ok c public_key then Inl Nostr_InvalidPublicKey
      else if \<not> schnorr_sig_ok c signature then Inl Nostr_InvalidSignature
      else if schnorr_verify c public_key msg signature then Inr ()
      else Inl Nostr_InvalidSignature)"

section \<open>Server and device signatures\<close>

datatype auth_error =
    Auth_InvalidPublicKey | Auth_InvalidSignature | Auth_InvalidEncoding | Auth_Random

definition sign_hello :: "crates \<Rightarrow> bytes \<Rightarrow> bytes \<Rightarrow> bytes \<Rightarrow> bytes" where
  "sign_hello c seed challenge device_public_key =
     ed_sign c seed (hello_transcript challenge device_public_key)"

definition verify_hello_signature ::
  "crates \<Rightarrow> bytes \<Rightarrow> bytes \<Rightarrow> bytes \<Rightarrow> bytes \<Rightarrow> auth_error + unit" where
  "verify_hello_signature c server_public_key challenge device_public_key signature =
     (if \<not> ed_key_ok c server_public_key then Inl Auth_InvalidPublicKey
      else if ed_verify_strict c server_public_key
                (hello_transcript challenge device_public_key) signature
      then Inr () else Inl Auth_InvalidSignature)"

definition verify_device_signature ::
  "crates \<Rightarrow> bytes \<Rightarrow> bytes \<Rightarrow> bytes \<Rightarrow> bytes \<Rightarrow> auth_error + unit" where
  "verify_device_signature c server_public_key challenge device_public_key signature =
     (if \<not> ed_key_ok c device_public_key then Inl Auth_InvalidPublicKey
      else if ed_verify_strict c device_public_key
                (auth_transcript server_public_key challenge device_public_key) signature
      then Inr () else Inl Auth_InvalidSignature)"

definition sign_device_challenge :: "crates \<Rightarrow> bytes \<Rightarrow> bytes \<Rightarrow> bytes \<Rightarrow> bytes" where
  "sign_device_challenge c device_seed server_public_key challenge =
     ed_sign c device_seed (auth_transcript server_public_key challenge (ed_public c device_seed))"

definition random_challenge :: "bytes option \<Rightarrow> auth_error + bytes" where
  "random_challenge random = (case random of None \<Rightarrow> Inl Auth_Random | Some ch \<Rightarrow> Inr ch)"

definition decode_key :: "crates \<Rightarrow> string \<Rightarrow> auth_error + bytes" where
  "decode_key c value =
     (case hex_decode c value of
        None \<Rightarrow> Inl Auth_InvalidEncoding
      | Some bs \<Rightarrow> if length bs = KEY_BYTES then Inr bs else Inl Auth_InvalidEncoding)"

definition decode_signature :: "crates \<Rightarrow> string \<Rightarrow> auth_error + bytes" where
  "decode_signature c value =
     (case hex_decode c value of
        None \<Rightarrow> Inl Auth_InvalidEncoding
      | Some bs \<Rightarrow> if length bs = SIGNATURE_BYTES then Inr bs else Inl Auth_InvalidEncoding)"

section \<open>Facts\<close>

text \<open>The canonical form of a handle.\<close>

definition canonical_handle :: "string \<Rightarrow> bool" where
  "canonical_handle h \<longleftrightarrow>
     3 \<le> length h \<and> length h \<le> 32 \<and> is_ascii_lowercase (hd h) \<and> list_all handle_char h"

lemma GlobalHandle_parse_Inr:
  "GlobalHandle_parse v = Inr h \<longleftrightarrow> canonical_handle h \<and> h = strip_at v"
proof -
  have "\<not> (\<not> (3 \<le> length x \<and> length x \<le> 32) \<or> \<not> is_ascii_lowercase (x ! 0)
      \<or> \<not> list_all handle_char (drop 1 x)) \<longleftrightarrow> canonical_handle x" for x
    by (cases x) (auto simp: canonical_handle_def handle_char_def)
  then show ?thesis
    unfolding GlobalHandle_parse_def Let_def MIN_HANDLE_BYTES_def MAX_HANDLE_BYTES_def by auto
qed

lemma canonical_handle_no_at: "canonical_handle h \<Longrightarrow> strip_at h = h"
  by (cases h) (auto simp: canonical_handle_def is_ascii_lowercase_def)

lemma canonical_handle_ascii:
  assumes "canonical_handle h" and "x \<in> set h"
  shows "handle_char x"
  using assms by (auto simp: canonical_handle_def list_all_iff)

lemma canonical_handle_lowercase: "canonical_handle h \<Longrightarrow> to_ascii_lowercase h = h"
proof (rule to_ascii_lowercase_id, rule)
  fix x
  assume "canonical_handle h" and "x \<in> set h"
  then have "handle_char x" by (rule canonical_handle_ascii)
  then show "\<not> is_ascii_uppercase x" by (auto simp: handle_char_def ascii_defs)
qed

lemma decode_key_Inr:
  "decode_key c s = Inr k \<longleftrightarrow> hex_decode c s = Some k \<and> length k = KEY_BYTES"
  by (auto simp: decode_key_def split: option.splits)

lemma decode_signature_Inr:
  "decode_signature c s = Inr k \<longleftrightarrow> hex_decode c s = Some k \<and> length k = SIGNATURE_BYTES"
  by (auto simp: decode_signature_def split: option.splits)

lemma decode_key_encode: "hex_laws c \<Longrightarrow> length k = KEY_BYTES \<Longrightarrow> decode_key c (hex_encode c k) = Inr k"
  by (simp add: decode_key_Inr hex_laws_roundtrip)

lemma collect_key_Some:
  "collect_key n key bs = Some k \<longleftrightarrow> k = key @ bs \<and> (bs = [] \<or> n + length bs \<le> KEY_BYTES)"
proof (induction bs arbitrary: n key)
  case (Cons b bs)
  then show ?case by (cases bs) auto
qed auto

lemma verify_nostr_Inr:
  "verify_nostr c k m s = Inr u \<longleftrightarrow>
     schnorr_key_ok c k \<and> schnorr_sig_ok c s \<and> schnorr_verify c k m s"
  by (auto simp: verify_nostr_def)

end
