(* ===== verification/Server_Storage.thy ===== *)
theory Server_Storage
  imports Keys
begin

text \<open>
  The account database of the server (\<open>omachat-server/src/storage.rs\<close>). A table is the list of its
  rows; every SQL statement is written out as its effect on those lists together with the
  constraints of the schema it can violate (primary keys, the unique handle column, the unique
  index on bound keys, the foreign key). SQLite itself may fail: the argument \<open>eng\<close> tells for the
  k-th statement of an operation whether the engine executed it, and a caller of several
  operations hands each of them its own part of that sequence.
\<close>

section \<open>Rows and tables\<close>

record account_record =
  acc_id :: string
  acc_handle :: "string option"
  acc_display_name :: string
  acc_created_at :: u64

record account_row =
  a_id :: string
  a_handle :: "string option"
  a_display_name :: string
  a_created_at :: int
  a_nostr_pubkey :: "bytes option"

record device_row =
  d_public_key :: bytes
  d_account_id :: string
  d_created_at :: int
  d_last_seen :: int

record nonce_row =
  n_nonce :: bytes
  n_account_id :: string
  n_seen_at :: int

record db =
  schema :: "string list"
  meta :: "(string \<times> bytes) list"
  accounts :: "account_row list"
  devices :: "device_row list"
  nonces :: "nonce_row list"

datatype sqlite_error = ConstraintViolation | EngineFailure

text \<open>\<open>UnsupportedSchema\<close> carries the stored bytes that the code renders lossily as text.\<close>

datatype storage_error =
    Sqlite sqlite_error | UnsupportedSchema bytes | WrongKey | Random | Seal | Corrupt
  | NoSuchRecord | HandleIsTaken | HandleIsSet | PubkeyIsTaken | ProofIsReplayed

fun is_constraint :: "sqlite_error \<Rightarrow> bool" where
  "is_constraint ConstraintViolation \<longleftrightarrow> True"
| "is_constraint EngineFailure \<longleftrightarrow> False"

section \<open>Conversions\<close>

definition to_i64 :: "u64 \<Rightarrow> int" where
  "to_i64 v = (if uint v < 2 ^ 63 then uint v else 2 ^ 63 - 1)"

definition from_i64 :: "int \<Rightarrow> u64" where
  "from_i64 i = (if 0 \<le> i then word_of_int i else 0)"

definition fixed_key :: "bytes \<Rightarrow> storage_error + bytes" where
  "fixed_key bs = (if length bs = 32 then Inr bs else Inl Corrupt)"

definition row_account :: "account_row \<Rightarrow> account_record" where
  "row_account r =
     \<lparr>acc_id = a_id r, acc_handle = a_handle r, acc_display_name = a_display_name r,
      acc_created_at = from_i64 (a_created_at r)\<rparr>"

definition random_id :: "crates \<Rightarrow> bytes option \<Rightarrow> storage_error + string" where
  "random_id c random = (case random of None \<Rightarrow> Inl Random | Some bs \<Rightarrow> Inr (hex_encode c bs))"

section \<open>Statements\<close>

text \<open>A statement that reads: the first row of its result, if the engine delivers it.\<close>

definition query_row :: "bool \<Rightarrow> 'r list \<Rightarrow> storage_error + 'r option" where
  "query_row ok rows =
     (if ok then Inr (case rows of [] \<Rightarrow> None | r # _ \<Rightarrow> Some r) else Inl (Sqlite EngineFailure))"

abbreviation handles :: "account_row list \<Rightarrow> string list" where
  "handles rows \<equiv> List.map_filter a_handle rows"

abbreviation pubkeys :: "account_row list \<Rightarrow> bytes list" where
  "pubkeys rows \<equiv> List.map_filter a_nostr_pubkey rows"

text \<open>
  An update of the accounts table is checked against its primary key and its two unique columns,
  where NULL never conflicts; the result is the number of rows it changed.
\<close>

definition account_constraints :: "account_row list \<Rightarrow> bool" where
  "account_constraints rows \<longleftrightarrow>
     distinct (map a_id rows) \<and> distinct (handles rows) \<and> distinct (pubkeys rows)"

definition update_accounts ::
  "bool \<Rightarrow> (account_row \<Rightarrow> bool) \<Rightarrow> (account_row \<Rightarrow> account_row) \<Rightarrow> db
    \<Rightarrow> (sqlite_error + nat) \<times> db" where
  "update_accounts ok cond upd d =
     (let rows = map (\<lambda>r. if cond r then upd r else r) (accounts d) in
      if \<not> ok then (Inl EngineFailure, d)
      else if \<not> account_constraints rows then (Inl ConstraintViolation, d)
      else (Inr (length (filter cond (accounts d))), d\<lparr>accounts := rows\<rparr>))"

definition insert_account :: "bool \<Rightarrow> account_row \<Rightarrow> db \<Rightarrow> (sqlite_error + unit) \<times> db" where
  "insert_account ok r d =
     (if \<not> ok then (Inl EngineFailure, d)
      else if \<not> account_constraints (accounts d @ [r]) then (Inl ConstraintViolation, d)
      else (Inr (), d\<lparr>accounts := accounts d @ [r]\<rparr>))"

definition insert_device :: "bool \<Rightarrow> device_row \<Rightarrow> db \<Rightarrow> (sqlite_error + unit) \<times> db" where
  "insert_device ok r d =
     (if \<not> ok then (Inl EngineFailure, d)
      else if d_public_key r \<in> set (map d_public_key (devices d))
        \<or> d_account_id r \<notin> set (map a_id (accounts d)) then (Inl ConstraintViolation, d)
      else (Inr (), d\<lparr>devices := devices d @ [r]\<rparr>))"

definition insert_nonce :: "bool \<Rightarrow> nonce_row \<Rightarrow> db \<Rightarrow> (sqlite_error + unit) \<times> db" where
  "insert_nonce ok r d =
     (if \<not> ok then (Inl EngineFailure, d)
      else if n_nonce r \<in> set (map n_nonce (nonces d)) then (Inl ConstraintViolation, d)
      else (Inr (), d\<lparr>nonces := nonces d @ [r]\<rparr>))"

text \<open>\<open>rusqlite::Error\<close> becomes \<open>StorageError::Sqlite\<close> by \<open>?\<close>.\<close>

definition exec :: "(sqlite_error + 'a) \<times> db \<Rightarrow> (storage_error + 'a) \<times> db" where
  "exec r = (map_err Sqlite (fst r), snd r)"

section \<open>Operations\<close>

definition account_for_device ::
  "(nat \<Rightarrow> bool) \<Rightarrow> bytes \<Rightarrow> db \<Rightarrow> storage_error + account_record option" where
  "account_for_device eng device_public_key d =
     and_then (query_row (eng 0)
        (concat (map (\<lambda>dev. filter (\<lambda>a. a_id a = d_account_id dev) (accounts d))
                     (filter (\<lambda>dev. d_public_key dev = device_public_key) (devices d)))))
      (\<lambda>r. Inr (map_option row_account r))"

definition account :: "(nat \<Rightarrow> bool) \<Rightarrow> string \<Rightarrow> db \<Rightarrow> storage_error + account_record option" where
  "account eng account_id d =
     and_then (query_row (eng 0) (filter (\<lambda>a. a_id a = account_id) (accounts d)))
      (\<lambda>r. Inr (map_option row_account r))"

definition touch_device ::
  "(nat \<Rightarrow> bool) \<Rightarrow> bytes \<Rightarrow> u64 \<Rightarrow> db \<Rightarrow> (storage_error + unit) \<times> db" where
  "touch_device eng device_public_key now d =
     (if eng 0 then
        (Inr (), d\<lparr>devices := map (\<lambda>r. if d_public_key r = device_public_key
                                     then r\<lparr>d_last_seen := to_i64 now\<rparr> else r) (devices d)\<rparr>)
      else (Inl (Sqlite EngineFailure), d))"

text \<open>
  The two inserts run in a transaction: unless it commits, dropping it rolls the database back.
\<close>

definition create_account ::
  "crates \<Rightarrow> (nat \<Rightarrow> bool) \<Rightarrow> bytes option \<Rightarrow> bytes \<Rightarrow> string \<Rightarrow> u64 \<Rightarrow> db
    \<Rightarrow> (storage_error + account_record) \<times> db" where
  "create_account c eng random device_public_key display_name now d =
     (case random_id c random of
        Inl e \<Rightarrow> (Inl e, d)
      | Inr rid \<Rightarrow>
          if \<not> eng 0 then (Inl (Sqlite EngineFailure), d)
          else
            (case exec (insert_account (eng 1)
                \<lparr>a_id = rid, a_handle = None, a_display_name = display_name,
                 a_created_at = to_i64 now, a_nostr_pubkey = None\<rparr> d) of
               (Inl e, _) \<Rightarrow> (Inl e, d)
             | (Inr _, d1) \<Rightarrow>
                 (case exec (insert_device (eng 2)
                     \<lparr>d_public_key = device_public_key, d_account_id = rid,
                      d_created_at = to_i64 now, d_last_seen = to_i64 now\<rparr> d1) of
                    (Inl e, _) \<Rightarrow> (Inl e, d)
                  | (Inr _, d2) \<Rightarrow>
                      if eng 3 then
                        (Inr \<lparr>acc_id = rid, acc_handle = None, acc_display_name = display_name,
                              acc_created_at = now\<rparr>, d2)
                      else (Inl (Sqlite EngineFailure), d))))"

definition claim_handle ::
  "(nat \<Rightarrow> bool) \<Rightarrow> string \<Rightarrow> string \<Rightarrow> db \<Rightarrow> (storage_error + unit) \<times> db" where
  "claim_handle eng account_id handle d =
     (case query_row (eng 0) (map a_handle (filter (\<lambda>a. a_id a = account_id) (accounts d))) of
        Inl e \<Rightarrow> (Inl e, d)
      | Inr None \<Rightarrow> (Inl NoSuchRecord, d)
      | Inr (Some (Some _)) \<Rightarrow> (Inl HandleIsSet, d)
      | Inr (Some None) \<Rightarrow>
          (case update_accounts (eng 1) (\<lambda>a. a_id a = account_id \<and> a_handle a = None)
                  (\<lambda>a. a\<lparr>a_handle := Some handle\<rparr>) d of
             (Inr _, d') \<Rightarrow> (Inr (), d')
           | (Inl e, d') \<Rightarrow> (Inl (if is_constraint e then HandleIsTaken else Sqlite e), d')))"

definition resolve_handle ::
  "(nat \<Rightarrow> bool) \<Rightarrow> string \<Rightarrow> db \<Rightarrow> storage_error + account_record option" where
  "resolve_handle eng handle d =
     and_then (query_row (eng 0) (filter (\<lambda>a. a_handle a = Some handle) (accounts d)))
      (\<lambda>r. Inr (map_option row_account r))"

definition nostr_pubkey ::
  "(nat \<Rightarrow> bool) \<Rightarrow> string \<Rightarrow> db \<Rightarrow> storage_error + bytes option" where
  "nostr_pubkey eng account_id d =
     and_then (query_row (eng 0) (map a_nostr_pubkey (filter (\<lambda>a. a_id a = account_id) (accounts d))))
      (\<lambda>stored. case stored of
         None \<Rightarrow> Inl NoSuchRecord
       | Some None \<Rightarrow> Inr None
       | Some (Some bs) \<Rightarrow> and_then (fixed_key bs) (\<lambda>k. Inr (Some k)))"

definition bind_nostr ::
  "(nat \<Rightarrow> bool) \<Rightarrow> string \<Rightarrow> bytes \<Rightarrow> db \<Rightarrow> (storage_error + unit) \<times> db" where
  "bind_nostr eng account_id pubkey d =
     (case update_accounts (eng 0) (\<lambda>a. a_id a = account_id)
             (\<lambda>a. a\<lparr>a_nostr_pubkey := Some pubkey\<rparr>) d of
        (Inr n, d') \<Rightarrow> (if n = 0 then Inl NoSuchRecord else Inr (), d')
      | (Inl e, d') \<Rightarrow> (Inl (if is_constraint e then PubkeyIsTaken else Sqlite e), d'))"

definition unbind_nostr ::
  "(nat \<Rightarrow> bool) \<Rightarrow> string \<Rightarrow> db \<Rightarrow> (storage_error + bool) \<times> db" where
  "unbind_nostr eng account_id d =
     then_st (exec (update_accounts (eng 0) (\<lambda>a. a_id a = account_id \<and> a_nostr_pubkey a \<noteq> None)
               (\<lambda>a. a\<lparr>a_nostr_pubkey := None\<rparr>) d))
      (\<lambda>changed d'.
         (and_then (account (\<lambda>k. eng (k + 1)) account_id d')
           (\<lambda>r. case r of None \<Rightarrow> Inl NoSuchRecord | Some _ \<Rightarrow> Inr (changed = 1)), d'))"

definition nostr_for_handle ::
  "(nat \<Rightarrow> bool) \<Rightarrow> string \<Rightarrow> db \<Rightarrow> storage_error + bytes option" where
  "nostr_for_handle eng handle d =
     and_then (query_row (eng 0)
        (map a_nostr_pubkey (filter (\<lambda>a. a_handle a = Some handle) (accounts d))))
      (\<lambda>stored. case stored of
         None \<Rightarrow> Inr None
       | Some None \<Rightarrow> Inr None
       | Some (Some bs) \<Rightarrow> and_then (fixed_key bs) (\<lambda>k. Inr (Some k)))"

definition remember_proof_nonce ::
  "(nat \<Rightarrow> bool) \<Rightarrow> bytes \<Rightarrow> string \<Rightarrow> u64 \<Rightarrow> u64 \<Rightarrow> db \<Rightarrow> (storage_error + unit) \<times> db" where
  "remember_proof_nonce eng nonce account_id now skew_seconds d =
     (let oldest = saturating_sub now skew_seconds in
      if \<not> eng 0 then (Inl (Sqlite EngineFailure), d)
      else
        let d1 = d\<lparr>nonces := filter (\<lambda>r. \<not> n_seen_at r < to_i64 oldest) (nonces d)\<rparr> in
        case insert_nonce (eng 1)
               \<lparr>n_nonce = nonce, n_account_id = account_id, n_seen_at = to_i64 now\<rparr> d1 of
          (Inr _, d') \<Rightarrow> (Inr (), d')
        | (Inl e, d') \<Rightarrow> (Inl (if is_constraint e then ProofIsReplayed else Sqlite e), d'))"

section \<open>Opening the database\<close>

text \<open>
  \<open>schema\<close> lists the tables, added columns and indexes that exist. \<open>execute_batch\<close> runs its
  statements one by one, outside a transaction, and stops at the first that fails.
\<close>

definition SCHEMA_VERSION :: string where "SCHEMA_VERSION = ''3''"
definition NONCE_BYTES :: nat where "NONCE_BYTES = 24"
definition KEY_CHECK_PLAINTEXT :: bytes where
  "KEY_CHECK_PLAINTEXT = as_bytes ''omachat-server storage key check''"

fun execute_batch ::
  "(nat \<Rightarrow> bool) \<Rightarrow> (bool \<Rightarrow> db \<Rightarrow> (sqlite_error + unit) \<times> db) list \<Rightarrow> db
    \<Rightarrow> (storage_error + unit) \<times> db" where
  "execute_batch eng [] d = (Inr (), d)"
| "execute_batch eng (st # sts) d =
    then_st (exec (st (eng 0) d)) (\<lambda>_ d'. execute_batch (\<lambda>k. eng (k + 1)) sts d')"

definition create_table_if_not_exists :: "string \<Rightarrow> bool \<Rightarrow> db \<Rightarrow> (sqlite_error + unit) \<times> db" where
  "create_table_if_not_exists name ok d =
     (if \<not> ok then (Inl EngineFailure, d)
      else (Inr (), if name \<in> set (schema d) then d else d\<lparr>schema := schema d @ [name]\<rparr>))"

text \<open>\<open>ALTER TABLE ... ADD COLUMN\<close> fails when the table already has the column.\<close>

definition add_nostr_column :: "bool \<Rightarrow> db \<Rightarrow> (sqlite_error + unit) \<times> db" where
  "add_nostr_column ok d =
     (if \<not> ok \<or> ''accounts.nostr_pubkey'' \<in> set (schema d) then (Inl EngineFailure, d)
      else (Inr (), d\<lparr>schema := schema d @ [''accounts.nostr_pubkey'']\<rparr>))"

definition create_pubkey_index :: "bool \<Rightarrow> db \<Rightarrow> (sqlite_error + unit) \<times> db" where
  "create_pubkey_index ok d =
     (if \<not> ok then (Inl EngineFailure, d)
      else if ''accounts_nostr_pubkey'' \<in> set (schema d) then (Inr (), d)
      else if \<not> distinct (pubkeys (accounts d)) then (Inl ConstraintViolation, d)
      else (Inr (), d\<lparr>schema := schema d @ [''accounts_nostr_pubkey'']\<rparr>))"

definition set_meta :: "bool \<Rightarrow> string \<Rightarrow> bytes \<Rightarrow> db \<Rightarrow> (sqlite_error + unit) \<times> db" where
  "set_meta ok k v d =
     (if ok then (Inr (), d\<lparr>meta := (k, v) # filter (\<lambda>kv. fst kv \<noteq> k) (meta d)\<rparr>)
      else (Inl EngineFailure, d))"

definition meta_values :: "string \<Rightarrow> db \<Rightarrow> bytes list" where
  "meta_values k d = map snd (filter (\<lambda>kv. fst kv = k) (meta d))"

definition base_tables :: "(bool \<Rightarrow> db \<Rightarrow> (sqlite_error + unit) \<times> db) list" where
  "base_tables = map create_table_if_not_exists [''meta'', ''accounts'', ''devices'']"

definition nostr_upgrade :: "(bool \<Rightarrow> db \<Rightarrow> (sqlite_error + unit) \<times> db) list" where
  "nostr_upgrade =
     [add_nostr_column, create_pubkey_index, create_table_if_not_exists ''nostr_proof_nonces'']"

definition migrate :: "(nat \<Rightarrow> bool) \<Rightarrow> db \<Rightarrow> (storage_error + unit) \<times> db" where
  "migrate eng d =
     then_st (execute_batch eng base_tables d) (\<lambda>_ d.
       case query_row (eng 3) (meta_values ''schema_version'' d) of
         Inl e \<Rightarrow> (Inl e, d)
       | Inr version \<Rightarrow>
           if version = None \<or> version = Some (as_bytes ''2'') then
             then_st (execute_batch (\<lambda>k. eng (k + 4)) nostr_upgrade d) (\<lambda>_ d.
               exec (set_meta (eng 7) ''schema_version'' (as_bytes SCHEMA_VERSION) d))
           else if version = Some (as_bytes SCHEMA_VERSION) then (Inr (), d)
           else if version = Some (as_bytes ''1'') then
             (Inl (UnsupportedSchema (as_bytes
               ''1 (hosted chat database; run that product from the hosted-archive branch)'')), d)
           else (Inl (UnsupportedSchema (the version)), d))"

definition seal_with ::
  "crates \<Rightarrow> bytes option \<Rightarrow> bytes \<Rightarrow> bytes \<Rightarrow> bytes \<Rightarrow> storage_error + bytes" where
  "seal_with c random key associated plaintext =
     (case random of
        None \<Rightarrow> Inl Random
      | Some nonce \<Rightarrow>
          (case xchacha_encrypt c key nonce associated plaintext of
             None \<Rightarrow> Inl Seal | Some ciphertext \<Rightarrow> Inr (nonce @ ciphertext)))"

definition open_sealed :: "crates \<Rightarrow> bytes \<Rightarrow> bytes \<Rightarrow> bytes \<Rightarrow> storage_error + bytes" where
  "open_sealed c key associated sealed =
     (if length sealed < NONCE_BYTES + 16 then Inl Corrupt
      else case xchacha_decrypt c key (take NONCE_BYTES sealed) associated (drop NONCE_BYTES sealed) of
        None \<Rightarrow> Inl Corrupt | Some m \<Rightarrow> Inr m)"

text \<open>\<open>INSERT INTO meta\<close> of the key check: its key is absent when the statement runs.\<close>

definition verify_key ::
  "crates \<Rightarrow> (nat \<Rightarrow> bool) \<Rightarrow> bytes option \<Rightarrow> bytes \<Rightarrow> db \<Rightarrow> (storage_error + unit) \<times> db" where
  "verify_key c eng random key d =
     (case query_row (eng 0) (meta_values ''key_check'' d) of
        Inl e \<Rightarrow> (Inl e, d)
      | Inr None \<Rightarrow>
          (case seal_with c random key (as_bytes ''key_check'') KEY_CHECK_PLAINTEXT of
             Inl e \<Rightarrow> (Inl e, d)
           | Inr sealed \<Rightarrow> exec (set_meta (eng 1) ''key_check'' sealed d))
      | Inr (Some sealed) \<Rightarrow>
          (case open_sealed c key (as_bytes ''key_check'') sealed of
             Inl _ \<Rightarrow> (Inl WrongKey, d)
           | Inr opened \<Rightarrow>
               (if opened = KEY_CHECK_PLAINTEXT then Inr () else Inl WrongKey, d)))"

text \<open>
  \<open>Storage::open\<close>: connecting, restricting the file mode and the PRAGMA batch take the first three
  places of \<open>eng\<close>, the migration the next eight.
\<close>

definition open_storage ::
  "crates \<Rightarrow> (nat \<Rightarrow> bool) \<Rightarrow> bytes option \<Rightarrow> bytes \<Rightarrow> db \<Rightarrow> (storage_error + unit) \<times> db" where
  "open_storage c eng random key d =
     (if \<not> eng 0 \<or> \<not> eng 1 \<or> \<not> eng 2 then (Inl (Sqlite EngineFailure), d)
      else then_st (migrate (\<lambda>k. eng (k + 3)) d)
             (\<lambda>_ d'. verify_key c (\<lambda>k. eng (k + 11)) random key d'))"

definition empty_db :: db where
  "empty_db = \<lparr>schema = [], meta = [], accounts = [], devices = [], nonces = []\<rparr>"

section \<open>Invariant\<close>

text \<open>
  The schema's constraints hold, every device belongs to an account, and bound keys have the
  32 bytes that \<open>fixed_key\<close> expects.
\<close>

definition storage_inv :: "db \<Rightarrow> bool" where
  "storage_inv d \<longleftrightarrow>
     account_constraints (accounts d)
     \<and> distinct (map d_public_key (devices d))
     \<and> set (map d_account_id (devices d)) \<subseteq> set (map a_id (accounts d))
     \<and> distinct (map n_nonce (nonces d))
     \<and> list_all (\<lambda>k. length k = 32) (pubkeys (accounts d))"

lemma exec_simps [simp]: "fst (exec r) = map_err Sqlite (fst r)" "snd (exec r) = snd r"
  by (simp_all add: exec_def)

lemma storage_inv_empty: "storage_inv empty_db"
  by (simp add: storage_inv_def empty_db_def account_constraints_def)

lemma storage_inv_meta [simp]: "storage_inv (d\<lparr>meta := m\<rparr>) = storage_inv d"
  by (simp add: storage_inv_def)

lemma storage_inv_schema [simp]: "storage_inv (d\<lparr>schema := m\<rparr>) = storage_inv d"
  by (simp add: storage_inv_def)

lemma distinct_accounts: "storage_inv d \<Longrightarrow> distinct (accounts d)"
  by (simp add: storage_inv_def account_constraints_def distinct_map)

lemma handle_row_unique:
  "storage_inv d \<Longrightarrow> r \<in> set (accounts d) \<Longrightarrow> r' \<in> set (accounts d) \<Longrightarrow>
     a_handle r = Some h \<Longrightarrow> a_handle r' = Some h \<Longrightarrow> r = r'"
  using map_filter_distinct_eq [OF _ distinct_accounts, of a_handle d r r' h]
  by (simp add: storage_inv_def account_constraints_def)

lemma pubkey_row_unique:
  "storage_inv d \<Longrightarrow> r \<in> set (accounts d) \<Longrightarrow> r' \<in> set (accounts d) \<Longrightarrow>
     a_nostr_pubkey r = Some k \<Longrightarrow> a_nostr_pubkey r' = Some k \<Longrightarrow> r = r'"
  using map_filter_distinct_eq [OF _ distinct_accounts, of a_nostr_pubkey d r r' k]
  by (simp add: storage_inv_def account_constraints_def)

section \<open>Lookups\<close>

definition row_of :: "string \<Rightarrow> db \<Rightarrow> account_row option" where
  "row_of aid d = find (\<lambda>a. a_id a = aid) (accounts d)"

definition row_with_handle :: "string \<Rightarrow> db \<Rightarrow> account_row option" where
  "row_with_handle h d = find (\<lambda>a. a_handle a = Some h) (accounts d)"

text \<open>What the rest of the server sees of an account: who owns a handle, which key is bound.\<close>

definition owner :: "db \<Rightarrow> string \<Rightarrow> string option" where
  "owner d h = map_option a_id (row_with_handle h d)"

definition binding :: "db \<Rightarrow> string \<Rightarrow> bytes option" where
  "binding d aid = Option.bind (row_of aid d) a_nostr_pubkey"

lemma query_row_filter:
  "query_row ok (filter P xs) = (if ok then Inr (find P xs) else Inl (Sqlite EngineFailure))"
  by (induction xs) (auto simp: query_row_def)

lemma query_row_map_filter:
  "query_row ok (map f (filter P xs)) =
     (if ok then Inr (map_option f (find P xs)) else Inl (Sqlite EngineFailure))"
  by (induction xs) (auto simp: query_row_def)

lemma account_eq:
  "account eng aid d =
     (if eng 0 then Inr (map_option row_account (row_of aid d)) else Inl (Sqlite EngineFailure))"
  by (simp add: account_def query_row_filter row_of_def)

lemma resolve_handle_eq:
  "resolve_handle eng h d =
     (if eng 0 then Inr (map_option row_account (row_with_handle h d))
      else Inl (Sqlite EngineFailure))"
  by (simp add: resolve_handle_def query_row_filter row_with_handle_def)

lemma row_of_iff:
  "storage_inv d \<Longrightarrow> row_of aid d = Some r \<longleftrightarrow> r \<in> set (accounts d) \<and> a_id r = aid"
  by (auto simp: row_of_def storage_inv_def account_constraints_def find_distinct_key
      dest: find_Some_set)

lemma row_with_handle_iff:
  assumes "storage_inv d"
  shows "row_with_handle h d = Some r \<longleftrightarrow> r \<in> set (accounts d) \<and> a_handle r = Some h"
proof
  assume r: "r \<in> set (accounts d) \<and> a_handle r = Some h"
  then obtain r' where r': "row_with_handle h d = Some r'"
    by (cases "row_with_handle h d") (auto simp: row_with_handle_def find_None_set)
  then have "r' \<in> set (accounts d) \<and> a_handle r' = Some h"
    by (auto simp: row_with_handle_def dest: find_Some_set)
  with r have "r' = r" using handle_row_unique [OF assms] by blast
  with r' show "row_with_handle h d = Some r" by simp
qed (auto simp: row_with_handle_def dest: find_Some_set)

lemma owner_iff:
  "storage_inv d \<Longrightarrow>
     owner d h = Some aid \<longleftrightarrow> (\<exists>r. r \<in> set (accounts d) \<and> a_id r = aid \<and> a_handle r = Some h)"
  by (auto simp: owner_def row_with_handle_iff)

lemma binding_iff:
  "storage_inv d \<Longrightarrow>
     binding d aid = Some k \<longleftrightarrow>
       (\<exists>r. r \<in> set (accounts d) \<and> a_id r = aid \<and> a_nostr_pubkey r = Some k)"
  by (auto simp: binding_def row_of_iff bind_eq_Some_conv)

lemma storage_inv_key_length:
  "storage_inv d \<Longrightarrow> r \<in> set (accounts d) \<Longrightarrow> a_nostr_pubkey r = Some k \<Longrightarrow> length k = 32"
  by (auto simp: storage_inv_def list_all_iff)

lemma nostr_pubkey_eq:
  assumes "storage_inv d"
  shows "nostr_pubkey eng aid d =
     (if \<not> eng 0 then Inl (Sqlite EngineFailure)
      else if row_of aid d = None then Inl NoSuchRecord else Inr (binding d aid))"
proof (cases "row_of aid d")
  case None
  then show ?thesis
    by (simp add: nostr_pubkey_def query_row_map_filter row_of_def)
next
  case (Some r)
  with assms have "\<And>k. a_nostr_pubkey r = Some k \<Longrightarrow> length k = 32"
    by (metis row_of_iff storage_inv_key_length)
  with Some show ?thesis
    by (cases "a_nostr_pubkey r")
      (auto simp: nostr_pubkey_def query_row_map_filter row_of_def binding_def fixed_key_def)
qed

lemma nostr_for_handle_eq:
  assumes "storage_inv d"
  shows "nostr_for_handle eng h d =
     (if eng 0 then Inr (Option.bind (owner d h) (binding d)) else Inl (Sqlite EngineFailure))"
proof (cases "row_with_handle h d")
  case None
  then show ?thesis
    by (simp add: nostr_for_handle_def query_row_map_filter owner_def row_with_handle_def)
next
  case (Some r)
  with assms have r: "r \<in> set (accounts d)" by (simp add: row_with_handle_iff)
  with assms have b: "binding d (a_id r) = a_nostr_pubkey r"
    by (metis binding_def bind.bind_lunit row_of_iff)
  have "\<And>k. a_nostr_pubkey r = Some k \<Longrightarrow> length k = 32"
    by (rule storage_inv_key_length [OF assms r])
  with Some b show ?thesis
    by (cases "a_nostr_pubkey r")
      (auto simp: nostr_for_handle_def query_row_map_filter row_with_handle_def owner_def
        fixed_key_def)
qed

section \<open>Every operation keeps the invariant\<close>

lemma storage_inv_accounts:
  assumes "storage_inv d" and "account_constraints rows" and "map a_id rows = map a_id (accounts d)"
    and "\<And>r k. r \<in> set rows \<Longrightarrow> a_nostr_pubkey r = Some k \<Longrightarrow> length k = 32"
  shows "storage_inv (d\<lparr>accounts := rows\<rparr>)"
proof -
  have "a_id ` set rows = a_id ` set (accounts d)" using assms(3) by (metis set_map)
  then show ?thesis using assms by (auto simp: storage_inv_def list_all_iff)
qed

lemma update_accounts_inv:
  assumes "storage_inv d" and "\<And>r. a_id (upd r) = a_id r"
    and "\<And>r k. r \<in> set (accounts d) \<Longrightarrow> cond r \<Longrightarrow> a_nostr_pubkey (upd r) = Some k \<Longrightarrow> length k = 32"
  shows "storage_inv (snd (update_accounts ok cond upd d))"
proof -
  let ?rows = "map (\<lambda>r. if cond r then upd r else r) (accounts d)"
  have "storage_inv (d\<lparr>accounts := ?rows\<rparr>)" if "account_constraints ?rows"
  proof (rule storage_inv_accounts [OF assms(1) that])
    show "map a_id ?rows = map a_id (accounts d)" using assms(2) by auto
    show "length k = 32" if "r \<in> set ?rows" "a_nostr_pubkey r = Some k" for r k
      using that assms(3) storage_inv_key_length [OF assms(1)] by (auto split: if_splits)
  qed
  with assms(1) show ?thesis by (simp add: update_accounts_def Let_def)
qed

lemma storage_inv_devices:
  assumes "storage_inv d" and "map d_public_key rows = map d_public_key (devices d)"
    and "map d_account_id rows = map d_account_id (devices d)"
  shows "storage_inv (d\<lparr>devices := rows\<rparr>)"
proof -
  have "d_account_id ` set rows = d_account_id ` set (devices d)" using assms(3) by (metis set_map)
  then show ?thesis using assms by (simp add: storage_inv_def)
qed

lemma touch_device_inv: "storage_inv d \<Longrightarrow> storage_inv (snd (touch_device eng k now d))"
  by (auto simp: touch_device_def intro!: storage_inv_devices)

lemma create_account_inv:
  "storage_inv d \<Longrightarrow> storage_inv (snd (create_account c eng random k name now d))"
  by (auto simp: create_account_def insert_account_def insert_device_def exec_def storage_inv_def
      split: sum.splits if_splits)

lemma claim_handle_state:
  "snd (claim_handle eng aid h d) = d
   \<or> snd (claim_handle eng aid h d) =
       snd (update_accounts (eng 1) (\<lambda>a. a_id a = aid \<and> a_handle a = None)
              (\<lambda>a. a\<lparr>a_handle := Some h\<rparr>) d)"
  by (auto simp: claim_handle_def split: sum.splits option.splits prod.splits)

lemma bind_nostr_state:
  "snd (bind_nostr eng aid k d) =
     snd (update_accounts (eng 0) (\<lambda>a. a_id a = aid) (\<lambda>a. a\<lparr>a_nostr_pubkey := Some k\<rparr>) d)"
  by (auto simp: bind_nostr_def split: sum.splits prod.splits)

lemma unbind_nostr_state:
  "snd (unbind_nostr eng aid d) =
     snd (update_accounts (eng 0) (\<lambda>a. a_id a = aid \<and> a_nostr_pubkey a \<noteq> None)
            (\<lambda>a. a\<lparr>a_nostr_pubkey := None\<rparr>) d)"
  by (auto simp: unbind_nostr_def then_st_def exec_def split: sum.splits prod.splits)

lemma claim_handle_inv:
  assumes "storage_inv d"
  shows "storage_inv (snd (claim_handle eng aid h d))"
proof -
  have "storage_inv (snd (update_accounts (eng 1) (\<lambda>a. a_id a = aid \<and> a_handle a = None)
      (\<lambda>a. a\<lparr>a_handle := Some h\<rparr>) d))"
    by (rule update_accounts_inv [OF assms]) (auto dest: storage_inv_key_length [OF assms])
  with claim_handle_state [of eng aid h d] assms show ?thesis by (elim disjE) simp_all
qed

lemma bind_nostr_inv:
  "storage_inv d \<Longrightarrow> length k = 32 \<Longrightarrow> storage_inv (snd (bind_nostr eng aid k d))"
  unfolding bind_nostr_state by (rule update_accounts_inv) auto

lemma unbind_nostr_inv: "storage_inv d \<Longrightarrow> storage_inv (snd (unbind_nostr eng aid d))"
  unfolding unbind_nostr_state by (rule update_accounts_inv) auto

lemma remember_proof_nonce_inv:
  "storage_inv d \<Longrightarrow> storage_inv (snd (remember_proof_nonce eng nonce aid now skew d))"
  by (auto simp: remember_proof_nonce_def insert_nonce_def storage_inv_def Let_def
      distinct_map_filter split: sum.splits prod.splits)

lemmas storage_ops_inv = touch_device_inv create_account_inv claim_handle_inv bind_nostr_inv
  unbind_nostr_inv remember_proof_nonce_inv

section \<open>What the operations leave alone\<close>

lemma update_accounts_rows:
  "accounts (snd (update_accounts ok cond upd d)) = accounts d
   \<or> accounts (snd (update_accounts ok cond upd d)) =
       map (\<lambda>r. if cond r then upd r else r) (accounts d)"
  by (simp add: update_accounts_def Let_def)

lemma owner_cong:
  assumes "map (\<lambda>r. (a_id r, a_handle r)) (accounts d') = map (\<lambda>r. (a_id r, a_handle r)) (accounts d)"
  shows "owner d' h = owner d h"
proof -
  have "map_option a_id (find (\<lambda>a. a_handle a = Some h) xs)
      = map_option fst (find (\<lambda>p. snd p = Some h) (map (\<lambda>r. (a_id r, a_handle r)) xs))"
    for xs :: "account_row list"
    by (induction xs) auto
  with assms show ?thesis by (simp add: owner_def row_with_handle_def)
qed

lemma binding_cong:
  assumes "map (\<lambda>r. (a_id r, a_nostr_pubkey r)) (accounts d')
    = map (\<lambda>r. (a_id r, a_nostr_pubkey r)) (accounts d)"
  shows "binding d' aid = binding d aid"
proof -
  have "Option.bind (find (\<lambda>a. a_id a = aid) xs) a_nostr_pubkey
      = Option.bind (find (\<lambda>p. fst p = aid) (map (\<lambda>r. (a_id r, a_nostr_pubkey r)) xs)) snd"
    for xs :: "account_row list"
    by (induction xs) auto
  with assms show ?thesis by (simp add: binding_def row_of_def)
qed

lemma owner_touch_device [simp]: "owner (snd (touch_device eng k now d)) h = owner d h"
  by (rule owner_cong) (simp add: touch_device_def)

lemma binding_touch_device [simp]: "binding (snd (touch_device eng k now d)) aid = binding d aid"
  by (rule binding_cong) (simp add: touch_device_def)

lemma accounts_remember_nonce [simp]:
  "accounts (snd (remember_proof_nonce eng nonce aid now skew d)) = accounts d"
  by (auto simp: remember_proof_nonce_def insert_nonce_def Let_def)

lemma owner_remember_nonce [simp]:
  "owner (snd (remember_proof_nonce eng nonce aid now skew d)) h = owner d h"
  by (rule owner_cong) simp

lemma binding_remember_nonce [simp]:
  "binding (snd (remember_proof_nonce eng nonce aid now skew d)) a = binding d a"
  by (rule binding_cong) simp

lemma owner_bind_nostr [simp]: "owner (snd (bind_nostr eng aid k d)) h = owner d h"
  unfolding bind_nostr_state
  using update_accounts_rows [of "eng 0" "\<lambda>a. a_id a = aid" "\<lambda>a. a\<lparr>a_nostr_pubkey := Some k\<rparr>" d]
  by (intro owner_cong) auto

lemma owner_unbind_nostr [simp]: "owner (snd (unbind_nostr eng aid d)) h = owner d h"
  unfolding unbind_nostr_state
  using update_accounts_rows [of "eng 0" "\<lambda>a. a_id a = aid \<and> a_nostr_pubkey a \<noteq> None"
      "\<lambda>a. a\<lparr>a_nostr_pubkey := None\<rparr>" d]
  by (intro owner_cong) auto

lemma binding_claim_handle [simp]: "binding (snd (claim_handle eng aid h d)) a = binding d a"
  using update_accounts_rows [of "eng 1" "\<lambda>a. a_id a = aid \<and> a_handle a = None"
      "\<lambda>a. a\<lparr>a_handle := Some h\<rparr>" d] claim_handle_state [of eng aid h d]
  by (intro binding_cong) auto

text \<open>A new account has neither a handle nor a key, and its identifier is new.\<close>

lemma create_account_rows:
  "create_account c eng random k name now d = (r, d') \<Longrightarrow>
     accounts d' = accounts d \<and> d' = d \<and> isl r
     \<or> (\<exists>rid. r = Inr \<lparr>acc_id = rid, acc_handle = None, acc_display_name = name, acc_created_at = now\<rparr>
          \<and> rid \<notin> set (map a_id (accounts d))
          \<and> k \<notin> set (map d_public_key (devices d))
          \<and> accounts d' = accounts d @ [\<lparr>a_id = rid, a_handle = None, a_display_name = name,
              a_created_at = to_i64 now, a_nostr_pubkey = None\<rparr>]
          \<and> devices d' = devices d @ [\<lparr>d_public_key = k, d_account_id = rid,
              d_created_at = to_i64 now, d_last_seen = to_i64 now\<rparr>])"
  by (auto simp: create_account_def insert_account_def insert_device_def exec_def
      account_constraints_def split: sum.splits if_splits)

lemma find_snoc_other: "\<not> P x \<Longrightarrow> find P (xs @ [x]) = find P xs"
  by (induction xs) auto

lemma owner_create_account [simp]:
  "owner (snd (create_account c eng random k name now d)) h = owner d h"
  using create_account_rows [of c eng random k name now d]
  by (cases "create_account c eng random k name now d")
    (auto simp: owner_def row_with_handle_def find_snoc_other)

lemma binding_create_account [simp]:
  "binding (snd (create_account c eng random k name now d)) a = binding d a"
proof -
  have "Option.bind (find (\<lambda>a'. a_id a' = a) (xs @ [x])) a_nostr_pubkey
      = Option.bind (find (\<lambda>a'. a_id a' = a) xs) a_nostr_pubkey"
    if "a_nostr_pubkey x = None" for xs and x :: account_row
    using that by (induction xs) auto
  then show ?thesis
    using create_account_rows [of c eng random k name now d]
    by (cases "create_account c eng random k name now d") (auto simp: binding_def row_of_def)
qed

text \<open>A claim only adds an owner for a handle that had none.\<close>

lemma owner_claim_handle:
  assumes "storage_inv d" and "owner d h' = Some a"
  shows "owner (snd (claim_handle eng aid h d)) h' = Some a"
proof -
  have inv: "storage_inv (snd (claim_handle eng aid h d))"
    using assms(1) by (rule claim_handle_inv)
  from assms obtain r where r: "r \<in> set (accounts d)" "a_id r = a" "a_handle r = Some h'"
    by (auto simp: owner_iff)
  have "r \<in> set (accounts (snd (claim_handle eng aid h d)))"
    using r update_accounts_rows [of "eng 1" "\<lambda>a. a_id a = aid \<and> a_handle a = None"
        "\<lambda>a. a\<lparr>a_handle := Some h\<rparr>" d] claim_handle_state [of eng aid h d]
    by force
  with r inv show ?thesis by (auto simp: owner_iff)
qed

lemma claim_handle_ok:
  assumes "storage_inv d" and "claim_handle eng aid h d = (Inr u, d')"
  shows "owner d' h = Some aid" and "owner d h = None"
    and "\<exists>r. row_of aid d = Some r \<and> a_handle r = None"
proof -
  from assms(2) obtain r where r: "row_of aid d = Some r" "a_handle r = None"
    and upd: "accounts d' = map (\<lambda>r. if a_id r = aid \<and> a_handle r = None
        then r\<lparr>a_handle := Some h\<rparr> else r) (accounts d)"
    by (auto simp: claim_handle_def query_row_map_filter row_of_def update_accounts_def Let_def
        split: sum.splits option.splits if_splits)
  show "\<exists>r. row_of aid d = Some r \<and> a_handle r = None" using r by blast
  have inv: "storage_inv d'" using claim_handle_inv [OF assms(1), of eng aid h] assms(2) by simp
  from r assms(1) have "r \<in> set (accounts d)" "a_id r = aid" by (simp_all add: row_of_iff)
  with r have new: "r\<lparr>a_handle := Some h\<rparr> \<in> set (accounts d')" by (force simp: upd)
  with inv \<open>a_id r = aid\<close> show own: "owner d' h = Some aid" by (force simp: owner_iff)
  show "owner d h = None"
  proof (rule ccontr)
    assume "owner d h \<noteq> None"
    then obtain a where a: "owner d h = Some a" by auto
    then have "owner d' h = Some a"
      using owner_claim_handle [OF assms(1) a, of eng aid h] assms(2) by simp
    with own have "a = aid" by simp
    with a assms(1) have "\<exists>r'. row_of aid d = Some r' \<and> a_handle r' = Some h"
      by (auto simp: owner_iff row_of_iff)
    with r show False by simp
  qed
qed

section \<open>What the operations change\<close>

definition device_account :: "db \<Rightarrow> bytes \<Rightarrow> string option" where
  "device_account d k = map_option d_account_id (find (\<lambda>r. d_public_key r = k) (devices d))"

lemma claim_handle_owner:
  assumes "storage_inv d" and "claim_handle eng aid h d = (Inr u, d')"
  shows "owner d' = (owner d)(h \<mapsto> aid)"
proof
  fix h'
  have inv: "storage_inv d'" using claim_handle_inv [OF assms(1), of eng aid h] assms(2) by simp
  have rows: "accounts d' = accounts d \<or> accounts d' = map (\<lambda>r. if a_id r = aid \<and> a_handle r = None
      then r\<lparr>a_handle := Some h\<rparr> else r) (accounts d)"
    using update_accounts_rows [of "eng 1" "\<lambda>a. a_id a = aid \<and> a_handle a = None"
        "\<lambda>a. a\<lparr>a_handle := Some h\<rparr>" d] claim_handle_state [of eng aid h d] assms(2) by auto
  show "owner d' h' = ((owner d)(h \<mapsto> aid)) h'"
  proof (cases "h' = h")
    case True
    then show ?thesis using claim_handle_ok(1) [OF assms] by simp
  next
    case False
    have "owner d h' = Some a" if "owner d' h' = Some a" for a
      using that rows False inv assms(1) by (auto simp: owner_iff split: if_splits)
    moreover have "owner d' h' = Some a" if "owner d h' = Some a" for a
      using owner_claim_handle [OF assms(1) that, of eng aid h] assms(2) by simp
    ultimately have "owner d' h' = owner d h'" by (metis option.exhaust)
    with False show ?thesis by simp
  qed
qed

lemma claim_handle_failed: "claim_handle eng aid h d = (Inl e, d') \<Longrightarrow> d' = d"
  by (auto simp: claim_handle_def update_accounts_def Let_def
      split: sum.splits option.splits if_splits)

lemma bind_nostr_failed: "bind_nostr eng aid k d = (Inl e, d') \<Longrightarrow> accounts d' = accounts d"
  by (auto simp: bind_nostr_def update_accounts_def Let_def filter_empty_conv map_idI
      split: if_splits)

lemma binding_bind_nostr:
  assumes "storage_inv d" and "length k = 32" and "bind_nostr eng aid k d = (Inr u, d')"
  shows "binding d' = (binding d)(aid \<mapsto> k)" and "\<And>a. binding d a = Some k \<Longrightarrow> a = aid"
    and "row_of aid d \<noteq> None"
proof -
  let ?upd = "\<lambda>r. if a_id r = aid then r\<lparr>a_nostr_pubkey := Some k\<rparr> else r"
  from assms(3) have rows: "accounts d' = map ?upd (accounts d)"
    and ex: "filter (\<lambda>a. a_id a = aid) (accounts d) \<noteq> []"
    by (auto simp: bind_nostr_def update_accounts_def Let_def split: if_splits)
  have find: "find (\<lambda>a. a_id a = b) (map ?upd xs) = map_option ?upd (find (\<lambda>a. a_id a = b) xs)"
    for b and xs :: "account_row list"
    by (induction xs) auto
  from ex obtain r where r: "row_of aid d = Some r" "a_id r = aid"
    by (cases "row_of aid d") (auto simp: row_of_def find_None_set filter_empty_conv dest: find_Some_set)
  then show "row_of aid d \<noteq> None" by simp
  show upd: "binding d' = (binding d)(aid \<mapsto> k)"
  proof
    fix b
    have "row_of b d' = map_option ?upd (row_of b d)" by (simp add: row_of_def rows find)
    then show "binding d' b = ((binding d)(aid \<mapsto> k)) b"
      using r by (cases "row_of b d") (auto simp: binding_def row_of_def dest: find_Some_set)
  qed
  have inv: "storage_inv d'" using bind_nostr_inv [OF assms(1,2), of eng aid] assms(3) by simp
  show "a = aid" if "binding d a = Some k" for a
  proof (rule ccontr)
    assume "a \<noteq> aid"
    with that upd have "binding d' a = Some k" "binding d' aid = Some k" by auto
    then obtain r1 r2 where "r1 \<in> set (accounts d')" "a_id r1 = a" "a_nostr_pubkey r1 = Some k"
      "r2 \<in> set (accounts d')" "a_id r2 = aid" "a_nostr_pubkey r2 = Some k"
      using inv by (auto simp: binding_iff)
    then have "r1 = r2" using pubkey_row_unique [OF inv] by blast
    with \<open>a \<noteq> aid\<close> \<open>a_id r1 = a\<close> \<open>a_id r2 = aid\<close> show False by simp
  qed
qed

lemma binding_unbind_nostr:
  "binding (snd (unbind_nostr eng aid d)) = binding d
   \<or> binding (snd (unbind_nostr eng aid d)) = (binding d)(aid := None)"
proof -
  let ?upd = "\<lambda>r. if a_id r = aid \<and> a_nostr_pubkey r \<noteq> None then r\<lparr>a_nostr_pubkey := None\<rparr> else r"
  have find: "Option.bind (find (\<lambda>a. a_id a = b) (map ?upd xs)) a_nostr_pubkey
      = ((\<lambda>b. Option.bind (find (\<lambda>a. a_id a = b) xs) a_nostr_pubkey)(aid := None)) b"
    for b and xs :: "account_row list"
    by (induction xs) auto
  have "binding d' = (binding d)(aid := None)" if "accounts d' = map ?upd (accounts d)" for d'
    unfolding binding_def row_of_def that by (rule ext) (simp only: find binding_def)
  moreover have "binding d' = binding d" if "accounts d' = accounts d" for d'
    using that by (simp add: binding_def row_of_def fun_eq_iff)
  ultimately show ?thesis
    unfolding unbind_nostr_state
    using update_accounts_rows [of "eng 0" "\<lambda>a. a_id a = aid \<and> a_nostr_pubkey a \<noteq> None"
      "\<lambda>a. a\<lparr>a_nostr_pubkey := None\<rparr>" d] by blast
qed

lemma unbind_nostr_ok:
  assumes "unbind_nostr eng aid d = (Inr b, d')"
  shows "binding d' aid = None"
proof -
  let ?upd = "\<lambda>r. if a_id r = aid \<and> a_nostr_pubkey r \<noteq> None then r\<lparr>a_nostr_pubkey := None\<rparr> else r"
  from assms have "accounts d' = map ?upd (accounts d)"
    by (auto simp: unbind_nostr_def then_st_Inr exec_def update_accounts_def Let_def split: if_splits)
  moreover have "Option.bind (find (\<lambda>a. a_id a = aid) (map ?upd xs)) a_nostr_pubkey = None"
    for xs :: "account_row list"
    by (induction xs) auto
  ultimately show ?thesis by (simp add: binding_def row_of_def)
qed

lemma find_map_key:
  "(\<And>x. f (g x) = f x) \<Longrightarrow> find (\<lambda>x. f x = k) (map g xs) = map_option g (find (\<lambda>x. f x = k) xs)"
  by (induction xs) auto

lemma device_account_touch [simp]:
  "device_account (snd (touch_device eng k now d)) k' = device_account d k'"
  by (auto simp: device_account_def touch_device_def find_map_key option.map_comp comp_def
      intro!: option.map_cong)

lemma update_accounts_devices [simp]: "devices (snd (update_accounts ok cond upd d)) = devices d"
  by (simp add: update_accounts_def Let_def)

lemma device_account_same [simp]:
  "device_account (snd (claim_handle eng aid h d)) = device_account d"
  "device_account (snd (bind_nostr eng aid k d)) = device_account d"
  "device_account (snd (unbind_nostr eng aid d)) = device_account d"
  "device_account (snd (remember_proof_nonce eng nonce aid now skew d)) = device_account d"
  using claim_handle_state [of eng aid h d]
  by (auto simp: device_account_def fun_eq_iff bind_nostr_state unbind_nostr_state
      remember_proof_nonce_def insert_nonce_def Let_def)

lemma find_snoc: "find P (xs @ [x]) = (case find P xs of None \<Rightarrow> if P x then Some x else None | r \<Rightarrow> r)"
  by (induction xs) auto

lemma create_account_device:
  assumes "create_account c eng random k name now d = (Inr acc, d')"
  shows "device_account d' = (device_account d)(k \<mapsto> acc_id acc)" and "device_account d k = None"
    and "row_of (acc_id acc) d = None"
proof -
  from create_account_rows [OF assms] have new: "k \<notin> set (map d_public_key (devices d))"
    and dev: "devices d' = devices d @ [\<lparr>d_public_key = k, d_account_id = acc_id acc,
      d_created_at = to_i64 now, d_last_seen = to_i64 now\<rparr>]"
    and fresh: "acc_id acc \<notin> set (map a_id (accounts d))"
    by auto
  show none: "device_account d k = None"
    using new by (auto simp: device_account_def find_None_set)
  show "row_of (acc_id acc) d = None"
    using fresh by (force simp: row_of_def find_None_set)
  show "device_account d' = (device_account d)(k \<mapsto> acc_id acc)"
    using none by (auto simp: device_account_def fun_eq_iff dev find_snoc split: option.splits)
qed

end
