(* ===== verification/Server_Service.thy ===== *)
theory Server_Service
  imports Server_Storage
begin

text \<open>
  The account service (\<open>omachat-server/src/service.rs\<close>): the single thread that owns the database
  and answers the sessions' requests one at a time. \<open>handle\<close> is the dispatcher, one definition per
  handler; \<open>call\<close> is what a session observes of it, a stopped thread included. The arguments
  \<open>eng\<close> and \<open>random\<close> are what SQLite and the operating system's random source do during one request.
\<close>

section \<open>State and requests\<close>

definition EVENT_QUEUE_FRAMES :: nat where "EVENT_QUEUE_FRAMES = 256"

record service_config =
  server_public_key :: bytes
  nip05_relays :: "string list"

text \<open>
  \<open>events\<close> is the bounded channel to the session: the frames it has not yet taken, and whether the
  session has dropped its end.
\<close>

record subscriber =
  session_id :: u64
  events :: "string list"
  closed :: bool
  lagged :: bool

record service =
  storage :: db
  config :: service_config
  subscribers :: "string \<rightharpoonup> subscriber list"
  stopped :: bool

datatype hosted_command =
    Command_Hello (minimum_version: u16) (maximum_version: u16) (hello_device_key: string)
  | Command_Authenticate (auth_signature: string) (auth_display_name: "string option")
  | Command_Status
  | Command_ClaimHandle string
  | Command_ResolveHandle string
  | Command_BindNostr string string u64 string string
  | Command_UnbindNostr string u64 string

fun command_method :: "hosted_command \<Rightarrow> string" where
  "command_method (Command_Hello _ _ _) = ''hello''"
| "command_method (Command_Authenticate _ _) = ''authenticate''"
| "command_method Command_Status = ''status''"
| "command_method (Command_ClaimHandle _) = ''claim-handle''"
| "command_method (Command_ResolveHandle _) = ''resolve-handle''"
| "command_method (Command_BindNostr _ _ _ _ _) = ''bind-nostr''"
| "command_method (Command_UnbindNostr _ _ _) = ''unbind-nostr''"

datatype service_request =
    Register bytes "string option" u64
  | Attach string u64
  | Detach string u64
  | Nip05 string
  | Command string bytes hosted_command u64

section \<open>Helpers\<close>

definition decode_nostr_key :: "crates \<Rightarrow> string \<Rightarrow> server_error + bytes" where
  "decode_nostr_key c value =
     map_err (\<lambda>_. server_err InvalidRequest ''expected 64 hex characters'') (decode_key c value)"

definition fresh_timestamp :: "u64 \<Rightarrow> u64 \<Rightarrow> server_error + unit" where
  "fresh_timestamp timestamp now =
     (let skew = NOSTR_PROOF_SKEW_SECONDS in
      if timestamp \<le> saturating_add now skew \<and> saturating_sub now skew \<le> timestamp then Inr ()
      else Inl (server_err InvalidRequest ''nostr proof timestamp is outside the freshness window''))"

definition verify_device :: "crates \<Rightarrow> bytes \<Rightarrow> bytes \<Rightarrow> bytes \<Rightarrow> server_error + unit" where
  "verify_device c device_public_key tr signature =
     (if \<not> ed_key_ok c device_public_key
      then Inl (server_err InvalidRequest ''device key is not Ed25519'')
      else if ed_verify_strict c device_public_key tr signature then Inr ()
      else Inl (server_err InvalidSignature
        ''the device signature did not verify for this nostr proof''))"

definition parse_handle :: "string \<Rightarrow> server_error + string" where
  "parse_handle value =
     map_err (\<lambda>_. server_err InvalidHandle
       (''handles are 3 to 32 lowercase letters, digits or '_'' @ [CHR 0x27]
        @ '' and start with a letter'')) (GlobalHandle_parse value)"

fun storage_error :: "storage_error \<Rightarrow> server_error" where
  "storage_error NoSuchRecord = server_err NotFound ''no such record''"
| "storage_error HandleIsTaken = server_err HandleTaken ''that handle is already taken''"
| "storage_error HandleIsSet = server_err HandleAlreadySet ''this account already has a handle''"
| "storage_error PubkeyIsTaken =
     server_err NostrPubkeyTaken ''that nostr public key is already bound to another handle''"
| "storage_error ProofIsReplayed = server_err ReplayedProof ''that nostr proof was already used''"
| "storage_error _ = server_err Storage ''persistent storage failed''"

definition json_opt :: "string option \<Rightarrow> json" where
  "json_opt v = (case v of None \<Rightarrow> JNull | Some s \<Rightarrow> JStr s)"

definition registration_json :: "crates \<Rightarrow> account_record \<Rightarrow> bytes \<Rightarrow> bool \<Rightarrow> json" where
  "registration_json c acc device_public_key new_account =
     JObj [(''account_id'', JStr (acc_id acc)), (''handle'', json_opt (acc_handle acc)),
           (''display_name'', JStr (acc_display_name acc)),
           (''device_public_key'', JStr (hex_encode c device_public_key)),
           (''new_account'', JBool new_account)]"

text \<open>\<open>expect("bound key encodes")\<close> panics on an encoding error, here \<open>None\<close>.\<close>

definition binding_json :: "crates \<Rightarrow> string \<Rightarrow> bytes \<Rightarrow> json option" where
  "binding_json c handle nostr_public_key =
     (case npub_from_public_key c nostr_public_key of
        Inl _ \<Rightarrow> None
      | Inr npub \<Rightarrow>
          Some (JObj [(''handle'', JStr handle),
                      (''nostr_public_key'', JStr (hex_encode c nostr_public_key)),
                      (''npub'', JStr npub)]))"

section \<open>Handlers\<close>

abbreviation on_storage ::
  "(storage_error + 'a) \<times> db \<Rightarrow> service \<Rightarrow> (server_error + 'a) \<times> service" where
  "on_storage r s \<equiv> (map_err storage_error (fst r), s\<lparr>storage := snd r\<rparr>)"

definition service_account ::
  "(nat \<Rightarrow> bool) \<Rightarrow> string \<Rightarrow> service \<Rightarrow> server_error + account_record" where
  "service_account eng account_id s =
     and_then (map_err storage_error (account eng account_id (storage s)))
       (ok_or (server_err NotFound ''account no longer exists''))"

definition service_resolve ::
  "(nat \<Rightarrow> bool) \<Rightarrow> string \<Rightarrow> service \<Rightarrow> server_error + account_record" where
  "service_resolve eng handle s =
     and_then (map_err storage_error (resolve_handle eng handle (storage s)))
       (ok_or (server_err NotFound ''no account has that handle''))"

definition register ::
  "crates \<Rightarrow> (nat \<Rightarrow> bool) \<Rightarrow> bytes option \<Rightarrow> bytes \<Rightarrow> string option \<Rightarrow> u64 \<Rightarrow> service
    \<Rightarrow> (server_error + json) \<times> service" where
  "register c eng random device_public_key display_name now s =
     (case map_err storage_error (account_for_device eng device_public_key (storage s)) of
        Inl e \<Rightarrow> (Inl e, s)
      | Inr (Some acc) \<Rightarrow>
          then_st (on_storage
              (touch_device (\<lambda>k. eng (k + 1)) device_public_key now (storage s)) s)
            (\<lambda>_ s. (Inr (registration_json c acc device_public_key False), s))
      | Inr None \<Rightarrow>
          then_st
            (case display_name of
               Some name \<Rightarrow>
                 map_err (\<lambda>_. server_err InvalidName
                   ''display names are 1 to 80 printable characters'') (DisplayName_parse name)
             | None \<Rightarrow> Inr (''user-'' @ take 8 (hex_encode c device_public_key)), s)
            (\<lambda>name s.
               then_st (on_storage
                   (create_account c (\<lambda>k. eng (k + 1)) random device_public_key name now
                     (storage s)) s)
                 (\<lambda>acc s. (Inr (registration_json c acc device_public_key True), s))))"

definition service_bind_nostr ::
  "crates \<Rightarrow> (nat \<Rightarrow> bool) \<Rightarrow> string \<Rightarrow> bytes \<Rightarrow> string \<Rightarrow> string \<Rightarrow> u64 \<Rightarrow> string \<Rightarrow> string \<Rightarrow> u64
    \<Rightarrow> service \<Rightarrow> (server_error + json) \<times> service" where
  "service_bind_nostr c eng account_id device_public_key p_key p_nonce p_timestamp p_device_sig
      p_nostr_sig now s =
     then_st
       (and_then (service_account eng account_id s) (\<lambda>acc.
        and_then (ok_or (server_err InvalidHandle ''claim a handle before binding a nostr key'')
                   (acc_handle acc)) (\<lambda>handle.
        and_then (decode_nostr_key c p_key) (\<lambda>nostr_public_key.
        and_then (decode_nostr_key c p_nonce) (\<lambda>nonce.
        and_then (map_err (\<lambda>_. server_err InvalidRequest
                    ''device_signature must be 128 hex characters'')
                   (decode_signature c p_device_sig)) (\<lambda>device_signature.
        and_then (map_err (\<lambda>_. server_err InvalidRequest
                    ''nostr_signature must be 128 hex characters'')
                   (decode_signature c p_nostr_sig)) (\<lambda>nostr_signature.
        and_then (fresh_timestamp p_timestamp now) (\<lambda>_.
        let tr = nostr_bind_transcript (server_public_key (config s)) account_id handle
                   nostr_public_key nonce p_timestamp in
        and_then (verify_device c device_public_key tr device_signature) (\<lambda>_.
        and_then (map_err (\<lambda>_. server_err InvalidSignature
                    ''the nostr schnorr signature did not verify'')
                   (verify_nostr c nostr_public_key tr nostr_signature)) (\<lambda>_.
        Inr (handle, nostr_public_key, nonce)))))))))), s)
       (\<lambda>(handle, nostr_public_key, nonce) s.
          then_st (on_storage
              (remember_proof_nonce (\<lambda>k. eng (k + 1)) nonce account_id now
                NOSTR_PROOF_SKEW_SECONDS (storage s)) s)
            (\<lambda>_ s.
               then_st (on_storage
                   (bind_nostr (\<lambda>k. eng (k + 3)) account_id nostr_public_key (storage s)) s)
                 (\<lambda>_ s. case binding_json c handle nostr_public_key of
                    Some j \<Rightarrow> (Inr j, s)
                  | None \<Rightarrow> (Inl (server_err Internal ''service dropped the request''),
                             s\<lparr>stopped := True\<rparr>))))"

definition service_unbind_nostr ::
  "crates \<Rightarrow> (nat \<Rightarrow> bool) \<Rightarrow> string \<Rightarrow> bytes \<Rightarrow> string \<Rightarrow> u64 \<Rightarrow> string \<Rightarrow> u64
    \<Rightarrow> service \<Rightarrow> (server_error + json) \<times> service" where
  "service_unbind_nostr c eng account_id device_public_key p_nonce timestamp p_device_sig now s =
     then_st
       (and_then (service_account eng account_id s) (\<lambda>acc.
        and_then (ok_or (server_err InvalidHandle ''this account has no handle'')
                   (acc_handle acc)) (\<lambda>handle.
        and_then (map_err storage_error (nostr_pubkey (\<lambda>k. eng (k + 1)) account_id (storage s)))
          (\<lambda>stored.
        and_then (ok_or (server_err NotFound ''no nostr key is bound'') stored) (\<lambda>bound.
        and_then (decode_nostr_key c p_nonce) (\<lambda>nonce.
        and_then (map_err (\<lambda>_. server_err InvalidRequest
                    ''device_signature must be 128 hex characters'')
                   (decode_signature c p_device_sig)) (\<lambda>device_signature.
        and_then (fresh_timestamp timestamp now) (\<lambda>_.
        let tr = nostr_unbind_transcript (server_public_key (config s)) account_id handle
                   bound nonce timestamp in
        and_then (verify_device c device_public_key tr device_signature) (\<lambda>_.
        Inr (handle, nonce))))))))), s)
       (\<lambda>(handle, nonce) s.
          then_st (on_storage
              (remember_proof_nonce (\<lambda>k. eng (k + 2)) nonce account_id now
                NOSTR_PROOF_SKEW_SECONDS (storage s)) s)
            (\<lambda>_ s.
               then_st (on_storage (unbind_nostr (\<lambda>k. eng (k + 4)) account_id (storage s)) s)
                 (\<lambda>_ s. (Inr (JObj [(''handle'', JStr handle), (''nostr_public_key'', JNull)]), s))))"

definition nip05_char :: "char \<Rightarrow> bool" where
  "nip05_char b \<longleftrightarrow>
     is_ascii_lowercase b \<or> is_ascii_digit b \<or> b = CHR ''-'' \<or> b = CHR ''_'' \<or> b = CHR ''.''"

definition nip05 :: "crates \<Rightarrow> (nat \<Rightarrow> bool) \<Rightarrow> string \<Rightarrow> service \<Rightarrow> server_error + json" where
  "nip05 c eng name s =
     (if name = [] then Inl (server_err InvalidRequest ''name query parameter is required'')
      else
        let name = to_ascii_lowercase name in
        if 64 < length name \<or> \<not> list_all nip05_char name then
          Inl (server_err InvalidName
            (''nip-05 names are 1 to 64 characters from a-z, 0-9, '-', '_' and '.'' @ [CHR 0x27]))
        else
          and_then (map_err storage_error (nostr_for_handle eng name (storage s))) (\<lambda>found.
            case found of
              None \<Rightarrow> Inl (server_err NotFound ''no nostr key for that name'')
            | Some public_key \<Rightarrow>
                let hex_key = hex_encode c public_key;
                    document = [(''names'', JObj [(name, JStr hex_key)])] in
                Inr (JObj (if nip05_relays (config s) = [] then document
                           else document @ [(''relays'',
                             JObj [(hex_key, JArr (map JStr (nip05_relays (config s))))])]))))"

definition command ::
  "crates \<Rightarrow> (nat \<Rightarrow> bool) \<Rightarrow> string \<Rightarrow> bytes \<Rightarrow> hosted_command \<Rightarrow> u64 \<Rightarrow> service
    \<Rightarrow> (server_error + json) \<times> service" where
  "command c eng account_id device_public_key cmd now s =
     (case cmd of
        Command_Hello _ _ _ \<Rightarrow>
          (Inl (server_err AlreadyAuthenticated ''this connection is already authenticated''), s)
      | Command_Authenticate _ _ \<Rightarrow>
          (Inl (server_err AlreadyAuthenticated ''this connection is already authenticated''), s)
      | Command_Status \<Rightarrow>
          (and_then (service_account eng account_id s) (\<lambda>acc.
             and_then (map_err storage_error
                 (nostr_pubkey (\<lambda>k. eng (k + 1)) account_id (storage s))) (\<lambda>key.
               Inr (JObj [(''protocol_version'', JInt (uint PROTOCOL_VERSION)),
                 (''account_id'', JStr (acc_id acc)), (''handle'', json_opt (acc_handle acc)),
                 (''display_name'', JStr (acc_display_name acc)),
                 (''device_public_key'', JStr (hex_encode c device_public_key)),
                 (''server_public_key'', JStr (hex_encode c (server_public_key (config s)))),
                 (''nostr_public_key'', json_opt (map_option (hex_encode c) key))]))), s)
      | Command_ClaimHandle h \<Rightarrow>
          then_st (parse_handle h, s) (\<lambda>handle s.
            then_st (on_storage (claim_handle eng account_id handle (storage s)) s)
              (\<lambda>_ s. (Inr (JObj [(''handle'', JStr handle)]), s)))
      | Command_ResolveHandle h \<Rightarrow>
          (and_then (parse_handle h) (\<lambda>handle.
             and_then (service_resolve eng handle s) (\<lambda>acc.
               Inr (JObj [(''account_id'', JStr (acc_id acc)),
                 (''handle'', json_opt (acc_handle acc)),
                 (''display_name'', JStr (acc_display_name acc))]))), s)
      | Command_BindNostr key nonce timestamp device_sig nostr_sig \<Rightarrow>
          service_bind_nostr c eng account_id device_public_key key nonce timestamp device_sig
            nostr_sig now s
      | Command_UnbindNostr nonce timestamp device_sig \<Rightarrow>
          service_unbind_nostr c eng account_id device_public_key nonce timestamp device_sig now s)"

definition attach :: "string \<Rightarrow> u64 \<Rightarrow> service \<Rightarrow> service" where
  "attach account_id sid s =
     s\<lparr>subscribers := (subscribers s)(account_id \<mapsto>
        (case subscribers s account_id of None \<Rightarrow> [] | Some l \<Rightarrow> l)
          @ [\<lparr>session_id = sid, events = [], closed = False, lagged = False\<rparr>])\<rparr>"

definition detach :: "string \<Rightarrow> u64 \<Rightarrow> service \<Rightarrow> service" where
  "detach account_id sid s =
     (case subscribers s account_id of
        None \<Rightarrow> s
      | Some l \<Rightarrow>
          let l' = filter (\<lambda>sub. session_id sub \<noteq> sid) l in
          s\<lparr>subscribers := (subscribers s)(account_id := (if l' = [] then None else Some l'))\<rparr>)"

definition handle ::
  "crates \<Rightarrow> (nat \<Rightarrow> bool) \<Rightarrow> bytes option \<Rightarrow> service_request \<Rightarrow> service
    \<Rightarrow> (server_error + json) \<times> service" where
  "handle c eng random request s =
     (case request of
        Register device_public_key display_name now \<Rightarrow>
          register c eng random device_public_key display_name now s
      | Attach account_id sid \<Rightarrow> (Inr JNull, attach account_id sid s)
      | Nip05 name \<Rightarrow> (nip05 c eng name s, s)
      | Detach account_id sid \<Rightarrow> (Inr JNull, detach account_id sid s)
      | Command account_id device_public_key cmd now \<Rightarrow>
          command c eng account_id device_public_key cmd now s)"

text \<open>\<open>ServiceHandle::call\<close>: once the thread has panicked, the request channel is closed.\<close>

definition call ::
  "crates \<Rightarrow> (nat \<Rightarrow> bool) \<Rightarrow> bytes option \<Rightarrow> service_request \<Rightarrow> service
    \<Rightarrow> (server_error + json) \<times> service" where
  "call c eng random request s =
     (if stopped s then (Inl (server_err Internal ''service stopped''), s)
      else handle c eng random request s)"

text \<open>\<open>publish\<close>: a full channel marks its session lagged, a closed one drops the subscriber.\<close>

definition deliver :: "string \<Rightarrow> subscriber \<Rightarrow> subscriber option" where
  "deliver frame sub =
     (if closed sub then None
      else if length (events sub) < EVENT_QUEUE_FRAMES then Some (sub\<lparr>events := events sub @ [frame]\<rparr>)
      else Some (sub\<lparr>lagged := True\<rparr>))"

definition publish_one :: "string \<Rightarrow> string \<Rightarrow> service \<Rightarrow> service" where
  "publish_one frame acc s =
     (case subscribers s acc of
        None \<Rightarrow> s
      | Some l \<Rightarrow>
          let l' = List.map_filter (deliver frame) l in
          s\<lparr>subscribers := (subscribers s)(acc := (if l' = [] then None else Some l'))\<rparr>)"

definition publish :: "string list \<Rightarrow> string \<Rightarrow> service \<Rightarrow> service" where
  "publish accs frame s = fold (publish_one frame) accs s"

end
