(* ===== verification/Server_Directory.thy ===== *)
theory Server_Directory
  imports Server_Service
begin

text \<open>
  What the account service promises, as an abstract machine: a directory of handles, bound Nostr
  keys and devices whose only moves are to register a new device with a new account, to give a
  free handle to an account without one, to bind a key no other account holds, and to detach a
  key. Every call of the service is one such move or leaves the directory unchanged, whatever
  the database engine does; permanence and uniqueness of handles follow for all runs.
\<close>

section \<open>The abstract directory\<close>

record directory =
  dir_owner :: "string \<rightharpoonup> string"
  dir_key :: "string \<rightharpoonup> bytes"
  dir_account :: "bytes \<rightharpoonup> string"

inductive dir_step :: "directory \<Rightarrow> directory \<Rightarrow> bool" where
  dir_stay: "dir_step d d"
| dir_register:
    "dir_account d k = None \<Longrightarrow> a \<notin> ran (dir_account d) \<Longrightarrow> a \<notin> ran (dir_owner d) \<Longrightarrow>
     dir_key d a = None \<Longrightarrow> dir_step d (d\<lparr>dir_account := (dir_account d)(k \<mapsto> a)\<rparr>)"
| dir_claim:
    "dir_owner d h = None \<Longrightarrow> a \<notin> ran (dir_owner d) \<Longrightarrow> canonical_handle h \<Longrightarrow>
     dir_step d (d\<lparr>dir_owner := (dir_owner d)(h \<mapsto> a)\<rparr>)"
| dir_bind:
    "a \<in> ran (dir_owner d) \<Longrightarrow> (\<And>b. dir_key d b = Some k \<Longrightarrow> b = a) \<Longrightarrow> length k = 32 \<Longrightarrow>
     dir_step d (d\<lparr>dir_key := (dir_key d)(a \<mapsto> k)\<rparr>)"
| dir_unbind: "dir_step d (d\<lparr>dir_key := (dir_key d)(a := None)\<rparr>)"

inductive_cases dir_stepE: "dir_step d d'"

definition directory_of :: "service \<Rightarrow> directory" where
  "directory_of s =
     \<lparr>dir_owner = owner (storage s), dir_key = binding (storage s),
      dir_account = device_account (storage s)\<rparr>"

text \<open>
  The service's invariant adds to the database's that stored handles are canonical and that a
  key is only ever bound to an account with a handle.
\<close>

definition row_ok :: "account_row \<Rightarrow> bool" where
  "row_ok r \<longleftrightarrow>
     (\<forall>h. a_handle r = Some h \<longrightarrow> canonical_handle h)
     \<and> (a_nostr_pubkey r \<noteq> None \<longrightarrow> a_handle r \<noteq> None)"

definition service_inv :: "service \<Rightarrow> bool" where
  "service_inv s \<longleftrightarrow> storage_inv (storage s) \<and> list_all row_ok (accounts (storage s))"

lemma service_inv_storage: "service_inv s \<Longrightarrow> storage_inv (storage s)"
  by (simp add: service_inv_def)

section \<open>What each handler can do to the database\<close>

lemma register_storage:
  assumes "register c eng random k name now s = (r, s')"
  shows "storage s' = storage s
    \<or> storage s' = snd (touch_device (\<lambda>i. eng (i + 1)) k now (storage s))
    \<or> (\<exists>n acc. create_account c (\<lambda>i. eng (i + 1)) random k n now (storage s) = (Inr acc, storage s'))"
proof -
  have failed: "d' = storage s"
    if "create_account c (\<lambda>i. eng (i + 1)) random k n now (storage s) = (Inl e, d')" for n e d'
    using create_account_rows [OF that] by auto
  show ?thesis
  proof (cases "account_for_device eng k (storage s)")
    case (Inr found)
    show ?thesis
    proof (cases found)
      case None
      define parsed where "parsed = (case name of
          Some n \<Rightarrow> map_err (\<lambda>_. server_err InvalidName
            ''display names are 1 to 80 printable characters'') (DisplayName_parse n)
        | None \<Rightarrow> Inr (''user-'' @ take 8 (hex_encode c k)))"
      show ?thesis
      proof (cases parsed)
        case (Inr n)
        show ?thesis
        proof (cases "create_account c (\<lambda>i. eng (i + 1)) random k n now (storage s)")
          case (Pair res d')
          with assms \<open>account_for_device eng k (storage s) = Inr found\<close> None Inr failed [of n]
          show ?thesis
            by (cases res) (auto simp: register_def parsed_def [symmetric])
        qed
      qed (use assms \<open>account_for_device eng k (storage s) = Inr found\<close> None in
          \<open>simp add: register_def parsed_def [symmetric]\<close>)
    next
      case (Some acc)
      with assms Inr show ?thesis
        by (cases "touch_device (\<lambda>i. eng (i + 1)) k now (storage s)"; cases "fst (touch_device (\<lambda>i. eng (i + 1)) k now (storage s))")
          (auto simp: register_def)
    qed
  qed (use assms in \<open>simp add: register_def\<close>)
qed

text \<open>What a binding proof has passed when the database is first written.\<close>

definition bind_proof_ok ::
  "crates \<Rightarrow> service \<Rightarrow> string \<Rightarrow> bytes \<Rightarrow> u64 \<Rightarrow> u64 \<Rightarrow> bytes \<Rightarrow> bytes \<Rightarrow> string \<Rightarrow> bytes \<Rightarrow> bytes
    \<Rightarrow> bool" where
  "bind_proof_ok c s aid dev timestamp now device_sig nostr_sig h k nonce \<longleftrightarrow>
     (\<exists>r. row_of aid (storage s) = Some r \<and> a_handle r = Some h)
     \<and> length k = KEY_BYTES \<and> length nonce = KEY_BYTES
     \<and> fresh_timestamp timestamp now = Inr ()
     \<and> ed_verify_strict c dev
         (nostr_bind_transcript (server_public_key (config s)) aid h k nonce timestamp) device_sig
     \<and> schnorr_verify c k
         (nostr_bind_transcript (server_public_key (config s)) aid h k nonce timestamp) nostr_sig"

lemma service_bind_nostr_storage:
  assumes "service_bind_nostr c eng aid dev p_key p_nonce ts p_dsig p_nsig now s = (r, s')"
  shows "storage s' = storage s
    \<or> (\<exists>dsig nsig h k nonce.
        hex_decode c p_key = Some k \<and> hex_decode c p_nonce = Some nonce
        \<and> hex_decode c p_dsig = Some dsig \<and> hex_decode c p_nsig = Some nsig
        \<and> bind_proof_ok c s aid dev ts now dsig nsig h k nonce
        \<and> (let d1 = snd (remember_proof_nonce (\<lambda>i. eng (i + 1)) nonce aid now
                 NOSTR_PROOF_SKEW_SECONDS (storage s)) in
           storage s' = d1
           \<or> fst (remember_proof_nonce (\<lambda>i. eng (i + 1)) nonce aid now
                 NOSTR_PROOF_SKEW_SECONDS (storage s)) = Inr ()
             \<and> storage s' = snd (bind_nostr (\<lambda>i. eng (i + 3)) aid k d1)))"
  using assms unfolding service_bind_nostr_def then_st_def
  by (auto simp: bind_proof_ok_def service_account_def account_eq decode_nostr_key_def
      decode_key_Inr decode_signature_Inr verify_device_def verify_nostr_Inr row_account_def Let_def
      split: sum.splits prod.splits if_splits option.splits)

lemma service_bind_nostr_cases:
  assumes "service_bind_nostr c eng aid dev p_key p_nonce ts p_dsig p_nsig now s = (r, s')"
  obtains (same) "storage s' = storage s"
  | (nonce) dsig nsig h k nonce eng' where
      "bind_proof_ok c s aid dev ts now dsig nsig h k nonce"
      "storage s' = snd (remember_proof_nonce eng' nonce aid now NOSTR_PROOF_SKEW_SECONDS (storage s))"
  | (bound) dsig nsig h k nonce eng' eng'' d1 where
      "hex_decode c p_key = Some k" "hex_decode c p_nonce = Some nonce"
      "bind_proof_ok c s aid dev ts now dsig nsig h k nonce"
      "remember_proof_nonce eng' nonce aid now NOSTR_PROOF_SKEW_SECONDS (storage s) = (Inr (), d1)"
      "storage s' = snd (bind_nostr eng'' aid k d1)"
  using service_bind_nostr_storage [OF assms] unfolding Let_def by (metis prod.collapse)

definition unbind_proof_ok ::
  "crates \<Rightarrow> service \<Rightarrow> string \<Rightarrow> bytes \<Rightarrow> u64 \<Rightarrow> u64 \<Rightarrow> bytes \<Rightarrow> string \<Rightarrow> bytes \<Rightarrow> bytes \<Rightarrow> bool" where
  "unbind_proof_ok c s aid dev timestamp now device_sig h bound nonce \<longleftrightarrow>
     (\<exists>r. row_of aid (storage s) = Some r \<and> a_handle r = Some h)
     \<and> binding (storage s) aid = Some bound \<and> length nonce = KEY_BYTES
     \<and> fresh_timestamp timestamp now = Inr ()
     \<and> ed_verify_strict c dev
         (nostr_unbind_transcript (server_public_key (config s)) aid h bound nonce timestamp)
         device_sig"

lemma service_unbind_nostr_storage:
  assumes "service_unbind_nostr c eng aid dev p_nonce ts p_dsig now s = (r, s')"
    and "storage_inv (storage s)"
  shows "storage s' = storage s
    \<or> (\<exists>dsig h bound nonce.
        hex_decode c p_nonce = Some nonce \<and> hex_decode c p_dsig = Some dsig
        \<and> unbind_proof_ok c s aid dev ts now dsig h bound nonce
        \<and> (let d1 = snd (remember_proof_nonce (\<lambda>i. eng (i + 2)) nonce aid now
                 NOSTR_PROOF_SKEW_SECONDS (storage s)) in
           storage s' = d1
           \<or> fst (remember_proof_nonce (\<lambda>i. eng (i + 2)) nonce aid now
                 NOSTR_PROOF_SKEW_SECONDS (storage s)) = Inr ()
             \<and> storage s' = snd (unbind_nostr (\<lambda>i. eng (i + 4)) aid d1)))"
  using assms unfolding service_unbind_nostr_def then_st_def
  by (auto simp: unbind_proof_ok_def service_account_def account_eq decode_nostr_key_def
      nostr_pubkey_eq decode_key_Inr decode_signature_Inr verify_device_def row_account_def Let_def
      split: sum.splits prod.splits if_splits option.splits)

lemma service_unbind_nostr_cases:
  assumes "service_unbind_nostr c eng aid dev p_nonce ts p_dsig now s = (r, s')"
    and "storage_inv (storage s)"
  obtains (same) "storage s' = storage s"
  | (nonce) dsig h bound nonce eng' where
      "unbind_proof_ok c s aid dev ts now dsig h bound nonce"
      "storage s' = snd (remember_proof_nonce eng' nonce aid now NOSTR_PROOF_SKEW_SECONDS (storage s))"
  | (unbound) dsig h bound nonce eng' eng'' d1 where
      "hex_decode c p_nonce = Some nonce"
      "unbind_proof_ok c s aid dev ts now dsig h bound nonce"
      "remember_proof_nonce eng' nonce aid now NOSTR_PROOF_SKEW_SECONDS (storage s) = (Inr (), d1)"
      "storage s' = snd (unbind_nostr eng'' aid d1)"
  using service_unbind_nostr_storage [OF assms] unfolding Let_def by (metis prod.collapse)

lemma claim_storage:
  assumes "command c eng aid dev (Command_ClaimHandle v) now s = (r, s')"
  shows "storage s' = storage s
    \<or> (\<exists>h. canonical_handle h \<and> claim_handle eng aid h (storage s) = (Inr (), storage s')
           \<and> r = Inr (JObj [(''handle'', JStr h)]))"
proof (cases "parse_handle v")
  case (Inr h)
  then have "canonical_handle h" by (auto simp: parse_handle_def GlobalHandle_parse_Inr)
  then show ?thesis
    using assms Inr claim_handle_failed [of eng aid h "storage s"]
    by (cases "claim_handle eng aid h (storage s)")
      (auto simp: command_def then_st_def map_err_def split: sum.splits)
qed (use assms in \<open>auto simp: command_def\<close>)

lemma command_reads:
  "command c eng aid dev (Command_Hello a b k) now s = (r, s') \<Longrightarrow> s' = s"
  "command c eng aid dev (Command_Authenticate x y) now s = (r, s') \<Longrightarrow> s' = s"
  "command c eng aid dev Command_Status now s = (r, s') \<Longrightarrow> s' = s"
  "command c eng aid dev (Command_ResolveHandle h) now s = (r, s') \<Longrightarrow> s' = s"
  by (auto simp: command_def)

lemma attach_detach_storage [simp]:
  "storage (attach aid sid s) = storage s" "storage (detach aid sid s) = storage s"
  by (auto simp: attach_def detach_def Let_def split: option.splits)

section \<open>Invariant\<close>

lemma update_accounts_row_ok:
  assumes "list_all row_ok (accounts d)"
    and "\<And>r. r \<in> set (accounts d) \<Longrightarrow> cond r \<Longrightarrow> row_ok r \<Longrightarrow> row_ok (upd r)"
  shows "list_all row_ok (accounts (snd (update_accounts ok cond upd d)))"
  using update_accounts_rows [of ok cond upd d] assms by (auto simp: list_all_iff)

lemma claim_row_ok:
  assumes "list_all row_ok (accounts d)" and "canonical_handle h"
  shows "list_all row_ok (accounts (snd (claim_handle eng aid h d)))"
proof -
  have "list_all row_ok (accounts (snd (update_accounts (eng 1)
      (\<lambda>a. a_id a = aid \<and> a_handle a = None) (\<lambda>a. a\<lparr>a_handle := Some h\<rparr>) d)))"
    by (rule update_accounts_row_ok [OF assms(1)]) (use assms(2) in \<open>simp add: row_ok_def\<close>)
  with claim_handle_state [of eng aid h d] assms(1) show ?thesis by (elim disjE) simp_all
qed

lemma bind_row_ok:
  assumes "list_all row_ok (accounts d)" and "storage_inv d"
    and "row_of aid d = Some r" "a_handle r = Some h"
  shows "list_all row_ok (accounts (snd (bind_nostr eng aid k d)))"
  unfolding bind_nostr_state
proof (rule update_accounts_row_ok [OF assms(1)])
  fix r'
  assume "r' \<in> set (accounts d)" "a_id r' = aid" "row_ok r'"
  then have "r' = r" using assms by (metis option.inject row_of_iff)
  with \<open>row_ok r'\<close> assms(4) show "row_ok (r'\<lparr>a_nostr_pubkey := Some k\<rparr>)" by (simp add: row_ok_def)
qed

lemma unbind_row_ok:
  "list_all row_ok (accounts d) \<Longrightarrow> list_all row_ok (accounts (snd (unbind_nostr eng aid d)))"
  unfolding unbind_nostr_state by (rule update_accounts_row_ok) (auto simp: row_ok_def)

lemma create_row_ok:
  "list_all row_ok (accounts d) \<Longrightarrow> create_account c eng random k n now d = (Inr acc, d') \<Longrightarrow>
     list_all row_ok (accounts d')"
  by (drule create_account_rows) (auto simp: row_ok_def)

lemma touch_accounts [simp]: "accounts (snd (touch_device eng k now d)) = accounts d"
  by (simp add: touch_device_def)

lemma row_of_remember [simp]:
  "row_of aid (snd (remember_proof_nonce eng nonce a now skew d)) = row_of aid d"
  by (simp add: row_of_def)

lemma register_inv:
  assumes "service_inv s" and "register c eng random k name now s = (r, s')"
  shows "service_inv s'"
proof -
  have "storage_inv d'" if "create_account c (\<lambda>i. eng (i + 1)) random k n now (storage s) = (Inr acc, d')"
    for n acc d'
    using create_account_inv [of "storage s" c "\<lambda>i. eng (i + 1)" random k n now] assms(1) that
    by (simp add: service_inv_def)
  then show ?thesis
    using register_storage [OF assms(2)] assms(1)
    by (auto simp: service_inv_def touch_device_inv create_row_ok)
qed

lemma service_inv_cong: "storage s' = storage s \<Longrightarrow> service_inv s \<Longrightarrow> service_inv s'"
  by (simp add: service_inv_def)

lemma service_inv_remember:
  "service_inv s \<Longrightarrow> storage s' = snd (remember_proof_nonce eng nonce aid now skew (storage s))
     \<Longrightarrow> service_inv s'"
  by (simp add: service_inv_def remember_proof_nonce_inv)

lemma bind_inv:
  assumes "service_inv s"
    and "service_bind_nostr c eng aid dev p_key p_nonce ts p_dsig p_nsig now s = (r, s')"
  shows "service_inv s'"
  using assms(2)
proof (cases rule: service_bind_nostr_cases)
  case (bound dsig nsig h k nonce eng' eng'' d1)
  from bound(4) have d1: "d1 = snd (remember_proof_nonce eng' nonce aid now
    NOSTR_PROOF_SKEW_SECONDS (storage s))" by simp
  with assms(1) have inv: "storage_inv d1" "list_all row_ok (accounts d1)"
    by (simp_all add: service_inv_def remember_proof_nonce_inv)
  from bound(3) obtain row where "row_of aid d1 = Some row" "a_handle row = Some h" "length k = 32"
    by (auto simp: bind_proof_ok_def d1 KEY_BYTES_def)
  with inv bound(5) show ?thesis by (simp add: service_inv_def bind_nostr_inv bind_row_ok)
qed (use assms(1) service_inv_cong service_inv_remember in blast)+

lemma unbind_inv:
  assumes "service_inv s"
    and "service_unbind_nostr c eng aid dev p_nonce ts p_dsig now s = (r, s')"
  shows "service_inv s'"
  using assms(2) service_inv_storage [OF assms(1)]
proof (cases rule: service_unbind_nostr_cases)
  case (unbound dsig h bound nonce eng' eng'' d1)
  from unbound(3) have "d1 = snd (remember_proof_nonce eng' nonce aid now
    NOSTR_PROOF_SKEW_SECONDS (storage s))" by simp
  with assms(1) have "storage_inv d1" "list_all row_ok (accounts d1)"
    by (simp_all add: service_inv_def remember_proof_nonce_inv)
  with unbound(4) show ?thesis by (simp add: service_inv_def unbind_nostr_inv unbind_row_ok)
qed (use assms(1) service_inv_cong service_inv_remember in blast)+

lemma command_inv:
  assumes "service_inv s" and "command c eng aid dev cmd now s = (r, s')"
  shows "service_inv s'"
proof (cases cmd)
  case (Command_ClaimHandle v)
  from claim_storage [OF assms(2) [unfolded Command_ClaimHandle]] show ?thesis
  proof
    assume "\<exists>h. canonical_handle h \<and> claim_handle eng aid h (storage s) = (Inr (), storage s')
      \<and> r = Inr (JObj [(''handle'', JStr h)])"
    then obtain h where "canonical_handle h" "claim_handle eng aid h (storage s) = (Inr (), storage s')"
      by blast
    with assms(1) show ?thesis
      using claim_handle_inv [of "storage s" eng aid h] claim_row_ok [of "storage s" h eng aid]
      by (simp add: service_inv_def)
  qed (use assms(1) service_inv_cong in blast)
next
  case (Command_BindNostr key nonce ts dsig nsig)
  with assms(2) have "service_bind_nostr c eng aid dev key nonce ts dsig nsig now s = (r, s')"
    by (simp add: command_def)
  with assms(1) show ?thesis by (rule bind_inv)
next
  case (Command_UnbindNostr nonce ts dsig)
  with assms(2) have "service_unbind_nostr c eng aid dev nonce ts dsig now s = (r, s')"
    by (simp add: command_def)
  with assms(1) show ?thesis by (rule unbind_inv)
qed (use assms in \<open>simp_all add: command_def\<close>)

lemma call_inv:
  assumes "service_inv s"
  shows "service_inv (snd (call c eng random req s))"
proof (cases req)
  case (Register k name now)
  then show ?thesis
    using register_inv [OF assms] by (auto simp: call_def handle_def assms) (metis prod.collapse)
next
  case (Command aid dev cmd now)
  then show ?thesis
    using command_inv [OF assms] by (auto simp: call_def handle_def assms) (metis prod.collapse)
qed (use assms in \<open>simp_all add: call_def handle_def service_inv_def\<close>)

section \<open>Simulation\<close>

lemma directory_cong: "storage s' = storage s \<Longrightarrow> directory_of s' = directory_of s"
  by (simp add: directory_of_def)

lemma ran_owner:
  "storage_inv d \<Longrightarrow> a \<in> ran (owner d) \<longleftrightarrow> (\<exists>r h. row_of a d = Some r \<and> a_handle r = Some h)"
  by (auto simp: ran_def owner_iff row_of_iff)

lemma ran_device_account:
  assumes "storage_inv d" and "row_of a d = None"
  shows "a \<notin> ran (device_account d)"
proof
  assume "a \<in> ran (device_account d)"
  then obtain r where "r \<in> set (devices d)" "d_account_id r = a"
    by (auto simp: ran_def device_account_def dest: find_Some_set)
  with assms show False
    by (force simp: storage_inv_def row_of_def find_None_set)
qed

lemma register_simulates:
  assumes "service_inv s" and "register c eng random k name now s = (r, s')"
  shows "dir_step (directory_of s) (directory_of s')"
proof -
  have "dir_step (directory_of s) (directory_of s')"
    if created: "create_account c (\<lambda>i. eng (i + 1)) random k n now (storage s) = (Inr acc, storage s')"
    for n acc
  proof -
    note dev = create_account_device [OF created]
    have "owner (storage s') = owner (storage s)" "binding (storage s') = binding (storage s)"
      using created by (auto simp: fun_eq_iff) (metis snd_conv owner_create_account,
        metis snd_conv binding_create_account)
    then have dir: "directory_of s' =
        (directory_of s)\<lparr>dir_account := (dir_account (directory_of s))(k \<mapsto> acc_id acc)\<rparr>"
      by (simp add: directory_of_def dev)
    note inv = service_inv_storage [OF assms(1)]
    have "binding (storage s) (acc_id acc) = None" by (simp add: binding_def dev)
    then show ?thesis
      unfolding dir
      by (intro dir_register)
        (use dev ran_device_account [OF inv] ran_owner [OF inv] in \<open>auto simp: directory_of_def\<close>)
  qed
  moreover have "directory_of s' = directory_of s"
    if "storage s' = snd (touch_device e k now (storage s))" for e
    using that by (simp add: directory_of_def fun_eq_iff)
  ultimately show ?thesis
    using register_storage [OF assms(2)] directory_cong dir_stay by metis
qed

lemma directory_remember:
  "storage s' = snd (remember_proof_nonce eng nonce aid now skew (storage s))
     \<Longrightarrow> directory_of s' = directory_of s"
  by (simp add: directory_of_def fun_eq_iff)

lemma bind_simulates:
  assumes "service_inv s"
    and "service_bind_nostr c eng aid dev p_key p_nonce ts p_dsig p_nsig now s = (r, s')"
  shows "dir_step (directory_of s) (directory_of s')"
  using assms(2)
proof (cases rule: service_bind_nostr_cases)
  case (bound dsig nsig h k nonce eng' eng'' d1)
  from bound(4) have d1: "d1 = snd (remember_proof_nonce eng' nonce aid now
    NOSTR_PROOF_SKEW_SECONDS (storage s))" by simp
  with assms(1) have inv: "storage_inv d1" by (simp add: service_inv_def remember_proof_nonce_inv)
  from bound(3) have len: "length k = 32" and "aid \<in> ran (owner (storage s))"
    using service_inv_storage [OF assms(1)] by (auto simp: bind_proof_ok_def KEY_BYTES_def ran_owner)
  have "owner d1 = owner (storage s)" "device_account d1 = device_account (storage s)"
    "binding d1 = binding (storage s)"
    by (simp_all add: d1 fun_eq_iff)
  note same = this
  show ?thesis
  proof (cases "bind_nostr eng'' aid k d1")
    case (Pair res d2)
    show ?thesis
    proof (cases res)
      case (Inl e)
      with Pair have "accounts d2 = accounts d1" by (simp add: bind_nostr_failed)
      then have "binding d2 = binding d1" by (simp add: binding_def row_of_def fun_eq_iff)
      moreover have "owner d2 = owner d1" "device_account d2 = device_account d1"
        using Pair owner_bind_nostr [of eng'' aid k d1] device_account_same(2) [of eng'' aid k d1]
        by (auto simp: fun_eq_iff)
      ultimately show ?thesis
        using bound(5) Pair same by (simp add: directory_of_def dir_stay)
    next
      case (Inr u)
      note b = binding_bind_nostr [OF inv len, of eng'' aid u d2]
      have "owner d2 = owner d1" "device_account d2 = device_account d1"
        using Pair owner_bind_nostr [of eng'' aid k d1] device_account_same(2) [of eng'' aid k d1]
        by (auto simp: fun_eq_iff)
      then have dir: "directory_of s' =
          (directory_of s)\<lparr>dir_key := (dir_key (directory_of s))(aid \<mapsto> k)\<rparr>"
        using bound(5) Pair Inr same b(1) by (simp add: directory_of_def)
      show ?thesis
        unfolding dir
        by (rule dir_bind) (use \<open>aid \<in> ran _\<close> len b(2) Pair Inr same in \<open>auto simp: directory_of_def\<close>)
    qed
  qed
qed (use directory_cong directory_remember dir_stay in metis)+

lemma unbind_simulates:
  assumes "service_inv s"
    and "service_unbind_nostr c eng aid dev p_nonce ts p_dsig now s = (r, s')"
  shows "dir_step (directory_of s) (directory_of s')"
  using assms(2) service_inv_storage [OF assms(1)]
proof (cases rule: service_unbind_nostr_cases)
  case (unbound dsig h bound nonce eng' eng'' d1)
  from unbound(3) have d1: "d1 = snd (remember_proof_nonce eng' nonce aid now
    NOSTR_PROOF_SKEW_SECONDS (storage s))" by simp
  have "owner (storage s') = owner (storage s)"
    "device_account (storage s') = device_account (storage s)"
    by (simp_all add: unbound(4) d1 fun_eq_iff)
  moreover have "binding d1 = binding (storage s)" by (simp add: d1 fun_eq_iff)
  ultimately have "directory_of s' = directory_of s
    \<or> directory_of s' = (directory_of s)\<lparr>dir_key := (dir_key (directory_of s))(aid := None)\<rparr>"
    using binding_unbind_nostr [of eng'' aid d1] unbound(4) by (auto simp: directory_of_def)
  then show ?thesis using dir_stay dir_unbind by metis
qed (use directory_cong directory_remember dir_stay in metis)+

lemma claim_simulates:
  assumes "service_inv s" and "command c eng aid dev (Command_ClaimHandle v) now s = (r, s')"
  shows "dir_step (directory_of s) (directory_of s')"
  using claim_storage [OF assms(2)]
proof
  assume "\<exists>h. canonical_handle h \<and> claim_handle eng aid h (storage s) = (Inr (), storage s')
    \<and> r = Inr (JObj [(''handle'', JStr h)])"
  then obtain h where h: "canonical_handle h"
    and claimed: "claim_handle eng aid h (storage s) = (Inr (), storage s')"
    by blast
  note inv = service_inv_storage [OF assms(1)]
  from claim_handle_ok [OF inv claimed] have "owner (storage s) h = None"
    "aid \<notin> ran (owner (storage s))"
    by (auto simp: ran_owner [OF inv])
  moreover have "binding (storage s') = binding (storage s)"
    "device_account (storage s') = device_account (storage s)"
    using binding_claim_handle [of eng aid h "storage s"] device_account_same(1) [of eng aid h "storage s"]
      claimed by (auto simp: fun_eq_iff)
  then have dir: "directory_of s' =
      (directory_of s)\<lparr>dir_owner := (dir_owner (directory_of s))(h \<mapsto> aid)\<rparr>"
    by (simp add: directory_of_def claim_handle_owner [OF inv claimed])
  ultimately show ?thesis
    unfolding dir by (intro dir_claim) (use h in \<open>auto simp: directory_of_def\<close>)
qed (use directory_cong dir_stay in metis)

end
