(* ===== verification/Server_Properties.thy ===== *)
theory Server_Properties
  imports Server_Directory
begin

text \<open>
  Properties of the account service over single calls and over whole runs: it refines the
  abstract directory, handles are permanent and unique, bindings change only on signed and fresh
  proofs, the public lookup answers exactly what is bound, and what the replay protection does
  and does not cover.
\<close>

section \<open>Runs of the service\<close>

type_synonym service_input = "(nat \<Rightarrow> bool) \<times> bytes option \<times> service_request"

definition service_step :: "crates \<Rightarrow> service_input \<Rightarrow> service \<Rightarrow> service" where
  "service_step c i s = (case i of (eng, random, req) \<Rightarrow> snd (call c eng random req s))"

interpretation svc: step_invariant service_inv "service_step c" for c
  by unfold_locales (auto simp: service_step_def call_inv split: prod.splits)

lemma call_simulates:
  assumes "service_inv s"
  shows "dir_step (directory_of s) (directory_of (snd (call c eng random req s)))"
proof (cases "stopped s")
  case False
  then show ?thesis
  proof (cases req)
    case (Register k name now)
    with False show ?thesis
      using register_simulates [OF assms] by (simp add: call_def handle_def) (metis prod.collapse)
  next
    case (Command aid dev cmd now)
    obtain r s' where step: "command c eng aid dev cmd now s = (r, s')" by fastforce
    have "dir_step (directory_of s) (directory_of s')"
    proof (cases cmd)
      case (Command_ClaimHandle v)
      with step show ?thesis using claim_simulates [OF assms] by blast
    next
      case (Command_BindNostr k n t d g)
      with step show ?thesis using bind_simulates [OF assms] by (simp add: command_def)
    next
      case (Command_UnbindNostr n t d)
      with step show ?thesis using unbind_simulates [OF assms] by (simp add: command_def)
    qed (use step in \<open>auto simp: command_def dir_stay\<close>)
    with step Command False show ?thesis by (simp add: call_def handle_def)
  qed (auto simp: call_def handle_def directory_of_def dir_stay)
qed (simp add: call_def dir_stay)

lemma dir_step_owner: "dir_step d d' \<Longrightarrow> dir_owner d h = Some a \<Longrightarrow> dir_owner d' h = Some a"
  by (induction rule: dir_step.induct) auto

lemma service_step_owner:
  assumes "service_inv s" and "owner (storage s) h = Some a"
  shows "owner (storage (service_step c i s)) h = Some a"
proof (cases i)
  case (fields eng random req)
  have "dir_owner (directory_of (snd (call c eng random req s))) h = Some a"
    by (rule dir_step_owner [OF call_simulates [OF assms(1)]]) (simp add: directory_of_def assms(2))
  with fields show ?thesis by (simp add: service_step_def directory_of_def)
qed

text \<open>
  C2. The account service implements the directory it promises. From any state that satisfies
  the invariant, one call (any request, any SQLite fault, any outcome of the random source)
  changes handles, bound keys and devices by at most one of the directory's moves: a new device
  gets a new account, a free canonical handle goes to an account that has none, a 32-byte key
  that no other account holds is bound to an account with a handle, or a key is detached.
\<close>

theorem service_refines_directory:
  assumes "service_inv s"
  shows "dir_step (directory_of s) (directory_of (snd (call c eng random req s)))"
  using assms by (rule call_simulates)

definition fresh_service :: service where
  "fresh_service = \<lparr>storage = empty_db, config = \<lparr>server_public_key = replicate 32 9, nip05_relays = []\<rparr>,
     subscribers = Map.empty, stopped = False\<rparr>"

lemma fresh_service_inv: "service_inv fresh_service"
  using storage_inv_empty by (simp add: service_inv_def fresh_service_def empty_db_def)

theorem service_refines_directory_witness:
  "service_inv fresh_service
   \<and> dir_step (directory_of fresh_service) (directory_of (snd (call reference_crates (\<lambda>_. True)
       (Some [1, 2]) (Register (replicate 32 3) None 7) fresh_service)))"
  using service_refines_directory [OF fresh_service_inv] fresh_service_inv by blast

text \<open>
  C3. Handles are permanent. Once a handle belongs to an account, it belongs to that account after
  every further sequence of requests from any sessions, whatever faults occur on the way: no
  request of the service releases, transfers or renames a handle.
\<close>

theorem handles_permanent:
  assumes "service_inv s" and "owner (storage s) h = Some a"
  shows "owner (storage (fold (service_step c) inputs s)) h = Some a"
  using svc.run_keeps [where P = "\<lambda>s. owner (storage s) h = Some a"] assms service_step_owner
  by blast

definition demo_db :: db where
  "demo_db = empty_db\<lparr>
     accounts := [\<lparr>a_id = ''a1'', a_handle = Some ''ada'', a_display_name = ''Ada'',
                   a_created_at = 5, a_nostr_pubkey = None\<rparr>],
     devices := [\<lparr>d_public_key = replicate 32 3, d_account_id = ''a1'', d_created_at = 5,
                  d_last_seen = 5\<rparr>]\<rparr>"

definition demo_service :: service where
  "demo_service = fresh_service\<lparr>storage := demo_db\<rparr>"

lemma demo_service_inv: "service_inv demo_service"
  by (simp add: service_inv_def demo_service_def demo_db_def storage_inv_def empty_db_def
      account_constraints_def row_ok_def canonical_handle_def handle_char_def ascii_defs)

lemma demo_owner: "owner (storage demo_service) ''ada'' = Some ''a1''"
  by (simp add: owner_def row_with_handle_def demo_service_def demo_db_def)

theorem handles_permanent_witness:
  "owner (storage (fold (service_step reference_crates)
     [((\<lambda>_. True), Some [1], Register (replicate 32 4) None 8),
      ((\<lambda>k. k < 2), None, Command ''a1'' (replicate 32 3) (Command_ClaimHandle ''eve'') 9)]
     demo_service)) ''ada'' = Some ''a1''"
  using handles_permanent [OF demo_service_inv demo_owner] .

text \<open>
  C4. Uniqueness in every reachable state. After any run from a state with the invariant (a new
  database has it), no account has two handles, no handle has two accounts, no two accounts share
  a bound key, every stored handle is canonical, and an account with a bound key has a handle.
\<close>

theorem run_unique:
  assumes "service_inv s"
    and d_def: "d = storage (fold (service_step c) inputs s)"
  shows "(owner d h = Some a \<longrightarrow> owner d h' = Some a \<longrightarrow> h = h')
    \<and> (binding d a = Some k \<longrightarrow> binding d b = Some k \<longrightarrow> a = b)
    \<and> (owner d h = Some a \<longrightarrow> canonical_handle h)
    \<and> (binding d a \<noteq> None \<longrightarrow> (\<exists>h. owner d h = Some a))"
proof -
  have inv: "service_inv (fold (service_step c) inputs s)" using assms(1) by (rule svc.run_inv)
  then have st: "storage_inv d" and rows: "\<And>r. r \<in> set (accounts d) \<Longrightarrow> row_ok r"
    by (auto simp: service_inv_def d_def list_all_iff)
  have "h = h'" if "owner d h = Some a" "owner d h' = Some a"
  proof -
    from that obtain r r' where "r \<in> set (accounts d)" "a_id r = a" "a_handle r = Some h"
      "r' \<in> set (accounts d)" "a_id r' = a" "a_handle r' = Some h'"
      by (auto simp: owner_iff [OF st])
    then have "row_of a d = Some r" "row_of a d = Some r'" by (simp_all add: row_of_iff [OF st])
    with \<open>a_handle r = Some h\<close> \<open>a_handle r' = Some h'\<close> show ?thesis by simp
  qed
  moreover have "a = b" if "binding d a = Some k" "binding d b = Some k"
    using that pubkey_row_unique [OF st] by (auto simp: binding_iff [OF st])
  moreover have "canonical_handle h" if "owner d h = Some a"
    using that rows by (auto simp: owner_iff [OF st] row_ok_def)
  moreover have "\<exists>h. owner d h = Some a" if "binding d a \<noteq> None"
  proof -
    from that obtain k' where "binding d a = Some k'" by auto
    then obtain r where r: "r \<in> set (accounts d)" "a_id r = a" "a_nostr_pubkey r = Some k'"
      by (auto simp: binding_iff [OF st])
    with rows obtain h where "a_handle r = Some h" by (fastforce simp: row_ok_def)
    with r show ?thesis by (auto simp: owner_iff [OF st])
  qed
  ultimately show ?thesis by blast
qed

theorem run_unique_witness:
  "owner (storage (fold (service_step reference_crates) [] demo_service)) ''ada'' = Some ''a1''
   \<and> owner (storage (fold (service_step reference_crates) [] demo_service)) ''eve'' \<noteq> Some ''a1''
   \<and> canonical_handle ''ada''"
proof -
  have "owner (storage (fold (service_step reference_crates) [] demo_service)) ''ada'' = Some ''a1''"
    by (simp only: fold_simps demo_owner)
  moreover have "''ada'' \<noteq> ''eve''" by simp
  ultimately show ?thesis using run_unique [OF demo_service_inv refl] by blast
qed

section \<open>Who can change a binding\<close>

lemma remember_accepts_unused:
  assumes "remember_proof_nonce eng nonce aid now skew d = (Inr u, d')"
  shows "\<forall>r \<in> set (nonces d). n_nonce r = nonce \<longrightarrow> n_seen_at r < to_i64 (saturating_sub now skew)"
    and "\<exists>r \<in> set (nonces d'). n_nonce r = nonce \<and> n_seen_at r = to_i64 now"
  using assms
  by (force simp: remember_proof_nonce_def insert_nonce_def Let_def split: if_splits)+

definition nonce_unused :: "bytes \<Rightarrow> u64 \<Rightarrow> db \<Rightarrow> bool" where
  "nonce_unused nonce now d \<longleftrightarrow>
     (\<forall>r \<in> set (nonces d). n_nonce r = nonce \<longrightarrow>
        n_seen_at r < to_i64 (saturating_sub now NOSTR_PROOF_SKEW_SECONDS))"

lemma bind_changes_binding:
  assumes "service_inv s"
    and "service_bind_nostr c eng aid dev p_key p_nonce ts p_dsig p_nsig now s = (r, s')"
    and "binding (storage s') a \<noteq> binding (storage s) a"
  shows "a = aid \<and> (\<exists>dsig nsig h k nonce. binding (storage s') a = Some k
    \<and> hex_decode c p_key = Some k \<and> hex_decode c p_nonce = Some nonce
    \<and> bind_proof_ok c s aid dev ts now dsig nsig h k nonce \<and> nonce_unused nonce now (storage s))"
  using assms(2)
proof (cases rule: service_bind_nostr_cases)
  case (bound dsig nsig h k nonce eng' eng'' d1)
  from bound(4) have d1: "d1 = snd (remember_proof_nonce eng' nonce aid now
    NOSTR_PROOF_SKEW_SECONDS (storage s))" by simp
  have inv: "storage_inv d1" and same: "binding d1 = binding (storage s)"
    using assms(1) by (simp_all add: d1 service_inv_def remember_proof_nonce_inv fun_eq_iff)
  have len: "length k = 32" using bound(3) by (simp add: bind_proof_ok_def KEY_BYTES_def)
  obtain res d2 where res: "bind_nostr eng'' aid k d1 = (res, d2)" by fastforce
  show ?thesis
  proof (cases res)
    case (Inl e)
    with res have "binding d2 = binding d1"
      using bind_nostr_failed by (auto simp: binding_def row_of_def fun_eq_iff)
    with assms(3) bound(5) res same show ?thesis by simp
  next
    case (Inr u)
    with res have "binding d2 = (binding d1)(aid \<mapsto> k)" using binding_bind_nostr(1) [OF inv len] by blast
    with assms(3) bound(5) res same have "a = aid" "binding (storage s') a = Some k"
      by (auto split: if_splits)
    moreover have "nonce_unused nonce now (storage s)"
      using remember_accepts_unused(1) [OF bound(4)] by (simp add: nonce_unused_def)
    ultimately show ?thesis using bound(1-3) by blast
  qed
qed (use assms(3) in auto)

lemma unbind_changes_binding:
  assumes "service_inv s"
    and "service_unbind_nostr c eng aid dev p_nonce ts p_dsig now s = (r, s')"
    and "binding (storage s') a \<noteq> binding (storage s) a"
  shows "a = aid \<and> binding (storage s') a = None \<and> (\<exists>dsig h bound nonce.
    hex_decode c p_nonce = Some nonce
    \<and> unbind_proof_ok c s aid dev ts now dsig h bound nonce \<and> nonce_unused nonce now (storage s))"
  using assms(2) service_inv_storage [OF assms(1)]
proof (cases rule: service_unbind_nostr_cases)
  case (unbound dsig h bound nonce eng' eng'' d1)
  from unbound(3) have d1: "d1 = snd (remember_proof_nonce eng' nonce aid now
    NOSTR_PROOF_SKEW_SECONDS (storage s))" by simp
  have same: "binding d1 = binding (storage s)" by (simp add: d1 fun_eq_iff)
  with binding_unbind_nostr [of eng'' aid d1] unbound(4) assms(3)
  have "a = aid" "binding (storage s') a = None" by (auto split: if_splits)
  moreover have "nonce_unused nonce now (storage s)"
    using remember_accepts_unused(1) [OF unbound(3)] by (simp add: nonce_unused_def)
  ultimately show ?thesis using unbound(1,2) by blast
qed (use assms(3) in auto)

lemma call_changes_binding:
  assumes "call c eng random req s = (r, s')" and "binding (storage s') a \<noteq> binding (storage s) a"
  obtains (bind) aid dev now key nonce ts dsig nsig
    where "req = Command aid dev (Command_BindNostr key nonce ts dsig nsig) now"
      "service_bind_nostr c eng aid dev key nonce ts dsig nsig now s = (r, s')"
  | (unbind) aid dev now nonce ts dsig
    where "req = Command aid dev (Command_UnbindNostr nonce ts dsig) now"
      "service_unbind_nostr c eng aid dev nonce ts dsig now s = (r, s')"
proof -
  from assms have handled: "handle c eng random req s = (r, s')"
    by (auto simp: call_def split: if_splits)
  show ?thesis
  proof (cases req)
    case (Register k name now)
    with handled have reg: "register c eng random k name now s = (r, s')" by (simp add: handle_def)
    have "binding (storage s') a = binding (storage s) a"
      if "create_account c (\<lambda>i. eng (i + 1)) random k n now (storage s) = (Inr acc, storage s')"
      for n acc
      using binding_create_account [of c "\<lambda>i. eng (i + 1)" random k n now "storage s" a]
      by (simp only: that snd_conv)
    with register_storage [OF reg] assms(2) show ?thesis by (elim disjE exE) (simp, simp, blast)
  next
    case (Command aid dev cmd now)
    with handled have cmd: "command c eng aid dev cmd now s = (r, s')" by (simp add: handle_def)
    show ?thesis
    proof (cases cmd)
      case (Command_ClaimHandle v)
      have "binding (storage s') a = binding (storage s) a"
        if "claim_handle eng aid h (storage s) = (Inr (), storage s')" for h
        using binding_claim_handle [of eng aid h "storage s" a] by (simp only: that snd_conv)
      with claim_storage [OF cmd [unfolded Command_ClaimHandle]] assms(2) show ?thesis
        by (elim disjE exE conjE) (simp, blast)
    qed (use cmd assms(2) Command bind unbind in \<open>simp_all add: command_def\<close>)
  qed (use handled assms(2) in \<open>auto simp: handle_def\<close>)
qed

text \<open>
  C5. Bindings change only on the owner's signed proof. If a call changes the Nostr key bound to
  an account, then the request was a bind or an unbind command of that very account; its nonce was
  not used within the freshness window and its timestamp is fresh; the device key signed the
  transcript that names this server, account, handle, key, nonce and timestamp; and for a new
  binding the Nostr key being bound signed the same transcript.
\<close>

theorem binding_changes_authorised:
  assumes "service_inv s" and "call c eng random req s = (r, s')"
    and "binding (storage s') a \<noteq> binding (storage s) a"
  shows "(\<exists>dev p_key p_nonce ts p_dsig p_nsig now dsig nsig h k nonce.
      req = Command a dev (Command_BindNostr p_key p_nonce ts p_dsig p_nsig) now
      \<and> binding (storage s') a = Some k
      \<and> bind_proof_ok c s a dev ts now dsig nsig h k nonce \<and> nonce_unused nonce now (storage s))
    \<or> (\<exists>dev p_nonce ts p_dsig now dsig h bound nonce.
      req = Command a dev (Command_UnbindNostr p_nonce ts p_dsig) now
      \<and> binding (storage s') a = None
      \<and> unbind_proof_ok c s a dev ts now dsig h bound nonce \<and> nonce_unused nonce now (storage s))"
  using assms(2,3)
proof (cases rule: call_changes_binding)
  case (bind aid dev now key nonce ts dsig nsig)
  from bind_changes_binding [OF assms(1) bind(2) assms(3)] obtain dsig' nsig' h k nonce' where
    a: "a = aid" and p: "binding (storage s') a = Some k"
      "bind_proof_ok c s aid dev ts now dsig' nsig' h k nonce'" "nonce_unused nonce' now (storage s)"
    by blast
  show ?thesis
    by (rule disjI1, intro exI conjI) (rule bind(1) [folded a], rule p, rule p(2) [folded a], rule p)
next
  case (unbind aid dev now nonce ts dsig)
  from unbind_changes_binding [OF assms(1) unbind(2) assms(3)] obtain dsig' h k nonce' where
    a: "a = aid" and p: "binding (storage s') a = None"
      "unbind_proof_ok c s aid dev ts now dsig' h k nonce'" "nonce_unused nonce' now (storage s)"
    by blast
  show ?thesis
    by (rule disjI2, intro exI conjI) (rule unbind(1) [folded a], rule p, rule p(2) [folded a], rule p)
qed

text \<open>The converse: when SQLite works, every such proof for a free key is accepted.\<close>

lemma account_constraints_bind:
  assumes "storage_inv d" and "length k = 32" and "\<And>b. binding d b = Some k \<Longrightarrow> b = aid"
  shows "account_constraints
    (map (\<lambda>r. if a_id r = aid then r\<lparr>a_nostr_pubkey := Some k\<rparr> else r) (accounts d))"
proof -
  let ?upd = "\<lambda>r. if a_id r = aid then r\<lparr>a_nostr_pubkey := Some k\<rparr> else r"
  have ids: "map a_id (map ?upd xs) = map a_id xs" for xs by auto
  have handles: "handles (map ?upd xs) = handles xs" for xs
    by (induction xs) (auto split: option.splits)
  have keys: "distinct (pubkeys (map ?upd xs))"
    if "distinct (map a_id xs)" "distinct (pubkeys xs)"
      "\<And>r. r \<in> set xs \<Longrightarrow> a_nostr_pubkey r = Some k \<Longrightarrow> a_id r = aid" for xs
    using that
  proof (induction xs)
    case (Cons x xs)
    have IH: "distinct (pubkeys (map ?upd xs))" using Cons by (auto split: option.splits)
    show ?case
    proof (cases "a_id x = aid")
      case True
      with Cons.prems(1) have other: "\<And>y. y \<in> set xs \<Longrightarrow> a_id y \<noteq> aid" by (metis distinct.simps(2) image_eqI list.simps(9) set_map)
      then have "map ?upd xs = xs" by (intro map_idI) simp
      moreover have "k \<notin> set (pubkeys xs)" using Cons.prems(3) other by auto
      moreover have "distinct (pubkeys xs)" using Cons.prems(2) by (auto split: option.splits)
      ultimately show ?thesis using True by simp
    next
      case False
      then have "y \<notin> set (pubkeys (map ?upd xs))" if "a_nostr_pubkey x = Some y" for y
        using that Cons.prems by (fastforce split: if_splits option.splits)
      with False IH show ?thesis by (simp split: option.splits)
    qed
  qed simp
  have "a_id r = aid" if "r \<in> set (accounts d)" "a_nostr_pubkey r = Some k" for r
    using that assms(1,3) by (auto simp: binding_iff)
  with assms(1) show ?thesis
    unfolding account_constraints_def ids handles
    using keys [of "accounts d"] by (simp add: storage_inv_def account_constraints_def)
qed

lemma remember_accepts:
  assumes "\<And>i. eng i" and "nonce_unused nonce now d"
  shows "fst (remember_proof_nonce eng nonce aid now NOSTR_PROOF_SKEW_SECONDS d) = Inr ()"
  using assms by (auto simp: remember_proof_nonce_def insert_nonce_def nonce_unused_def Let_def)

lemma bind_nostr_accepts:
  assumes "\<And>i. eng i" and "storage_inv d" and "length k = 32" and "row_of aid d \<noteq> None"
    and "\<And>b. binding d b = Some k \<Longrightarrow> b = aid"
  shows "fst (bind_nostr eng aid k d) = Inr ()"
proof -
  have "filter (\<lambda>a. a_id a = aid) (accounts d) \<noteq> []"
    using assms(4) by (auto simp: row_of_def find_None_set filter_empty_conv)
  then show ?thesis
    using assms(1) account_constraints_bind [OF assms(2,3,5)]
    by (simp add: bind_nostr_def update_accounts_def Let_def)
qed

lemma bind_accepts:
  assumes inv: "service_inv s" and eng: "\<And>i. eng i" and proof_ok: "bind_proof_ok c s aid dev ts now dsig nsig h k nonce"
    and hex: "hex_decode c p_key = Some k" "hex_decode c p_nonce = Some nonce"
      "hex_decode c p_dsig = Some dsig" "hex_decode c p_nsig = Some nsig"
    and keys: "ed_key_ok c dev" "schnorr_key_ok c k" "schnorr_sig_ok c nsig"
      "length dsig = SIGNATURE_BYTES" "length nsig = SIGNATURE_BYTES"
    and npub: "npub_from_public_key c k = Inr npub"
    and fresh: "nonce_unused nonce now (storage s)"
    and free: "\<And>b. binding (storage s) b = Some k \<Longrightarrow> b = aid"
  shows "\<exists>s'. service_bind_nostr c eng aid dev p_key p_nonce ts p_dsig p_nsig now s = (Inr (the (binding_json c h k)), s')
    \<and> binding (storage s') aid = Some k \<and> stopped s' = stopped s \<and> config s' = config s"
proof -
  let ?rem = "remember_proof_nonce (\<lambda>i. eng (i + 1)) nonce aid now NOSTR_PROOF_SKEW_SECONDS (storage s)"
  obtain row where row: "row_of aid (storage s) = Some row" "a_handle row = Some h"
    using proof_ok by (auto simp: bind_proof_ok_def)
  obtain d1 where rem: "?rem = (Inr (), d1)"
    using remember_accepts [of "\<lambda>i. eng (i + 1)", OF eng fresh, of aid] by (cases ?rem) auto
  have d1: "storage_inv d1" "binding d1 = binding (storage s)" "row_of aid d1 = row_of aid (storage s)"
    using rem inv remember_proof_nonce_inv [of "storage s" "\<lambda>i. eng (i + 1)" nonce aid now NOSTR_PROOF_SKEW_SECONDS]
      binding_remember_nonce [of "\<lambda>i. eng (i + 1)" nonce aid now NOSTR_PROOF_SKEW_SECONDS "storage s"]
      row_of_remember [of aid "\<lambda>i. eng (i + 1)" nonce aid now NOSTR_PROOF_SKEW_SECONDS "storage s"]
    by (auto simp: service_inv_def fun_eq_iff simp del: binding_remember_nonce row_of_remember)
  have len: "length k = 32" using proof_ok by (simp add: bind_proof_ok_def KEY_BYTES_def)
  obtain d2 where bound: "bind_nostr (\<lambda>i. eng (i + 3)) aid k d1 = (Inr (), d2)"
    using bind_nostr_accepts [of "\<lambda>i. eng (i + 3)" d1 k aid] eng d1 len row free
    by (cases "bind_nostr (\<lambda>i. eng (i + 3)) aid k d1") auto
  have "binding d2 aid = Some k" using binding_bind_nostr(1) [OF d1(1) len bound] by simp
  then show ?thesis
    using proof_ok hex keys npub row rem bound eng
    by (simp add: service_bind_nostr_def service_account_def account_eq row_account_def
        decode_nostr_key_def decode_key_def decode_signature_def bind_proof_ok_def verify_device_def
        verify_nostr_def Let_def binding_json_def del: One_nat_def)
qed

section \<open>A concrete binding\<close>

definition demo_transcript :: "u64 \<Rightarrow> bytes" where
  "demo_transcript ts = nostr_bind_transcript (replicate 32 9) ''a1'' ''ada'' (replicate 32 5)
     (replicate 32 6) ts"

definition demo_bind :: "u64 \<Rightarrow> hosted_command" where
  "demo_bind ts = Command_BindNostr (hex_string (replicate 32 5)) (hex_string (replicate 32 6)) ts
     (hex_string (stamp (replicate 32 3) (demo_transcript ts)))
     (hex_string (stamp (replicate 32 5) (demo_transcript ts)))"

abbreviation demo_call :: "u64 \<Rightarrow> u64 \<Rightarrow> service \<Rightarrow> (server_error + json) \<times> service" where
  "demo_call ts now s \<equiv>
     call reference_crates (\<lambda>_. True) None (Command ''a1'' (replicate 32 3) (demo_bind ts) now) s"

lemma demo_binding: "binding (storage demo_service) a = None"
  by (simp add: binding_def row_of_def demo_service_def demo_db_def)

lemma demo_proof_ok:
  assumes "fresh_timestamp ts now = Inr ()"
  shows "bind_proof_ok reference_crates demo_service ''a1'' (replicate 32 3) ts now
    (stamp (replicate 32 3) (demo_transcript ts)) (stamp (replicate 32 5) (demo_transcript ts))
    ''ada'' (replicate 32 5) (replicate 32 6)"
  using assms
  by (simp add: bind_proof_ok_def reference_crates_def demo_transcript_def demo_service_def
      fresh_service_def demo_db_def row_of_def KEY_BYTES_def)

lemma demo_call_ok:
  assumes "fresh_timestamp ts now = Inr ()"
  shows "\<exists>s'. demo_call ts now demo_service
      = (Inr (the (binding_json reference_crates ''ada'' (replicate 32 5))), s')
    \<and> binding (storage s') ''a1'' = Some (replicate 32 5)"
proof -
  have hex: "hex_decode reference_crates (hex_string bs) = Some bs" for bs
    by (simp add: reference_crates_def hex_parse_string)
  have "\<not> stopped demo_service" by (simp add: demo_service_def fresh_service_def)
  moreover have "nonce_unused n now (storage demo_service)" for n
    by (simp add: nonce_unused_def demo_service_def demo_db_def empty_db_def)
  moreover have "npub_from_public_key reference_crates (replicate 32 5)
      = Inr (''npub1'' @ hex_string (replicate 32 5))"
    by (simp add: npub_from_public_key_def encode_key_def reference_crates_def)
  ultimately show ?thesis
    using bind_accepts [OF demo_service_inv _ demo_proof_ok [OF assms] hex hex hex hex,
        where eng = "\<lambda>_. True"]
    by (auto simp: call_def handle_def command_def demo_bind_def reference_crates_def length_stamp
        SIGNATURE_BYTES_def demo_binding)
qed

theorem binding_changes_authorised_witness:
  "binding (storage (snd (demo_call 1000 1000 demo_service))) ''a1'' = Some (replicate 32 5)
   \<and> binding (storage demo_service) ''a1'' = None
   \<and> (\<exists>dsig nsig h k nonce. bind_proof_ok reference_crates demo_service ''a1'' (replicate 32 3)
        1000 1000 dsig nsig h k nonce)"
proof -
  have "fresh_timestamp 1000 1000 = Inr ()"
    by (simp add: fresh_timestamp_def NOSTR_PROOF_SKEW_SECONDS_def u64_arith)
  then obtain s' where call: "demo_call 1000 1000 demo_service
      = (Inr (the (binding_json reference_crates ''ada'' (replicate 32 5))), s')"
    and bound: "binding (storage s') ''a1'' = Some (replicate 32 5)"
    using demo_call_ok by blast
  have "binding (storage s') ''a1'' \<noteq> binding (storage demo_service) ''a1''"
    using bound demo_binding by simp
  from binding_changes_authorised [OF demo_service_inv call this] bound
  have "\<exists>dsig nsig h k nonce. bind_proof_ok reference_crates demo_service ''a1'' (replicate 32 3)
      1000 1000 dsig nsig h k nonce"
    by (auto simp: demo_bind_def) blast
  with call bound demo_binding show ?thesis by simp
qed

section \<open>Replays\<close>

definition seen :: "bytes \<Rightarrow> u64 \<Rightarrow> db \<Rightarrow> bool" where
  "seen nonce t d \<longleftrightarrow> (\<exists>r \<in> set (nonces d). n_nonce r = nonce \<and> n_seen_at r = to_i64 t)"

fun request_time :: "service_request \<Rightarrow> u64 option" where
  "request_time (Register _ _ now) = Some now"
| "request_time (Command _ _ _ now) = Some now"
| "request_time _ = None"

lemma to_i64_mono: "a \<le> b \<Longrightarrow> to_i64 a \<le> to_i64 b"
  by (auto simp: to_i64_def word_le_def)

lemma nonces_same [simp]:
  "nonces (snd (update_accounts ok cond upd d)) = nonces d"
  "nonces (snd (touch_device eng k now d)) = nonces d"
  "nonces (snd (bind_nostr eng aid k d)) = nonces d"
  "nonces (snd (unbind_nostr eng aid d)) = nonces d"
  by (simp_all add: update_accounts_def touch_device_def bind_nostr_state unbind_nostr_state Let_def)

lemma nonces_claim [simp]: "nonces (snd (claim_handle eng aid h d)) = nonces d"
  using claim_handle_state [of eng aid h d] by (elim disjE) simp_all

lemma nonces_create: "create_account c eng random k n now d = (r, d') \<Longrightarrow> nonces d' = nonces d"
  by (auto simp: create_account_def insert_account_def insert_device_def exec_def
      split: sum.splits if_splits)

lemma remember_keeps_seen:
  assumes "seen nonce t d" and "saturating_sub now skew \<le> t"
  shows "seen nonce t (snd (remember_proof_nonce eng n aid now skew d))"
  using assms to_i64_mono [OF assms(2)]
  by (fastforce simp: seen_def remember_proof_nonce_def insert_nonce_def Let_def)

lemma command_keeps_seen:
  assumes "service_inv s" and "seen nonce t (storage s)"
    and "saturating_sub now NOSTR_PROOF_SKEW_SECONDS \<le> t"
    and cmd: "command c eng aid dev cmd now s = (r, s')"
  shows "seen nonce t (storage s')"
proof (cases cmd)
  case (Command_ClaimHandle v)
  have "nonces (storage s') = nonces (storage s)"
    if "claim_handle eng aid h (storage s) = (Inr (), storage s')" for h
    using nonces_claim [of eng aid h "storage s"] by (simp only: that snd_conv)
  with claim_storage [OF cmd [unfolded Command_ClaimHandle]] assms(2) show ?thesis
    by (auto simp: seen_def)
next
  case (Command_BindNostr key n ts dsig nsig)
  with cmd have "service_bind_nostr c eng aid dev key n ts dsig nsig now s = (r, s')"
    by (simp add: command_def)
  then show ?thesis
  proof (cases rule: service_bind_nostr_cases)
    case (bound dsig nsig h k nonce' eng' eng'' d1)
    then have "seen nonce t d1"
      using remember_keeps_seen [OF assms(2,3), of eng' nonce' aid] by simp
    with bound(5) show ?thesis by (simp add: seen_def)
  qed (use assms(2) remember_keeps_seen [OF assms(2,3)] in auto)
next
  case (Command_UnbindNostr n ts dsig)
  with cmd have "service_unbind_nostr c eng aid dev n ts dsig now s = (r, s')"
    by (simp add: command_def)
  then show ?thesis
    using service_inv_storage [OF assms(1)]
  proof (cases rule: service_unbind_nostr_cases)
    case (unbound dsig h k nonce' eng' eng'' d1)
    then have "seen nonce t d1"
      using remember_keeps_seen [OF assms(2,3), of eng' nonce' aid] by simp
    with unbound(4) show ?thesis by (simp add: seen_def)
  qed (use assms(2) remember_keeps_seen [OF assms(2,3)] in auto)
qed (use cmd assms(2) in \<open>auto simp: command_def\<close>)

lemma step_keeps_seen:
  assumes "service_inv s" and "seen nonce t (storage s)"
    and "\<And>now. request_time (snd (snd i)) = Some now \<Longrightarrow>
           saturating_sub now NOSTR_PROOF_SKEW_SECONDS \<le> t"
  shows "seen nonce t (storage (service_step c i s))"
proof (cases i)
  case (fields eng random req)
  obtain r s' where call: "call c eng random req s = (r, s')" by fastforce
  have "seen nonce t (storage s')"
  proof (cases req)
    case (Register k name now)
    with call have "s' = s \<or> register c eng random k name now s = (r, s')"
      by (auto simp: call_def handle_def split: if_splits)
    then have "nonces (storage s') = nonces (storage s)"
      using register_storage [of c eng random k name now s r s'] nonces_create by auto
    with assms(2) show ?thesis by (simp add: seen_def)
  next
    case (Command aid dev cmd now)
    with call have "s' = s \<or> command c eng aid dev cmd now s = (r, s')"
      by (auto simp: call_def handle_def split: if_splits)
    moreover have "saturating_sub now NOSTR_PROOF_SKEW_SECONDS \<le> t"
      using assms(3) fields Command by simp
    ultimately show ?thesis using command_keeps_seen [OF assms(1,2)] assms(2) by blast
  qed (use call assms(2) in \<open>auto simp: call_def handle_def split: if_splits\<close>)
  with fields call show ?thesis by (simp add: service_step_def)
qed

lemma run_keeps_seen:
  assumes "service_inv s" and "seen nonce t (storage s)"
    and "\<And>i now. i \<in> set inputs \<Longrightarrow> request_time (snd (snd i)) = Some now \<Longrightarrow>
           saturating_sub now NOSTR_PROOF_SKEW_SECONDS \<le> t"
  shows "seen nonce t (storage (fold (service_step c) inputs s))"
  using assms
proof (induction inputs arbitrary: s)
  case (Cons i inputs)
  have "seen nonce t (storage (service_step c i s))"
    by (rule step_keeps_seen [OF Cons.prems(1,2)]) (rule Cons.prems(3) [of i], simp_all)
  then have "seen nonce t (storage (fold (service_step c) inputs (service_step c i s)))"
    by (rule Cons.IH [OF svc.inv_step [OF Cons.prems(1)]]) (rule Cons.prems(3), simp_all)
  then show ?case by simp
qed simp

text \<open>What an accepted binding has checked and done.\<close>

lemma bind_ok_elim:
  assumes "service_bind_nostr c eng aid dev p_key p_nonce ts p_dsig p_nsig now s = (Inr j, s')"
  obtains dsig nsig h k nonce npub d1 where
    "hex_decode c p_key = Some k" "hex_decode c p_nonce = Some nonce"
    "hex_decode c p_dsig = Some dsig" "hex_decode c p_nsig = Some nsig"
    "bind_proof_ok c s aid dev ts now dsig nsig h k nonce"
    "ed_key_ok c dev" "schnorr_key_ok c k" "schnorr_sig_ok c nsig"
    "length dsig = SIGNATURE_BYTES" "length nsig = SIGNATURE_BYTES"
    "npub_from_public_key c k = Inr npub" "j = the (binding_json c h k)"
    "fst (remember_proof_nonce (\<lambda>i. eng (i + 1)) nonce aid now NOSTR_PROOF_SKEW_SECONDS
       (storage s)) = Inr ()"
    "d1 = snd (remember_proof_nonce (\<lambda>i. eng (i + 1)) nonce aid now NOSTR_PROOF_SKEW_SECONDS
       (storage s))"
    "fst (bind_nostr (\<lambda>i. eng (i + 3)) aid k d1) = Inr ()"
    "storage s' = snd (bind_nostr (\<lambda>i. eng (i + 3)) aid k d1)"
    "stopped s' = stopped s" "config s' = config s"
proof -
  note [simp] = bind_proof_ok_def service_account_def account_eq decode_nostr_key_def
    decode_key_Inr decode_signature_Inr verify_device_def verify_nostr_Inr row_account_def Let_def
    binding_json_def then_st_Inr
  show ?thesis
    using assms unfolding service_bind_nostr_def
    by (auto split: if_splits option.splits sum.splits intro: that)
qed

lemma accepted_is_seen:
  assumes "call c eng random (Command aid dev (Command_BindNostr p_key p_nonce ts p_dsig p_nsig) now) s
      = (Inr j, s')"
  obtains nonce where "hex_decode c p_nonce = Some nonce" "fresh_timestamp ts now = Inr ()"
    "nonce_unused nonce now (storage s)" "seen nonce now (storage s')"
proof -
  from assms have "service_bind_nostr c eng aid dev p_key p_nonce ts p_dsig p_nsig now s = (Inr j, s')"
    by (auto simp: call_def handle_def command_def split: if_splits)
  then show ?thesis
  proof (rule bind_ok_elim)
    fix dsig nsig h k nonce npub d1
    assume nonce: "hex_decode c p_nonce = Some nonce"
      and ok: "bind_proof_ok c s aid dev ts now dsig nsig h k nonce"
      and rem: "fst (remember_proof_nonce (\<lambda>i. eng (i + 1)) nonce aid now
        NOSTR_PROOF_SKEW_SECONDS (storage s)) = Inr ()"
      and d1: "d1 = snd (remember_proof_nonce (\<lambda>i. eng (i + 1)) nonce aid now
        NOSTR_PROOF_SKEW_SECONDS (storage s))"
      and st: "storage s' = snd (bind_nostr (\<lambda>i. eng (i + 3)) aid k d1)"
    from rem d1 have "remember_proof_nonce (\<lambda>i. eng (i + 1)) nonce aid now
      NOSTR_PROOF_SKEW_SECONDS (storage s) = (Inr (), d1)" by (simp add: prod_eq_iff)
    from remember_accepts_unused [OF this] have "nonce_unused nonce now (storage s)" "seen nonce now d1"
      by (auto simp: nonce_unused_def seen_def)
    with nonce ok st show thesis by (intro that) (auto simp: bind_proof_ok_def seen_def)
  qed
qed

text \<open>
  C6. An accepted binding proof is not accepted twice, provided its timestamp was not in the
  future. If a proof dated at or before the server's clock was accepted at \<open>now1\<close>, then after any
  further requests a bind command with the same nonce and timestamp is refused at every later
  time \<open>now2\<close>, as long as the clock readings of the requests in between are not beyond \<open>now2\<close>:
  within the window the recorded nonce refuses it, after the window its timestamp does.
\<close>

theorem replay_rejected:
  assumes inv: "service_inv s"
    and first: "call c eng random
      (Command aid dev (Command_BindNostr key nonce ts dsig nsig) now1) s = (Inr j, s1)"
    and past: "ts \<le> now1"
    and clock: "\<And>i t. i \<in> set inputs \<Longrightarrow> request_time (snd (snd i)) = Some t \<Longrightarrow> t \<le> now2"
  shows "isl (fst (call c eng' random'
      (Command aid' dev' (Command_BindNostr key' nonce ts dsig' nsig') now2)
      (fold (service_step c) inputs s1)))"
proof (rule ccontr)
  assume "\<not> ?thesis"
  then obtain j' s2 where second: "call c eng' random'
      (Command aid' dev' (Command_BindNostr key' nonce ts dsig' nsig') now2)
      (fold (service_step c) inputs s1) = (Inr j', s2)"
    by (metis isl_def old.sum.exhaust prod.collapse)
  from first obtain n where n: "hex_decode c nonce = Some n" and seen: "seen n now1 (storage s1)"
    by (rule accepted_is_seen)
  from second n have unused: "nonce_unused n now2 (storage (fold (service_step c) inputs s1))"
    and fresh: "fresh_timestamp ts now2 = Inr ()"
    by (metis accepted_is_seen option.inject)+
  have "service_inv s1" using call_inv [OF inv] first by (metis snd_conv)
  have "saturating_sub now2 NOSTR_PROOF_SKEW_SECONDS \<le> ts"
    using fresh by (simp add: fresh_timestamp_def Let_def split: if_splits)
  with past have low: "saturating_sub now2 NOSTR_PROOF_SKEW_SECONDS \<le> now1" by simp
  have "saturating_sub t NOSTR_PROOF_SKEW_SECONDS \<le> now1" if "t \<le> now2" for t
    using that low by (simp add: u64_arith)
  then have "seen n now1 (storage (fold (service_step c) inputs s1))"
    using run_keeps_seen [OF \<open>service_inv s1\<close> seen] clock by blast
  with unused to_i64_mono [OF low] show False by (auto simp: seen_def nonce_unused_def)
qed

theorem replay_rejected_witness:
  "isl (fst (demo_call 1000 1300 (fold (service_step reference_crates)
     [((\<lambda>_. True), None, Nip05 ''ada'')] (snd (demo_call 1000 1000 demo_service)))))"
proof -
  have "fresh_timestamp 1000 1000 = Inr ()"
    by (simp add: fresh_timestamp_def NOSTR_PROOF_SKEW_SECONDS_def u64_arith)
  then obtain j s1 where first: "demo_call 1000 1000 demo_service = (Inr j, s1)"
    using demo_call_ok by blast
  show ?thesis
    unfolding demo_bind_def first [unfolded demo_bind_def] snd_conv
    by (rule replay_rejected [OF demo_service_inv first [unfolded demo_bind_def] order_refl]) auto
qed

lemma remember_only_new:
  assumes "remember_proof_nonce eng nonce aid now skew d = (Inr u, d')"
  shows "\<forall>r \<in> set (nonces d'). n_nonce r = nonce \<longrightarrow> n_seen_at r = to_i64 now"
proof -
  let ?kept = "filter (\<lambda>r. \<not> n_seen_at r < to_i64 (saturating_sub now skew)) (nonces d)"
  let ?new = "\<lparr>n_nonce = nonce, n_account_id = aid, n_seen_at = to_i64 now\<rparr>"
  from assms have rows: "nonces d' = ?kept @ [?new]" and new: "nonce \<notin> set (map n_nonce ?kept)"
    by (auto simp: remember_proof_nonce_def insert_nonce_def Let_def split: if_splits)
  have one: "\<forall>r \<in> set (xs @ [x]). n_nonce r = nonce \<longrightarrow> n_seen_at r = to_i64 now"
    if "nonce \<notin> set (map n_nonce xs)" "n_seen_at x = to_i64 now" for xs and x :: nonce_row
    using that by auto
  show ?thesis unfolding rows by (rule one [OF new]) simp
qed

lemma to_i64_less: "a < b \<Longrightarrow> unat b < 2 ^ 63 \<Longrightarrow> to_i64 a < to_i64 b"
proof -
  assume "a < b" "unat b < 2 ^ 63"
  then have "uint b < 2 ^ 63" by (metis of_nat_less_iff of_nat_numeral of_nat_power of_nat_unat)
  with \<open>a < b\<close> show "to_i64 a < to_i64 b" by (simp add: to_i64_def word_less_def)
qed

text \<open>
  C7. The same protection does not cover proofs dated in the future. A proof accepted at \<open>now1\<close> with
  a timestamp ahead of the clock is accepted again, with the same reply, at every \<open>now2\<close> after
  \<open>now1 + 300\<close> and up to 300 seconds after its timestamp: its nonce has been purged while its
  timestamp is still fresh. (The comment on \<open>remember_proof_nonce\<close> says that the timestamp check
  rejects a late replay.)
\<close>

theorem future_proof_replayable:
  assumes inv: "service_inv s" and eng: "\<And>i. eng i"
    and first: "call c eng random
      (Command aid dev (Command_BindNostr p_key p_nonce ts p_dsig p_nsig) now1) s = (Inr j, s1)"
    and late: "unat now1 + 300 < unat now2" and within: "unat now2 \<le> unat ts + 300"
    and ahead: "ts \<le> now2" and small: "unat now2 < 2 ^ 63"
  shows "\<exists>s2. call c eng random
      (Command aid dev (Command_BindNostr p_key p_nonce ts p_dsig p_nsig) now2) s1 = (Inr j, s2)"
proof -
  have running: "\<not> stopped s"
    and bind: "service_bind_nostr c eng aid dev p_key p_nonce ts p_dsig p_nsig now1 s = (Inr j, s1)"
    using first by (auto simp: call_def handle_def command_def split: if_splits)
  from bind show ?thesis
  proof (rule bind_ok_elim)
    fix dsig nsig h k nonce npub d1
    assume hex: "hex_decode c p_key = Some k" "hex_decode c p_nonce = Some nonce"
        "hex_decode c p_dsig = Some dsig" "hex_decode c p_nsig = Some nsig"
      and ok: "bind_proof_ok c s aid dev ts now1 dsig nsig h k nonce"
      and keys: "ed_key_ok c dev" "schnorr_key_ok c k" "schnorr_sig_ok c nsig"
        "length dsig = SIGNATURE_BYTES" "length nsig = SIGNATURE_BYTES"
      and npub: "npub_from_public_key c k = Inr npub" and j: "j = the (binding_json c h k)"
      and rem: "fst (remember_proof_nonce (\<lambda>i. eng (i + 1)) nonce aid now1
        NOSTR_PROOF_SKEW_SECONDS (storage s)) = Inr ()"
      and d1: "d1 = snd (remember_proof_nonce (\<lambda>i. eng (i + 1)) nonce aid now1
        NOSTR_PROOF_SKEW_SECONDS (storage s))"
      and bound: "fst (bind_nostr (\<lambda>i. eng (i + 3)) aid k d1) = Inr ()"
      and st: "storage s1 = snd (bind_nostr (\<lambda>i. eng (i + 3)) aid k d1)"
      and cfg: "stopped s1 = stopped s" "config s1 = config s"
    have inv1: "service_inv s1" using bind_inv [OF inv bind] .
    have remembered: "remember_proof_nonce (\<lambda>i. eng (i + 1)) nonce aid now1
        NOSTR_PROOF_SKEW_SECONDS (storage s) = (Inr (), d1)"
      using rem d1 by (simp add: prod_eq_iff)
    have inv_d1: "storage_inv d1"
      using inv by (simp add: d1 service_inv_def remember_proof_nonce_inv)
    have len: "length k = 32" using ok by (simp add: bind_proof_ok_def KEY_BYTES_def)
    have bound': "bind_nostr (\<lambda>i. eng (i + 3)) aid k d1 = (Inr (), storage s1)"
      using bound st by (simp add: prod_eq_iff)
    note key = binding_bind_nostr [OF inv_d1 len bound']
    have owner: "owner (storage s1) = owner (storage s)" by (simp add: st d1 fun_eq_iff)
    have "owner (storage s) h = Some aid"
      using ok service_inv_storage [OF inv] by (auto simp: bind_proof_ok_def owner_iff row_of_iff)
    then have "owner (storage s1) h = Some aid" by (simp add: owner)
    then have row: "\<exists>r. row_of aid (storage s1) = Some r \<and> a_handle r = Some h"
      by (simp add: owner_iff [OF service_inv_storage [OF inv1]]
          row_of_iff [OF service_inv_storage [OF inv1]])
    have fresh: "fresh_timestamp ts now2 = Inr ()"
      using within ahead unat_u64_bound [of ts]
      by (auto simp: fresh_timestamp_def NOSTR_PROOF_SKEW_SECONDS_def Let_def u64_arith)
    have "now1 < saturating_sub now2 NOSTR_PROOF_SKEW_SECONDS"
      "unat (saturating_sub now2 NOSTR_PROOF_SKEW_SECONDS) < 2 ^ 63"
      using late small by (simp_all add: NOSTR_PROOF_SKEW_SECONDS_def u64_arith)
    then have "to_i64 now1 < to_i64 (saturating_sub now2 NOSTR_PROOF_SKEW_SECONDS)"
      by (rule to_i64_less)
    then have unused: "nonce_unused nonce now2 (storage s1)"
      using remember_only_new [OF remembered] st by (auto simp: nonce_unused_def)
    have ok1: "bind_proof_ok c s1 aid dev ts now2 dsig nsig h k nonce"
      using ok row fresh cfg by (simp add: bind_proof_ok_def)
    have "b = aid" if "binding (storage s1) b = Some k" for b
      using that key(1,2) by (auto split: if_splits)
    from bind_accepts [where eng = eng, OF inv1 eng ok1 hex keys npub unused this] j running cfg show ?thesis
      by (auto simp: call_def handle_def command_def)
  qed
qed

theorem future_proof_replayable_witness:
  "\<exists>j s2. fst (demo_call 1300 1000 demo_service) = Inr j
    \<and> demo_call 1300 1400 (snd (demo_call 1300 1000 demo_service)) = (Inr j, s2)"
proof -
  have "fresh_timestamp 1300 1000 = Inr ()"
    by (simp add: fresh_timestamp_def NOSTR_PROOF_SKEW_SECONDS_def u64_arith)
  then obtain j s1 where first: "demo_call 1300 1000 demo_service = (Inr j, s1)"
    using demo_call_ok by blast
  have "\<exists>s2. demo_call 1300 1400 s1 = (Inr j, s2)"
    unfolding demo_bind_def
    by (rule future_proof_replayable [OF demo_service_inv _ first [unfolded demo_bind_def]])
      (simp_all add: word_le_nat_alt)
  with first show ?thesis by simp
qed

end
