(* ===== verification/Server_Lookup.thy ===== *)
theory Server_Lookup
  imports Server_Properties
begin

text \<open>
  The public NIP-05 lookup against the directory, the identity of a returning device, and opening
  a database: the key check and the migration.
\<close>

section \<open>NIP-05 lookup\<close>

definition nip05_document :: "crates \<Rightarrow> service_config \<Rightarrow> string \<Rightarrow> bytes \<Rightarrow> json" where
  "nip05_document c cfg name key =
     JObj ((''names'', JObj [(name, JStr (hex_encode c key))]) #
       (if nip05_relays cfg = [] then []
        else [(''relays'', JObj [(hex_encode c key, JArr (map JStr (nip05_relays cfg)))])]))"

lemma canonical_handle_nip05:
  assumes "canonical_handle h"
  shows "h \<noteq> []" and "length h \<le> 64" and "list_all nip05_char h"
  using assms by (auto simp: canonical_handle_def list_all_iff handle_char_def nip05_char_def)

text \<open>
  C8. The public lookup is exact. The document for a name is served if and only if the lower-case
  form of the name is a claimed handle whose account has a bound key, and then it names that
  handle, that key and the configured relays; every other name gets an error.
\<close>

theorem nip05_exact:
  assumes "service_inv s"
  shows "nip05 c eng name s = Inr doc \<longleftrightarrow>
    eng 0 \<and> (\<exists>a k. owner (storage s) (to_ascii_lowercase name) = Some a
      \<and> binding (storage s) a = Some k
      \<and> doc = nip05_document c (config s) (to_ascii_lowercase name) k)"
proof
  assume "nip05 c eng name s = Inr doc"
  then show "eng 0 \<and> (\<exists>a k. owner (storage s) (to_ascii_lowercase name) = Some a
      \<and> binding (storage s) a = Some k
      \<and> doc = nip05_document c (config s) (to_ascii_lowercase name) k)"
    using nostr_for_handle_eq [OF service_inv_storage [OF assms]]
    by (auto simp: nip05_def Let_def nip05_document_def bind_eq_Some_conv
        split: if_splits option.splits)
next
  assume "eng 0 \<and> (\<exists>a k. owner (storage s) (to_ascii_lowercase name) = Some a
      \<and> binding (storage s) a = Some k
      \<and> doc = nip05_document c (config s) (to_ascii_lowercase name) k)"
  then obtain a k where eng: "eng 0" and own: "owner (storage s) (to_ascii_lowercase name) = Some a"
    and key: "binding (storage s) a = Some k"
    and doc: "doc = nip05_document c (config s) (to_ascii_lowercase name) k"
    by blast
  from own assms have "canonical_handle (to_ascii_lowercase name)"
    by (auto simp: service_inv_def owner_iff list_all_iff row_ok_def)
  note ok = canonical_handle_nip05 [OF this]
  then have "name \<noteq> []" by (auto simp: to_ascii_lowercase_def)
  with eng own key ok doc show "nip05 c eng name s = Inr doc"
    using nostr_for_handle_eq [OF service_inv_storage [OF assms]]
    by (simp add: nip05_def Let_def nip05_document_def)
qed

definition bound_service :: service where
  "bound_service = demo_service\<lparr>storage := demo_db\<lparr>
     accounts := [\<lparr>a_id = ''a1'', a_handle = Some ''ada'', a_display_name = ''Ada'',
                   a_created_at = 5, a_nostr_pubkey = Some (replicate 32 5)\<rparr>]\<rparr>\<rparr>"

lemma bound_service_inv: "service_inv bound_service"
  by (simp add: service_inv_def bound_service_def demo_service_def demo_db_def storage_inv_def
      empty_db_def account_constraints_def row_ok_def canonical_handle_def handle_char_def ascii_defs)

theorem nip05_exact_witness:
  "nip05 reference_crates (\<lambda>_. True) ''Ada'' bound_service
     = Inr (nip05_document reference_crates (config bound_service) ''ada'' (replicate 32 5))"
proof -
  have "to_ascii_lowercase ''Ada'' = ''ada''"
    by code_simp
  moreover have "owner (storage bound_service) ''ada'' = Some ''a1''"
    "binding (storage bound_service) ''a1'' = Some (replicate 32 5)"
    by (simp_all add: owner_def binding_def row_with_handle_def row_of_def bound_service_def)
  ultimately show ?thesis
    using nip05_exact [OF bound_service_inv, of reference_crates "\<lambda>_. True" "''Ada''"] by auto
qed

section \<open>A returning device\<close>

lemma account_for_device_eq:
  assumes "storage_inv d"
  shows "account_for_device eng k d =
    (if eng 0 then Inr (Option.bind (device_account d k) (\<lambda>a. map_option row_account (row_of a d)))
     else Inl (Sqlite EngineFailure))"
proof (cases "find (\<lambda>r. d_public_key r = k) (devices d)")
  case None
  then have "filter (\<lambda>r. d_public_key r = k) (devices d) = []"
    by (simp add: find_None_set filter_empty_conv)
  with None show ?thesis
    by (simp add: account_for_device_def query_row_def device_account_def)
next
  case (Some r)
  then have r: "r \<in> set (devices d)" "d_public_key r = k" by (auto dest: find_Some_set)
  have "filter (\<lambda>x. d_public_key x = k) (devices d) = [r]"
    using r assms
    by (intro filter_unique) (auto simp: storage_inv_def distinct_map dest: inj_onD)
  with Some show ?thesis
    by (simp add: account_for_device_def query_row_filter device_account_def row_of_def)
qed

lemma device_has_account:
  assumes "storage_inv d" and "device_account d k = Some a"
  shows "\<exists>r. row_of a d = Some r"
proof -
  from assms(2) obtain r where "r \<in> set (devices d)" "d_account_id r = a"
    by (auto simp: device_account_def dest: find_Some_set)
  with assms(1) have "a \<in> set (map a_id (accounts d))" by (auto simp: storage_inv_def)
  then show ?thesis by (cases "row_of a d") (auto simp: row_of_def find_None_set)
qed

lemma dir_step_account: "dir_step d d' \<Longrightarrow> dir_account d k = Some a \<Longrightarrow> dir_account d' k = Some a"
  by (induction rule: dir_step.induct) auto

lemma service_step_account:
  assumes "service_inv s" and "device_account (storage s) k = Some a"
  shows "device_account (storage (service_step c i s)) k = Some a"
proof (cases i)
  case (fields eng random req)
  have "dir_account (directory_of (snd (call c eng random req s))) k = Some a"
    by (rule dir_step_account [OF call_simulates [OF assms(1)]]) (simp add: directory_of_def assms(2))
  with fields show ?thesis by (simp add: service_step_def directory_of_def)
qed

lemma register_known:
  assumes "service_inv s" and "\<And>i. eng i" and "device_account (storage s) k = Some a"
  shows "\<exists>acc s'. register c eng random k name now s = (Inr (registration_json c acc k False), s')
    \<and> acc_id acc = a"
proof -
  note inv = service_inv_storage [OF assms(1)]
  from device_has_account [OF inv assms(3)] obtain r where r: "row_of a (storage s) = Some r" ..
  with inv have "acc_id (row_account r) = a" by (simp add: row_of_iff row_account_def)
  moreover have "account_for_device eng k (storage s) = Inr (Some (row_account r))"
    using assms(2,3) r by (simp add: account_for_device_eq [OF inv])
  moreover have "fst (touch_device (\<lambda>i. eng (i + 1)) k now (storage s)) = Inr ()"
    using assms(2) by (simp add: touch_device_def)
  ultimately show ?thesis by (auto simp: register_def then_st_def)
qed

lemma register_json_account:
  assumes "service_inv s" and "register c eng random k name now s = (Inr j, s')"
  shows "\<exists>a. device_account (storage s') k = Some a \<and> json_get j ''account_id'' = Some (JStr a)"
proof (cases "account_for_device eng k (storage s)")
  case (Inr found)
  note inv = service_inv_storage [OF assms(1)]
  show ?thesis
  proof (cases found)
    case (Some acc)
    with Inr have "device_account (storage s) k = Some (acc_id acc)"
      by (auto simp: account_for_device_eq [OF inv] bind_eq_Some_conv row_of_iff [OF inv]
          row_account_def split: if_splits)
    moreover from assms(2) Inr Some have "j = registration_json c acc k False"
      "storage s' = snd (touch_device (\<lambda>i. eng (i + 1)) k now (storage s))"
      by (auto simp: register_def then_st_Inr)
    ultimately show ?thesis by (simp add: registration_json_def)
  next
    case None
    with assms(2) Inr obtain n acc where j: "j = registration_json c acc k True"
      and created: "fst (create_account c (\<lambda>i. eng (i + 1)) random k n now (storage s)) = Inr acc"
      and st: "storage s' = snd (create_account c (\<lambda>i. eng (i + 1)) random k n now (storage s))"
      by (auto simp: register_def then_st_Inr)
    then have "create_account c (\<lambda>i. eng (i + 1)) random k n now (storage s) = (Inr acc, storage s')"
      by (simp add: prod_eq_iff)
    from create_account_device(1) [OF this] j show ?thesis by (simp add: registration_json_def)
  qed
qed (use assms(2) in \<open>simp add: register_def\<close>)

text \<open>
  A device keeps its account. Once a registration of a device key was answered with an
  account, registering the same key again after any further requests answers with the same
  account and \<open>new_account\<close> false, when the service is running and SQLite works; no second account
  is created for a device.
\<close>

theorem device_returns:
  assumes "service_inv s" and "call c eng random (Register k name now) s = (Inr j, s1)"
    and "\<not> stopped (fold (service_step c) inputs s1)" and "\<And>i. eng' i"
  shows "\<exists>j' s2. call c eng' random' (Register k name' now') (fold (service_step c) inputs s1)
      = (Inr j', s2)
    \<and> json_get j' ''account_id'' = json_get j ''account_id''
    \<and> json_get j' ''new_account'' = Some (JBool False)"
proof -
  let ?s = "fold (service_step c) inputs s1"
  have reg: "register c eng random k name now s = (Inr j, s1)"
    using assms(2) by (auto simp: call_def handle_def split: if_splits)
  note inv1 = register_inv [OF assms(1) reg]
  from register_json_account [OF assms(1) reg] obtain a
    where a: "device_account (storage s1) k = Some a" "json_get j ''account_id'' = Some (JStr a)"
    by blast
  have "device_account (storage ?s) k = Some a"
    using svc.run_keeps [where P = "\<lambda>s. device_account (storage s) k = Some a", OF inv1 a(1)]
      service_step_account by blast
  from register_known [where eng = eng', OF svc.run_inv [OF inv1] assms(4) this]
  obtain acc s2 where "register c eng' random' k name' now' ?s = (Inr (registration_json c acc k False), s2)"
    "acc_id acc = a" by blast
  with assms(3) a(2) show ?thesis
    by (auto simp: call_def handle_def registration_json_def)
qed

theorem device_returns_witness:
  "\<exists>j s1 j' s2.
     call reference_crates (\<lambda>_. True) None (Register (replicate 32 3) None 7) demo_service = (Inr j, s1)
     \<and> call reference_crates (\<lambda>_. True) None (Register (replicate 32 3) None 9) s1 = (Inr j', s2)
     \<and> json_get j' ''account_id'' = json_get j ''account_id''
     \<and> json_get j' ''new_account'' = Some (JBool False)"
proof -
  have dev: "device_account (storage demo_service) (replicate 32 3) = Some ''a1''"
    by (simp add: device_account_def demo_service_def demo_db_def)
  have run: "\<not> stopped demo_service" by (simp add: demo_service_def fresh_service_def)
  from register_known [where eng = "\<lambda>_. True", OF demo_service_inv _ dev, of reference_crates None None 7]
  obtain j s1 where reg: "register reference_crates (\<lambda>_. True) None (replicate 32 3) None 7 demo_service
    = (Inr j, s1)" by blast
  then have first: "call reference_crates (\<lambda>_. True) None (Register (replicate 32 3) None 7) demo_service
    = (Inr j, s1)"
    using run by (simp add: call_def handle_def)
  have "\<not> stopped s1"
    using reg run by (auto simp: register_def then_st_Inr split: sum.splits option.splits)
  then show ?thesis
    using device_returns [OF demo_service_inv first, of "[]" "\<lambda>_. True" None None 9] first by auto
qed

section \<open>Opening a database\<close>

text \<open>The first batch only adds tables; it leaves rows, versions and other objects as they are.\<close>

lemma base_tables_frame:
  assumes "execute_batch eng base_tables d = (r, d1)"
  shows "meta d1 = meta d" and "accounts d1 = accounts d" and "devices d1 = devices d"
    and "nonces d1 = nonces d"
    and "x \<notin> {''meta'', ''accounts'', ''devices''} \<Longrightarrow> x \<in> set (schema d1) \<longleftrightarrow> x \<in> set (schema d)"
proof -
  define P where "P d' \<longleftrightarrow> meta d' = meta d \<and> accounts d' = accounts d \<and> devices d' = devices d
    \<and> nonces d' = nonces d \<and> (x \<notin> {''meta'', ''accounts'', ''devices''} \<longrightarrow>
        (x \<in> set (schema d') \<longleftrightarrow> x \<in> set (schema d)))" for d' :: db
  have step: "P (snd (create_table_if_not_exists t ok d'))"
    if "P d'" "t \<in> {''meta'', ''accounts'', ''devices''}" for t ok d'
    using that by (auto simp: create_table_if_not_exists_def P_def)
  have "P d" by (simp add: P_def)
  then have "P (snd (execute_batch eng base_tables d))"
    unfolding base_tables_def list.map execute_batch.simps
    by (intro then_st_keeps [where P = P]) (simp_all add: step)
  with assms show "meta d1 = meta d" "accounts d1 = accounts d" "devices d1 = devices d"
    "nonces d1 = nonces d"
    "x \<notin> {''meta'', ''accounts'', ''devices''} \<Longrightarrow> x \<in> set (schema d1) \<longleftrightarrow> x \<in> set (schema d)"
    by (simp_all add: P_def)
qed

lemma base_tables_succeed: "eng 0 \<Longrightarrow> eng 1 \<Longrightarrow> eng 2 \<Longrightarrow> fst (execute_batch eng base_tables d) = Inr ()"
  by (simp add: base_tables_def create_table_if_not_exists_def exec_def numeral_2_eq_2)

lemma upgrade_needed:
  assumes "meta_values ''schema_version'' d = [] \<or> meta_values ''schema_version'' d = [as_bytes ''2'']"
    and "execute_batch eng base_tables d = (Inr (), d1)" and "eng 3"
  shows "migrate eng d =
    then_st (execute_batch (\<lambda>k. eng (k + 4)) nostr_upgrade d1) (\<lambda>_ d.
      exec (set_meta (eng 7) ''schema_version'' (as_bytes SCHEMA_VERSION) d))"
proof -
  have "meta_values ''schema_version'' d1 = meta_values ''schema_version'' d"
    using base_tables_frame(1) [OF assms(2)] by (simp add: meta_values_def)
  with assms show ?thesis by (auto simp: migrate_def query_row_def)
qed

lemma migrate_stuck:
  assumes "meta_values ''schema_version'' d = [] \<or> meta_values ''schema_version'' d = [as_bytes ''2'']"
    and "''accounts.nostr_pubkey'' \<in> set (schema d)"
  shows "isl (fst (migrate eng d))"
proof (cases "execute_batch eng base_tables d")
  case (Pair r d1)
  show ?thesis
  proof (cases r)
    case (Inr u)
    show ?thesis
    proof (cases "eng 3")
      case True
      have "''accounts.nostr_pubkey'' \<in> set (schema d1)"
        using base_tables_frame(5) [OF Pair, of "''accounts.nostr_pubkey''"] assms(2) by simp
      then show ?thesis
        using upgrade_needed [of d eng d1, OF assms(1) _ True] Pair Inr
        by (simp add: nostr_upgrade_def add_nostr_column_def exec_def)
    qed (use Pair Inr in \<open>simp add: migrate_def query_row_def\<close>)
  qed (use Pair in \<open>simp add: migrate_def\<close>)
qed

text \<open>
  The migration cannot be repeated. When the upgrade of a new or version 2 database is cut
  short after its first statement (the engine fails in one of the three statements that follow
  \<open>ALTER TABLE\<close>, which run outside a transaction), then every later attempt to open the database
  fails, whatever the engine does: the column exists but the version was not recorded.
\<close>

theorem migrate_not_repeatable:
  assumes "meta_values ''schema_version'' d = [] \<or> meta_values ''schema_version'' d = [as_bytes ''2'']"
    and "''accounts.nostr_pubkey'' \<notin> set (schema d)" and "j \<in> {5, 6, 7}"
  shows "isl (fst (migrate (\<lambda>k. k \<noteq> j) d))
    \<and> isl (fst (migrate eng (snd (migrate (\<lambda>k. k \<noteq> j) d))))"
proof -
  let ?eng = "\<lambda>k. k \<noteq> j"
  obtain d1 where d1: "execute_batch ?eng base_tables d = (Inr (), d1)"
    using base_tables_succeed [of ?eng d] assms(3) by (cases "execute_batch ?eng base_tables d") auto
  note frame = base_tables_frame [OF d1]
  have "''accounts.nostr_pubkey'' \<notin> set (schema d1)"
    using frame(5) [of "''accounts.nostr_pubkey''"] assms(2) by simp
  then have "isl (fst (migrate ?eng d)) \<and> meta (snd (migrate ?eng d)) = meta d1
      \<and> ''accounts.nostr_pubkey'' \<in> set (schema (snd (migrate ?eng d)))"
    using upgrade_needed [OF assms(1) d1] assms(3)
    by (auto simp: nostr_upgrade_def add_nostr_column_def create_pubkey_index_def set_meta_def
        create_table_if_not_exists_def exec_def then_st_def)
  then show ?thesis
    using migrate_stuck [of "snd (migrate ?eng d)" eng] assms(1) frame(1)
    by (simp add: meta_values_def)
qed

theorem migrate_not_repeatable_witness:
  "isl (fst (migrate (\<lambda>k. k \<noteq> 6) empty_db))
   \<and> isl (fst (migrate (\<lambda>_. True) (snd (migrate (\<lambda>k. k \<noteq> 6) empty_db))))"
  by (rule migrate_not_repeatable) (simp_all add: empty_db_def meta_values_def)

text \<open>A database that has been opened once: all objects exist and the version is recorded.\<close>

definition migrated :: "db \<Rightarrow> bool" where
  "migrated d \<longleftrightarrow>
     {''meta'', ''accounts'', ''devices''} \<subseteq> set (schema d)
     \<and> meta_values ''schema_version'' d = [as_bytes SCHEMA_VERSION]"

lemma migrate_done: "migrated d \<Longrightarrow> (\<And>i. eng i) \<Longrightarrow> migrate eng d = (Inr (), d)"
  by (simp add: migrated_def migrate_def base_tables_def create_table_if_not_exists_def exec_def
      query_row_def SCHEMA_VERSION_def)

text \<open>
  The storage key guards the database. Opening a new database under a key seals the key check
  with it; from then on opening succeeds, and changes nothing, exactly for the keys under which
  the stored record decrypts to the check text. The key that created it always does; every other
  key is answered with \<open>WrongKey\<close>.
\<close>

theorem reopen_checks_key:
  assumes aead: "aead_laws c"
    and seal: "xchacha_encrypt c key nonce (as_bytes ''key_check'') KEY_CHECK_PLAINTEXT = Some ct"
    and len: "length nonce = NONCE_BYTES"
  shows "\<exists>d. open_storage c (\<lambda>_. True) (Some nonce) key empty_db = (Inr (), d)
    \<and> open_storage c (\<lambda>_. True) random key d = (Inr (), d)
    \<and> open_storage c (\<lambda>_. True) random key' d =
        (if xchacha_decrypt c key' nonce (as_bytes ''key_check'') ct = Some KEY_CHECK_PLAINTEXT
         then Inr () else Inl WrongKey, d)"
proof -
  let ?d = "\<lparr>schema = [''meta'', ''accounts'', ''devices'', ''accounts.nostr_pubkey'',
      ''accounts_nostr_pubkey'', ''nostr_proof_nonces''],
    meta = [(''key_check'', nonce @ ct), (''schema_version'', as_bytes SCHEMA_VERSION)],
    accounts = [], devices = [], nonces = []\<rparr>"
  have "migrate (\<lambda>_. True) empty_db = (Inr (), ?d\<lparr>meta := [(''schema_version'', as_bytes SCHEMA_VERSION)]\<rparr>)"
    by (simp add: migrate_def base_tables_def nostr_upgrade_def create_table_if_not_exists_def
        add_nostr_column_def create_pubkey_index_def set_meta_def exec_def query_row_def
        meta_values_def empty_db_def)
  then have first: "open_storage c (\<lambda>_. True) (Some nonce) key empty_db = (Inr (), ?d)"
    by (simp add: open_storage_def verify_key_def query_row_def meta_values_def seal_with_def seal
        set_meta_def exec_def)
  have "migrated ?d" by (simp add: migrated_def meta_values_def)
  then have opened: "migrate (\<lambda>_. True) ?d = (Inr (), ?d)" by (simp add: migrate_done)
  have ct: "length ct = length KEY_CHECK_PLAINTEXT + 16"
    and own: "xchacha_decrypt c key nonce (as_bytes ''key_check'') ct = Some KEY_CHECK_PLAINTEXT"
    using aead seal by (auto simp: aead_laws_def)
  have again: "open_storage c (\<lambda>_. True) random k ?d =
      (if xchacha_decrypt c k nonce (as_bytes ''key_check'') ct = Some KEY_CHECK_PLAINTEXT
       then Inr () else Inl WrongKey, ?d)" for k
    using len ct opened
    by (auto simp: open_storage_def verify_key_def query_row_def meta_values_def open_sealed_def
        NONCE_BYTES_def split: option.splits)
  show ?thesis using first again own by auto
qed

theorem reopen_checks_key_witness:
  "\<exists>d. open_storage reference_crates (\<lambda>_. True) (Some (replicate 24 1)) (replicate 32 2) empty_db
      = (Inr (), d)
    \<and> open_storage reference_crates (\<lambda>_. True) None (replicate 32 2) d = (Inr (), d)
    \<and> open_storage reference_crates (\<lambda>_. True) None (replicate 32 4) d = (Inl WrongKey, d)"
proof -
  have seal: "xchacha_encrypt reference_crates (replicate 32 2) (replicate 24 1) (as_bytes ''key_check'')
      KEY_CHECK_PLAINTEXT = Some (KEY_CHECK_PLAINTEXT @ replicate 16 2)"
    by (simp add: reference_crates_def)
  have "xchacha_decrypt reference_crates (replicate 32 4) (replicate 24 1) (as_bytes ''key_check'')
      (KEY_CHECK_PLAINTEXT @ replicate 16 2) \<noteq> Some KEY_CHECK_PLAINTEXT"
    by (simp add: reference_crates_def)
  then show ?thesis
    using reopen_checks_key [OF reference_aead_laws seal, of None "replicate 32 4"]
    by (simp add: NONCE_BYTES_def)
qed

end
