(* ===== verification/Json.thy ===== *)
theory Json
  imports Primitives "HOL-Library.List_Lexorder" "HOL-Library.Char_ord"
begin

text \<open>
  JSON values and what \<open>serde_json\<close> does with them. Reading and writing JSON text is a parameter
  (the record \<open>json_crate\<close>); the mapping between values and the program's structs, which the source
  gives by its derives and visitors, is written out here and in the component theories.
\<close>

record json_crate =
  json_to_vec :: "json \<Rightarrow> bytes option"
  json_from_slice :: "bytes \<Rightarrow> json option"

text \<open>The values that come back as they were written: nested at most \<open>n\<close> deep, of valid text and 64-bit integers.\<close>

fun json_exact :: "nat \<Rightarrow> json \<Rightarrow> bool" where
  "json_exact n JNull = True"
| "json_exact n (JBool b) = True"
| "json_exact n (JInt i) = (- (2 ^ 63) \<le> i \<and> i < 2 ^ 64)"
| "json_exact n (JFloat x) = False"
| "json_exact n (JStr s) = is_utf8 s"
| "json_exact 0 (JArr xs) = False"
| "json_exact (Suc n) (JArr xs) = list_all (json_exact n) xs"
| "json_exact 0 (JObj kvs) = False"
| "json_exact (Suc n) (JObj kvs) = list_all (\<lambda>(k, v). is_utf8 k \<and> json_exact n v) kvs"

definition text_of :: "bytes \<Rightarrow> string" where
  "text_of bs = map (\<lambda>b. char_of (unat b)) bs"

text \<open>
  Writing such a value succeeds, gives valid text, and reading the text gives the value back; the
  reader accepts 127 levels of nesting.
\<close>

definition json_laws :: "json_crate \<Rightarrow> bool" where
  "json_laws jc \<longleftrightarrow>
     (\<forall>j. json_exact 127 j \<longrightarrow>
        (\<exists>bs. json_to_vec jc j = Some bs \<and> json_from_slice jc bs = Some j \<and> bs \<noteq> [] \<and> is_utf8 (text_of bs)))"

lemma json_laws_obtain:
  assumes "json_laws jc" and "json_exact 127 j"
  obtains bs where "json_to_vec jc j = Some bs" "json_from_slice jc bs = Some j" "bs \<noteq> []" "is_utf8 (text_of bs)"
  using assms unfolding json_laws_def by blast

lemma json_laws_read:
  assumes "json_laws jc" and "json_exact 127 j" and "json_to_vec jc j = Some bs"
  shows "json_from_slice jc bs = Some j" and "bs \<noteq> []" and "is_utf8 (text_of bs)"
  using json_laws_obtain [OF assms(1,2)] assms(3) by (metis option.inject)+

lemma json_laws_inject:
  assumes "json_laws jc" and "json_exact 127 j" and "json_exact 127 k"
    and "json_to_vec jc j = Some bs" and "json_to_vec jc k = Some bs"
  shows "j = k"
  using json_laws_read(1) [OF assms(1,2,4)] json_laws_read(1) [OF assms(1,3,5)] by simp

lemma of_char_char_of: "of_char (char_of (unat b) :: char) = (b :: byte)"
  using unat_byte_bound [of b] by (simp add: word_unat_eq_iff unat_of_char_byte)

lemma as_bytes_text_of [simp]: "as_bytes (text_of bs) = bs"
  by (induction bs) (simp_all add: as_bytes_def text_of_def of_char_char_of)

lemma text_of_as_bytes [simp]: "text_of (as_bytes s) = s"
  by (simp add: as_bytes_def text_of_def comp_def unat_of_char_byte)

lemma length_text_of [simp]: "length (text_of bs) = length bs"
  by (simp add: text_of_def)

section \<open>Reading structs\<close>

text \<open>The deserializers of the primitive types.\<close>

fun de_string :: "json \<Rightarrow> string option" where
  "de_string (JStr s) = Some s"
| "de_string _ = None"

fun de_bool :: "json \<Rightarrow> bool option" where
  "de_bool (JBool b) = Some b"
| "de_bool _ = None"

fun de_uint :: "nat \<Rightarrow> json \<Rightarrow> nat option" where
  "de_uint w (JInt i) = (if 0 \<le> i \<and> i < 2 ^ w then Some (nat i) else None)"
| "de_uint w _ = None"

definition de_u64 :: "json \<Rightarrow> u64 option" where
  "de_u64 j = map_option word_of_nat (de_uint 64 j)"

definition de_u32 :: "json \<Rightarrow> u32 option" where
  "de_u32 j = map_option word_of_nat (de_uint 32 j)"

fun de_all :: "(json \<Rightarrow> 'a option) \<Rightarrow> json list \<Rightarrow> 'a list option" where
  "de_all f [] = Some []"
| "de_all f (j # js) =
     (case f j of None \<Rightarrow> None | Some x \<Rightarrow> map_option (Cons x) (de_all f js))"

definition de_vec :: "(json \<Rightarrow> 'a option) \<Rightarrow> json \<Rightarrow> 'a list option" where
  "de_vec f j = (case j of JArr js \<Rightarrow> de_all f js | _ \<Rightarrow> None)"

text \<open>
  A derived struct without unknown fields: an object with exactly the named fields, each once, in
  any order, or an array with the fields in the order of the struct.
\<close>

definition de_struct :: "string list \<Rightarrow> json \<Rightarrow> json list option" where
  "de_struct names j =
     (case j of
        JArr xs \<Rightarrow> if length xs = length names then Some xs else None
      | JObj kvs \<Rightarrow>
          if distinct (map fst kvs) \<and> set (map fst kvs) = set names
          then Some (map (\<lambda>n. the (map_of kvs n)) names) else None
      | _ \<Rightarrow> None)"

text \<open>
  A derived struct with defaults: an object whose fields are known and occur once, or an array with
  at most the fields in the order of the struct. A field that is absent has no entry.
\<close>

definition de_partial :: "string list \<Rightarrow> json \<Rightarrow> (string \<rightharpoonup> json) option" where
  "de_partial names j =
     (case j of
        JObj kvs \<Rightarrow> if distinct (map fst kvs) \<and> set (map fst kvs) \<subseteq> set names then Some (map_of kvs) else None
      | JArr xs \<Rightarrow> if length xs \<le> length names then Some (map_of (zip names xs)) else None
      | _ \<Rightarrow> None)"

definition de_default :: "'a \<Rightarrow> (json \<Rightarrow> 'a option) \<Rightarrow> json option \<Rightarrow> 'a option" where
  "de_default x f found = (case found of None \<Rightarrow> Some x | Some j \<Rightarrow> f j)"

definition de_option :: "(json \<Rightarrow> 'a option) \<Rightarrow> json \<Rightarrow> 'a option option" where
  "de_option f j = (if j = JNull then Some None else map_option Some (f j))"

definition variant_name :: "json \<Rightarrow> string option" where
  "variant_name j = (case j of JStr s \<Rightarrow> Some s | JObj [(s, JNull)] \<Rightarrow> Some s | _ \<Rightarrow> None)"

text \<open>A derived struct that ignores unknown fields.\<close>

definition de_open :: "string list \<Rightarrow> json \<Rightarrow> (string \<rightharpoonup> json) option" where
  "de_open names j =
     (case j of
        JObj kvs \<Rightarrow>
          let known = filter (\<lambda>(k, _). k \<in> set names) kvs in
          if distinct (map fst known) then Some (map_of known) else None
      | JArr xs \<Rightarrow> if length xs \<le> length names then Some (map_of (zip names xs)) else None
      | _ \<Rightarrow> None)"

definition de_field :: "(string \<rightharpoonup> json) \<Rightarrow> string \<Rightarrow> (json \<Rightarrow> 'a option) \<Rightarrow> 'a option" where
  "de_field m name f = Option.bind (m name) f"

text \<open>A JSON object as \<open>serde_json\<close> holds it: ordered by key, the last of equal keys kept.\<close>

definition value_map :: "(string \<times> json) list \<Rightarrow> (string \<times> json) list" where
  "value_map kvs = foldl (\<lambda>m (k, v). ordered_insert k v m) [] kvs"

definition value_get :: "json \<Rightarrow> string \<Rightarrow> json option" where
  "value_get j k = (case j of JObj kvs \<Rightarrow> map_of (value_map kvs) k | _ \<Rightarrow> None)"

lemma de_u64_uint [simp]: "de_u64 (JInt (uint w)) = Some w"
  using uint_bounded [of w] by (simp add: de_u64_def)

lemma de_u32_uint [simp]: "de_u32 (JInt (uint w)) = Some w"
  using uint_bounded [of w] by (simp add: de_u32_def)

lemma de_all_map [simp]:
  assumes "\<And>x. f (g x) = Some x"
  shows "de_all f (map g xs) = Some xs"
  using assms by (induction xs) auto

lemma de_vec_strings [simp]: "de_vec de_string (JArr (map JStr xs)) = Some xs"
  by (simp add: de_vec_def)

lemma uint_u64_range: "uint (w :: u64) < 18446744073709551616"
proof -
  have "uint w < 2 ^ LENGTH(64)" by (rule uint_bounded)
  then show ?thesis by simp
qed

lemma uint_u32_range: "uint (w :: u32) < 18446744073709551616"
proof -
  have "uint w < 2 ^ LENGTH(32)" by (rule uint_bounded)
  then show ?thesis by simp
qed

lemma json_exact_Suc: "json_exact n j \<Longrightarrow> json_exact (Suc n) j"
  by (induction n j rule: json_exact.induct) (auto simp: list_all_iff)

lemma json_exact_mono: "json_exact n j \<Longrightarrow> n \<le> m \<Longrightarrow> json_exact m j"
  by (induction m) (auto simp: le_Suc_eq intro: json_exact_Suc)

lemma json_exact_array: "0 < n \<Longrightarrow> json_exact n (JArr xs) \<longleftrightarrow> list_all (json_exact (n - 1)) xs"
  by (cases n) auto

lemma json_exact_object:
  "0 < n \<Longrightarrow> json_exact n (JObj kvs) \<longleftrightarrow> list_all (\<lambda>(k, v). is_utf8 k \<and> json_exact (n - 1) v) kvs"
  by (cases n) auto

lemma uint_json_range [simp]:
  "- 9223372036854775808 \<le> uint (w :: u64)" "uint w < 18446744073709551616"
  "- 9223372036854775808 \<le> uint (v :: u32)" "uint v < 18446744073709551616"
  using uint_ge_0 [of w] uint_ge_0 [of v] uint_u64_range [of w] uint_u32_range [of v] by linarith+

lemma json_exact_string [simp]: "json_exact n (JStr x) \<longleftrightarrow> is_utf8 x"
  by (cases n) simp_all

lemma map_of_value_map: "distinct (map fst kvs) \<Longrightarrow> map_of (value_map kvs) = map_of kvs"
proof (induction kvs rule: rev_induct)
  case (snoc kv kvs)
  obtain k v where kv: "kv = (k, v)" by (cases kv)
  with snoc.prems have "map_of kvs k = None" by (simp add: map_of_eq_None_iff)
  with snoc kv show ?case
    by (auto simp: value_map_def map_add_def fun_eq_iff split: option.splits)
qed (simp add: value_map_def)

lemma value_get_distinct: "distinct (map fst kvs) \<Longrightarrow> value_get (JObj kvs) k = map_of kvs k"
  by (simp add: value_get_def map_of_value_map)

section \<open>An executable instance\<close>

text \<open>
  A tagged, length-prefixed form in place of JSON text, written in hexadecimal so that it is valid
  text as well.
\<close>

definition put_nat :: "nat \<Rightarrow> bytes" where
  "put_nat n = replicate n 1 @ [0]"

definition put_str :: "string \<Rightarrow> bytes" where
  "put_str s = put_nat (length s) @ as_bytes s"

fun put_json :: "nat \<Rightarrow> json \<Rightarrow> bytes" where
  "put_json n JNull = [0]"
| "put_json n (JBool b) = [if b then 1 else 2]"
| "put_json n (JInt i) = (if 0 \<le> i then 3 # put_nat (nat i) else 4 # put_nat (nat (- i)))"
| "put_json n (JFloat x) = []"
| "put_json n (JStr s) = 5 # put_str s"
| "put_json 0 (JArr xs) = []"
| "put_json (Suc n) (JArr xs) = 6 # put_nat (length xs) @ concat (map (put_json n) xs)"
| "put_json 0 (JObj kvs) = []"
| "put_json (Suc n) (JObj kvs) =
     7 # put_nat (length kvs) @ concat (map (\<lambda>(k, v). put_str k @ put_json n v) kvs)"

fun get_nat :: "bytes \<Rightarrow> (nat \<times> bytes) option" where
  "get_nat [] = None"
| "get_nat (b # r) = (if b = 0 then Some (0, r) else map_option (\<lambda>(n, r). (Suc n, r)) (get_nat r))"

definition get_str :: "bytes \<Rightarrow> (string \<times> bytes) option" where
  "get_str bs = (case get_nat bs of None \<Rightarrow> None | Some (n, r) \<Rightarrow> Some (text_of (take n r), drop n r))"

fun get_many :: "(bytes \<Rightarrow> ('a \<times> bytes) option) \<Rightarrow> nat \<Rightarrow> bytes \<Rightarrow> ('a list \<times> bytes) option" where
  "get_many f 0 bs = Some ([], bs)"
| "get_many f (Suc n) bs =
     (case f bs of None \<Rightarrow> None
      | Some (x, r) \<Rightarrow> map_option (\<lambda>(xs, r). (x # xs, r)) (get_many f n r))"

fun get_json :: "nat \<Rightarrow> bytes \<Rightarrow> (json \<times> bytes) option" where
  "get_json n [] = None"
| "get_json n (t # r) =
     (if t = 0 then Some (JNull, r)
      else if t = 1 then Some (JBool True, r)
      else if t = 2 then Some (JBool False, r)
      else if t = 3 then map_option (\<lambda>(k, r). (JInt (int k), r)) (get_nat r)
      else if t = 4 then map_option (\<lambda>(k, r). (JInt (- int k), r)) (get_nat r)
      else if t = 5 then map_option (\<lambda>(s, r). (JStr s, r)) (get_str r)
      else
        case n of
          0 \<Rightarrow> None
        | Suc n \<Rightarrow>
            (case get_nat r of
               None \<Rightarrow> None
             | Some (k, r) \<Rightarrow>
                 if t = 6 then map_option (\<lambda>(xs, r). (JArr xs, r)) (get_many (get_json n) k r)
                 else map_option (\<lambda>(xs, r). (JObj xs, r))
                   (get_many (\<lambda>bs. case get_str bs of None \<Rightarrow> None
                                   | Some (s, r) \<Rightarrow> map_option (\<lambda>(v, r). ((s, v), r)) (get_json n r)) k r)))"

lemma get_put_nat [simp]: "get_nat (put_nat n @ r) = Some (n, r)"
  by (induction n) (auto simp: put_nat_def)

lemma get_put_str [simp]: "get_str (put_str s @ r) = Some (s, r)"
  by (simp add: get_str_def put_str_def)

lemma get_many_put:
  assumes "\<And>x r. x \<in> set xs \<Longrightarrow> f (g x @ r) = Some (x, r)"
  shows "get_many f (length xs) (concat (map g xs) @ r) = Some (xs, r)"
  using assms by (induction xs) auto

lemma get_put_json: "json_exact n j \<Longrightarrow> get_json n (put_json n j @ r) = Some (j, r)"
proof (induction n j arbitrary: r rule: json_exact.induct)
  case (7 n xs)
  then have "get_many (get_json n) (length xs) (concat (map (put_json n) xs) @ r) = Some (xs, r)"
    by (intro get_many_put) (auto simp: list_all_iff)
  then show ?case by simp
next
  case (9 n kvs)
  then have "get_many (\<lambda>bs. case get_str bs of None \<Rightarrow> None
         | Some (s, r) \<Rightarrow> map_option (\<lambda>(v, r). ((s, v), r)) (get_json n r)) (length kvs)
      (concat (map (\<lambda>(k, v). put_str k @ put_json n v) kvs) @ r) = Some (kvs, r)"
    by (intro get_many_put) (fastforce simp: list_all_iff)
  then show ?case by simp
qed auto

lemma put_json_container:
  "0 < n \<Longrightarrow> put_json n (JArr xs) = 6 # put_nat (length xs) @ concat (map (put_json (n - 1)) xs)"
  "0 < n \<Longrightarrow> put_json n (JObj kvs) =
     7 # put_nat (length kvs) @ concat (map (\<lambda>(k, v). put_str k @ put_json (n - 1) v) kvs)"
  by (cases n; simp)+

lemma length_put: "length (put_nat n) = Suc n" "length (put_str s) = Suc (2 * length s)"
  by (simp_all add: put_nat_def put_str_def)

definition reference_json :: json_crate where
  "reference_json =
    \<lparr>json_to_vec = (\<lambda>j. if json_exact 127 j then Some (as_bytes (hex_string (put_json 127 j))) else None),
     json_from_slice = (\<lambda>bs.
       case hex_parse (text_of bs) of
         None \<Rightarrow> None
       | Some b \<Rightarrow> (case get_json 127 b of Some (j, []) \<Rightarrow> Some j | _ \<Rightarrow> None))\<rparr>"

lemma is_utf8_hex: "is_utf8 (hex_string bs)"
proof -
  have "\<forall>b \<in> set (map byte_val (hex_string bs)). b \<le> 127"
    using hex_string_lower [of bs] by (auto simp: list_all_iff ascii_defs)
  then show ?thesis by (simp add: is_utf8_def utf8_decode_ascii)
qed

lemma put_json_nonempty: "json_exact n j \<Longrightarrow> put_json n j \<noteq> []"
  by (induction n j rule: json_exact.induct) auto

lemma reference_json_laws: "json_laws reference_json"
proof -
  have "get_json 127 (put_json 127 j) = Some (j, [])" if "json_exact 127 j" for j
    using get_put_json [OF that, of "[]"] by simp
  moreover have "hex_string (put_json 127 j) \<noteq> []" if "json_exact 127 j" for j
    using put_json_nonempty [OF that] by (cases "put_json 127 j") auto
  moreover have "as_bytes s \<noteq> []" if "s \<noteq> []" for s using that by (simp add: as_bytes_def)
  ultimately show ?thesis
    by (simp add: json_laws_def reference_json_def hex_parse_string is_utf8_hex)
qed

end
