(* ===== verification/Serde.thy ===== *)
theory Serde
  imports Json
begin

text \<open>
  The readers that \<open>serde\<close> derives for the tagged enums of the two protocols. Inside such an enum the
  fields are first kept as values and then read again, so a unit variant may also be written as an
  object with a null or empty value.
\<close>

definition de_u16 :: "json \<Rightarrow> u16 option" where
  "de_u16 j = map_option word_of_nat (de_uint 16 j)"

definition content_variant :: "json \<Rightarrow> string option" where
  "content_variant j =
     (case j of
        JStr s \<Rightarrow> Some s
      | JObj [(s, v)] \<Rightarrow> if v = JNull \<or> v = JObj [] then Some s else None
      | _ \<Rightarrow> None)"

text \<open>
  An internally tagged enum: the tag is one field of the object, which occurs once, or the first
  element of the array; the rest is given to the variant.
\<close>

definition de_tagged :: "string \<Rightarrow> json \<Rightarrow> (string \<times> json) option" where
  "de_tagged tag j =
     (case j of
        JObj kvs \<Rightarrow>
          (case filter (\<lambda>(k, _). k = tag) kvs of
             [(_, JStr v)] \<Rightarrow> Some (v, JObj (filter (\<lambda>(k, _). k \<noteq> tag) kvs))
           | _ \<Rightarrow> None)
      | JArr (JStr v # rest) \<Rightarrow> Some (v, JArr rest)
      | _ \<Rightarrow> None)"

text \<open>
  The fields of a struct variant that ignores unknown fields and is only read from an object.
\<close>

definition de_fields :: "string list \<Rightarrow> json \<Rightarrow> (string \<rightharpoonup> json) option" where
  "de_fields names j = (case j of JObj _ \<Rightarrow> de_open names j | _ \<Rightarrow> None)"

lemma uint_u16_range [simp]: "- 9223372036854775808 \<le> uint (w :: u16)" "uint w < 18446744073709551616"
proof -
  have "uint w < 2 ^ LENGTH(16)" by (rule uint_bounded)
  then show "- 9223372036854775808 \<le> uint w" "uint w < 18446744073709551616" using uint_ge_0 [of w] by (simp_all add: order_trans [OF _ uint_ge_0 [of w]])
qed

lemma de_u16_uint [simp]: "de_u16 (JInt (uint w)) = Some w"
  using uint_bounded [of w] by (simp add: de_u16_def)

lemma de_all_strings [simp]: "de_all de_string (map JStr xs) = Some xs"
  by simp

lemma de_fields_object:
  assumes "distinct (map fst kvs)" and "set (map fst kvs) \<subseteq> set names"
  shows "de_fields names (JObj kvs) = Some (map_of kvs)"
proof -
  have "filter (\<lambda>(k, _). k \<in> set names) kvs = kvs"
    using assms(2) by (intro filter_True) auto
  then show ?thesis using assms(1) by (simp add: de_fields_def de_open_def)
qed

end
