(* ===== verification/Server_Session.thy ===== *)
theory Server_Session
  imports Server_Lookup Serde
begin

text \<open>
  One WebSocket session of the server (\<open>omachat-server/src/session.rs\<close>): the two-step handshake,
  the request loop and the token bucket. The messages a socket delivers are a list that the
  handlers consume; what the session sends, its report and the account service it calls are its
  state. Between two of its calls the service may serve other sessions: \<open>others k\<close> are the requests
  that reach it before the session's k-th call.
\<close>

section \<open>Environment and state\<close>

record session_limits =
  idle_timeout :: nat
  requests_per_second :: u32
  request_burst :: u32

datatype ws_message =
    Ws_Text string
  | Ws_Ping bytes
  | Ws_Pong
  | Ws_Close
  | Ws_Binary

text \<open>
  What awaiting the socket can give: a message, an error, the end of the stream; or the enclosing
  timer fires first.
\<close>

datatype ws_input = Delivered ws_message | Ws_Failed | Ws_Ended | Timer_Fired

datatype ws_output = Sent_Text json | Sent_Pong bytes

datatype close_reason =
    ClientClosed | ProtocolViolation | AuthenticationFailed | Idle | Lagged | Shutdown | Failed

datatype session_error =
    AdmissionTimeout | AuthenticationTimeout | WebSocket | Service server_error | Randomness
  | MalformedRegistration

record hosted_request =
  req_version :: u16
  req_id :: string
  req_command :: hosted_command

record session_env =
  lib :: crates
  json_lib :: json_crate
  json_failure :: "string \<Rightarrow> string"
  frame_len :: "json \<Rightarrow> nat"
  send_ok :: "nat \<Rightarrow> bool"
  identity_seed :: bytes
  challenge_bytes :: "bytes option"
  limits :: session_limits
  this_session :: u64
  others :: "nat \<Rightarrow> service_input list"
  call_eng :: "nat \<Rightarrow> nat \<Rightarrow> bool"
  call_random :: "nat \<Rightarrow> bytes option"
  unix_now :: "nat \<Rightarrow> u64"

record session =
  sent :: "ws_output list"
  svc :: service
  calls :: nat
  authenticated :: bool
  requests :: u64
  reason :: close_reason

record authenticated_peer =
  peer_account :: string
  peer_device :: bytes

datatype handshake = Handshake_Authenticated authenticated_peer | Handshake_Close

datatype request_loop = Loop_Continue | Loop_Close

section \<open>Token bucket\<close>

record token_bucket =
  tokens :: u32
  capacity :: u32
  per_second :: u32
  refilled :: nat

definition bucket_new :: "u32 \<Rightarrow> u32 \<Rightarrow> nat \<Rightarrow> token_bucket" where
  "bucket_new cap rate now = \<lparr>tokens = cap, capacity = cap, per_second = rate, refilled = now\<rparr>"

text \<open>
  Times are milliseconds of the monotonic clock: \<open>now\<close> when the elapsed time is read and \<open>now'\<close> when
  the refill time is stored. The product is computed in 128 bits.
\<close>

definition bucket_take :: "nat \<Rightarrow> nat \<Rightarrow> token_bucket \<Rightarrow> bool \<times> token_bucket" where
  "bucket_take now now' b =
     (let elapsed = now - refilled b;
          refill = elapsed * unat (per_second b) div 1000;
          b = (if 0 < refill then
                 b\<lparr>tokens := word_of_nat (min (min (unat (tokens b) + min refill (2 ^ 32 - 1)) (2 ^ 32 - 1))
                                              (unat (capacity b))),
                   refilled := now'\<rparr>
               else b) in
      if tokens b = 0 then (False, b) else (True, b\<lparr>tokens := tokens b - 1\<rparr>))"

section \<open>Sending and calling\<close>

definition send_text :: "session_env \<Rightarrow> json \<Rightarrow> session \<Rightarrow> (session_error + unit) \<times> session" where
  "send_text e frame s =
     (if MAX_FRAME_BYTES < frame_len e frame
      then (Inl (Service (server_err TooLarge ''outgoing frame exceeds wire budget'')), s)
      else if send_ok e (length (sent s)) then (Inr (), s\<lparr>sent := sent s @ [Sent_Text frame]\<rparr>)
      else (Inl WebSocket, s))"

definition send_pong :: "session_env \<Rightarrow> bytes \<Rightarrow> session \<Rightarrow> (session_error + unit) \<times> session" where
  "send_pong e payload s =
     (if send_ok e (length (sent s)) then (Inr (), s\<lparr>sent := sent s @ [Sent_Pong payload]\<rparr>)
      else (Inl WebSocket, s))"

definition service_call ::
  "session_env \<Rightarrow> service_request \<Rightarrow> session \<Rightarrow> (server_error + json) \<times> session" where
  "service_call e req s =
     (let k = calls s;
          before = fold (service_step (lib e)) (others e k) (svc s);
          (r, after) = call (lib e) (call_eng e k) (call_random e k) req before in
      (r, s\<lparr>svc := after, calls := k + 1\<rparr>))"

section \<open>Requests\<close>

text \<open>
  The derived reader of \<open>Command\<close>: the method names the variant, the parameters are an object whose
  unknown fields are ignored. A method without parameters may carry a null.
\<close>

definition de_command :: "string \<Rightarrow> json option \<Rightarrow> hosted_command option" where
  "de_command tag params =
     (if tag = ''hello'' then
        Option.bind (Option.bind params (de_fields [''minimum_version'', ''maximum_version'', ''device_public_key''])) (\<lambda>m.
        Option.bind (de_field m ''minimum_version'' de_u16) (\<lambda>lo.
        Option.bind (de_field m ''maximum_version'' de_u16) (\<lambda>hi.
        map_option (Command_Hello lo hi) (de_field m ''device_public_key'' de_string))))
      else if tag = ''authenticate'' then
        Option.bind (Option.bind params (de_fields [''signature'', ''display_name''])) (\<lambda>m.
        Option.bind (de_field m ''signature'' de_string) (\<lambda>sig.
        map_option (Command_Authenticate sig) (de_default None (de_option de_string) (m ''display_name''))))
      else if tag = ''status'' then (if params = None \<or> params = Some JNull then Some Command_Status else None)
      else if tag = ''claim-handle'' then
        Option.bind (Option.bind params (de_fields [''handle''])) (\<lambda>m.
        map_option Command_ClaimHandle (de_field m ''handle'' de_string))
      else if tag = ''resolve-handle'' then
        Option.bind (Option.bind params (de_fields [''handle''])) (\<lambda>m.
        map_option Command_ResolveHandle (de_field m ''handle'' de_string))
      else if tag = ''bind-nostr'' then
        Option.bind (Option.bind params
          (de_fields [''nostr_public_key'', ''nonce'', ''timestamp'', ''device_signature'', ''nostr_signature''])) (\<lambda>m.
        Option.bind (de_field m ''nostr_public_key'' de_string) (\<lambda>key.
        Option.bind (de_field m ''nonce'' de_string) (\<lambda>nonce.
        Option.bind (de_field m ''timestamp'' de_u64) (\<lambda>at.
        Option.bind (de_field m ''device_signature'' de_string) (\<lambda>sig.
        map_option (Command_BindNostr key nonce at sig) (de_field m ''nostr_signature'' de_string))))))
      else if tag = ''unbind-nostr'' then
        Option.bind (Option.bind params (de_fields [''nonce'', ''timestamp'', ''device_signature''])) (\<lambda>m.
        Option.bind (de_field m ''nonce'' de_string) (\<lambda>nonce.
        Option.bind (de_field m ''timestamp'' de_u64) (\<lambda>at.
        map_option (Command_UnbindNostr nonce at) (de_field m ''device_signature'' de_string))))
      else None)"

text \<open>
  The derived reader of \<open>Request\<close>, whose command is flattened into it: one object with the fields of
  both, each at most once, other fields ignored.
\<close>

definition de_hosted_request :: "json \<Rightarrow> hosted_request option" where
  "de_hosted_request j =
     Option.bind (de_fields [''version'', ''id'', ''method'', ''params''] j) (\<lambda>m.
     Option.bind (de_field m ''version'' de_u16) (\<lambda>v.
     Option.bind (de_field m ''id'' de_string) (\<lambda>i.
     Option.bind (de_field m ''method'' content_variant) (\<lambda>tag.
     map_option (\<lambda>c. \<lparr>req_version = v, req_id = i, req_command = c\<rparr>) (de_command tag (m ''params''))))))"

text \<open>\<open>json_failure\<close> is the message of the JSON library for a text it cannot read as a request.\<close>

definition parse_request :: "session_env \<Rightarrow> string \<Rightarrow> server_error + hosted_request" where
  "parse_request e txt =
     (case Option.bind (json_from_slice (json_lib e) (as_bytes txt)) de_hosted_request of
        None \<Rightarrow>
          Inl (server_err InvalidRequest (''request is not a valid protocol frame: '' @ json_failure e txt))
      | Some request \<Rightarrow>
          if req_id request = [] \<or> MAX_REQUEST_ID_BYTES < length (req_id request)
          then Inl (server_err InvalidRequest ''id is 1 to 64 bytes'')
          else Inr request)"

definition version_error :: server_error where
  "version_error = server_err UnsupportedVersion ''only protocol version 1 is supported''"

definition text_only_error :: server_error where
  "text_only_error = server_err InvalidRequest ''only JSON text frames are accepted''"

text \<open>Reply to the peer, note why the session closes, and hand over no request.\<close>

definition refuse ::
  "session_env \<Rightarrow> json \<Rightarrow> close_reason \<Rightarrow> 'a \<Rightarrow> session \<Rightarrow> (session_error + 'a) \<times> session" where
  "refuse e frame why result s =
     then_st (send_text e frame s) (\<lambda>_ s. (Inr result, s\<lparr>reason := why\<rparr>))"

text \<open>\<open>next_request\<close> reads until a request or an end; it also returns the input it has not read.\<close>

fun next_request ::
  "session_env \<Rightarrow> ws_input list \<Rightarrow> session
    \<Rightarrow> ((session_error + (string \<times> hosted_command) option) \<times> session) \<times> ws_input list" where
  "next_request e [] s = ((Inr None, s\<lparr>reason := ClientClosed\<rparr>), [])"
| "next_request e (Ws_Ended # ms) s = ((Inr None, s\<lparr>reason := ClientClosed\<rparr>), ms)"
| "next_request e (Timer_Fired # ms) s = ((Inl AuthenticationTimeout, s), ms)"
| "next_request e (Ws_Failed # ms) s = ((Inl WebSocket, s), ms)"
| "next_request e (Delivered (Ws_Text txt) # ms) s =
    (let s = s\<lparr>requests := requests s + 1\<rparr> in
     case parse_request e txt of
       Inr request \<Rightarrow>
         if req_version request = PROTOCOL_VERSION
         then ((Inr (Some (req_id request, req_command request)), s), ms)
         else (refuse e (failure_frame (req_id request) version_error) ProtocolViolation None s, ms)
     | Inl error \<Rightarrow> (refuse e (failure_frame [] error) ProtocolViolation None s, ms))"
| "next_request e (Delivered (Ws_Ping payload) # ms) s =
    (case send_pong e payload s of
       (Inl err, s) \<Rightarrow> ((Inl err, s), ms)
     | (Inr _, s) \<Rightarrow> next_request e ms s)"
| "next_request e (Delivered Ws_Pong # ms) s = next_request e ms s"
| "next_request e (Delivered Ws_Close # ms) s = ((Inr None, s\<lparr>reason := ClientClosed\<rparr>), ms)"
| "next_request e (Delivered Ws_Binary # ms) s =
    (refuse e (failure_frame [] text_only_error) ProtocolViolation None s, ms)"

section \<open>Handshake\<close>

definition hello_reply :: "session_env \<Rightarrow> bytes \<Rightarrow> bytes \<Rightarrow> json" where
  "hello_reply e challenge device_public_key =
     JObj [(''version'', JInt (uint PROTOCOL_VERSION)),
           (''challenge'', JStr (hex_encode (lib e) challenge)),
           (''server_public_key'', JStr (hex_encode (lib e) (ed_public (lib e) (identity_seed e)))),
           (''server_signature'', JStr (hex_encode (lib e)
              (sign_hello (lib e) (identity_seed e) challenge device_public_key)))]"

text \<open>The key a hello offers, or the refusal the server sends.\<close>

definition hello_key :: "session_env \<Rightarrow> hosted_command \<Rightarrow> server_error + bytes" where
  "hello_key e cmd =
     (case cmd of
        Command_Hello minimum maximum key \<Rightarrow>
          if PROTOCOL_VERSION < minimum \<or> maximum < PROTOCOL_VERSION
          then Inl (server_err UnsupportedVersion ''this server speaks protocol version 1'')
          else map_err (\<lambda>_. server_err InvalidRequest ''device_public_key must be 64 hex characters'')
                 (decode_key (lib e) key)
      | _ \<Rightarrow> Inl (server_err NotAuthenticated ''send hello before any other request''))"

definition json_str :: "json \<Rightarrow> string option" where
  "json_str j = (case j of JStr s \<Rightarrow> Some s | _ \<Rightarrow> None)"

definition finish_authenticate ::
  "session_env \<Rightarrow> bytes \<Rightarrow> bytes \<Rightarrow> string \<Rightarrow> hosted_command \<Rightarrow> session
    \<Rightarrow> (session_error + handshake) \<times> session" where
  "finish_authenticate e challenge device_public_key auth_id cmd s =
     (case cmd of
        Command_Authenticate signature display_name \<Rightarrow>
          (case and_then (decode_signature (lib e) signature)
             (verify_device_signature (lib e) (ed_public (lib e) (identity_seed e)) challenge
               device_public_key) of
             Inl _ \<Rightarrow>
               refuse e (failure_frame auth_id (server_err InvalidSignature
                   ''the challenge signature did not verify for this device key''))
                 AuthenticationFailed Handshake_Close s
           | Inr _ \<Rightarrow>
               (case service_call e
                   (Register device_public_key display_name (unix_now e (calls s))) s of
                  (Inr result, s) \<Rightarrow>
                    (case Option.bind (json_get result ''account_id'') json_str of
                       None \<Rightarrow> (Inl MalformedRegistration, s)
                     | Some account_id \<Rightarrow>
                         then_st (send_text e (success_frame auth_id result) s) (\<lambda>_ s.
                           (Inr (Handshake_Authenticated
                             \<lparr>peer_account = account_id, peer_device = device_public_key\<rparr>), s)))
                | (Inl error, s) \<Rightarrow>
                    refuse e (failure_frame auth_id error) AuthenticationFailed Handshake_Close s))
      | _ \<Rightarrow>
          refuse e (failure_frame auth_id (server_err NotAuthenticated
              ''send authenticate before any other request'')) ProtocolViolation Handshake_Close s)"

definition authenticate ::
  "session_env \<Rightarrow> ws_input list \<Rightarrow> session
    \<Rightarrow> ((session_error + handshake) \<times> session) \<times> ws_input list" where
  "authenticate e ms s =
     (case next_request e ms s of
        ((Inl err, s), ms) \<Rightarrow> ((Inl err, s), ms)
      | ((Inr None, s), ms) \<Rightarrow> ((Inr Handshake_Close, s), ms)
      | ((Inr (Some (hello_id, hello)), s), ms) \<Rightarrow>
          (case hello_key e hello of
             Inl error \<Rightarrow>
               (refuse e (failure_frame hello_id error) ProtocolViolation Handshake_Close s, ms)
           | Inr device_public_key \<Rightarrow>
               (case random_challenge (challenge_bytes e) of
                  Inl _ \<Rightarrow> ((Inl Randomness, s), ms)
                | Inr challenge \<Rightarrow>
                    (case send_text e
                        (success_frame hello_id (hello_reply e challenge device_public_key)) s of
                       (Inl err, s) \<Rightarrow> ((Inl err, s), ms)
                     | (Inr _, s) \<Rightarrow>
                         (case next_request e ms s of
                            ((Inl err, s), ms) \<Rightarrow> ((Inl err, s), ms)
                          | ((Inr None, s), ms) \<Rightarrow> ((Inr Handshake_Close, s), ms)
                          | ((Inr (Some (auth_id, cmd)), s), ms) \<Rightarrow>
                              (finish_authenticate e challenge device_public_key auth_id cmd s, ms))))))"

section \<open>Request loop\<close>

definition handle_request ::
  "session_env \<Rightarrow> authenticated_peer \<Rightarrow> nat \<Rightarrow> nat \<Rightarrow> string \<Rightarrow> token_bucket \<Rightarrow> session
    \<Rightarrow> (session_error + request_loop) \<times> token_bucket \<times> session" where
  "handle_request e peer now now' txt bucket s =
     (case parse_request e txt of
        Inl error \<Rightarrow>
          (let (r, s) = then_st (send_text e (failure_frame [] error) s) (\<lambda>_ s. (Inr Loop_Close, s)) in
           (r, bucket, s))
      | Inr request \<Rightarrow>
          if req_version request \<noteq> PROTOCOL_VERSION then
            (let (r, s) = then_st (send_text e (failure_frame (req_id request) version_error) s)
                            (\<lambda>_ s. (Inr Loop_Continue, s)) in
             (r, bucket, s))
          else
            let (granted, bucket) = bucket_take now now' bucket in
            if \<not> granted then
              (let (r, s) = then_st (send_text e (failure_frame (req_id request)
                                 (server_err RateLimited ''slow down and retry'')) s)
                              (\<lambda>_ s. (Inr Loop_Continue, s)) in
               (r, bucket, s))
            else
              let (result, s) = service_call e (Command (peer_account peer) (peer_device peer)
                                  (req_command request) (unix_now e (calls s))) s;
                  frame = (case result of
                     Inr value \<Rightarrow>
                       let frame = success_frame (req_id request) value in
                       if frame_len e frame \<le> MAX_FRAME_BYTES then frame
                       else failure_frame (req_id request) (server_err TooLarge
                              ''response exceeds frame budget; use a paged request'')
                   | Inl error \<Rightarrow> failure_frame (req_id request) error);
                  (r, s) = then_st (send_text e frame s) (\<lambda>_ s. (Inr Loop_Continue, s)) in
              (r, bucket, s))"

text \<open>
  What the \<open>select!\<close> of \<open>serve\<close> can pick: a change of the shutdown flag (whether to stop), a frame of
  the event channel with the lag flag as it is then read, socket input with the clock readings its
  handling makes, or the idle tick.
\<close>

datatype serve_event =
    Ev_Shutdown bool
  | Ev_Inbox "json option" bool
  | Ev_Socket ws_input nat nat nat
  | Ev_Tick nat

definition lagged_frame :: json where
  "lagged_frame = event_frame ''lagged''
     (JObj [(''message'', JStr ''events were dropped; reload conversations and history'')])"

definition close_with :: "close_reason \<Rightarrow> session \<Rightarrow> (session_error + unit) option \<times> session" where
  "close_with why s = (Some (Inr ()), s\<lparr>reason := why\<rparr>)"

fun serve ::
  "session_env \<Rightarrow> authenticated_peer \<Rightarrow> serve_event list \<Rightarrow> token_bucket \<Rightarrow> nat \<Rightarrow> session
    \<Rightarrow> (session_error + unit) option \<times> session" where
  "serve e peer [] bucket last_activity s = (None, s)"
| "serve e peer (Ev_Shutdown stop # evs) bucket last_activity s =
    (if stop then close_with Shutdown s else serve e peer evs bucket last_activity s)"
| "serve e peer (Ev_Inbox None _ # evs) bucket last_activity s = close_with Shutdown s"
| "serve e peer (Ev_Inbox (Some frame) lag # evs) bucket last_activity s =
    (case send_text e frame s of
       (Inl err, s) \<Rightarrow> (Some (Inl err), s)
     | (Inr _, s) \<Rightarrow>
         if lag then
           (case send_text e lagged_frame s of
              (Inl err, s) \<Rightarrow> (Some (Inl err), s)
            | (Inr _, s) \<Rightarrow> close_with Lagged s)
         else serve e peer evs bucket last_activity s)"
| "serve e peer (Ev_Socket inp at now now' # evs) bucket last_activity s =
    (case inp of
       Ws_Ended \<Rightarrow> close_with ClientClosed s
     | Timer_Fired \<Rightarrow> serve e peer evs bucket last_activity s
     | Ws_Failed \<Rightarrow> (Some (Inl WebSocket), s)
     | Delivered (Ws_Text txt) \<Rightarrow>
         (case handle_request e peer now now' txt bucket (s\<lparr>requests := requests s + 1\<rparr>) of
            (Inl err, bucket, s) \<Rightarrow> (Some (Inl err), s)
          | (Inr Loop_Close, bucket, s) \<Rightarrow> close_with ProtocolViolation s
          | (Inr Loop_Continue, bucket, s) \<Rightarrow> serve e peer evs bucket at s)
     | Delivered (Ws_Ping payload) \<Rightarrow>
         (case send_pong e payload s of
            (Inl err, s) \<Rightarrow> (Some (Inl err), s)
          | (Inr _, s) \<Rightarrow> serve e peer evs bucket at s)
     | Delivered Ws_Pong \<Rightarrow> serve e peer evs bucket at s
     | Delivered Ws_Close \<Rightarrow> close_with ClientClosed s
     | Delivered Ws_Binary \<Rightarrow>
         (case send_text e (failure_frame [] text_only_error) s of
            (Inl err, s) \<Rightarrow> (Some (Inl err), s)
          | (Inr _, s) \<Rightarrow> close_with ProtocolViolation s))"
| "serve e peer (Ev_Tick now # evs) bucket last_activity s =
    (if idle_timeout (limits e) \<le> now - last_activity then close_with Idle s
     else serve e peer evs bucket last_activity s)"

text \<open>
  \<open>run\<close> after the WebSocket upgrade: authenticate, attach to the service, serve, detach. The result
  is \<open>None\<close> while the session still waits for events.
\<close>

definition run ::
  "session_env \<Rightarrow> ws_input list \<Rightarrow> serve_event list \<Rightarrow> nat \<Rightarrow> session
    \<Rightarrow> (session_error + unit) option \<times> session" where
  "run e ms evs start s =
     (case authenticate e ms s of
        ((Inl err, s), _) \<Rightarrow> (Some (Inl err), s)
      | ((Inr Handshake_Close, s), _) \<Rightarrow> (Some (Inr ()), s)
      | ((Inr (Handshake_Authenticated peer), s), _) \<Rightarrow>
          let s = s\<lparr>authenticated := True\<rparr> in
          (case service_call e (Attach (peer_account peer) (this_session e)) s of
             (Inl err, s) \<Rightarrow> (Some (Inl (Service err)), s)
           | (Inr _, s) \<Rightarrow>
               (case serve e peer evs (bucket_new (request_burst (limits e))
                       (requests_per_second (limits e)) start) start s of
                  (None, s) \<Rightarrow> (None, s)
                | (Some outcome, s) \<Rightarrow>
                    (Some outcome,
                     snd (service_call e (Detach (peer_account peer) (this_session e)) s)))))"

datatype upgrade = Upgrade_Ok | Upgrade_Timeout | Upgrade_Failed

text \<open>\<open>run_session\<close>: any error becomes the report's reason and cause.\<close>

definition run_session ::
  "session_env \<Rightarrow> upgrade \<Rightarrow> ws_input list \<Rightarrow> serve_event list \<Rightarrow> nat \<Rightarrow> session
    \<Rightarrow> session_error option \<times> session" where
  "run_session e up ms evs start s =
     (case (case up of
              Upgrade_Timeout \<Rightarrow> (Some (Inl AdmissionTimeout), s)
            | Upgrade_Failed \<Rightarrow> (Some (Inl WebSocket), s)
            | Upgrade_Ok \<Rightarrow> run e ms evs start s) of
        (Some (Inl err), s) \<Rightarrow> (Some err, s\<lparr>reason := Failed\<rparr>)
      | (_, s) \<Rightarrow> (None, s))"

section \<open>Rate limit\<close>

fun take_all :: "(nat \<times> nat) list \<Rightarrow> token_bucket \<Rightarrow> nat \<times> token_bucket" where
  "take_all [] b = (0, b)"
| "take_all ((now, now') # ts) b =
    (let (granted, b) = bucket_take now now' b; (n, b) = take_all ts b in
     (of_bool granted + n, b))"

text \<open>Clock readings in the order in which they are made.\<close>

fun ordered_from :: "nat \<Rightarrow> (nat \<times> nat) list \<Rightarrow> bool" where
  "ordered_from t [] \<longleftrightarrow> True"
| "ordered_from t ((now, now') # ts) \<longleftrightarrow> t \<le> now \<and> now \<le> now' \<and> ordered_from now' ts"

lemma unat_u32_bound: "unat (a :: u32) < 4294967296"
proof -
  have "unat a < 2 ^ LENGTH(32)" by (rule unsigned_less)
  then show ?thesis by simp
qed

lemma take_potential:
  assumes "bucket_take now now' b = (granted, b')" and "refilled b \<le> now" "now \<le> now'"
  shows "1000 * (of_bool granted + unat (tokens b')) + unat (per_second b) * refilled b
      \<le> 1000 * unat (tokens b) + unat (per_second b) * refilled b'"
    and "per_second b' = per_second b" and "refilled b' \<le> now'"
proof -
  define refill where "refill = (now - refilled b) * unat (per_second b) div 1000"
  define b1 where "b1 = (if 0 < refill then
      b\<lparr>tokens := word_of_nat (min (min (unat (tokens b) + min refill (2 ^ 32 - 1)) (2 ^ 32 - 1))
                                    (unat (capacity b))),
        refilled := now'\<rparr> else b)"
  have b': "granted = (tokens b1 \<noteq> 0)" "b' = (if tokens b1 = 0 then b1 else b1\<lparr>tokens := tokens b1 - 1\<rparr>)"
    using assms(1) by (auto simp: bucket_take_def b1_def refill_def Let_def split: if_splits)
  have taken: "of_bool granted + unat (tokens b') = unat (tokens b1)"
    using b' unsigned_eq_0_iff [of "tokens b1"] by (auto simp: unat_minus_one)
  have "1000 * unat (tokens b1) + unat (per_second b) * refilled b
      \<le> 1000 * unat (tokens b) + unat (per_second b) * refilled b1"
  proof (cases "0 < refill")
    case True
    let ?n = "min (min (unat (tokens b) + min refill (2 ^ 32 - 1)) (2 ^ 32 - 1)) (unat (capacity b))"
    have "?n < 2 ^ 32" by simp
    then have "unat (word_of_nat ?n :: u32) = ?n" by (simp add: unat_of_nat)
    then have "unat (tokens b1) \<le> unat (tokens b) + refill" using True by (simp add: b1_def)
    moreover have "1000 * refill \<le> (now - refilled b) * unat (per_second b)"
      unfolding refill_def by (rule times_div_less_eq_dividend)
    moreover have "(now - refilled b) * unat (per_second b) \<le> (now' - refilled b) * unat (per_second b)"
      using assms(3) by (intro mult_le_mono1) simp
    moreover have "(now' - refilled b) * unat (per_second b) + unat (per_second b) * refilled b
        = unat (per_second b) * now'"
    proof -
      have "now' - refilled b + refilled b = now'" using assms(2,3) by simp
      then show ?thesis by (metis add_mult_distrib mult.commute)
    qed
    moreover have r1: "refilled b1 = now'" using True by (simp add: b1_def)
    ultimately show ?thesis unfolding r1 by linarith
  qed (simp add: b1_def)
  then show "1000 * (of_bool granted + unat (tokens b')) + unat (per_second b) * refilled b
      \<le> 1000 * unat (tokens b) + unat (per_second b) * refilled b'"
    using taken b'(2) by (auto split: if_splits)
  show "per_second b' = per_second b" "refilled b' \<le> now'"
    using assms(2,3) b'(2) by (auto simp: b1_def split: if_splits)
qed

lemma take_all_potential:
  assumes "take_all ts b = (n, b')" and "refilled b \<le> t" and "ordered_from t ts"
    and "\<And>x y. (x, y) \<in> set ts \<Longrightarrow> y \<le> T" and "t \<le> T"
  shows "1000 * n + unat (per_second b) * refilled b
    \<le> 1000 * unat (tokens b) + unat (per_second b) * T"
  using assms
proof (induction ts arbitrary: b n t)
  case Nil
  then have "refilled b \<le> T" by simp
  then show ?case using Nil(1) by (simp add: trans_le_add2)
next
  case (Cons x ts)
  obtain now now' where x: "x = (now, now')" by fastforce
  obtain g b1 where take: "bucket_take now now' b = (g, b1)" by fastforce
  obtain m b2 where rest: "take_all ts b1 = (m, b2)" by fastforce
  from Cons.prems(1) x take rest have n: "n = of_bool g + m" and "b' = b2" by auto
  have order: "refilled b \<le> now" "now \<le> now'" "ordered_from now' ts" "now' \<le> T"
    using Cons.prems x by auto
  note pot = take_potential [OF take order(1,2)]
  have "1000 * m + unat (per_second b1) * refilled b1 \<le> 1000 * unat (tokens b1) + unat (per_second b1) * T"
    using Cons.IH [of b1 m now'] rest \<open>b' = b2\<close> pot(3) order Cons.prems(4) by auto
  with pot(1,2) n show ?case by (simp add: add_mult_distrib2)
qed

lemma take_capped:
  assumes "bucket_take now now' b = (granted, b')" and "unat (tokens b) \<le> unat (capacity b)"
  shows "unat (tokens b') \<le> unat (capacity b')" and "capacity b' = capacity b"
proof -
  define n where "n = min (min (unat (tokens b) + min ((now - refilled b) * unat (per_second b) div 1000) (2 ^ 32 - 1)) (2 ^ 32 - 1))
    (unat (capacity b))"
  define b1 where "b1 = (if 0 < (now - refilled b) * unat (per_second b) div 1000
    then b\<lparr>tokens := word_of_nat n, refilled := now'\<rparr> else b)"
  have b': "b' = (if tokens b1 = 0 then b1 else b1\<lparr>tokens := tokens b1 - 1\<rparr>)"
    using assms(1) by (auto simp: bucket_take_def b1_def n_def Let_def split: if_splits)
  have "n < 2 ^ 32" by (simp add: n_def)
  then have "unat (word_of_nat n :: u32) \<le> unat (capacity b)" by (simp add: unat_of_nat) (simp add: n_def)
  then have "unat (tokens b1) \<le> unat (capacity b)" "capacity b1 = capacity b" using assms(2) by (simp_all add: b1_def)
  moreover have "unat (t - 1) \<le> unat t" if "t \<noteq> 0" for t :: u32
    using that by (simp add: unat_minus_one)
  ultimately show "unat (tokens b') \<le> unat (capacity b')" "capacity b' = capacity b"
    using b' by (auto intro: order_trans)
qed

text \<open>A take that refills leaves the bucket at most full and dated inside the window.\<close>

lemma take_refills:
  assumes "bucket_take now now' b = (granted, b')" and "1000 \<le> (now - refilled b) * unat (per_second b)"
    and "unat (tokens b) \<le> unat (capacity b)"
  shows "of_bool granted + unat (tokens b') \<le> unat (capacity b)" and "refilled b' = now'"
proof -
  define refill where "refill = (now - refilled b) * unat (per_second b) div 1000"
  define n where "n = min (min (unat (tokens b) + min refill (2 ^ 32 - 1)) (2 ^ 32 - 1)) (unat (capacity b))"
  define b1 where "b1 = b\<lparr>tokens := word_of_nat n, refilled := now'\<rparr>"
  have "0 < refill" using assms(2) by (simp add: refill_def div_greater_zero_iff)
  then have b': "granted = (tokens b1 \<noteq> 0)" "b' = (if tokens b1 = 0 then b1 else b1\<lparr>tokens := tokens b1 - 1\<rparr>)"
    using assms(1) by (auto simp: bucket_take_def b1_def n_def refill_def Let_def split: if_splits)
  have "n < 2 ^ 32" by (simp add: n_def)
  then have "unat (tokens b1) = n" by (simp add: b1_def unat_of_nat)
  moreover have "of_bool granted + unat (tokens b') = unat (tokens b1)"
    using b' unsigned_eq_0_iff [of "tokens b1"] by (auto simp: unat_minus_one)
  ultimately show "of_bool granted + unat (tokens b') \<le> unat (capacity b)" by (simp add: n_def)
  show "refilled b' = now'" using b'(2) by (auto simp: b1_def)
qed

lemma take_all_capped:
  assumes "take_all ts b = (n, b')" and "unat (tokens b) \<le> unat (capacity b)" and "refilled b \<le> t" and "ordered_from t ts"
    and "\<And>x y. (x, y) \<in> set ts \<Longrightarrow> y \<le> t1" and "t \<le> t1"
  shows "unat (tokens b') \<le> unat (capacity b') \<and> capacity b' = capacity b \<and> per_second b' = per_second b
    \<and> refilled b' \<le> t1"
  using assms
proof (induction ts arbitrary: b n t)
  case (Cons x ts)
  obtain now now' where x: "x = (now, now')" by fastforce
  obtain g b1 where take: "bucket_take now now' b = (g, b1)" by fastforce
  obtain m b2 where rest: "take_all ts b1 = (m, b2)" by fastforce
  have order: "refilled b \<le> now" "now \<le> now'" "ordered_from now' ts" "now' \<le> t1" and b2: "b' = b2"
    using Cons.prems x take rest by auto
  note pot = take_potential [OF take order(1,2)] and cap = take_capped [OF take Cons.prems(2)]
  from Cons.IH [of b1 m now'] rest b2 pot(2,3) cap order Cons.prems(5) show ?case by auto
qed auto

lemma take_all_append:
  "take_all (xs @ ys) b = (let (n, b) = take_all xs b; (m, b) = take_all ys b in (n + m, b))"
  by (induction xs b rule: take_all.induct) (auto simp: Let_def split: prod.splits)

lemma ordered_from_append:
  "ordered_from t (xs @ ys) \<longleftrightarrow> ordered_from t xs \<and> ordered_from (if xs = [] then t else snd (last xs)) ys"
  by (induction xs arbitrary: t) auto

text \<open>What a bucket that is at most full grants between two times.\<close>

lemma window_grants:
  assumes "take_all ts b = (n, b')" and "unat (tokens b) \<le> unat (capacity b)" and "refilled b \<le> t" and "t \<le> t1"
    and "ordered_from t ts" and "\<And>x y. (x, y) \<in> set ts \<Longrightarrow> t1 \<le> x \<and> y \<le> T" and "t1 \<le> T"
  shows "1000 * n \<le> 1000 * unat (capacity b) + unat (per_second b) * (T - t1) + 999"
proof (cases ts)
  case Nil
  with assms(1) show ?thesis by simp
next
  case (Cons x rest)
  obtain now now' where x: "x = (now, now')" by fastforce
  let ?r = "unat (per_second b)"
  have order: "refilled b \<le> now" "now \<le> now'" "ordered_from now' rest" "t1 \<le> now" "now' \<le> T"
    using assms(3,5,6) Cons x by auto
  have diff: "?r * (T - u) + ?r * u = ?r * T" if "u \<le> T" for u
    using that by (metis add_mult_distrib2 le_add_diff_inverse2)
  show ?thesis
  proof (cases "1000 \<le> (now - refilled b) * ?r")
    case True
    obtain g b1 m where take: "bucket_take now now' b = (g, b1)" and rest: "take_all rest b1 = (m, b')" and n: "n = of_bool g + m"
      using assms(1) Cons x by (auto split: prod.splits)
    note full = take_refills [OF take True assms(2)] and pot = take_potential [OF take order(1,2)]
    have "1000 * m + ?r * now' \<le> 1000 * unat (tokens b1) + ?r * T"
      using take_all_potential [OF rest _ order(3), of T] full(2) pot(2) order(5) assms(6) Cons by auto
    moreover have "?r * (T - now') \<le> ?r * (T - t1)" using order by (intro mult_le_mono2) simp
    moreover have "1000 * n = 1000 * of_bool g + 1000 * m" "1000 * of_bool g + 1000 * unat (tokens b1) \<le> 1000 * unat (capacity b)"
      using n full(1) by (simp_all only: add_mult_distrib2 [symmetric] mult_le_mono2)
    ultimately show ?thesis using diff [OF order(5)] by linarith
  next
    case False
    have "1000 * n + ?r * refilled b \<le> 1000 * unat (tokens b) + ?r * T"
      using take_all_potential [OF assms(1) _ assms(5), of T] assms by fastforce
    moreover have "?r * t1 \<le> ?r * refilled b + 999"
    proof -
      have "?r * t1 \<le> ?r * now" using order(4) by simp
      also have "\<dots> = ?r * refilled b + (now - refilled b) * ?r"
        using order(1) by (metis add_mult_distrib2 le_add_diff_inverse mult.commute)
      finally show ?thesis using False by simp
    qed
    ultimately show ?thesis using assms(2) diff [OF assms(7)] by linarith
  qed
qed

text \<open>
  C10. The rate limit holds between any two times. However the requests of a session arrive, and
  whatever it asked for before \<open>t1\<close>, from \<open>t1\<close> to \<open>T\<close> its bucket grants at most the burst plus the
  configured rate times the elapsed seconds, plus the part of one token that was accruing at \<open>t1\<close>:
  idle time never banks more than the burst. Counted from the start of the session the bound holds
  without that part.
\<close>

theorem rate_limited:
  assumes "ordered_from t0 (before @ during)" and "\<And>x y. (x, y) \<in> set before \<Longrightarrow> y \<le> t1"
    and "\<And>x y. (x, y) \<in> set during \<Longrightarrow> t1 \<le> x \<and> y \<le> T" and "t0 \<le> t1" and "t1 \<le> T"
  shows "1000 * fst (take_all during (snd (take_all before (bucket_new burst rate t0))))
      \<le> 1000 * unat burst + unat rate * (T - t1) + 999
    \<and> 1000 * fst (take_all (before @ during) (bucket_new burst rate t0)) \<le> 1000 * unat burst + unat rate * (T - t0)"
proof
  let ?b = "bucket_new burst rate t0"
  have new: "unat (tokens ?b) \<le> unat (capacity ?b)" "refilled ?b \<le> t0" by (simp_all add: bucket_new_def)
  obtain k b1 where before: "take_all before ?b = (k, b1)" by fastforce
  obtain n b2 where during: "take_all during b1 = (n, b2)" by fastforce
  have o: "ordered_from t0 before" "ordered_from (if before = [] then t0 else snd (last before)) during"
    using assms(1) by (simp_all only: ordered_from_append)
  have b1: "unat (tokens b1) \<le> unat (capacity b1)" "capacity b1 = burst" "per_second b1 = rate" "refilled b1 \<le> t1"
    using take_all_capped [OF before new o(1) _ assms(4)] assms(2) by (auto simp: bucket_new_def)
  have "ordered_from t1 during"
  proof (cases during)
    case (Cons x rest)
    then have "t1 \<le> fst x" using assms(3) [of "fst x" "snd x"] by simp
    with o(2) Cons show ?thesis by (cases x) simp
  qed simp
  then show "1000 * fst (take_all during (snd (take_all before ?b))) \<le> 1000 * unat burst + unat rate * (T - t1) + 999"
    using window_grants [OF during b1(1,4) order_refl _ assms(3,5)] before during b1(2,3) by simp
  obtain m b3 where all: "take_all (before @ during) ?b = (m, b3)" by fastforce
  have "1000 * m + unat rate * t0 \<le> 1000 * unat burst + unat rate * T"
    using take_all_potential [OF all new(2) assms(1), of T] assms(2-5) by (fastforce simp: bucket_new_def)
  moreover have "unat rate * (T - t0) + unat rate * t0 = unat rate * T"
    using assms(4,5) by (metis add_mult_distrib2 le_add_diff_inverse2 order_trans)
  ultimately show "1000 * fst (take_all (before @ during) ?b) \<le> 1000 * unat burst + unat rate * (T - t0)"
    using all by simp
qed

theorem rate_limited_witness:
  "1000 * fst (take_all [(9000, 9000), (9010, 9010), (9020, 9020)]
       (snd (take_all [(1000, 1000), (1010, 1010)] (bucket_new 2 20 1000))))
    \<le> 1000 * unat (2 :: u32) + unat (20 :: u32) * (9020 - 9000) + 999"
  by (rule conjunct1, rule rate_limited [of 1000 _ _ 9000 9020 2 20]) auto

section \<open>The handshake\<close>

lemma send_text_sent:
  "send_text e f s = (Inr u, s') \<Longrightarrow> s' = s\<lparr>sent := sent s @ [Sent_Text f]\<rparr>"
  by (auto simp: send_text_def split: if_splits)

lemma send_pong_sent:
  "send_pong e p s = (r, s') \<Longrightarrow> svc s' = svc s \<and> calls s' = calls s \<and> (\<exists>fs. sent s' = sent s @ fs)"
  by (auto simp: send_pong_def split: if_splits)

lemma refuse_frame:
  "refuse e f why x s = (r, s') \<Longrightarrow> svc s' = svc s \<and> calls s' = calls s \<and> (\<exists>fs. sent s' = sent s @ fs)"
  by (auto simp: refuse_def send_text_def split: if_splits)

lemma next_request_frame:
  "next_request e ms s = ((r, s'), ms') \<Longrightarrow>
     svc s' = svc s \<and> calls s' = calls s \<and> (\<exists>fs. sent s' = sent s @ fs)"
proof (induction e ms s arbitrary: r s' ms' rule: next_request.induct)
  case (5 e t ms s)
  then show ?case
    by (auto simp: Let_def split: sum.splits if_splits dest!: refuse_frame)
next
  case (6 e payload ms s)
  then show ?case
    by (auto split: prod.splits sum.splits dest!: send_pong_sent) (metis append_assoc)
qed (auto dest!: refuse_frame)

text \<open>What an accepted handshake has exchanged.\<close>

lemma finish_authenticated:
  assumes "finish_authenticate e challenge dev auth_id cmd s = (Inr (Handshake_Authenticated peer), s')"
  obtains sig display_name sig_hex result s1 where
    "cmd = Command_Authenticate sig_hex display_name" "hex_decode (lib e) sig_hex = Some sig"
    "ed_verify_strict (lib e) dev
       (auth_transcript (ed_public (lib e) (identity_seed e)) challenge dev) sig"
    "service_call e (Register dev display_name (unix_now e (calls s))) s = (Inr result, s1)"
    "json_get result ''account_id'' = Some (JStr (peer_account peer))" "peer_device peer = dev"
    "s' = s1\<lparr>sent := sent s1 @ [Sent_Text (success_frame auth_id result)]\<rparr>"
proof -
  note [simp] = finish_authenticate_def refuse_def then_st_Inr
  show ?thesis
    using assms
    by (auto simp: decode_signature_Inr verify_device_signature_def json_str_def bind_eq_Some_conv
        split: hosted_command.splits sum.splits prod.splits option.splits if_splits json.splits
        dest!: send_text_sent intro!: that)
qed

lemma service_call_inv:
  assumes "service_inv (svc s)" and "service_call e req s = (r, s')"
  shows "service_inv (svc s')"
proof -
  have "service_inv (fold (service_step (lib e)) (others e (calls s)) (svc s))"
    using assms(1) by (rule svc.run_inv)
  from call_inv [OF this] assms(2) show ?thesis
    by (auto simp: service_call_def Let_def split: prod.splits) (metis snd_conv)
qed

lemma register_call_account:
  assumes "service_inv (svc s)" and "service_call e (Register k name now) s = (Inr j, s')"
    and "json_get j ''account_id'' = Some (JStr a)"
  shows "device_account (storage (svc s')) k = Some a"
proof -
  let ?before = "fold (service_step (lib e)) (others e (calls s)) (svc s)"
  have inv: "service_inv ?before" using assms(1) by (rule svc.run_inv)
  have "register (lib e) (call_eng e (calls s)) (call_random e (calls s)) k name now ?before = (Inr j, svc s')"
    using assms(2) by (auto simp: service_call_def call_def handle_def Let_def split: prod.splits if_splits)
  from register_json_account [OF inv this] assms(3) show ?thesis by auto
qed

text \<open>
  C11. Only the holder of a device key becomes its account. When the handshake authenticates a
  connection as an account, then the server had sent its signed hello with this connection's
  challenge for the offered 32-byte device key; the client answered with a signature of that key
  over the transcript of this server's key, this challenge and the device key; and the account is
  the one that the directory holds for the device.
\<close>

theorem handshake_sound:
  assumes inv: "service_inv (svc s)"
    and auth: "authenticate e ms s = ((Inr (Handshake_Authenticated peer), s'), rest)"
  shows "\<exists>challenge hello_id sig. challenge_bytes e = Some challenge
    \<and> Sent_Text (success_frame hello_id (hello_reply e challenge (peer_device peer))) \<in> set (sent s')
    \<and> length (peer_device peer) = KEY_BYTES
    \<and> ed_verify_strict (lib e) (peer_device peer)
        (auth_transcript (ed_public (lib e) (identity_seed e)) challenge (peer_device peer)) sig
    \<and> device_account (storage (svc s')) (peer_device peer) = Some (peer_account peer)"
proof -
  from auth obtain hello_id hello s1 ms1 dev challenge s2 auth_id cmd s3 ms3 where
    n1: "next_request e ms s = ((Inr (Some (hello_id, hello)), s1), ms1)"
    and key: "hello_key e hello = Inr dev" and ch: "challenge_bytes e = Some challenge"
    and snd1: "send_text e (success_frame hello_id (hello_reply e challenge dev)) s1 = (Inr (), s2)"
    and n2: "next_request e ms1 s2 = ((Inr (Some (auth_id, cmd)), s3), ms3)"
    and fin: "finish_authenticate e challenge dev auth_id cmd s3
      = (Inr (Handshake_Authenticated peer), s')"
    by (auto simp: authenticate_def random_challenge_def refuse_def then_st_Inr
        split: prod.splits sum.splits option.splits)
  have len: "length dev = KEY_BYTES"
    using key by (auto simp: hello_key_def decode_key_Inr split: hosted_command.splits if_splits)
  have inv3: "service_inv (svc s3)"
    using inv next_request_frame [OF n1] next_request_frame [OF n2] send_text_sent [OF snd1] by simp
  have out: "Sent_Text (success_frame hello_id (hello_reply e challenge dev)) \<in> set (sent s3)"
    using next_request_frame [OF n2] send_text_sent [OF snd1] by auto
  from fin show ?thesis
  proof (rule finish_authenticated)
    fix sig display_name sig_hex result s4
    assume ver: "ed_verify_strict (lib e) dev
        (auth_transcript (ed_public (lib e) (identity_seed e)) challenge dev) sig"
      and reg: "service_call e (Register dev display_name (unix_now e (calls s3))) s3 = (Inr result, s4)"
      and acc: "json_get result ''account_id'' = Some (JStr (peer_account peer))"
      and dev: "peer_device peer = dev"
      and s': "s' = s4\<lparr>sent := sent s4 @ [Sent_Text (success_frame auth_id result)]\<rparr>"
    have "sent s4 = sent s3" using reg by (auto simp: service_call_def Let_def split: prod.splits)
    moreover have "device_account (storage (svc s4)) dev = Some (peer_account peer)"
      by (rule register_call_account [OF inv3 reg acc])
    ultimately show ?thesis using ch out len ver dev s' by auto
  qed
qed

text \<open>A handshake of the demonstration account's device.\<close>

definition demo_sig :: string where
  "demo_sig = hex_string (stamp (replicate 32 3)
     (auth_transcript (replicate 32 9) (replicate 32 8) (replicate 32 3)))"

definition demo_frame :: "string \<Rightarrow> string \<Rightarrow> (string \<times> json) list \<Rightarrow> json" where
  "demo_frame i tag params =
     JObj ([(''version'', JInt 1), (''id'', JStr i), (''method'', JStr tag)]
       @ (if params = [] then [] else [(''params'', JObj params)]))"

definition demo_json :: json_crate where
  "demo_json = reference_json\<lparr>json_from_slice := (\<lambda>bs.
     if bs = as_bytes ''h'' then Some (demo_frame ''1'' ''hello''
       [(''minimum_version'', JInt 1), (''maximum_version'', JInt 1),
        (''device_public_key'', JStr (hex_string (replicate 32 3)))])
     else if bs = as_bytes ''a'' then Some (demo_frame ''2'' ''authenticate'' [(''signature'', JStr demo_sig)])
     else if bs = as_bytes ''s'' then Some (demo_frame ''3'' ''status'' [])
     else None)\<rparr>"

definition demo_env :: session_env where
  "demo_env = \<lparr>lib = reference_crates, json_lib = demo_json, json_failure = (\<lambda>_. ''expected value''), frame_len = (\<lambda>_. 100),
     send_ok = (\<lambda>_. True), identity_seed = replicate 32 9, challenge_bytes = Some (replicate 32 8),
     limits = \<lparr>idle_timeout = 300000, requests_per_second = 20, request_burst = 40\<rparr>,
     this_session = 1, others = (\<lambda>_. []), call_eng = (\<lambda>_ _. True), call_random = (\<lambda>_. None),
     unix_now = (\<lambda>_. 7)\<rparr>"

definition demo_session :: session where
  "demo_session = \<lparr>sent = [], svc = demo_service, calls = 0, authenticated = False, requests = 0,
     reason = ClientClosed\<rparr>"

lemma demo_env_simps [simp]:
  "lib demo_env = reference_crates" "json_lib demo_env = demo_json" "frame_len demo_env f = 100"
  "send_ok demo_env k" "challenge_bytes demo_env = Some (replicate 32 8)" "identity_seed demo_env = replicate 32 9"
  "others demo_env n = []" "call_eng demo_env n = (\<lambda>_. True)" "call_random demo_env n = None" "unix_now demo_env n = 7"
  by (simp_all add: demo_env_def)

lemma demo_requests:
  "parse_request demo_env ''h'' = Inr \<lparr>req_version = 1, req_id = ''1'',
     req_command = Command_Hello 1 1 (hex_string (replicate 32 3))\<rparr>"
  "parse_request demo_env ''a'' = Inr \<lparr>req_version = 1, req_id = ''2'',
     req_command = Command_Authenticate demo_sig None\<rparr>"
  "parse_request demo_env ''s'' = Inr \<lparr>req_version = 1, req_id = ''3'', req_command = Command_Status\<rparr>"
  by (simp_all add: parse_request_def demo_json_def demo_frame_def as_bytes_def de_hosted_request_def de_fields_object
      de_field_def de_command_def de_default_def content_variant_def de_u16_def hosted_consts)

lemma demo_handshake:
  "\<exists>peer s'. authenticate demo_env [Delivered (Ws_Text ''h''), Delivered (Ws_Text ''a'')] demo_session
      = ((Inr (Handshake_Authenticated peer), s'), [])
    \<and> peer_account peer = ''a1'' \<and> peer_device peer = replicate 32 3"
proof -
  have dev: "device_account (storage demo_service) (replicate 32 3) = Some ''a1''"
    by (simp add: device_account_def demo_service_def demo_db_def)
  have run: "\<not> stopped demo_service" by (simp add: demo_service_def fresh_service_def)
  from register_known [where eng = "\<lambda>_. True", OF demo_service_inv _ dev, of reference_crates None None 7]
  obtain acc s1 where reg: "register reference_crates (\<lambda>_. True) None (replicate 32 3) None 7 demo_service
      = (Inr (registration_json reference_crates acc (replicate 32 3) False), s1)" "acc_id acc = ''a1''"
    by blast
  have key: "decode_key reference_crates (hex_string (replicate 32 3)) = Inr (replicate 32 3)"
    by (simp add: decode_key_def reference_crates_def hex_parse_string KEY_BYTES_def)
  have sig: "decode_signature reference_crates demo_sig = Inr (stamp (replicate 32 3)
     (auth_transcript (replicate 32 9) (replicate 32 8) (replicate 32 3)))"
    by (simp add: decode_signature_def reference_crates_def hex_parse_string demo_sig_def length_stamp
        SIGNATURE_BYTES_def)
  have ver: "verify_device_signature reference_crates (ed_public reference_crates (replicate 32 9))
      (replicate 32 8) (replicate 32 3) (stamp (replicate 32 3)
        (auth_transcript (replicate 32 9) (replicate 32 8) (replicate 32 3))) = Inr ()"
    by (simp add: verify_device_signature_def reference_crates_def)
  show ?thesis
    using reg run demo_requests key sig ver
    by (simp add: authenticate_def demo_session_def hosted_consts
        hello_key_def random_challenge_def send_text_def finish_authenticate_def service_call_def
        call_def handle_def registration_json_def json_str_def)
qed

theorem handshake_sound_witness:
  "\<exists>peer s' challenge sig.
     authenticate demo_env [Delivered (Ws_Text ''h''), Delivered (Ws_Text ''a'')] demo_session
       = ((Inr (Handshake_Authenticated peer), s'), [])
     \<and> peer_account peer = ''a1''
     \<and> ed_verify_strict reference_crates (peer_device peer)
         (auth_transcript (ed_public reference_crates (replicate 32 9)) challenge (peer_device peer)) sig"
proof -
  obtain peer s' where auth: "authenticate demo_env [Delivered (Ws_Text ''h''), Delivered (Ws_Text ''a'')]
      demo_session = ((Inr (Handshake_Authenticated peer), s'), [])" and acc: "peer_account peer = ''a1''"
    using demo_handshake by blast
  have "service_inv (svc demo_session)" using demo_service_inv by (simp add: demo_session_def)
  from handshake_sound [OF this auth] have "\<exists>challenge sig. ed_verify_strict (lib demo_env) (peer_device peer)
      (auth_transcript (ed_public (lib demo_env) (identity_seed demo_env)) challenge (peer_device peer)) sig"
    by blast
  then have "\<exists>challenge sig. ed_verify_strict reference_crates (peer_device peer)
      (auth_transcript (ed_public reference_crates (replicate 32 9)) challenge (peer_device peer)) sig"
    by (simp add: demo_env_def)
  with auth acc show ?thesis by blast
qed

section \<open>Answers\<close>

lemma frame_id [simp]:
  "json_get (success_frame rid v) ''id'' = Some (JStr rid)"
  "json_get (failure_frame rid err) ''id'' = Some (JStr rid)"
  by (simp_all add: success_frame_def failure_frame_def)

lemma service_call_frame:
  "service_call e req s = (r, s') \<Longrightarrow> sent s' = sent s \<and> calls s' = calls s + 1"
  by (auto simp: service_call_def Let_def split: prod.splits)

text \<open>
  C12. Every request is answered exactly once. When handling a text message returns, exactly one
  text frame has been sent: it carries the identifier of the request (empty when the message was
  no request, which is also the only case in which the session closes), it fits the frame limit,
  and the account service was called at most once.
\<close>

theorem one_answer_per_request:
  assumes "handle_request e peer now now' t bucket s = (Inr l, bucket', s')"
  shows "\<exists>frame. sent s' = sent s @ [Sent_Text frame]
    \<and> frame_len e frame \<le> MAX_FRAME_BYTES
    \<and> json_get frame ''id'' =
        Some (JStr (case parse_request e t of Inl _ \<Rightarrow> [] | Inr request \<Rightarrow> req_id request))
    \<and> (l = Loop_Close \<longleftrightarrow> isl (parse_request e t))
    \<and> calls s' \<le> calls s + 1"
proof (cases "parse_request e t")
  case (Inl error)
  with assms show ?thesis
    by (auto simp: handle_request_def then_st_Inr send_text_def split: prod.splits if_splits)
next
  case (Inr request)
  obtain granted b where take: "bucket_take now now' bucket = (granted, b)" by fastforce
  show ?thesis
  proof (cases "req_version request = PROTOCOL_VERSION \<and> granted")
    case True
    obtain result s1 where sc: "service_call e (Command (peer_account peer) (peer_device peer)
        (req_command request) (unix_now e (calls s))) s = (result, s1)" by fastforce
    have frame: "sent s1 = sent s" "calls s1 = calls s + 1" using service_call_frame [OF sc] by auto
    from assms Inr True take sc obtain frame where
      "send_text e frame s1 = (Inr (), s')" "json_get frame ''id'' = Some (JStr (req_id request))"
      "l = Loop_Continue"
      by (auto simp: handle_request_def then_st_Inr Let_def split: prod.splits sum.splits if_splits)
    with frame Inr show ?thesis by (auto simp: send_text_def split: if_splits)
  next
    case False
    with assms Inr take show ?thesis
      by (auto simp: handle_request_def then_st_Inr send_text_def split: prod.splits if_splits)
  qed
qed

theorem one_answer_per_request_witness:
  "\<exists>b s' frame. handle_request demo_env \<lparr>peer_account = ''a1'', peer_device = replicate 32 3\<rparr> 1000 1000
       ''s'' (bucket_new 40 20 1000) demo_session = (Inr Loop_Continue, b, s')
     \<and> sent s' = [Sent_Text frame] \<and> json_get frame ''id'' = Some (JStr ''3'')"
proof -
  obtain b s' where run: "handle_request demo_env \<lparr>peer_account = ''a1'', peer_device = replicate 32 3\<rparr>
      1000 1000 ''s'' (bucket_new 40 20 1000) demo_session = (Inr Loop_Continue, b, s')"
  proof -
    obtain r s1 where sc: "service_call demo_env (Command ''a1'' (replicate 32 3) Command_Status
        (unix_now demo_env (calls demo_session))) demo_session = (r, s1)" by fastforce
    show ?thesis
    proof (cases r)
      case (Inl err)
      show ?thesis
        by (rule that) (simp add: handle_request_def demo_requests hosted_consts bucket_take_def
          bucket_new_def send_text_def sc [simplified] Inl)
    next
      case (Inr v)
      show ?thesis
        by (rule that) (simp add: handle_request_def demo_requests hosted_consts bucket_take_def
          bucket_new_def send_text_def sc [simplified] Inr)
    qed
  qed
  from one_answer_per_request [OF run] demo_requests(3) show ?thesis
    using run by (auto simp: demo_session_def)
qed

end
