(* ===== verification/Files.thy ===== *)
theory Files
  imports Text "HOL-Library.AList" "HOL-Library.Sublist"
begin

unbundle bit_operations_syntax

text \<open>
  The part of \<open>std::fs\<close> and of the operating system's random source that the daemon uses. A path is
  the list of its components below the root; the file tree is an association list from paths to
  nodes. Every call may fail by the environment's choice, a failed write may leave a prefix and a
  failed removal of a directory some of its content; \<open>trail\<close> records the tree after every call, which
  is what another process, or the next start after a crash, can find. Links are told apart from
  other nodes but never followed. Durability after a loss of power is not modelled.
\<close>

datatype io_error = Io_NotFound | Io_AlreadyExists | Io_Other

datatype node = Regular bytes u32 | Directory u32 | Socket u32 | Symlink

type_synonym path = "string list"
type_synonym tree = "(path \<times> node) list"

record io_fault =
  written :: nat
  kept :: "path \<Rightarrow> bool"

record os =
  faults :: "nat \<Rightarrow> io_fault option"
  random :: "nat \<Rightarrow> (nat \<Rightarrow> byte) option"
  umask :: u32
  pid :: nat

text \<open>Rust's decimal rendering of an unsigned integer.\<close>

fun decimal :: "nat \<Rightarrow> string" where
  "decimal n = (if n < 10 then [char_of (48 + n)] else decimal (n div 10) @ [char_of (48 + n mod 10)])"

declare decimal.simps [simp del]

record disk =
  tree :: tree
  trail :: "tree list"
  syscalls :: nat

section \<open>Paths\<close>

definition path_parent :: "path \<Rightarrow> path option" where
  "path_parent p = (if p = [] then None else Some (butlast p))"

definition path_file_name :: "path \<Rightarrow> string option" where
  "path_file_name p = (if p = [] then None else Some (last p))"

section \<open>Effects on the tree\<close>

definition is_dir :: "tree \<Rightarrow> path \<Rightarrow> bool" where
  "is_dir t p = (case map_of t p of Some (Directory _) \<Rightarrow> True | _ \<Rightarrow> False)"

definition parent_is_dir :: "tree \<Rightarrow> path \<Rightarrow> bool" where
  "parent_is_dir t p \<longleftrightarrow> p \<noteq> [] \<and> is_dir t (butlast p)"

definition without :: "path \<Rightarrow> tree \<Rightarrow> tree" where
  "without p t = filter (\<lambda>(k, _). \<not> prefix p k) t"

definition has_children :: "tree \<Rightarrow> path \<Rightarrow> bool" where
  "has_children t p \<longleftrightarrow> list_ex (\<lambda>(k, _). strict_prefix p k) t"

definition t_read :: "path \<Rightarrow> tree \<Rightarrow> io_error + bytes" where
  "t_read p t =
     (case map_of t p of
        None \<Rightarrow> Inl Io_NotFound | Some (Regular c _) \<Rightarrow> Inr c | Some _ \<Rightarrow> Inl Io_Other)"

definition node_mode :: "node \<Rightarrow> u32" where
  "node_mode n = (case n of Regular _ m \<Rightarrow> m | Directory m \<Rightarrow> m | Socket m \<Rightarrow> m | Symlink \<Rightarrow> 511)"

definition chmod :: "u32 \<Rightarrow> node \<Rightarrow> node" where
  "chmod m n = (case n of Regular c _ \<Rightarrow> Regular c m | Directory _ \<Rightarrow> Directory m | Socket _ \<Rightarrow> Socket m
                | Symlink \<Rightarrow> Symlink)"

definition t_create_new :: "u32 \<Rightarrow> path \<Rightarrow> tree \<Rightarrow> (io_error + unit) \<times> tree" where
  "t_create_new m p t =
     (if \<not> parent_is_dir t p then (Inl Io_NotFound, t)
      else if map_of t p \<noteq> None then (Inl Io_AlreadyExists, t)
      else (Inr (), AList.update p (Regular [] m) t))"

definition t_open_truncate :: "u32 \<Rightarrow> path \<Rightarrow> tree \<Rightarrow> (io_error + unit) \<times> tree" where
  "t_open_truncate m p t =
     (if \<not> parent_is_dir t p then (Inl Io_NotFound, t)
      else case map_of t p of
        None \<Rightarrow> (Inr (), AList.update p (Regular [] m) t)
      | Some (Regular _ m') \<Rightarrow> (Inr (), AList.update p (Regular [] m') t)
      | Some _ \<Rightarrow> (Inl Io_Other, t))"

text \<open>Opening with \<open>create\<close> but without \<open>truncate\<close> keeps what an existing file holds.\<close>

definition t_open_create :: "u32 \<Rightarrow> path \<Rightarrow> tree \<Rightarrow> (io_error + unit) \<times> tree" where
  "t_open_create m p t =
     (if \<not> parent_is_dir t p then (Inl Io_NotFound, t)
      else case map_of t p of
        None \<Rightarrow> (Inr (), AList.update p (Regular [] m) t)
      | Some (Regular _ _) \<Rightarrow> (Inr (), t)
      | Some _ \<Rightarrow> (Inl Io_Other, t))"

definition t_append :: "path \<Rightarrow> bytes \<Rightarrow> tree \<Rightarrow> (io_error + unit) \<times> tree" where
  "t_append p bs t =
     (case map_of t p of
        Some (Regular c m) \<Rightarrow> (Inr (), AList.update p (Regular (c @ bs) m) t)
      | _ \<Rightarrow> (Inl Io_Other, t))"

definition t_bind :: "u32 \<Rightarrow> path \<Rightarrow> tree \<Rightarrow> (io_error + unit) \<times> tree" where
  "t_bind m p t =
     (if \<not> parent_is_dir t p then (Inl Io_NotFound, t)
      else if map_of t p \<noteq> None then (Inl Io_AlreadyExists, t)
      else (Inr (), AList.update p (Socket m) t))"

definition t_mkdir :: "u32 \<Rightarrow> path \<Rightarrow> tree \<Rightarrow> (io_error + unit) \<times> tree" where
  "t_mkdir m p t =
     (if \<not> parent_is_dir t p then (Inl Io_NotFound, t)
      else if map_of t p \<noteq> None then (Inl Io_AlreadyExists, t)
      else (Inr (), AList.update p (Directory m) t))"

fun t_mkdirs :: "u32 \<Rightarrow> path list \<Rightarrow> tree \<Rightarrow> (io_error + unit) \<times> tree" where
  "t_mkdirs m [] t = (Inr (), t)"
| "t_mkdirs m (p # ps) t =
     (case map_of t p of
        None \<Rightarrow> t_mkdirs m ps (AList.update p (Directory m) t)
      | Some (Directory _) \<Rightarrow> t_mkdirs m ps t
      | Some _ \<Rightarrow> (Inl Io_AlreadyExists, t))"

definition t_chmod :: "u32 \<Rightarrow> path \<Rightarrow> tree \<Rightarrow> (io_error + unit) \<times> tree" where
  "t_chmod m p t =
     (case map_of t p of
        None \<Rightarrow> (Inl Io_NotFound, t)
      | Some n \<Rightarrow> (Inr (), AList.update p (chmod m n) t))"

definition moved :: "path \<Rightarrow> path \<Rightarrow> tree \<Rightarrow> tree" where
  "moved p q t = map (\<lambda>(k, n). (if prefix p k then q @ drop (length p) k else k, n)) t"

definition t_rename :: "path \<Rightarrow> path \<Rightarrow> tree \<Rightarrow> (io_error + unit) \<times> tree" where
  "t_rename p q t =
     (case map_of t p of
        None \<Rightarrow> (Inl Io_NotFound, t)
      | Some n \<Rightarrow>
          if \<not> parent_is_dir t q then (Inl Io_NotFound, t)
          else if prefix p q then (if p = q then (Inr (), t) else (Inl Io_Other, t))
          else if is_dir t q \<noteq> is_dir t p \<and> map_of t q \<noteq> None then (Inl Io_Other, t)
          else if has_children t q then (Inl Io_Other, t)
          else (Inr (), moved p q (without q t)))"

definition t_remove_file :: "path \<Rightarrow> tree \<Rightarrow> (io_error + unit) \<times> tree" where
  "t_remove_file p t =
     (case map_of t p of
        None \<Rightarrow> (Inl Io_NotFound, t)
      | Some (Directory _) \<Rightarrow> (Inl Io_Other, t)
      | Some _ \<Rightarrow> (Inr (), AList.delete p t))"

definition t_remove_dir :: "path \<Rightarrow> tree \<Rightarrow> (io_error + unit) \<times> tree" where
  "t_remove_dir p t =
     (case map_of t p of
        None \<Rightarrow> (Inl Io_NotFound, t)
      | Some (Directory _) \<Rightarrow> if has_children t p then (Inl Io_Other, t) else (Inr (), AList.delete p t)
      | Some _ \<Rightarrow> (Inl Io_Other, t))"

definition t_remove_dir_all :: "path \<Rightarrow> tree \<Rightarrow> (io_error + unit) \<times> tree" where
  "t_remove_dir_all p t =
     (case map_of t p of
        None \<Rightarrow> (Inl Io_NotFound, t)
      | Some (Directory _) \<Rightarrow> (Inr (), without p t)
      | Some _ \<Rightarrow> (Inl Io_Other, t))"

definition t_children :: "path \<Rightarrow> tree \<Rightarrow> string list" where
  "t_children p t = remdups (map (\<lambda>(k, _). last k) (filter (\<lambda>(k, _). k \<noteq> [] \<and> butlast k = p) t))"

section \<open>Calls\<close>

text \<open>One call: its effect, or by the environment's choice the failure \<open>g\<close>.\<close>

definition syscall ::
  "os \<Rightarrow> (tree \<Rightarrow> (io_error + 'a) \<times> tree) \<Rightarrow> (io_fault \<Rightarrow> tree \<Rightarrow> tree) \<Rightarrow> disk \<Rightarrow> (io_error + 'a) \<times> disk" where
  "syscall e f g d =
     (let (r, t) = (case faults e (syscalls d) of
                      None \<Rightarrow> f (tree d) | Some fl \<Rightarrow> (Inl Io_Other, g fl (tree d))) in
      (r, d\<lparr>tree := t, trail := trail d @ [t], syscalls := syscalls d + 1\<rparr>))"

definition fs_read :: "os \<Rightarrow> path \<Rightarrow> disk \<Rightarrow> (io_error + bytes) \<times> disk" where
  "fs_read e p = syscall e (\<lambda>t. (t_read p t, t)) (\<lambda>_ t. t)"

definition fs_metadata :: "os \<Rightarrow> path \<Rightarrow> disk \<Rightarrow> (io_error + node) \<times> disk" where
  "fs_metadata e p = syscall e (\<lambda>t. (ok_or Io_NotFound (map_of t p), t)) (\<lambda>_ t. t)"

text \<open>\<open>Path::exists\<close>: an error counts as absent.\<close>

definition fs_exists :: "os \<Rightarrow> path \<Rightarrow> disk \<Rightarrow> bool \<times> disk" where
  "fs_exists e p d = (case fs_metadata e p d of (r, d) \<Rightarrow> (\<not> isl r, d))"

definition fs_create_new :: "os \<Rightarrow> u32 \<Rightarrow> path \<Rightarrow> disk \<Rightarrow> (io_error + unit) \<times> disk" where
  "fs_create_new e m p = syscall e (t_create_new (m AND NOT (umask e)) p) (\<lambda>_ t. t)"

definition fs_open_truncate :: "os \<Rightarrow> u32 \<Rightarrow> path \<Rightarrow> disk \<Rightarrow> (io_error + unit) \<times> disk" where
  "fs_open_truncate e m p = syscall e (t_open_truncate (m AND NOT (umask e)) p) (\<lambda>_ t. t)"

definition fs_open_create :: "os \<Rightarrow> u32 \<Rightarrow> path \<Rightarrow> disk \<Rightarrow> (io_error + unit) \<times> disk" where
  "fs_open_create e m p = syscall e (t_open_create (m AND NOT (umask e)) p) (\<lambda>_ t. t)"

definition fs_write_all :: "os \<Rightarrow> path \<Rightarrow> bytes \<Rightarrow> disk \<Rightarrow> (io_error + unit) \<times> disk" where
  "fs_write_all e p bs =
     syscall e (t_append p bs) (\<lambda>fl t. snd (t_append p (take (written fl) bs) t))"

definition fs_bind :: "os \<Rightarrow> path \<Rightarrow> disk \<Rightarrow> (io_error + unit) \<times> disk" where
  "fs_bind e p = syscall e (t_bind (511 AND NOT (umask e)) p) (\<lambda>_ t. t)"

definition fs_mkdir :: "os \<Rightarrow> u32 \<Rightarrow> path \<Rightarrow> disk \<Rightarrow> (io_error + unit) \<times> disk" where
  "fs_mkdir e m p = syscall e (t_mkdir (m AND NOT (umask e)) p) (\<lambda>_ t. t)"

definition fs_create_dir_all :: "os \<Rightarrow> path \<Rightarrow> disk \<Rightarrow> (io_error + unit) \<times> disk" where
  "fs_create_dir_all e p = syscall e (t_mkdirs (511 AND NOT (umask e)) (prefixes p)) (\<lambda>_ t. t)"

definition fs_set_permissions :: "os \<Rightarrow> path \<Rightarrow> u32 \<Rightarrow> disk \<Rightarrow> (io_error + unit) \<times> disk" where
  "fs_set_permissions e p m = syscall e (t_chmod m p) (\<lambda>_ t. t)"

definition fs_rename :: "os \<Rightarrow> path \<Rightarrow> path \<Rightarrow> disk \<Rightarrow> (io_error + unit) \<times> disk" where
  "fs_rename e p q = syscall e (t_rename p q) (\<lambda>_ t. t)"

definition fs_remove_file :: "os \<Rightarrow> path \<Rightarrow> disk \<Rightarrow> (io_error + unit) \<times> disk" where
  "fs_remove_file e p = syscall e (t_remove_file p) (\<lambda>_ t. t)"

definition fs_remove_dir :: "os \<Rightarrow> path \<Rightarrow> disk \<Rightarrow> (io_error + unit) \<times> disk" where
  "fs_remove_dir e p = syscall e (t_remove_dir p) (\<lambda>_ t. t)"

definition fs_remove_dir_all :: "os \<Rightarrow> path \<Rightarrow> disk \<Rightarrow> (io_error + unit) \<times> disk" where
  "fs_remove_dir_all e p =
     syscall e (t_remove_dir_all p) (\<lambda>fl t. filter (\<lambda>(k, _). \<not> prefix p k \<or> kept fl k) t)"

definition fs_read_dir :: "os \<Rightarrow> path \<Rightarrow> disk \<Rightarrow> (io_error + string list) \<times> disk" where
  "fs_read_dir e p =
     syscall e (\<lambda>t. (if is_dir t p then Inr (t_children p t)
                     else Inl (if map_of t p = None then Io_NotFound else Io_Other), t)) (\<lambda>_ t. t)"

text \<open>\<open>File::open\<close> of a directory and \<open>sync_all\<close>; and flushing a file just written.\<close>

definition fs_sync :: "os \<Rightarrow> path \<Rightarrow> disk \<Rightarrow> (io_error + unit) \<times> disk" where
  "fs_sync e p =
     syscall e (\<lambda>t. (if map_of t p = None then Inl Io_NotFound else Inr (), t)) (\<lambda>_ t. t)"

text \<open>\<open>getrandom::fill\<close> of a buffer of \<open>n\<close> bytes.\<close>

definition getrandom_fill :: "os \<Rightarrow> nat \<Rightarrow> disk \<Rightarrow> (unit + bytes) \<times> disk" where
  "getrandom_fill e n d =
     ((case random e (syscalls d) of None \<Rightarrow> Inl () | Some f \<Rightarrow> Inr (map f [0..<n])),
      d\<lparr>syscalls := syscalls d + 1\<rparr>)"

text \<open>An operation with the error of another type, as \<open>map_err\<close> on its result.\<close>

definition err_st :: "('e \<Rightarrow> 'f) \<Rightarrow> ('e + 'a) \<times> 's \<Rightarrow> ('f + 'a) \<times> 's" where
  "err_st g m = (map_err g (fst m), snd m)"

lemma err_st_simps [simp]: "err_st g (Inl x, s) = (Inl (g x), s)" "err_st g (Inr y, s) = (Inr y, s)"
  by (simp_all add: err_st_def)

lemma err_st_Inr [simp]: "err_st g m = (Inr y, s) \<longleftrightarrow> m = (Inr y, s)"
  by (cases m) (auto simp: err_st_def)

lemma snd_err_st [simp]: "snd (err_st g m) = snd m"
  by (simp add: err_st_def)

section \<open>Facts\<close>

lemma map_of_without [simp]: "map_of (without p t) k = (if prefix p k then None else map_of t k)"
  by (induction t) (auto simp: without_def)

lemma map_of_delete [simp]: "map_of (AList.delete p t) k = (if k = p then None else map_of t k)"
  by (simp add: AList.delete_conv')

lemma map_of_update [simp]: "map_of (AList.update p n t) k = (if k = p then Some n else map_of t k)"
  by (simp add: AList.update_conv')

text \<open>After a rename the new name holds what the old name held, and names elsewhere are as before.\<close>

lemma map_of_moved:
  assumes "\<not> prefix p q" and "\<not> prefix q p"
  shows "map_of (moved p q (without q t)) (q @ s) = map_of t (p @ s)"
    and "\<not> prefix p k \<Longrightarrow> \<not> prefix q k \<Longrightarrow> map_of (moved p q (without q t)) k = map_of t k"
    and "prefix p k \<Longrightarrow> map_of (moved p q (without q t)) k = None"
proof -
  have ps: "\<not> prefix q (p @ s)" for s
    using assms by (metis prefix_append prefix_same_cases prefixI)
  show "map_of (moved p q (without q t)) (q @ s) = map_of t (p @ s)"
    using assms ps
    by (induction t) (auto simp: moved_def without_def prefix_def split: if_splits)
  show "\<not> prefix p k \<Longrightarrow> \<not> prefix q k \<Longrightarrow> map_of (moved p q (without q t)) k = map_of t k"
    using assms by (induction t) (auto simp: moved_def without_def)
  have pq: "\<not> prefix p (q @ s)" for s
    using assms by (metis prefix_append prefix_same_cases prefixI)
  show "prefix p k \<Longrightarrow> map_of (moved p q (without q t)) k = None"
    using pq by (induction t) (auto simp: moved_def without_def split: if_splits)
qed

text \<open>What every call does to the disk besides its result.\<close>

lemma syscall_cases:
  assumes "syscall e f g d = (r, d')"
  obtains t where "d' = d\<lparr>tree := t, trail := trail d @ [t], syscalls := syscalls d + 1\<rparr>"
    and "(r, t) = f (tree d) \<or> (\<exists>fl. r = Inl Io_Other \<and> t = g fl (tree d))"
  using assms by (auto simp: syscall_def Let_def split: prod.splits option.splits)

lemma syscall_works:
  "faults e (syscalls d) = None \<Longrightarrow>
     syscall e f g d = (fst (f (tree d)),
       d\<lparr>tree := snd (f (tree d)), trail := trail d @ [snd (f (tree d))], syscalls := syscalls d + 1\<rparr>)"
  by (simp add: syscall_def split: prod.splits)

lemma syscalls_syscall [simp]: "syscalls (snd (syscall e f g d)) = syscalls d + 1"
  by (simp add: syscall_def Let_def split: prod.splits)

lemma getrandom_fill_disk [simp]:
  "tree (snd (getrandom_fill e n d)) = tree d" "trail (snd (getrandom_fill e n d)) = trail d"
  "syscalls (snd (getrandom_fill e n d)) = syscalls d + 1"
  by (simp_all add: getrandom_fill_def)

lemma getrandom_fill_length: "getrandom_fill e n d = (Inr bs, d') \<Longrightarrow> length bs = n"
  by (auto simp: getrandom_fill_def split: option.splits)

lemma syscall_step:
  assumes "syscall e f g d = (r, d')"
  shows "trail d' = trail d @ [tree d']" and "syscalls d' = syscalls d + 1"
    and "(r, tree d') = f (tree d) \<or> (\<exists>fl. faults e (syscalls d) = Some fl \<and> r = Inl Io_Other \<and> tree d' = g fl (tree d))"
  using assms by (auto simp: syscall_def Let_def split: prod.splits option.splits)

lemma then_st_cases:
  assumes "then_st m k = (r, s')"
  obtains (error) x where "m = (Inl x, s')" and "r = Inl x"
    | (ok) y s where "m = (Inr y, s)" and "k y s = (r, s')"
  using assms by (cases m; cases "fst m") auto

lemma err_st_cases:
  assumes "err_st g m = (r, s)"
  obtains (error) x where "m = (Inl x, s)" and "r = Inl (g x)" | (ok) y where "m = (Inr y, s)" and "r = Inr y"
  using assms by (cases m; cases "fst m") auto

text \<open>The states an operation passes through all satisfy a predicate.\<close>

definition passes :: "(tree \<Rightarrow> bool) \<Rightarrow> disk \<Rightarrow> disk \<Rightarrow> bool" where
  "passes Q d d' \<longleftrightarrow> (\<exists>ts. trail d' = trail d @ ts \<and> (\<forall>t \<in> set ts. Q t))"

lemma passes_refl [simp]: "passes Q d d"
  by (simp add: passes_def)

lemma passes_trans: "passes Q d d1 \<Longrightarrow> passes Q d1 d2 \<Longrightarrow> passes Q d d2"
  by (auto simp: passes_def)

lemma passes_step: "passes Q d d1 \<Longrightarrow> trail d' = trail d1 @ [tree d'] \<Longrightarrow> Q (tree d') \<Longrightarrow> passes Q d d'"
  by (auto simp: passes_def)

lemma passes_same: "passes Q d d1 \<Longrightarrow> trail d' = trail d1 \<Longrightarrow> passes Q d d'"
  by (simp add: passes_def)

lemma passes_mono: "passes P d d' \<Longrightarrow> (\<And>t. P t \<Longrightarrow> Q t) \<Longrightarrow> passes Q d d'"
  by (auto simp: passes_def)

text \<open>The calls that change at most one path.\<close>

definition same_but :: "path \<Rightarrow> tree \<Rightarrow> tree \<Rightarrow> bool" where
  "same_but p t t' \<longleftrightarrow> (\<forall>k. k \<noteq> p \<longrightarrow> map_of t' k = map_of t k)"

lemma same_but_refl [simp]: "same_but p t t"
  by (simp add: same_but_def)

lemma t_same_but:
  "same_but p t (snd (t_create_new m p t))" "same_but p t (snd (t_append p bs t))"
  "same_but p t (snd (t_remove_file p t))" "same_but p t (snd (t_chmod m p t))"
  "same_but p t (snd (t_open_truncate m p t))"
  by (auto simp: same_but_def t_create_new_def t_append_def t_remove_file_def t_chmod_def
      t_open_truncate_def split: option.splits node.splits)

lemma syscall_keeps:
  assumes "syscall e f g d = (r, d')" and "P (tree d) (snd (f (tree d)))" and "\<And>fl. P (tree d) (g fl (tree d))"
  shows "P (tree d) (tree d')"
proof -
  from syscall_step(3) [OF assms(1)]
  have "tree d' = snd (f (tree d)) \<or> (\<exists>fl. tree d' = g fl (tree d))" by (metis snd_conv)
  with assms(2,3) show ?thesis by auto
qed

text \<open>A path that a call may have created or removed holds what it held, or a file, or nothing.\<close>

definition file_at :: "path \<Rightarrow> tree \<Rightarrow> tree \<Rightarrow> bool" where
  "file_at p t t' \<longleftrightarrow> map_of t' p = map_of t p \<or> map_of t' p = None \<or> (\<exists>c m. map_of t' p = Some (Regular c m))"

lemma t_file_at:
  "file_at p t (snd (t_create_new m p t))" "file_at p t (snd (t_append p bs t))"
  "file_at p t (snd (t_remove_file p t))"
  by (auto simp: file_at_def t_create_new_def t_append_def t_remove_file_def split: option.splits node.splits)

lemma file_calls:
  "fs_create_new e m p d = (r, d') \<Longrightarrow> file_at p (tree d) (tree d')"
  "fs_write_all e p bs d = (r, d') \<Longrightarrow> file_at p (tree d) (tree d')"
  "fs_remove_file e p d = (r, d') \<Longrightarrow> file_at p (tree d) (tree d')"
  unfolding fs_create_new_def fs_write_all_def fs_remove_file_def
  by (erule syscall_keeps, rule t_file_at, simp add: file_at_def t_file_at [unfolded file_at_def])+

lemma one_path_calls:
  "fs_create_new e m p d = (r, d') \<Longrightarrow> same_but p (tree d) (tree d')"
  "fs_write_all e p bs d = (r, d') \<Longrightarrow> same_but p (tree d) (tree d')"
  "fs_remove_file e p d = (r, d') \<Longrightarrow> same_but p (tree d) (tree d')"
  "fs_set_permissions e p m d = (r, d') \<Longrightarrow> same_but p (tree d) (tree d')"
  "fs_open_truncate e m p d = (r, d') \<Longrightarrow> same_but p (tree d) (tree d')"
  unfolding fs_create_new_def fs_write_all_def fs_remove_file_def fs_set_permissions_def fs_open_truncate_def
  by (erule syscall_keeps, rule t_same_but, simp add: t_same_but)+

lemma reading_calls:
  "fs_sync e p d = (r, d') \<Longrightarrow> tree d' = tree d"
  "fs_read e p d = (r', d') \<Longrightarrow> tree d' = tree d"
  "fs_metadata e p d = (r'', d') \<Longrightarrow> tree d' = tree d"
  "fs_read_dir e p d = (r3, d') \<Longrightarrow> tree d' = tree d"
  unfolding fs_sync_def fs_read_def fs_metadata_def fs_read_dir_def by (auto dest!: syscall_step(3))

lemma call_trail:
  "fs_create_new e m p d = (r, d') \<Longrightarrow> trail d' = trail d @ [tree d']"
  "fs_write_all e p bs d = (r, d') \<Longrightarrow> trail d' = trail d @ [tree d']"
  "fs_remove_file e p d = (r, d') \<Longrightarrow> trail d' = trail d @ [tree d']"
  "fs_set_permissions e p m d = (r, d') \<Longrightarrow> trail d' = trail d @ [tree d']"
  "fs_rename e p q d = (r, d') \<Longrightarrow> trail d' = trail d @ [tree d']"
  "fs_sync e p d = (r, d') \<Longrightarrow> trail d' = trail d @ [tree d']"
  unfolding fs_create_new_def fs_write_all_def fs_remove_file_def fs_set_permissions_def fs_rename_def
    fs_sync_def by (auto dest: syscall_step(1))

text \<open>Results of the calls that succeed.\<close>

lemma call_results:
  "fs_create_new e m p d = (Inr u, d') \<Longrightarrow> map_of (tree d') p = Some (Regular [] (m AND NOT (umask e)))"
  "fs_set_permissions e p m d = (Inr u, d') \<Longrightarrow>
     \<exists>n. map_of (tree d) p = Some n \<and> map_of (tree d') p = Some (chmod m n)"
  unfolding fs_create_new_def fs_set_permissions_def
  by (auto dest!: syscall_step(3) simp: t_create_new_def t_chmod_def split: if_splits option.splits)

lemma write_result:
  "fs_write_all e p bs d = (Inr u, d') \<Longrightarrow>
     \<exists>c m. map_of (tree d) p = Some (Regular c m) \<and> map_of (tree d') p = Some (Regular (c @ bs) m)"
  unfolding fs_write_all_def
  by (auto dest!: syscall_step(3) simp: t_append_def split: if_splits option.splits node.splits)

text \<open>A rename between siblings.\<close>

lemma sibling_not_prefix:
  "x \<noteq> y \<Longrightarrow> \<not> prefix (parent @ [x]) (parent @ [y])"
  by simp

lemma rename_result:
  assumes "fs_rename e (parent @ [x]) (parent @ [y]) d = (r, d')" and "x \<noteq> y"
  shows "tree d' = tree d \<or>
     r = Inr () \<and> map_of (tree d') (parent @ [y]) = map_of (tree d) (parent @ [x])
     \<and> map_of (tree d) (parent @ [x]) \<noteq> None
     \<and> map_of (tree d') (parent @ [x]) = None
     \<and> (\<forall>k. \<not> prefix (parent @ [y]) k \<longrightarrow> \<not> prefix (parent @ [x]) k \<longrightarrow> map_of (tree d') k = map_of (tree d) k)"
    and "tree d' = tree d \<Longrightarrow> isl r"
proof -
  let ?p = "parent @ [x]" and ?q = "parent @ [y]"
  have np: "\<not> prefix ?p ?q" "\<not> prefix ?q ?p" using assms(2) by simp_all
  note m = map_of_moved [OF np]
  have "(r, tree d') = t_rename ?p ?q (tree d) \<or> isl r \<and> tree d' = tree d"
    using assms(1) unfolding fs_rename_def by (auto dest!: syscall_step(3))
  then consider "isl r" "tree d' = tree d"
    | "r = Inr ()" "tree d' = moved ?p ?q (without ?q (tree d))" "map_of (tree d) ?p \<noteq> None"
    using np by (auto simp: t_rename_def split: option.splits if_splits)
  then have res: "isl r \<and> tree d' = tree d \<or>
     r = Inr () \<and> map_of (tree d') ?q = map_of (tree d) ?p
     \<and> map_of (tree d) ?p \<noteq> None \<and> map_of (tree d') ?p = None
     \<and> (\<forall>k. \<not> prefix ?q k \<longrightarrow> \<not> prefix ?p k \<longrightarrow> map_of (tree d') k = map_of (tree d) k)"
  proof cases
    case 2
    then show ?thesis using m(1) [of "tree d" "[]"] m(2,3) by simp
  qed simp
  show "tree d' = tree d \<or>
     r = Inr () \<and> map_of (tree d') ?q = map_of (tree d) ?p
     \<and> map_of (tree d) ?p \<noteq> None \<and> map_of (tree d') ?p = None
     \<and> (\<forall>k. \<not> prefix ?q k \<longrightarrow> \<not> prefix ?p k \<longrightarrow> map_of (tree d') k = map_of (tree d) k)"
    using res by blast
  show "tree d' = tree d \<Longrightarrow> isl r" using res by auto
qed

section \<open>A machine without faults\<close>

definition demo_os :: os where
  "demo_os = \<lparr>faults = (\<lambda>_. None), random = (\<lambda>_. Some (\<lambda>_. 5)), umask = 18, pid = 1\<rparr>"

definition demo_disk :: disk where
  "demo_disk = \<lparr>tree = [([], Directory 493)], trail = [], syscalls = 0\<rparr>"

end
