(* ===== verification/Confirmation.thy ===== *)
theory Confirmation
  imports Files Primitives
begin

text \<open>
  Confirmation tokens of destructive commands (\<open>omachatd/src/confirmation.rs\<close>): a token is minted
  into a private file, lives for two minutes and is consumed by the first attempt to redeem it.
\<close>

definition CONFIRMATION_TTL_SECONDS :: u64 where "CONFIRMATION_TTL_SECONDS = 2 * 60"

datatype confirmation_action = PanicErase

definition action_file_name :: "confirmation_action \<Rightarrow> string" where
  "action_file_name a = (case a of PanicErase \<Rightarrow> ''panic.token'')"

record pending_token =
  tok_action :: confirmation_action
  tok_token :: string
  tok_expires_at :: u64

record issued_confirmation =
  issued_path :: path
  issued_expires_at :: u64

datatype confirmation_error = Missing | Mismatch | Expired

text \<open>The values of \<open>CoreError\<close> that \<open>issue\<close> returns.\<close>

datatype issue_error = Issue_Random | Issue_Io io_error

record confirmations =
  conf_directory :: path
  conf_pending :: "string \<rightharpoonup> pending_token"

definition confirmations_new :: "path \<Rightarrow> confirmations" where
  "confirmations_new state_directory =
     \<lparr>conf_directory = state_directory @ [''confirmations''], conf_pending = Map.empty\<rparr>"

text \<open>The token file, written privately; the pending map changes only when all of this succeeded.\<close>

definition write_token :: "os \<Rightarrow> path \<Rightarrow> path \<Rightarrow> string \<Rightarrow> disk \<Rightarrow> (issue_error + unit) \<times> disk" where
  "write_token e directory token_path token d =
     then_st (err_st Issue_Io (fs_create_dir_all e directory d)) (\<lambda>_ d.
     then_st (err_st Issue_Io (fs_set_permissions e directory 448 d)) (\<lambda>_ d.
     then_st (err_st Issue_Io (fs_open_truncate e 384 token_path d)) (\<lambda>_ d.
     then_st (err_st Issue_Io (fs_set_permissions e token_path 384 d)) (\<lambda>_ d.
       err_st Issue_Io (fs_write_all e token_path (as_bytes token) d)))))"

definition issue ::
  "crates \<Rightarrow> os \<Rightarrow> confirmation_action \<Rightarrow> u64 \<Rightarrow> confirmations \<Rightarrow> disk
    \<Rightarrow> (issue_error + issued_confirmation) \<times> confirmations \<times> disk" where
  "issue c e action now cs d =
     (case err_st (\<lambda>_. Issue_Random) (getrandom_fill e 32 d) of
        (Inl err, d) \<Rightarrow> (Inl err, cs, d)
      | (Inr bs, d) \<Rightarrow>
          let token = hex_encode c bs;
              token_path = conf_directory cs @ [action_file_name action] in
          case write_token e (conf_directory cs) token_path token d of
            (Inl err, d) \<Rightarrow> (Inl err, cs, d)
          | (Inr _, d) \<Rightarrow>
              let expires_at = saturating_add now CONFIRMATION_TTL_SECONDS in
              (Inr \<lparr>issued_path = token_path, issued_expires_at = expires_at\<rparr>,
               cs\<lparr>conf_pending := (conf_pending cs)(action_file_name action \<mapsto>
                  \<lparr>tok_action = action, tok_token = token, tok_expires_at = expires_at\<rparr>)\<rparr>, d))"

definition consume_pending_token ::
  "os \<Rightarrow> confirmation_action \<Rightarrow> confirmations \<Rightarrow> disk \<Rightarrow> pending_token option \<times> confirmations \<times> disk" where
  "consume_pending_token e action cs d =
     (conf_pending cs (action_file_name action),
      cs\<lparr>conf_pending := (conf_pending cs)(action_file_name action := None)\<rparr>,
      snd (fs_remove_file e (conf_directory cs @ [action_file_name action]) d))"

definition redeem ::
  "os \<Rightarrow> confirmation_action \<Rightarrow> string \<Rightarrow> u64 \<Rightarrow> confirmations \<Rightarrow> disk
    \<Rightarrow> (confirmation_error + unit) \<times> confirmations \<times> disk" where
  "redeem e action presented now cs d =
     (case consume_pending_token e action cs d of
        (None, cs, d) \<Rightarrow> (Inl Missing, cs, d)
      | (Some pending, cs, d) \<Rightarrow>
          (if tok_expires_at pending \<le> now then Inl Expired
           else if tok_action pending \<noteq> action \<or> tok_token pending \<noteq> presented then Inl Mismatch
           else Inr (), cs, d))"

section \<open>Histories\<close>

text \<open>Any sequence of attempts to mint and to redeem, each with its own environment.\<close>

datatype conf_op =
    Mint os confirmation_action u64
  | Redeem os confirmation_action string u64

fun conf_step :: "crates \<Rightarrow> conf_op \<Rightarrow> confirmations \<times> disk \<Rightarrow> confirmations \<times> disk" where
  "conf_step c (Mint e action now) (cs, d) = snd (issue c e action now cs d)"
| "conf_step c (Redeem e action presented now) (cs, d) = snd (redeem e action presented now cs d)"

fun is_redeem :: "conf_op \<Rightarrow> bool" where
  "is_redeem (Redeem _ _ _ _) \<longleftrightarrow> True"
| "is_redeem (Mint _ _ _) \<longleftrightarrow> False"

text \<open>
  The state that some operation minted its token into, in a history from the start in which nothing
  was redeemed since: its environment, time and result.
\<close>

definition minted_in ::
  "crates \<Rightarrow> confirmations \<times> disk \<Rightarrow> conf_op list \<Rightarrow> confirmation_action \<Rightarrow> confirmations
    \<Rightarrow> os \<Rightarrow> u64 \<Rightarrow> disk \<Rightarrow> issued_confirmation \<Rightarrow> disk \<Rightarrow> bool" where
  "minted_in c start ops action cs e now d0 issued d1 \<longleftrightarrow>
     (\<exists>before after cs0.
        ops = before @ [Mint e action now] @ after \<and> \<not> list_ex is_redeem after
        \<and> fold (conf_step c) before start = (cs0, d0)
        \<and> issue c e action now cs0 d0 = (Inr issued, cs, d1))"

lemma minted_in_snoc:
  "minted_in c start ops action cs e now d0 issued d1 \<Longrightarrow> \<not> is_redeem op
     \<Longrightarrow> minted_in c start (ops @ [op]) action cs e now d0 issued d1"
proof -
  assume m: "minted_in c start ops action cs e now d0 issued d1" and op: "\<not> is_redeem op"
  have "\<not> list_ex is_redeem after \<Longrightarrow> \<not> list_ex is_redeem (after @ [op])" for after using op by simp
  with m show ?thesis unfolding minted_in_def by (metis append.assoc)
qed

lemma action_is: "(a :: confirmation_action) = b"
  by (cases a; cases b) simp

lemma write_token_file:
  assumes "write_token e dir p token d = (Inr u, d')"
  shows "map_of (tree d') p = Some (Regular (as_bytes token) 384)"
proof -
  from assms obtain d1 d2 d3 u1 u2 u3 where
    o1: "fs_open_truncate e 384 p d1 = (Inr u1, d2)" and
    c: "fs_set_permissions e p 384 d2 = (Inr u2, d3)" and w: "fs_write_all e p (as_bytes token) d3 = (Inr u3, d')"
    unfolding write_token_def by (auto simp: then_st_Inr err_st_Inr)
  from o1 obtain m where "map_of (tree d2) p = Some (Regular [] m)"
    unfolding fs_open_truncate_def
    by (auto dest!: syscall_step(3) simp: t_open_truncate_def split: if_splits option.splits node.splits)
  with call_results(2) [OF c] have "map_of (tree d3) p = Some (Regular [] 384)" by (auto simp: chmod_def)
  with write_result [OF w] show ?thesis by simp
qed

lemma issue_ok:
  assumes "issue c e action now cs d = (Inr issued, cs', d')"
  obtains bs d1 where "getrandom_fill e 32 d = (Inr bs, d1)"
    and "conf_pending cs' (action_file_name action) = Some \<lparr>tok_action = action, tok_token = hex_encode c bs,
      tok_expires_at = saturating_add now CONFIRMATION_TTL_SECONDS\<rparr>"
    and "map_of (tree d') (issued_path issued) = Some (Regular (as_bytes (hex_encode c bs)) 384)"
proof -
  obtain x d1 where g: "getrandom_fill e 32 d = (x, d1)" by fastforce
  with assms obtain bs where x: "x = Inr bs" by (cases x) (simp_all add: issue_def err_st_def)
  let ?p = "conf_directory cs @ [action_file_name action]"
  obtain w d2 where w: "write_token e (conf_directory cs) ?p (hex_encode c bs) d1 = (w, d2)" by fastforce
  with assms g x obtain u where u: "w = Inr u" by (cases w) (simp_all add: issue_def err_st_def Let_def)
  from assms g x w u have "issued_path issued = ?p" "d' = d2"
    "conf_pending cs' (action_file_name action) = Some \<lparr>tok_action = action, tok_token = hex_encode c bs,
      tok_expires_at = saturating_add now CONFIRMATION_TTL_SECONDS\<rparr>"
    by (auto simp: issue_def err_st_def Let_def)
  with g x write_token_file [OF w [unfolded u]] show thesis by (intro that [of bs d1]) simp_all
qed

lemma issue_failed: "issue c e action now cs d = (Inl err, cs', d') \<Longrightarrow> cs' = cs"
  by (auto simp: issue_def Let_def split: prod.splits sum.splits)

lemma history_pending:
  "fold (conf_step c) ops (confirmations_new dir, d) = (cs, d') \<Longrightarrow>
     conf_pending cs (action_file_name action) \<noteq> None \<Longrightarrow>
     \<exists>e now d0 issued d1. minted_in c (confirmations_new dir, d) ops action cs e now d0 issued d1"
proof (induction ops arbitrary: cs d' rule: rev_induct)
  case Nil
  then show ?case by (auto simp: confirmations_new_def)
next
  case (snoc op ops)
  obtain cs1 d1 where mid: "fold (conf_step c) ops (confirmations_new dir, d) = (cs1, d1)" by fastforce
  have step: "conf_step c op (cs1, d1) = (cs, d')" using snoc.prems(1) mid by simp
  show ?case
  proof (cases op)
    case (Redeem e a p now)
    then have "conf_pending cs (action_file_name a) = None"
      using step by (auto simp: redeem_def consume_pending_token_def split: option.splits)
    with snoc.prems(2) action_is [of a action] show ?thesis by simp
  next
    case (Mint e a now)
    obtain r where iss: "issue c e action now cs1 d1 = (r, cs, d')"
      using step Mint action_is [of a action] by (metis conf_step.simps(1) prod.collapse)
    show ?thesis
    proof (cases r)
      case (Inl err)
      then have "cs = cs1" using iss issue_failed by blast
      with snoc.IH [OF mid] snoc.prems(2) Mint show ?thesis by (metis is_redeem.simps(2) minted_in_snoc)
    next
      case (Inr issued)
      have "ops @ [op] = ops @ [Mint e action now] @ [] \<and> \<not> list_ex is_redeem []" using Mint action_is [of a action] by simp
      with mid iss Inr show ?thesis unfolding minted_in_def by blast
    qed
  qed
qed



end
