(* ===== verification/Sealed_Store.thy ===== *)
theory Sealed_Store
  imports Files Keys
begin

text \<open>
  The daemon's sealed record store (\<open>omachat-store/src/sealed.rs\<close> and \<open>erase.rs\<close>): choice of the
  master-key provider, atomic replacement of sealed records, their authenticated decryption and
  the terminal erasure. The Secret Service of the desktop is a parameter: what each call to it
  answers, by the number of the call.
\<close>

section \<open>Types and constants\<close>

definition MODE_MARKER :: string where "MODE_MARKER = ''storage-mode''"
definition FILE_KEY_NAME :: string where "FILE_KEY_NAME = ''master.key''"
definition RECORD_DIRECTORY :: string where "RECORD_DIRECTORY = ''records''"
definition RECORD_MAGIC :: bytes where "RECORD_MAGIC = as_bytes ''OMACREC'' @ [0]"
definition RECORD_VERSION :: byte where "RECORD_VERSION = 1"
definition NONCE_BYTES :: nat where "NONCE_BYTES = 24"
definition TAG_BYTES :: nat where "TAG_BYTES = 16"
definition MAX_RECORD_BYTES :: nat where "MAX_RECORD_BYTES = 4 * 1024 * 1024"

datatype provider_kind = SecretService | FileProvider

datatype requested_provider = Auto | RequestSecretService | RequestFile

datatype store_error =
    Io io_error
  | Random
  | SecretServiceUnavailable
  | SecretServiceLocked
  | MissingMasterKey
  | DuplicateMasterKey
  | InvalidMasterKey
  | InvalidProviderMarker
  | ProviderConflict
  | ProviderStateExists
  | InsecurePermissions
  | InvalidRecordName
  | InvalidPath
  | InvalidEnvelope
  | RecordNotFound
  | UnsupportedVersion byte
  | RecordTooLarge
  | Encryption
  | Authentication
  | UnsafeEraseTarget
  | Erased

record key_state =
  ks_key :: bytes
  erased :: bool

record sealed_store =
  state_directory :: path
  records_directory :: path
  provider :: provider_kind
  key_state :: key_state

record store_env = os +
  ss_connect :: "nat \<Rightarrow> bool"
  ss_collection :: "nat \<Rightarrow> bool"
  ss_locked :: "nat \<Rightarrow> bool option"
  ss_search :: "nat \<Rightarrow> bytes option list option"
  ss_create :: "nat \<Rightarrow> bytes \<Rightarrow> bool"
  ss_delete :: "nat \<Rightarrow> bool"

abbreviation sys :: "store_env \<Rightarrow> os" where
  "sys e \<equiv> os.truncate e"

type_synonym 'a io = "(store_error + 'a) \<times> disk"

section \<open>Key state\<close>

definition KeyState_erase :: "key_state \<Rightarrow> (store_error + unit) \<times> key_state" where
  "KeyState_erase k =
     (if erased k then (Inl Erased, k)
      else (Inr (), \<lparr>ks_key = replicate (length (ks_key k)) 0, erased = True\<rparr>))"

definition KeyState_key :: "key_state \<Rightarrow> store_error + bytes" where
  "KeyState_key k = (if erased k then Inl Erased else Inr (ks_key k))"

definition MasterKey_generate :: "store_env \<Rightarrow> disk \<Rightarrow> bytes io" where
  "MasterKey_generate e d = err_st (\<lambda>_. Random) (getrandom_fill (sys e) KEY_BYTES d)"

definition store_decode_key :: "bytes \<Rightarrow> store_error + bytes" where
  "store_decode_key bs = (if length bs = KEY_BYTES then Inr bs else Inl InvalidMasterKey)"

section \<open>Files\<close>

definition sync_directory :: "store_env \<Rightarrow> path \<Rightarrow> disk \<Rightarrow> unit io" where
  "sync_directory e p d = err_st Io (fs_sync (sys e) p d)"

definition ensure_private_directory :: "store_env \<Rightarrow> path \<Rightarrow> disk \<Rightarrow> unit io" where
  "ensure_private_directory e p d =
     then_st (err_st Io (fs_create_dir_all (sys e) p d)) (\<lambda>_ d.
       err_st Io (fs_set_permissions (sys e) p 448 d))"

definition temporary_name :: "store_env \<Rightarrow> string \<Rightarrow> bytes \<Rightarrow> string" where
  "temporary_name e name rnd =
     ''.'' @ name @ ''.tmp-'' @ decimal (pid e) @ ''-'' @ decimal (from_le rnd)"

text \<open>The closure of \<open>atomic_write\<close>, from creating the temporary file to flushing the directory.\<close>

definition replace_file :: "store_env \<Rightarrow> path \<Rightarrow> path \<Rightarrow> path \<Rightarrow> bytes \<Rightarrow> disk \<Rightarrow> unit io" where
  "replace_file e parent temporary p bs d =
     then_st (err_st Io (fs_create_new (sys e) 384 temporary d)) (\<lambda>_ d.
     then_st (err_st Io (fs_write_all (sys e) temporary bs d)) (\<lambda>_ d.
     then_st (err_st Io (fs_sync (sys e) temporary d)) (\<lambda>_ d.
     then_st (err_st Io (fs_rename (sys e) temporary p d)) (\<lambda>_ d.
     then_st (err_st Io (fs_set_permissions (sys e) p 384 d)) (\<lambda>_ d.
       sync_directory e parent d)))))"

definition atomic_write :: "store_env \<Rightarrow> path \<Rightarrow> bytes \<Rightarrow> disk \<Rightarrow> unit io" where
  "atomic_write e p bs d =
     (case path_parent p of
        None \<Rightarrow> (Inl InvalidPath, d)
      | Some parent \<Rightarrow>
          if \<not> is_utf8 (last p) then (Inl InvalidPath, d)
          else
            then_st (err_st (\<lambda>_. Random) (getrandom_fill (sys e) 8 d)) (\<lambda>rnd d.
              let temporary = parent @ [temporary_name e (last p) rnd] in
              case replace_file e parent temporary p bs d of
                (Inl err, d) \<Rightarrow> (Inl err, snd (fs_remove_file (sys e) temporary d))
              | (Inr _, d) \<Rightarrow> (Inr (), d)))"

definition interrupted_write :: "string \<Rightarrow> bool" where
  "interrupted_write name \<longleftrightarrow>
     is_utf8 name \<and> name \<noteq> [] \<and> hd name = CHR ''.'' \<and> sublist ''.tmp-'' name"

fun remove_interrupted :: "store_env \<Rightarrow> path \<Rightarrow> string list \<Rightarrow> disk \<Rightarrow> unit io" where
  "remove_interrupted e directory [] d = (Inr (), d)"
| "remove_interrupted e directory (name # names) d =
     (if interrupted_write name then
        then_st (err_st Io (fs_remove_file (sys e) (directory @ [name]) d)) (\<lambda>_ d.
          remove_interrupted e directory names d)
      else remove_interrupted e directory names d)"

definition recover_interrupted_writes :: "store_env \<Rightarrow> path \<Rightarrow> disk \<Rightarrow> unit io" where
  "recover_interrupted_writes e directory d =
     then_st (err_st Io (fs_read_dir (sys e) directory d)) (\<lambda>names d.
     then_st (remove_interrupted e directory names d) (\<lambda>_ d.
       sync_directory e directory d))"

definition validate_record_name :: "string \<Rightarrow> store_error + unit" where
  "validate_record_name name =
     (if name = [] \<or> 128 < length name \<or> hd name = CHR ''.''
         \<or> \<not> list_all (\<lambda>c. is_ascii_alphanumeric c \<or> c \<in> {CHR ''-'', CHR ''_'', CHR ''.''}) name
      then Inl InvalidRecordName else Inr ())"

definition record_aad :: "string \<Rightarrow> bytes" where
  "record_aad name = RECORD_MAGIC @ [RECORD_VERSION] @ as_bytes name"

section \<open>Master keys\<close>

text \<open>Consult the Secret Service: one more call, numbered like the system calls.\<close>

definition ss_call :: "(nat \<Rightarrow> 'a) \<Rightarrow> disk \<Rightarrow> 'a \<times> disk" where
  "ss_call f d = (f (syscalls d), d\<lparr>syscalls := syscalls d + 1\<rparr>)"

definition ss_try :: "(nat \<Rightarrow> 'a option) \<Rightarrow> disk \<Rightarrow> 'a io" where
  "ss_try f d = (case ss_call f d of (r, d) \<Rightarrow> (ok_or SecretServiceUnavailable r, d))"

definition ss_require :: "(nat \<Rightarrow> bool) \<Rightarrow> disk \<Rightarrow> unit io" where
  "ss_require f d = (case ss_call f d of (r, d) \<Rightarrow> (if r then Inr () else Inl SecretServiceUnavailable, d))"

text \<open>Connect, open the default collection, which must be unlocked, and search for the key.\<close>

definition ss_items :: "store_env \<Rightarrow> disk \<Rightarrow> bytes option list io" where
  "ss_items e d =
     then_st (ss_require (ss_connect e) d) (\<lambda>_ d.
     then_st (ss_require (ss_collection e) d) (\<lambda>_ d.
     then_st (ss_try (ss_locked e) d) (\<lambda>locked d.
       if locked then (Inl SecretServiceLocked, d) else ss_try (ss_search e) d)))"

definition load_secret_service_key :: "store_env \<Rightarrow> bool \<Rightarrow> disk \<Rightarrow> bytes io" where
  "load_secret_service_key e create d =
     then_st (ss_items e d) (\<lambda>items d.
       if 1 < length items then (Inl DuplicateMasterKey, d)
       else case items of
         item # _ \<Rightarrow>
           (and_then (ok_or SecretServiceUnavailable item) store_decode_key,
            d\<lparr>syscalls := syscalls d + 1\<rparr>)
       | [] \<Rightarrow>
           if \<not> create then (Inl MissingMasterKey, d)
           else
             then_st (MasterKey_generate e d) (\<lambda>key d.
             then_st (ss_require (\<lambda>k. ss_create e k key) d) (\<lambda>_ d. (Inr key, d))))"

definition delete_secret_service_key :: "store_env \<Rightarrow> disk \<Rightarrow> unit io" where
  "delete_secret_service_key e d =
     then_st (ss_items e d) (\<lambda>items d.
       if length items \<noteq> 1
       then (Inl (if items = [] then MissingMasterKey else DuplicateMasterKey), d)
       else ss_require (ss_delete e) d)"

definition create_file_key :: "store_env \<Rightarrow> path \<Rightarrow> disk \<Rightarrow> bytes io" where
  "create_file_key e directory d =
     (let p = directory @ [FILE_KEY_NAME];
          (present, d) = fs_exists (sys e) p d in
      if present then (Inl ProviderStateExists, d)
      else
        then_st (MasterKey_generate e d) (\<lambda>key d.
        then_st (atomic_write e p key d) (\<lambda>_ d. (Inr key, d))))"

definition load_file_key :: "store_env \<Rightarrow> path \<Rightarrow> disk \<Rightarrow> bytes io" where
  "load_file_key e directory d =
     (let p = directory @ [FILE_KEY_NAME] in
      then_st (err_st (\<lambda>err. if err = Io_NotFound then MissingMasterKey else Io err)
                (fs_metadata (sys e) p d)) (\<lambda>metadata d.
        if node_mode metadata AND 63 \<noteq> 0 then (Inl InsecurePermissions, d)
        else
          then_st (err_st Io (fs_read (sys e) p d)) (\<lambda>bs d. (store_decode_key bs, d))))"

definition request_matches :: "requested_provider \<Rightarrow> provider_kind \<Rightarrow> bool" where
  "request_matches requested selected \<longleftrightarrow>
     requested = Auto \<or> requested = RequestSecretService \<and> selected = SecretService
     \<or> requested = RequestFile \<and> selected = FileProvider"

definition provider_name :: "provider_kind \<Rightarrow> string" where
  "provider_name k = (case k of SecretService \<Rightarrow> ''secret-service'' @ [CHR 0x0A] | FileProvider \<Rightarrow> ''file'' @ [CHR 0x0A])"

definition provider_of_marker :: "string \<Rightarrow> store_error + provider_kind" where
  "provider_of_marker v =
     (let trimmed = trim_chars (chars v) in
      if trimmed = map byte_val ''secret-service'' then Inr SecretService
      else if trimmed = map byte_val ''file'' then Inr FileProvider
      else Inl InvalidProviderMarker)"

definition read_provider :: "store_env \<Rightarrow> path \<Rightarrow> disk \<Rightarrow> provider_kind option io" where
  "read_provider e p d =
     (case fs_read (sys e) p d of
        (Inl err, d) \<Rightarrow> (if err = Io_NotFound then Inr None else Inl (Io err), d)
      | (Inr bs, d) \<Rightarrow>
          let v = map (\<lambda>b. char_of (unat b)) bs in
          (if is_utf8 v then and_then (provider_of_marker v) (\<lambda>kind. Inr (Some kind))
           else Inl (Io Io_Other), d))"

definition select_first_run ::
  "store_env \<Rightarrow> path \<Rightarrow> requested_provider \<Rightarrow> disk \<Rightarrow> (provider_kind \<times> bytes) io" where
  "select_first_run e directory requested d =
     (case requested of
        RequestSecretService \<Rightarrow>
          then_st (load_secret_service_key e True d) (\<lambda>key d. (Inr (SecretService, key), d))
      | RequestFile \<Rightarrow>
          then_st (create_file_key e directory d) (\<lambda>key d. (Inr (FileProvider, key), d))
      | Auto \<Rightarrow>
          (case load_secret_service_key e True d of
             (Inr key, d) \<Rightarrow> (Inr (SecretService, key), d)
           | (Inl err, d) \<Rightarrow>
               if err = SecretServiceUnavailable \<or> err = SecretServiceLocked
               then then_st (create_file_key e directory d) (\<lambda>key d. (Inr (FileProvider, key), d))
               else (Inl err, d)))"

section \<open>The store\<close>

definition load_existing ::
  "store_env \<Rightarrow> path \<Rightarrow> requested_provider \<Rightarrow> provider_kind \<Rightarrow> disk \<Rightarrow> (provider_kind \<times> bytes) io" where
  "load_existing e directory requested kind d =
     (if \<not> request_matches requested kind then (Inl ProviderConflict, d)
      else
        then_st (case kind of SecretService \<Rightarrow> load_secret_service_key e False d
                 | FileProvider \<Rightarrow> load_file_key e directory d) (\<lambda>key d. (Inr (kind, key), d)))"

definition SealedStore_open :: "store_env \<Rightarrow> path \<Rightarrow> requested_provider \<Rightarrow> disk \<Rightarrow> sealed_store io" where
  "SealedStore_open e directory requested d =
     (let marker = directory @ [MODE_MARKER] in
      then_st (ensure_private_directory e directory d) (\<lambda>_ d.
      then_st (read_provider e marker d) (\<lambda>existing d.
      then_st (case existing of
                 Some kind \<Rightarrow> load_existing e directory requested kind d
               | None \<Rightarrow> select_first_run e directory requested d) (\<lambda>(kind, key) d.
      then_st (if existing = None then atomic_write e marker (as_bytes (provider_name kind)) d
               else (Inr (), d)) (\<lambda>_ d.
      let records = directory @ [RECORD_DIRECTORY] in
      then_st (ensure_private_directory e records d) (\<lambda>_ d.
      then_st (recover_interrupted_writes e records d) (\<lambda>_ d.
        (Inr \<lparr>state_directory = directory, records_directory = records, provider = kind,
              key_state = \<lparr>ks_key = key, erased = False\<rparr>\<rparr>, d))))))))"

definition write_with_nonce ::
  "crates \<Rightarrow> store_env \<Rightarrow> sealed_store \<Rightarrow> string \<Rightarrow> bytes \<Rightarrow> bytes \<Rightarrow> bytes \<Rightarrow> disk \<Rightarrow> unit io" where
  "write_with_nonce c e s name plaintext nonce key d =
     (case xchacha_encrypt c key nonce (record_aad name) plaintext of
        None \<Rightarrow> (Inl Encryption, d)
      | Some ciphertext \<Rightarrow>
          atomic_write e (records_directory s @ [name])
            (RECORD_MAGIC @ [RECORD_VERSION] @ nonce @ ciphertext) d)"

definition store_write ::
  "crates \<Rightarrow> store_env \<Rightarrow> sealed_store \<Rightarrow> string \<Rightarrow> bytes \<Rightarrow> disk \<Rightarrow> unit io" where
  "store_write c e s name plaintext d =
     then_st (validate_record_name name, d) (\<lambda>_ d.
       if MAX_RECORD_BYTES < length plaintext then (Inl RecordTooLarge, d)
       else
         then_st (err_st (\<lambda>_. Random) (getrandom_fill (sys e) NONCE_BYTES d)) (\<lambda>nonce d.
         then_st (KeyState_key (key_state s), d) (\<lambda>key d.
           write_with_nonce c e s name plaintext nonce key d)))"

text \<open>The checks of \<open>read\<close> on the bytes of the file, and the decryption.\<close>

definition open_envelope :: "crates \<Rightarrow> bytes \<Rightarrow> string \<Rightarrow> bytes \<Rightarrow> store_error + bytes" where
  "open_envelope c key name bs =
     (if MAX_RECORD_BYTES + NONCE_BYTES + TAG_BYTES + 9 < length bs then Inl RecordTooLarge
      else if length bs < length RECORD_MAGIC + 1 + NONCE_BYTES + TAG_BYTES
              \<or> take (length RECORD_MAGIC) bs \<noteq> RECORD_MAGIC
      then Inl InvalidEnvelope
      else if bs ! length RECORD_MAGIC \<noteq> RECORD_VERSION
      then Inl (UnsupportedVersion (bs ! length RECORD_MAGIC))
      else
        let nonce_start = length RECORD_MAGIC + 1;
            ciphertext_start = nonce_start + NONCE_BYTES;
            nonce = take NONCE_BYTES (drop nonce_start bs) in
        ok_or Authentication
          (xchacha_decrypt c key nonce (record_aad name) (drop ciphertext_start bs)))"

definition store_read ::
  "crates \<Rightarrow> store_env \<Rightarrow> sealed_store \<Rightarrow> string \<Rightarrow> disk \<Rightarrow> bytes io" where
  "store_read c e s name d =
     then_st (validate_record_name name, d) (\<lambda>_ d.
     then_st (KeyState_key (key_state s), d) (\<lambda>key d.
     then_st (err_st (\<lambda>err. if err = Io_NotFound then RecordNotFound else Io err)
               (fs_read (sys e) (records_directory s @ [name]) d)) (\<lambda>content d.
       (open_envelope c key name (take (MAX_RECORD_BYTES + NONCE_BYTES + TAG_BYTES + 10) content), d))))"

definition store_delete :: "store_env \<Rightarrow> sealed_store \<Rightarrow> string \<Rightarrow> disk \<Rightarrow> unit io" where
  "store_delete e s name d =
     then_st (validate_record_name name, d) (\<lambda>_ d.
     then_st (KeyState_key (key_state s), d) (\<lambda>_ d.
       case fs_remove_file (sys e) (records_directory s @ [name]) d of
         (Inr _, d) \<Rightarrow> sync_directory e (records_directory s) d
       | (Inl err, d) \<Rightarrow> (if err = Io_NotFound then Inr () else Inl (Io err), d)))"

definition SealedStore_status :: "sealed_store \<Rightarrow> provider_kind \<times> byte" where
  "SealedStore_status s = (provider s, RECORD_VERSION)"

section \<open>Changing the provider\<close>

fun read_records ::
  "crates \<Rightarrow> store_env \<Rightarrow> sealed_store \<Rightarrow> string list \<Rightarrow> disk \<Rightarrow> (string \<times> bytes) list io" where
  "read_records c e s [] d = (Inr [], d)"
| "read_records c e s (name # names) d =
     then_st (err_st Io (fs_metadata (sys e) (records_directory s @ [name]) d)) (\<lambda>metadata d.
       case metadata of
         Regular _ _ \<Rightarrow>
           if \<not> is_utf8 name then (Inl InvalidRecordName, d)
           else
             then_st (store_read c e s name d) (\<lambda>plaintext d.
             then_st (read_records c e s names d) (\<lambda>rest d. (Inr ((name, plaintext) # rest), d)))
       | _ \<Rightarrow> read_records c e s names d)"

fun write_records ::
  "crates \<Rightarrow> store_env \<Rightarrow> sealed_store \<Rightarrow> (string \<times> bytes) list \<Rightarrow> disk \<Rightarrow> unit io" where
  "write_records c e s [] d = (Inr (), d)"
| "write_records c e s ((name, plaintext) # records) d =
     then_st (store_write c e s name plaintext d) (\<lambda>_ d. write_records c e s records d)"

text \<open>Forget the key created for the target, ignoring failures.\<close>

definition drop_target_key :: "store_env \<Rightarrow> provider_kind \<Rightarrow> disk \<Rightarrow> disk" where
  "drop_target_key e target d =
     (if target = SecretService then snd (delete_secret_service_key e d) else d)"

text \<open>Swap the completed replacement into place and clean up.\<close>

definition swap_directories ::
  "store_env \<Rightarrow> provider_kind \<Rightarrow> provider_kind \<Rightarrow> path \<Rightarrow> path \<Rightarrow> path \<Rightarrow> path \<Rightarrow> disk \<Rightarrow> unit io" where
  "swap_directories e source_provider target parent directory replacement_path backup_path d =
     then_st (err_st Io (fs_rename (sys e) directory backup_path d)) (\<lambda>_ d.
       case fs_rename (sys e) replacement_path directory d of
         (Inl err, d) \<Rightarrow>
           (Inl (Io err), drop_target_key e target (snd (fs_rename (sys e) backup_path directory d)))
       | (Inr _, d) \<Rightarrow>
           then_st (sync_directory e parent d) (\<lambda>_ d.
           then_st (if source_provider = SecretService then delete_secret_service_key e d
                    else (Inr (), d)) (\<lambda>_ d.
           then_st (err_st Io (fs_remove_dir_all (sys e) backup_path d)) (\<lambda>_ d.
             sync_directory e parent d))))"

definition migrate_provider :: "crates \<Rightarrow> store_env \<Rightarrow> path \<Rightarrow> provider_kind \<Rightarrow> disk \<Rightarrow> unit io" where
  "migrate_provider c e directory target d =
     then_st (SealedStore_open e directory Auto d) (\<lambda>source d.
     if provider source = target then (Inl ProviderConflict, d)
     else
       then_st (err_st Io (fs_read_dir (sys e) (records_directory source) d)) (\<lambda>names d.
       then_st (read_records c e source names d) (\<lambda>records d.
       case path_parent directory of
         None \<Rightarrow> (Inl UnsafeEraseTarget, d)
       | Some parent \<Rightarrow>
           let leaf = last directory in
           if \<not> is_utf8 leaf then (Inl UnsafeEraseTarget, d)
           else
             then_st (err_st (\<lambda>_. Random) (getrandom_fill (sys e) 8 d)) (\<lambda>rnd d.
             let suffix = decimal (from_le rnd);
                 replacement_path = parent @ [''.'' @ leaf @ ''.migration-'' @ suffix];
                 backup_path = parent @ [''.'' @ leaf @ ''.backup-'' @ suffix];
                 requested = (case target of SecretService \<Rightarrow> RequestSecretService | FileProvider \<Rightarrow> RequestFile) in
             case SealedStore_open e replacement_path requested d of
               (Inl err, d) \<Rightarrow> (Inl err, snd (fs_remove_dir_all (sys e) replacement_path d))
             | (Inr replacement, d) \<Rightarrow>
                 (case write_records c e replacement records d of
                    (Inl err, d) \<Rightarrow>
                      (Inl err, drop_target_key e target (snd (fs_remove_dir_all (sys e) replacement_path d)))
                  | (Inr _, d) \<Rightarrow>
                      swap_directories e (provider source) target parent directory replacement_path
                        backup_path d)))))"

section \<open>Erasure\<close>

definition delete_external_master_key :: "store_env \<Rightarrow> sealed_store \<Rightarrow> disk \<Rightarrow> unit io" where
  "delete_external_master_key e s d =
     (case provider s of
        FileProvider \<Rightarrow>
          (case fs_remove_file (sys e) (state_directory s @ [FILE_KEY_NAME]) d of
             (Inr _, d) \<Rightarrow> sync_directory e (state_directory s) d
           | (Inl err, d) \<Rightarrow> (Inl (if err = Io_NotFound then MissingMasterKey else Io err), d))
      | SecretService \<Rightarrow> delete_secret_service_key e d)"

definition delete_ciphertext_before_reporting :: "store_env \<Rightarrow> path \<Rightarrow> path \<Rightarrow> disk \<Rightarrow> unit io" where
  "delete_ciphertext_before_reporting e directory parent d =
     then_st (err_st Io (fs_remove_dir_all (sys e) directory d)) (\<lambda>_ d. sync_directory e parent d)"

text \<open>\<open>erase_process_key\<close> changes the store's key state; the rest of the erasure is on the disk.\<close>

definition erase_files :: "store_env \<Rightarrow> sealed_store \<Rightarrow> disk \<Rightarrow> provider_kind io" where
  "erase_files e s d =
     then_st (err_st Io (fs_metadata (sys e) (state_directory s) d)) (\<lambda>metadata d.
       case metadata of
         Directory _ \<Rightarrow>
           (case path_parent (state_directory s) of
              None \<Rightarrow> (Inl UnsafeEraseTarget, d)
            | Some parent \<Rightarrow>
                let (key_cleanup, d) = delete_external_master_key e s d;
                    (ciphertext_cleanup, d) =
                      delete_ciphertext_before_reporting e (state_directory s) parent d in
                (and_then key_cleanup (\<lambda>_. and_then ciphertext_cleanup (\<lambda>_. Inr (provider s))), d))
       | _ \<Rightarrow> (Inl UnsafeEraseTarget, d))"

definition panic_erase ::
  "store_env \<Rightarrow> sealed_store \<Rightarrow> disk \<Rightarrow> (store_error + provider_kind) \<times> sealed_store \<times> disk" where
  "panic_erase e s d =
     (case KeyState_erase (key_state s) of
        (Inl err, k) \<Rightarrow> (Inl err, s\<lparr>key_state := k\<rparr>, d)
      | (Inr _, k) \<Rightarrow>
          let s = s\<lparr>key_state := k\<rparr>; (r, d) = erase_files e s d in (r, s, d))"

end
