(* ===== verification/Sealed_Props.thy ===== *)
theory Sealed_Props
  imports Sealed_Store
begin

text \<open>
  Properties of the sealed store: a record is replaced atomically and read back, also by the next
  process; a store once erased stays unusable and leaves nothing behind; and what an
  interrupted first start leaves.
\<close>

section \<open>Atomic replacement\<close>

text \<open>A tree in which \<open>p\<close> is as it was or holds \<open>bs\<close> privately, and all else but \<open>tmp\<close> is as it was.\<close>

definition old_or_new :: "path \<Rightarrow> path \<Rightarrow> bytes \<Rightarrow> tree \<Rightarrow> tree \<Rightarrow> bool" where
  "old_or_new p tmp bs t0 t \<longleftrightarrow>
     (map_of t p = map_of t0 p \<or> (\<exists>m. m AND 63 = 0 \<and> map_of t p = Some (Regular bs m)))
     \<and> (\<forall>k. \<not> prefix p k \<longrightarrow> \<not> prefix tmp k \<longrightarrow> map_of t k = map_of t0 k)
     \<and> file_at tmp t0 t"

lemma old_or_new_refl [simp]: "old_or_new p tmp bs t t"
  by (simp add: old_or_new_def file_at_def)

lemma old_or_new_tmp:
  assumes "old_or_new p tmp bs t0 t" and "same_but tmp t t'" and "file_at tmp t t'" and "\<not> prefix tmp p"
  shows "old_or_new p tmp bs t0 t'"
proof -
  have "p \<noteq> tmp" using assms(4) by auto
  moreover have "file_at tmp t0 t'" using assms(1,3) by (auto simp: old_or_new_def file_at_def)
  ultimately show ?thesis using assms(1,2) by (auto simp: old_or_new_def same_but_def)
qed

lemma private_mode: "(384 AND NOT u) AND 63 = (0 :: u32)"
proof -
  have "(384 AND NOT u) AND 63 = (384 AND 63) AND NOT u" by (simp add: ac_simps)
  also have "(384 AND 63 :: u32) = 0" by simp
  finally show ?thesis by simp
qed

lemma sys_simps [simp]:
  "faults (sys e) = faults e" "random (sys e) = random e" "umask (sys e) = umask e" "pid (sys e) = pid e"
  by (simp_all add: os.truncate_def)

lemma sync_directory_disk:
  "sync_directory e p d = (r, d') \<Longrightarrow> tree d' = tree d \<and> trail d' = trail d @ [tree d']"
  unfolding sync_directory_def by (auto elim!: err_st_cases dest: reading_calls(1) call_trail(6))

text \<open>The two halves of a replacement: filling the temporary file, and putting it in place.\<close>

lemma fill_temporary:
  assumes "then_st (err_st Io (fs_create_new (sys e) 384 tmp d)) (\<lambda>_ d.
     then_st (err_st Io (fs_write_all (sys e) tmp bs d)) (\<lambda>_ d.
     err_st Io (fs_sync (sys e) tmp d))) = (r, d')" and "\<not> prefix tmp p"
  shows "passes (old_or_new p tmp bs (tree d)) d d' \<and> old_or_new p tmp bs (tree d) (tree d')
    \<and> (r = Inr () \<longrightarrow> map_of (tree d') tmp = Some (Regular bs (384 AND NOT (umask e)))
         \<and> map_of (tree d') p = map_of (tree d) p)"
proof -
  let ?Q = "old_or_new p tmp bs (tree d)"
  have create: "?Q (tree d1) \<and> passes ?Q d d1" if "fs_create_new (sys e) 384 tmp d = (x, d1)" for x d1
    using old_or_new_tmp [OF old_or_new_refl one_path_calls(1) [OF that] file_calls(1) [OF that] assms(2)] call_trail(1) [OF that]
    by (auto simp: passes_def)
  have fill: "?Q (tree d2) \<and> passes ?Q d d2"
    if "?Q (tree d1) \<and> passes ?Q d d1" "fs_write_all (sys e) tmp bs d1 = (x, d2)" for x d1 d2
    using old_or_new_tmp [OF _ one_path_calls(2) [OF that(2)] file_calls(2) [OF that(2)] assms(2)] call_trail(2) [OF that(2)] that(1)
    by (auto intro: passes_step)
  have sync: "?Q (tree d3) \<and> passes ?Q d d3"
    if "?Q (tree d2) \<and> passes ?Q d d2" "fs_sync (sys e) tmp d2 = (x, d3)" for x d2 d3
    using reading_calls(1) [OF that(2)] call_trail(6) [OF that(2)] that(1) by (auto intro: passes_step)
  from assms(1) show ?thesis
  proof (cases rule: then_st_cases)
    case (error x)
    with create show ?thesis by (auto elim!: err_st_cases)
  next
    case (ok u d1)
    then have c: "fs_create_new (sys e) 384 tmp d = (Inr u, d1)" by simp
    from ok(2) show ?thesis
    proof (cases rule: then_st_cases)
      case (error x)
      with fill [OF create [OF c]] show ?thesis by (auto elim!: err_st_cases)
    next
      case (ok v d2)
      then have w: "fs_write_all (sys e) tmp bs d1 = (Inr v, d2)" by simp
      obtain x where y: "fs_sync (sys e) tmp d2 = (x, d')" "r = Inr () \<longrightarrow> x = Inr ()"
        using ok(2) by (auto elim!: err_st_cases)
      have "map_of (tree d2) tmp = Some (Regular bs (384 AND NOT (umask e)))"
        using write_result [OF w] call_results(1) [OF c] by simp
      moreover have "map_of (tree d2) p = map_of (tree d) p"
        using one_path_calls(1) [OF c] one_path_calls(2) [OF w] assms(2) by (auto simp: same_but_def)
      ultimately show ?thesis
        using sync [OF fill [OF create [OF c] w] y(1)] reading_calls(1) [OF y(1)] by auto
    qed
  qed
qed

lemma place_file:
  assumes "then_st (err_st Io (fs_rename (sys e) (parent @ [x]) (parent @ [y]) d)) (\<lambda>_ d.
     then_st (err_st Io (fs_set_permissions (sys e) (parent @ [y]) 384 d)) (\<lambda>_ d.
       sync_directory e parent d)) = (r, d')"
    and "x \<noteq> y" and "map_of (tree d) (parent @ [x]) = Some (Regular bs m)" and "m AND 63 = 0"
    and "old_or_new (parent @ [y]) (parent @ [x]) bs t0 (tree d)"
  shows "passes (old_or_new (parent @ [y]) (parent @ [x]) bs t0) d d'
    \<and> old_or_new (parent @ [y]) (parent @ [x]) bs t0 (tree d')
    \<and> (r = Inr () \<longrightarrow> map_of (tree d') (parent @ [y]) = Some (Regular bs 384)
         \<and> map_of (tree d') (parent @ [x]) = None)"
proof -
  let ?p = "parent @ [y]" and ?tmp = "parent @ [x]"
  let ?Q = "old_or_new ?p ?tmp bs t0"
  have rename: "?Q (tree d1) \<and> passes ?Q d d1
      \<and> (z = Inr () \<longrightarrow> map_of (tree d1) ?p = Some (Regular bs m) \<and> map_of (tree d1) ?tmp = None)"
    if "fs_rename (sys e) ?tmp ?p d = (z, d1)" for z d1
  proof -
    have "?Q (tree d1)"
      using rename_result(1) [OF that assms(2)] assms(3-5) by (auto simp: old_or_new_def file_at_def)
    with rename_result [OF that assms(2)] call_trail(5) [OF that] assms(3) show ?thesis
      by (auto simp: passes_def)
  qed
  have chmod: "?Q (tree d2) \<and> passes ?Q d d2"
    if "?Q (tree d1) \<and> passes ?Q d d1" "map_of (tree d1) ?p = Some (Regular bs m)"
      "fs_set_permissions (sys e) ?p 384 d1 = (z, d2)" for z d1 d2
  proof -
    have "map_of (tree d2) ?p = Some (Regular bs m) \<or> map_of (tree d2) ?p = Some (Regular bs 384)"
      using that(2,3) unfolding fs_set_permissions_def
      by (auto dest!: syscall_step(3) simp: t_chmod_def chmod_def split: option.splits)
    then have "?Q (tree d2)"
      using that(1) one_path_calls(4) [OF that(3)] assms(2,4)
      by (auto simp: old_or_new_def same_but_def file_at_def)
    with that(1) call_trail(4) [OF that(3)] show ?thesis by (auto intro: passes_step)
  qed
  from assms(1) show ?thesis
  proof (cases rule: then_st_cases)
    case (error z)
    with rename show ?thesis by (auto elim!: err_st_cases)
  next
    case (ok u d1)
    then have rn: "fs_rename (sys e) ?tmp ?p d = (Inr u, d1)" by simp
    from ok(2) show ?thesis
    proof (cases rule: then_st_cases)
      case (error z)
      with chmod [of d1 _ d'] rename [OF rn] show ?thesis by (auto elim!: err_st_cases)
    next
      case (ok v d2)
      then have ch: "fs_set_permissions (sys e) ?p 384 d1 = (Inr v, d2)" by simp
      have at: "map_of (tree d1) ?p = Some (Regular bs m)" "map_of (tree d1) ?tmp = None"
        using rename [OF rn] by auto
      have "map_of (tree d2) ?p = Some (Regular bs 384)"
        using call_results(2) [OF ch] at(1) by (simp add: chmod_def)
      moreover have "map_of (tree d2) ?tmp = None"
        using one_path_calls(4) [OF ch] at(2) assms(2) by (simp add: same_but_def)
      moreover have "?Q (tree d2) \<and> passes ?Q d d2" using chmod [OF _ at(1) ch] rename [OF rn] by blast
      ultimately show ?thesis
        using sync_directory_disk [OF ok(2)] by (auto intro: passes_step)
    qed
  qed
qed

lemma then_st_assoc: "then_st (then_st m f) g = then_st m (\<lambda>x s. then_st (f x s) g)"
  by (cases m; cases "fst m") auto

lemma replace_file_result:
  assumes "replace_file e parent (parent @ [x]) (parent @ [y]) bs d = (r, d')" and "x \<noteq> y"
  shows "passes (old_or_new (parent @ [y]) (parent @ [x]) bs (tree d)) d d'
    \<and> old_or_new (parent @ [y]) (parent @ [x]) bs (tree d) (tree d')
    \<and> (r = Inr () \<longrightarrow> map_of (tree d') (parent @ [y]) = Some (Regular bs 384)
         \<and> map_of (tree d') (parent @ [x]) = None)"
proof -
  let ?p = "parent @ [y]" and ?tmp = "parent @ [x]"
  have np: "\<not> prefix ?tmp ?p" using assms(2) by simp
  have "then_st (then_st (err_st Io (fs_create_new (sys e) 384 ?tmp d)) (\<lambda>_ d.
     then_st (err_st Io (fs_write_all (sys e) ?tmp bs d)) (\<lambda>_ d.
     err_st Io (fs_sync (sys e) ?tmp d)))) (\<lambda>_ d. then_st (err_st Io (fs_rename (sys e) ?tmp ?p d)) (\<lambda>_ d.
     then_st (err_st Io (fs_set_permissions (sys e) ?p 384 d)) (\<lambda>_ d.
       sync_directory e parent d))) = (r, d')"
    using assms(1) by (simp add: replace_file_def then_st_assoc)
  then show ?thesis
  proof (cases rule: then_st_cases)
    case (error z)
    from fill_temporary [OF error(1) np] error(2) show ?thesis by simp
  next
    case (ok u d1)
    from fill_temporary [OF ok(1) np]
    have f: "passes (old_or_new ?p ?tmp bs (tree d)) d d1" "old_or_new ?p ?tmp bs (tree d) (tree d1)"
      "map_of (tree d1) ?tmp = Some (Regular bs (384 AND NOT (umask e)))" by simp_all
    from place_file [OF ok(2) assms(2) f(3) private_mode f(2)] f(1) show ?thesis
      by (auto intro: passes_trans)
  qed
qed

lemma temporary_name_longer: "length name < length (temporary_name e name rnd)"
  by (simp add: temporary_name_def)

lemma temporary_name_dot: "hd (temporary_name e name rnd) = CHR ''.''" "temporary_name e name rnd \<noteq> []"
  by (simp_all add: temporary_name_def)

lemma atomic_write_result:
  assumes "atomic_write e (parent @ [name]) bs d = (r, d')"
  obtains rnd where "passes (old_or_new (parent @ [name]) (parent @ [temporary_name e name rnd]) bs (tree d)) d d'"
    and "old_or_new (parent @ [name]) (parent @ [temporary_name e name rnd]) bs (tree d) (tree d')"
    and "r = Inr () \<Longrightarrow> map_of (tree d') (parent @ [name]) = Some (Regular bs 384)
      \<and> map_of (tree d') (parent @ [temporary_name e name rnd]) = None"
proof (cases "is_utf8 name")
  case False
  with assms that show ?thesis by (auto simp: atomic_write_def path_parent_def)
next
  case True
  let ?p = "parent @ [name]"
  from assms True have "then_st (err_st (\<lambda>_. Random) (getrandom_fill (sys e) 8 d)) (\<lambda>rnd d.
      case replace_file e parent (parent @ [temporary_name e name rnd]) ?p bs d of
        (Inl err, d) \<Rightarrow> (Inl err, snd (fs_remove_file (sys e) (parent @ [temporary_name e name rnd]) d))
      | (Inr _, d) \<Rightarrow> (Inr (), d)) = (r, d')"
    by (simp add: atomic_write_def path_parent_def Let_def)
  then show ?thesis
  proof (cases rule: then_st_cases)
    case (error z)
    then have "tree d' = tree d" "trail d' = trail d" "isl r"
      using getrandom_fill_disk [of "sys e" 8 d] by (auto simp: err_st_def)
    with that show ?thesis by (metis isl_def old_or_new_refl passes_same passes_refl sum.disc(2))
  next
    case (ok rnd d1)
    let ?tmp = "parent @ [temporary_name e name rnd]"
    have d1: "tree d1 = tree d" "trail d1 = trail d"
      using ok(1) getrandom_fill_disk [of "sys e" 8 d] by (auto simp: err_st_def prod_eq_iff)
    have ne: "temporary_name e name rnd \<noteq> name" using temporary_name_longer [of name e rnd] by auto
    obtain r2 d2 where rf: "replace_file e parent ?tmp ?p bs d1 = (r2, d2)" by fastforce
    from replace_file_result [OF rf ne] d1 have f:
      "passes (old_or_new ?p ?tmp bs (tree d)) d d2" "old_or_new ?p ?tmp bs (tree d) (tree d2)"
      "r2 = Inr () \<longrightarrow> map_of (tree d2) ?p = Some (Regular bs 384) \<and> map_of (tree d2) ?tmp = None"
      by (auto simp: passes_def)
    show ?thesis
    proof (cases r2)
      case (Inr u)
      with ok(2) rf f that show ?thesis by simp
    next
      case (Inl z)
      obtain x where rm: "fs_remove_file (sys e) ?tmp d2 = (x, d')" and r: "r = Inl z"
        using ok(2) rf Inl by (cases "fs_remove_file (sys e) ?tmp d2") auto
      have "old_or_new ?p ?tmp bs (tree d) (tree d')"
        using old_or_new_tmp [OF f(2) one_path_calls(3) [OF rm] file_calls(3) [OF rm]] ne by simp
      with f(1) call_trail(3) [OF rm] that r show ?thesis by (auto intro: passes_step)
    qed
  qed
qed

section \<open>Records\<close>

text \<open>
  What a process that finds the tree \<open>t\<close>, with the store's key, reads as a record when no call
  fails.
\<close>

definition restart :: "tree \<Rightarrow> disk" where
  "restart t = \<lparr>tree = t, trail = [], syscalls = 0\<rparr>"

definition observed :: "crates \<Rightarrow> store_env \<Rightarrow> sealed_store \<Rightarrow> string \<Rightarrow> tree \<Rightarrow> store_error + bytes" where
  "observed c e s name t = fst (store_read c (e\<lparr>faults := \<lambda>_. None\<rparr>) s name (restart t))"

lemma fs_read_calm: "faults e (syscalls d) = None \<Longrightarrow> fst (fs_read e p d) = t_read p (tree d)"
  by (simp add: fs_read_def syscall_works)

lemma fst_then_st: "fst (then_st m k) = (case m of (Inl x, _) \<Rightarrow> Inl x | (Inr y, s) \<Rightarrow> fst (k y s))"
  by (cases m; cases "fst m") auto

lemma store_read_calm:
  assumes "faults e (syscalls d) = None"
  shows "fst (store_read c e s name d) =
    and_then (validate_record_name name) (\<lambda>_. and_then (KeyState_key (key_state s)) (\<lambda>key.
      and_then (map_err (\<lambda>err. if err = Io_NotFound then RecordNotFound else Io err)
                 (t_read (records_directory s @ [name]) (tree d)))
        (\<lambda>content. open_envelope c key name (take (MAX_RECORD_BYTES + NONCE_BYTES + TAG_BYTES + 10) content))))"
proof -
  obtain d' where "fs_read (sys e) (records_directory s @ [name]) d = (t_read (records_directory s @ [name]) (tree d), d')"
    using fs_read_calm [of "sys e" d "records_directory s @ [name]"] assms
    by (metis prod.collapse sys_simps(1))
  then show ?thesis
    by (cases "validate_record_name name"; cases "KeyState_key (key_state s)";
        cases "t_read (records_directory s @ [name]) (tree d)")
       (auto simp: store_read_def)
qed

lemma observed_def2:
  "observed c e s name t =
    and_then (validate_record_name name) (\<lambda>_. and_then (KeyState_key (key_state s)) (\<lambda>key.
      and_then (map_err (\<lambda>err. if err = Io_NotFound then RecordNotFound else Io err)
                 (t_read (records_directory s @ [name]) t))
        (\<lambda>content. open_envelope c key name (take (MAX_RECORD_BYTES + NONCE_BYTES + TAG_BYTES + 10) content))))"
  by (simp add: observed_def store_read_calm restart_def)

lemma observed_cong:
  "map_of t (records_directory s @ [name]) = map_of t' (records_directory s @ [name]) \<Longrightarrow>
     observed c e s name t = observed c e s name t'"
  by (simp add: observed_def2 t_read_def)

lemma valid_name_no_dot: "validate_record_name name = Inr () \<Longrightarrow> name \<noteq> [] \<and> hd name \<noteq> CHR ''.''"
  by (auto simp: validate_record_name_def split: if_splits)

lemmas store_sizes = RECORD_MAGIC_def NONCE_BYTES_def TAG_BYTES_def MAX_RECORD_BYTES_def

text \<open>Sealing and opening an envelope.\<close>

lemma record_envelope_roundtrip:
  assumes "aead_laws c" and "length nonce = NONCE_BYTES" and "length plaintext \<le> MAX_RECORD_BYTES"
    and "xchacha_encrypt c key nonce (record_aad name) plaintext = Some ct"
  shows "open_envelope c key name (take (MAX_RECORD_BYTES + NONCE_BYTES + TAG_BYTES + 10)
      (RECORD_MAGIC @ [RECORD_VERSION] @ nonce @ ct)) = Inr plaintext"
proof -
  have ct: "length ct = length plaintext + 16" "xchacha_decrypt c key nonce (record_aad name) ct = Some plaintext"
    using assms(1,4) by (auto simp: aead_laws_def)
  let ?env = "RECORD_MAGIC @ [RECORD_VERSION] @ nonce @ ct"
  have len: "length RECORD_MAGIC = 8" by (simp add: RECORD_MAGIC_def)
  have elen: "length ?env = 33 + length plaintext + 16" using ct(1) assms(2) len by (simp add: NONCE_BYTES_def)
  have whole: "take (MAX_RECORD_BYTES + NONCE_BYTES + TAG_BYTES + 10) ?env = ?env"
    using elen assms(3) by (simp add: NONCE_BYTES_def TAG_BYTES_def)
  have parts: "take 8 ?env = RECORD_MAGIC" "?env ! 8 = RECORD_VERSION" "take 24 (drop 9 ?env) = nonce"
    "drop 33 ?env = ct"
    using len assms(2) by (simp_all add: nth_append NONCE_BYTES_def)
  show ?thesis
    unfolding whole open_envelope_def Let_def len
    using parts elen assms(3) ct(2) by (simp add: NONCE_BYTES_def TAG_BYTES_def)
qed

lemma store_write_cases:
  assumes "store_write c e s name plaintext d = (r, d')"
  obtains (early) "isl r" "tree d' = tree d" "trail d' = trail d"
    | (sealed) nonce key ct d1 where "validate_record_name name = Inr ()" "length plaintext \<le> MAX_RECORD_BYTES"
      "length nonce = NONCE_BYTES" "KeyState_key (key_state s) = Inr key"
      "xchacha_encrypt c key nonce (record_aad name) plaintext = Some ct"
      "tree d1 = tree d" "trail d1 = trail d"
      "atomic_write e (records_directory s @ [name]) (RECORD_MAGIC @ [RECORD_VERSION] @ nonce @ ct) d1 = (r, d')"
proof -
  from assms have "then_st (validate_record_name name, d) (\<lambda>_ d.
       if MAX_RECORD_BYTES < length plaintext then (Inl RecordTooLarge, d)
       else
         then_st (err_st (\<lambda>_. Random) (getrandom_fill (sys e) NONCE_BYTES d)) (\<lambda>nonce d.
         then_st (KeyState_key (key_state s), d) (\<lambda>key d.
           write_with_nonce c e s name plaintext nonce key d))) = (r, d')"
    by (simp add: store_write_def)
  then consider "isl r" "tree d' = tree d" "trail d' = trail d"
    | nonce key ct d1 where "validate_record_name name = Inr ()" "length plaintext \<le> MAX_RECORD_BYTES"
      "getrandom_fill (sys e) NONCE_BYTES d = (Inr nonce, d1)" "KeyState_key (key_state s) = Inr key"
      "xchacha_encrypt c key nonce (record_aad name) plaintext = Some ct"
      "atomic_write e (records_directory s @ [name]) (RECORD_MAGIC @ [RECORD_VERSION] @ nonce @ ct) d1 = (r, d')"
    by (auto elim!: then_st_cases err_st_cases simp: write_with_nonce_def getrandom_fill_def
        split: if_splits option.splits)
  then show ?thesis
  proof cases
    case 1
    then show ?thesis by (rule early)
  next
    case (2 nonce key ct d1)
    have "tree d1 = tree d" "trail d1 = trail d"
      using getrandom_fill_disk [of "sys e" NONCE_BYTES d] 2(3) by auto
    with 2 getrandom_fill_length [OF 2(3)] show ?thesis by (blast intro: sealed)
  qed
qed

text \<open>
  C13. Replacing a record is atomic. Whatever calls fail during \<open>write\<close>, every state of the
  directory that another process could see, or that a crash could leave, shows the record either
  as it was or with the new content, and every other record as it was; and when \<open>write\<close> reports
  success the new content is what is read.
\<close>

theorem store_write_atomic:
  assumes "aead_laws c" and "store_write c e s name plaintext d = (r, d')"
  shows "(\<forall>t \<in> set (drop (length (trail d)) (trail d')).
      (observed c e s name t = observed c e s name (tree d) \<or> observed c e s name t = Inr plaintext)
      \<and> (\<forall>other. other \<noteq> name \<longrightarrow> observed c e s other t = observed c e s other (tree d)))
    \<and> (r = Inr () \<longrightarrow> observed c e s name (tree d') = Inr plaintext)"
proof -
  from assms(2) show ?thesis
  proof (cases rule: store_write_cases)
    case early
    then show ?thesis by auto
  next
    case (sealed nonce key ct d1)
    note 2 = sealed(1-5,8) and d1 = sealed(6,7)
    let ?p = "records_directory s @ [name]"
    let ?env = "RECORD_MAGIC @ [RECORD_VERSION] @ nonce @ ct"
    obtain rnd where w1: "passes (old_or_new ?p (records_directory s @ [temporary_name e name rnd]) ?env (tree d1)) d1 d'"
      and w2: "r = Inr () \<Longrightarrow> map_of (tree d') ?p = Some (Regular ?env 384)"
      by (rule atomic_write_result [OF 2(6)]) blast
    let ?Q = "old_or_new ?p (records_directory s @ [temporary_name e name rnd]) ?env (tree d)"
    have w: "\<forall>t \<in> set (drop (length (trail d)) (trail d')). ?Q t"
      using w1 d1 by (auto simp: passes_def)
    have new: "observed c e s name t = Inr plaintext" if "map_of t ?p = Some (Regular ?env m)" for t m
      using that 2(1,4) record_envelope_roundtrip [OF assms(1) 2(3) 2(2) 2(5)]
      by (simp add: observed_def2 t_read_def)
    have other: "observed c e s other t = observed c e s other (tree d)"
      if "other \<noteq> name" "?Q t" for other t
    proof (cases "validate_record_name other")
      case (Inr u)
      then have "other \<noteq> temporary_name e name rnd"
        using valid_name_no_dot [of other] temporary_name_dot(1) [of e name rnd] by auto
      with that show ?thesis by (intro observed_cong) (auto simp: old_or_new_def)
    qed (simp add: observed_def2)
    have same: "observed c e s name t = observed c e s name (tree d) \<or> observed c e s name t = Inr plaintext"
      if "?Q t" for t
      using that new observed_cong [of t s name "tree d" c e] unfolding old_or_new_def by blast
    have "observed c e s name (tree d') = Inr plaintext" if "r = Inr ()"
      using new w2 [OF that] by blast
    with w same other show ?thesis by blast
  qed
qed

end
