(* ===== verification/Sealed_Restart.thy ===== *)
theory Sealed_Restart
  imports Sealed_Props
begin

text \<open>
  The sealed store across processes: whatever calls failed and wherever the previous process
  stopped, the next start with the file provider finds the same master key and the same records.
\<close>

section \<open>An established store\<close>

abbreviation records_of :: "path \<Rightarrow> path" where
  "records_of dir \<equiv> dir @ [RECORD_DIRECTORY]"

definition marker_text :: "bytes \<Rightarrow> string" where
  "marker_text bs = map (\<lambda>b. char_of (unat b)) bs"

text \<open>
  The directories exist, the key file is private and holds the key, the marker names the file
  provider, and what an interrupted write may have left is a file.
\<close>

definition file_store :: "path \<Rightarrow> bytes \<Rightarrow> tree \<Rightarrow> bool" where
  "file_store dir key t \<longleftrightarrow>
     length key = KEY_BYTES
     \<and> (\<forall>q. prefix q (records_of dir) \<longrightarrow> is_dir t q)
     \<and> (\<exists>m. m AND 63 = 0 \<and> map_of t (dir @ [FILE_KEY_NAME]) = Some (Regular key m))
     \<and> (\<exists>v m. map_of t (dir @ [MODE_MARKER]) = Some (Regular v m) \<and> is_utf8 (marker_text v)
           \<and> provider_of_marker (marker_text v) = Inr FileProvider)
     \<and> (\<forall>name n. interrupted_write name \<longrightarrow> map_of t (records_of dir @ [name]) = Some n \<longrightarrow>
           (\<exists>c m. n = Regular c m))"

lemma names_differ [simp]:
  "FILE_KEY_NAME \<noteq> MODE_MARKER" "FILE_KEY_NAME \<noteq> RECORD_DIRECTORY" "MODE_MARKER \<noteq> RECORD_DIRECTORY"
  "MODE_MARKER \<noteq> FILE_KEY_NAME" "RECORD_DIRECTORY \<noteq> FILE_KEY_NAME" "RECORD_DIRECTORY \<noteq> MODE_MARKER"
  by (simp_all add: FILE_KEY_NAME_def MODE_MARKER_def RECORD_DIRECTORY_def)

lemma fixed_not_temporary:
  "temporary_name e n rnd \<noteq> FILE_KEY_NAME" "temporary_name e n rnd \<noteq> MODE_MARKER"
  "temporary_name e n rnd \<noteq> RECORD_DIRECTORY"
  by (simp_all add: temporary_name_def FILE_KEY_NAME_def MODE_MARKER_def RECORD_DIRECTORY_def)

lemma is_dir_cong: "map_of t k = map_of t' k \<Longrightarrow> is_dir t k = is_dir t' k"
  by (simp add: is_dir_def)

lemma file_store_keep:
  assumes "file_store dir key t"
    and outside: "\<And>k. \<not> strict_prefix (records_of dir) k \<Longrightarrow> map_of t' k = map_of t k"
    and inside: "\<And>name. file_at (records_of dir @ [name]) t t'"
  shows "file_store dir key t'"
proof -
  have "\<not> strict_prefix (records_of dir) q" if "prefix q (records_of dir)" for q
    using that by (meson prefix_order.less_le_not_le)
  then have "is_dir t' q = is_dir t q" if "prefix q (records_of dir)" for q
    using that outside is_dir_cong by blast
  moreover have "\<not> strict_prefix (records_of dir) (dir @ [x])" for x
    by (simp add: strict_prefix_def)
  then have "map_of t' (dir @ [x]) = map_of t (dir @ [x])" for x using outside by blast
  moreover have "\<exists>c m. n = Regular c m"
    if "interrupted_write name" "map_of t' (records_of dir @ [name]) = Some n" for name n
    using inside [of name] that assms(1) by (auto simp: file_at_def file_store_def)
  ultimately show ?thesis using assms(1) unfolding file_store_def by simp
qed

section \<open>Operations on an established store\<close>

datatype store_op = Op_Write string bytes | Op_Delete string

definition apply_op :: "crates \<Rightarrow> sealed_store \<Rightarrow> store_env \<times> store_op \<Rightarrow> disk \<Rightarrow> disk" where
  "apply_op c s op d =
     (case op of (e, Op_Write name plaintext) \<Rightarrow> snd (store_write c e s name plaintext d)
      | (e, Op_Delete name) \<Rightarrow> snd (store_delete e s name d))"

lemma child_strict: "strict_prefix p (p @ [x])"
  by (rule strict_prefixI') simp

lemma old_or_new_file_store:
  assumes "file_store dir key t" and "old_or_new (records_of dir @ [x]) (records_of dir @ [y]) bs t t'"
  shows "file_store dir key t'"
proof (rule file_store_keep [OF assms(1)])
  fix k
  assume "\<not> strict_prefix (records_of dir) k"
  then have "\<not> prefix (records_of dir @ [z]) k" for z
    using prefix_order.less_le_trans [OF child_strict, of "records_of dir" z k] by metis
  then show "map_of t' k = map_of t k" using assms(2) by (simp add: old_or_new_def)
next
  fix name
  show "file_at (records_of dir @ [name]) t t'"
    using assms(2) by (cases "name = x"; cases "name = y") (auto simp: old_or_new_def file_at_def)
qed

lemma store_write_keeps:
  assumes "records_directory s = records_of dir" and "file_store dir key (tree d)"
  shows "passes (file_store dir key) d (snd (store_write c e s name plaintext d))
    \<and> file_store dir key (tree (snd (store_write c e s name plaintext d)))"
proof -
  have aw: "passes (file_store dir key) d1 d2 \<and> file_store dir key (tree d2)"
    if h: "file_store dir key (tree d1)" "atomic_write e (records_of dir @ [name]) bs d1 = (r, d2)" for bs r d1 d2
  proof -
    obtain rnd where "passes (old_or_new (records_of dir @ [name]) (records_of dir @ [temporary_name e name rnd]) bs (tree d1)) d1 d2"
      "old_or_new (records_of dir @ [name]) (records_of dir @ [temporary_name e name rnd]) bs (tree d1) (tree d2)"
      by (rule atomic_write_result [OF h(2)]) blast
    with old_or_new_file_store [OF h(1)] show ?thesis by (blast intro: passes_mono)
  qed
  obtain r d' where w: "store_write c e s name plaintext d = (r, d')" by fastforce
  then show ?thesis
  proof (cases rule: store_write_cases)
    case early
    with w assms(2) show ?thesis by (simp add: passes_def)
  next
    case (sealed nonce k ct d1)
    with aw [of d1 "RECORD_MAGIC @ [RECORD_VERSION] @ nonce @ ct" r d'] assms w show ?thesis
      by (simp add: passes_def)
  qed
qed

lemma store_delete_keeps:
  assumes "records_directory s = records_of dir" and "file_store dir key (tree d)"
  shows "passes (file_store dir key) d (snd (store_delete e s name d))
    \<and> file_store dir key (tree (snd (store_delete e s name d)))"
proof -
  have rm: "file_store dir key (tree d1) \<and> passes (file_store dir key) d d1"
    if r: "fs_remove_file (sys e) (records_of dir @ [name]) d = (r, d1)" for r d1
  proof -
    have "file_store dir key (tree d1)"
    proof (rule file_store_keep [OF assms(2)])
      show "map_of (tree d1) k = map_of (tree d) k" if "\<not> strict_prefix (records_of dir) k" for k
      proof -
        have "k \<noteq> records_of dir @ [name]" using that child_strict [of "records_of dir" name] by metis
        with one_path_calls(3) [OF r] show ?thesis by (simp add: same_but_def)
      qed
      show "file_at (records_of dir @ [n]) (tree d) (tree d1)" for n
        using one_path_calls(3) [OF that] file_calls(3) [OF that]
        by (cases "n = name") (auto simp: same_but_def file_at_def)
    qed
    with call_trail(3) [OF that] show ?thesis by (auto simp: passes_def)
  qed
  obtain r d' where del: "store_delete e s name d = (r, d')" by fastforce
  then consider "d' = d" | r1 d1 where "fs_remove_file (sys e) (records_of dir @ [name]) d = (r1, d1)"
      "d' = d1 \<or> sync_directory e (records_of dir) d1 = (r, d')"
    using assms(1)
    by (cases "validate_record_name name"; cases "KeyState_key (key_state s)";
        cases "fs_remove_file (sys e) (records_of dir @ [name]) d"; cases "fst (fs_remove_file (sys e) (records_of dir @ [name]) d)")
       (auto simp: store_delete_def simp del: append_assoc)
  then have "passes (file_store dir key) d d' \<and> file_store dir key (tree d')"
  proof cases
    case 1
    with assms(2) show ?thesis by simp
  next
    case (2 r1 d1)
    from rm [OF 2(1)] 2(2) show ?thesis
      by (elim disjE) (auto dest!: sync_directory_disk intro: passes_step)
  qed
  with del show ?thesis by simp
qed

lemma ops_keep:
  assumes "records_directory s = records_of dir" and "file_store dir key (tree d)"
  shows "passes (file_store dir key) d (fold (apply_op c s) ops d)
    \<and> file_store dir key (tree (fold (apply_op c s) ops d))"
  using assms(2)
proof (induction ops arbitrary: d)
  case (Cons op ops)
  have "passes (file_store dir key) d (apply_op c s op d) \<and> file_store dir key (tree (apply_op c s op d))"
  proof (cases op)
    case (Pair e o')
    show ?thesis
    proof (cases o')
      case (Op_Write name plaintext)
      with Pair store_write_keeps [OF assms(1) Cons.prems, of c e name plaintext] show ?thesis
        by (simp add: apply_op_def)
    next
      case (Op_Delete name)
      with Pair store_delete_keeps [OF assms(1) Cons.prems, of e name] show ?thesis
        by (simp add: apply_op_def)
    qed
  qed
  with Cons.IH [of "apply_op c s op d"] show ?case
    using passes_trans [of "file_store dir key" d "apply_op c s op d"] by simp
qed simp

section \<open>What opening establishes\<close>

lemma t_mkdirs_Inr:
  "t_mkdirs m ps t = (Inr u, t') \<Longrightarrow>
     (\<forall>q \<in> set ps. is_dir t' q) \<and> (\<forall>k. is_dir t k \<longrightarrow> is_dir t' k)
     \<and> (\<forall>k. k \<notin> set ps \<longrightarrow> map_of t' k = map_of t k)"
proof (induction ps arbitrary: t)
  case (Cons p ps)
  show ?case
  proof (cases "map_of t p")
    case None
    with Cons.prems have "t_mkdirs m ps (AList.update p (Directory m) t) = (Inr u, t')" by simp
    from Cons.IH [OF this] show ?thesis using None by (auto simp: is_dir_def)
  next
    case (Some n)
    with Cons.prems obtain m' where n: "n = Directory m'" "t_mkdirs m ps t = (Inr u, t')"
      by (cases n) auto
    from Cons.IH [OF n(2)] Some n(1) show ?thesis by (auto simp: is_dir_def)
  qed
qed simp

lemma ensure_private_directory_Inr:
  assumes "ensure_private_directory e p d = (Inr u, d')"
  shows "(\<forall>q. prefix q p \<longrightarrow> is_dir (tree d') q) \<and> (\<forall>k. is_dir (tree d) k \<longrightarrow> is_dir (tree d') k)
    \<and> (\<forall>k. \<not> prefix k p \<longrightarrow> map_of (tree d') k = map_of (tree d) k)"
proof -
  from assms obtain v d1 where c: "fs_create_dir_all (sys e) p d = (Inr v, d1)"
    and m: "fs_set_permissions (sys e) p 448 d1 = (Inr u, d')"
    unfolding ensure_private_directory_def by (auto elim!: then_st_cases)
  from c have "t_mkdirs (511 AND NOT (umask e)) (prefixes p) (tree d) = (Inr v, tree d1)"
    unfolding fs_create_dir_all_def by (auto dest!: syscall_step(3))
  note k = t_mkdirs_Inr [OF this]
  from call_results(2) [OF m] obtain n where n: "map_of (tree d1) p = Some n" "map_of (tree d') p = Some (chmod 448 n)"
    by blast
  have "is_dir (tree d1) p" using k by simp
  with n have dp: "is_dir (tree d') p" by (auto simp: is_dir_def chmod_def split: node.splits)
  have same: "map_of (tree d') q = map_of (tree d1) q" if "q \<noteq> p" for q
    using one_path_calls(4) [OF m] that by (simp add: same_but_def)
  have "is_dir (tree d') q" if "is_dir (tree d1) q" for q
    using same that dp is_dir_cong [of "tree d'" q "tree d1"] by (cases "q = p") auto
  moreover have "map_of (tree d') q = map_of (tree d) q" if "\<not> prefix q p" for q
    using k same [of q] that by auto
  ultimately show ?thesis using k by auto
qed

lemma read_provider_disk: "read_provider e p d = (r, d') \<Longrightarrow> tree d' = tree d"
  unfolding read_provider_def by (auto simp: Let_def split: prod.splits sum.splits dest!: reading_calls(2))

lemma read_provider_Some:
  assumes "read_provider e p d = (Inr (Some kind), d')"
  shows "\<exists>v m. map_of (tree d) p = Some (Regular v m) \<and> is_utf8 (marker_text v)
    \<and> provider_of_marker (marker_text v) = Inr kind"
proof -
  from assms obtain v where "fs_read (sys e) p d = (Inr v, d')" and "is_utf8 (marker_text v)"
    "provider_of_marker (marker_text v) = Inr kind"
    by (auto simp: read_provider_def Let_def marker_text_def split: prod.splits sum.splits if_splits)
  moreover from this(1) have "t_read p (tree d) = Inr v"
    unfolding fs_read_def by (auto dest!: syscall_step(3))
  ultimately show ?thesis by (auto simp: t_read_def split: option.splits node.splits)
qed

lemma load_file_key_Inr:
  assumes "load_file_key e dir d = (Inr key, d')"
  shows "tree d' = tree d \<and> length key = KEY_BYTES
    \<and> (\<exists>m. m AND 63 = 0 \<and> map_of (tree d) (dir @ [FILE_KEY_NAME]) = Some (Regular key m))"
proof -
  let ?p = "dir @ [FILE_KEY_NAME]"
  from assms obtain n d1 bs where m: "fs_metadata (sys e) ?p d = (Inr n, d1)" "node_mode n AND 63 = 0"
    and r: "fs_read (sys e) ?p d1 = (Inr bs, d')" "store_decode_key bs = Inr key"
    unfolding load_file_key_def Let_def by (auto elim!: then_st_cases split: if_splits)
  have n: "map_of (tree d) ?p = Some n" "tree d1 = tree d"
    using m(1) unfolding fs_metadata_def
    by (auto dest!: syscall_step(3) simp: ok_or_def split: option.splits)
  have "t_read ?p (tree d1) = Inr bs" "tree d' = tree d1"
    using r(1) unfolding fs_read_def by (auto dest!: syscall_step(3))
  with n m(2) r(2) show ?thesis
    by (auto simp: t_read_def store_decode_key_def node_mode_def split: node.splits if_splits)
qed

lemma ss_items_disk: "ss_items e d = (r, d') \<Longrightarrow> tree d' = tree d"
  unfolding ss_items_def ss_require_def ss_try_def ss_call_def
  by (auto elim!: then_st_cases split: if_splits)

lemma load_secret_service_key_disk: "load_secret_service_key e create d = (r, d') \<Longrightarrow> tree d' = tree d"
  unfolding load_secret_service_key_def MasterKey_generate_def ss_require_def ss_call_def getrandom_fill_def
  by (auto elim!: then_st_cases err_st_cases dest!: ss_items_disk split: if_splits list.splits option.splits)

text \<open>What the first write of a file below the state directory leaves as it was.\<close>

lemma atomic_write_other:
  assumes "atomic_write e (dir @ [x]) bs d = (r, d')"
    and "\<not> prefix (dir @ [x]) k" and "\<And>rnd. \<not> prefix (dir @ [temporary_name e x rnd]) k"
  shows "map_of (tree d') k = map_of (tree d) k"
proof -
  obtain rnd where "old_or_new (dir @ [x]) (dir @ [temporary_name e x rnd]) bs (tree d) (tree d')"
    by (rule atomic_write_result [OF assms(1)]) blast
  with assms(2,3) show ?thesis by (simp add: old_or_new_def)
qed

lemma atomic_write_Inr:
  "atomic_write e (dir @ [x]) bs d = (Inr u, d') \<Longrightarrow> map_of (tree d') (dir @ [x]) = Some (Regular bs 384)"
  by (erule atomic_write_result) simp

lemma above_not_below: "prefix q dir \<Longrightarrow> \<not> prefix (dir @ [x]) q"
  using prefix_length_le [of q dir] prefix_length_le [of "dir @ [x]" q] by auto

lemma create_file_key_Inr:
  assumes "create_file_key e dir d = (Inr key, d')"
  shows "length key = KEY_BYTES \<and> map_of (tree d') (dir @ [FILE_KEY_NAME]) = Some (Regular key 384)
    \<and> (\<forall>q. prefix q dir \<longrightarrow> map_of (tree d') q = map_of (tree d) q)"
proof -
  let ?p = "dir @ [FILE_KEY_NAME]"
  from assms obtain b d1 d2 where x: "fs_exists (sys e) ?p d = (b, d1)"
    and g: "getrandom_fill (sys e) KEY_BYTES d1 = (Inr key, d2)"
    and w: "atomic_write e ?p key d2 = (Inr (), d')"
    by (auto simp: create_file_key_def MasterKey_generate_def Let_def elim!: then_st_cases
        split: prod.splits if_splits)
  have "tree d1 = tree d" using x by (auto simp: fs_exists_def dest: reading_calls(3) split: prod.splits)
  moreover have "tree d2 = tree d1" using g getrandom_fill_disk(1) [of "sys e" KEY_BYTES d1] by simp
  moreover have "map_of (tree d') q = map_of (tree d2) q" if "prefix q dir" for q
    using that above_not_below by (intro atomic_write_other [OF w])
  ultimately show ?thesis using getrandom_fill_length [OF g] atomic_write_Inr [OF w] by simp
qed

lemma remove_interrupted_Inr:
  "remove_interrupted e p names d = (Inr u, d') \<Longrightarrow>
     (\<forall>name \<in> set names. interrupted_write name \<longrightarrow> map_of (tree d') (p @ [name]) = None)
     \<and> (\<forall>k. map_of (tree d') k = map_of (tree d) k
           \<or> map_of (tree d') k = None \<and> (\<exists>name. interrupted_write name \<and> k = p @ [name]))"
proof (induction names arbitrary: d)
  case (Cons name names)
  show ?case
  proof (cases "interrupted_write name")
    case False
    with Cons.prems have "remove_interrupted e p names d = (Inr u, d')" by simp
    from Cons.IH [OF this] False show ?thesis by simp
  next
    case True
    with Cons.prems obtain v d1 where rm: "fs_remove_file (sys e) (p @ [name]) d = (Inr v, d1)"
      and rest: "remove_interrupted e p names d1 = (Inr u, d')" by (auto elim!: then_st_cases)
    have d1: "tree d1 = AList.delete (p @ [name]) (tree d)"
      using rm unfolding fs_remove_file_def
      by (auto dest!: syscall_step(3) simp: t_remove_file_def split: option.splits node.splits)
    from Cons.IH [OF rest] d1 True show ?thesis by simp metis
  qed
qed simp

lemma t_children_member: "map_of t (p @ [name]) = Some n \<Longrightarrow> name \<in> set (t_children p t)"
  by (force simp: t_children_def dest: map_of_SomeD)

lemma recover_Inr:
  assumes "recover_interrupted_writes e p d = (Inr u, d')"
  shows "(\<forall>name. interrupted_write name \<longrightarrow> map_of (tree d') (p @ [name]) = None)
     \<and> (\<forall>k. map_of (tree d') k = map_of (tree d) k
           \<or> map_of (tree d') k = None \<and> (\<exists>name. interrupted_write name \<and> k = p @ [name]))"
proof -
  from assms obtain names d1 v d2 where l: "fs_read_dir (sys e) p d = (Inr names, d1)"
    and rm: "remove_interrupted e p names d1 = (Inr v, d2)" and sy: "sync_directory e p d2 = (Inr u, d')"
    unfolding recover_interrupted_writes_def by (auto elim!: then_st_cases)
  have names: "names = t_children p (tree d)" "tree d1 = tree d"
    using l unfolding fs_read_dir_def by (auto dest!: syscall_step(3) split: if_splits)
  have t: "tree d' = tree d2" using sync_directory_disk [OF sy] by simp
  note r = remove_interrupted_Inr [OF rm]
  have "map_of (tree d') (p @ [name]) = None" if "interrupted_write name" for name
  proof (cases "map_of (tree d) (p @ [name])")
    case None
    with r names(2) t show ?thesis by metis
  next
    case (Some n)
    then have "name \<in> set names" using names(1) t_children_member by metis
    with r that t show ?thesis by simp
  qed
  with r names(2) t show ?thesis by simp
qed

lemma marker_text_as_bytes: "marker_text (as_bytes v) = v"
proof -
  have "char_of (unat (of_char x :: byte)) = x" for x
    by (metis byte_val_less char_of_char of_nat_of_char unat_byte_of_nat)
  then show ?thesis by (simp add: marker_text_def as_bytes_def map_idI)
qed

lemma provider_of_own_marker:
  "provider_of_marker (provider_name kind) = Inr kind" "is_utf8 (provider_name kind)"
proof -
  have "\<forall>c \<in> set (provider_name kind). byte_val c \<le> 127" by (cases kind) (simp_all add: provider_name_def)
  then have "chars (provider_name kind) = map byte_val (provider_name kind)" "is_utf8 (provider_name kind)"
    by (simp_all add: chars_ascii is_utf8_ascii)
  then show "provider_of_marker (provider_name kind) = Inr kind" "is_utf8 (provider_name kind)"
    by (cases kind; simp add: provider_of_marker_def provider_name_def trim_chars_def char_is_whitespace_def)+
qed

text \<open>The choice of the key, on either path, with the file provider.\<close>

definition key_chosen :: "path \<Rightarrow> bytes \<Rightarrow> tree \<Rightarrow> bool" where
  "key_chosen dir key t \<longleftrightarrow>
     length key = KEY_BYTES \<and> (\<forall>q. prefix q dir \<longrightarrow> is_dir t q)
     \<and> (\<exists>m. m AND 63 = 0 \<and> map_of t (dir @ [FILE_KEY_NAME]) = Some (Regular key m))"

lemma select_first_run_file:
  assumes "select_first_run e dir req d = (Inr (FileProvider, key), d')"
    and "\<forall>q. prefix q dir \<longrightarrow> is_dir (tree d) q"
  shows "key_chosen dir key (tree d')"
proof -
  obtain d1 where c: "create_file_key e dir d1 = (Inr key, d')" and "tree d1 = tree d"
    using assms(1) load_secret_service_key_disk
    by (auto simp: select_first_run_def elim!: then_st_cases split: requested_provider.splits prod.splits
        sum.splits if_splits)
  then have "is_dir (tree d') q" if "prefix q dir" for q
    using create_file_key_Inr [OF c] that assms(2) is_dir_cong [of "tree d'" q "tree d"] by simp
  with create_file_key_Inr [OF c] show ?thesis by (auto simp: key_chosen_def)
qed

lemma load_existing_file:
  assumes "load_existing e dir req kind d = (Inr (FileProvider, key), d')"
    and "\<forall>q. prefix q dir \<longrightarrow> is_dir (tree d) q"
  shows "key_chosen dir key (tree d') \<and> tree d' = tree d \<and> kind = FileProvider"
proof -
  have "load_file_key e dir d = (Inr key, d')" "kind = FileProvider"
    using assms(1) by (auto simp: load_existing_def elim!: then_st_cases split: if_splits provider_kind.splits)
  with load_file_key_Inr [of e dir d key d'] assms(2) show ?thesis by (auto simp: key_chosen_def)
qed

lemma open_steps:
  assumes "SealedStore_open e dir req d = (Inr s, d')"
  obtains d1 existing d2 kind key d3 d4 d5 where
    "ensure_private_directory e dir d = (Inr (), d1)"
    "read_provider e (dir @ [MODE_MARKER]) d1 = (Inr existing, d2)"
    "(case existing of Some kind \<Rightarrow> load_existing e dir req kind d2
       | None \<Rightarrow> select_first_run e dir req d2) = (Inr (kind, key), d3)"
    "(if existing = None then atomic_write e (dir @ [MODE_MARKER]) (as_bytes (provider_name kind)) d3
      else (Inr (), d3)) = (Inr (), d4)"
    "ensure_private_directory e (records_of dir) d4 = (Inr (), d5)"
    "recover_interrupted_writes e (records_of dir) d5 = (Inr (), d')"
    "s = \<lparr>state_directory = dir, records_directory = records_of dir, provider = kind,
          key_state = \<lparr>ks_key = key, erased = False\<rparr>\<rparr>"
proof -
  from assms obtain u :: unit and d1 existing d2 choice d3 where
    a: "ensure_private_directory e dir d = (Inr u, d1)"
    "read_provider e (dir @ [MODE_MARKER]) d1 = (Inr existing, d2)"
    "(case existing of Some kind \<Rightarrow> load_existing e dir req kind d2
       | None \<Rightarrow> select_first_run e dir req d2) = (Inr choice, d3)"
    and rest: "(case choice of (kind, key) \<Rightarrow> \<lambda>d.
      then_st (if existing = None then atomic_write e (dir @ [MODE_MARKER]) (as_bytes (provider_name kind)) d
               else (Inr (), d)) (\<lambda>_ d.
      then_st (ensure_private_directory e (records_of dir) d) (\<lambda>_ d.
      then_st (recover_interrupted_writes e (records_of dir) d) (\<lambda>_ d.
        (Inr \<lparr>state_directory = dir, records_directory = records_of dir, provider = kind,
              key_state = \<lparr>ks_key = key, erased = False\<rparr>\<rparr>, d))))) d3 = (Inr s, d')"
    unfolding SealedStore_open_def Let_def then_st_Inr by blast
  obtain kind key where "choice = (kind, key)" by fastforce
  with a rest that show ?thesis by (simp add: then_st_Inr) blast
qed

lemma open_establishes:
  assumes "SealedStore_open e dir req d = (Inr s, d')" and "provider s = FileProvider"
  shows "file_store dir (ks_key (key_state s)) (tree d') \<and> records_directory s = records_of dir
    \<and> \<not> erased (key_state s)"
proof -
  from assms(1) obtain d1 existing d2 kind key d3 d4 d5 where
    1: "ensure_private_directory e dir d = (Inr (), d1)"
    and 2: "read_provider e (dir @ [MODE_MARKER]) d1 = (Inr existing, d2)"
    and 3: "(case existing of Some kind \<Rightarrow> load_existing e dir req kind d2
       | None \<Rightarrow> select_first_run e dir req d2) = (Inr (kind, key), d3)"
    and 4: "(if existing = None then atomic_write e (dir @ [MODE_MARKER]) (as_bytes (provider_name kind)) d3
      else (Inr (), d3)) = (Inr (), d4)"
    and 5: "ensure_private_directory e (records_of dir) d4 = (Inr (), d5)"
    and 6: "recover_interrupted_writes e (records_of dir) d5 = (Inr (), d')"
    and s: "s = \<lparr>state_directory = dir, records_directory = records_of dir, provider = kind,
          key_state = \<lparr>ks_key = key, erased = False\<rparr>\<rparr>"
    by (rule open_steps)
  have kind: "kind = FileProvider" using assms(2) s by simp
  have dirs: "\<forall>q. prefix q dir \<longrightarrow> is_dir (tree d2) q"
    using ensure_private_directory_Inr [OF 1] read_provider_disk [OF 2] by simp
  have at4: "key_chosen dir key (tree d4)
    \<and> (\<exists>v m. map_of (tree d4) (dir @ [MODE_MARKER]) = Some (Regular v m) \<and> is_utf8 (marker_text v)
         \<and> provider_of_marker (marker_text v) = Inr FileProvider)"
  proof (cases existing)
    case (Some k)
    with 3 kind have "load_existing e dir req k d2 = (Inr (FileProvider, key), d3)" by simp
    from load_existing_file [OF this dirs] have "key_chosen dir key (tree d4)" "tree d4 = tree d1" "k = FileProvider"
      using Some 4 read_provider_disk [OF 2] by auto
    with read_provider_Some [of e "dir @ [MODE_MARKER]" d1 k d2] 2 Some show ?thesis by simp
  next
    case None
    with 3 kind have "select_first_run e dir req d2 = (Inr (FileProvider, key), d3)" by simp
    note kc = select_first_run_file [OF this dirs]
    from None 4 have w: "atomic_write e (dir @ [MODE_MARKER]) (as_bytes (provider_name kind)) d3 = (Inr (), d4)" by simp
    have same: "map_of (tree d4) q = map_of (tree d3) q" if "prefix q dir \<or> q = dir @ [FILE_KEY_NAME]" for q
      using that
      by (intro atomic_write_other [OF w]; elim disjE; simp add: above_not_below fixed_not_temporary)
    then have "is_dir (tree d4) q = is_dir (tree d3) q" if "prefix q dir" for q
      using that is_dir_cong by blast
    with same kc have "key_chosen dir key (tree d4)" by (simp add: key_chosen_def)
    then show ?thesis
      using atomic_write_Inr [OF w] provider_of_own_marker [of kind] kind by (simp add: marker_text_as_bytes)
  qed
  note e5 = ensure_private_directory_Inr [OF 5] and r6 = recover_Inr [OF 6]
  have keep: "map_of (tree d') (dir @ [x]) = map_of (tree d4) (dir @ [x])" if "x \<noteq> RECORD_DIRECTORY" for x
  proof -
    have "\<not> prefix (dir @ [x]) (records_of dir)" "dir @ [x] \<noteq> records_of dir @ [n]" for n
      using that by (auto dest: arg_cong [of _ _ length])
    with e5 r6 show ?thesis by metis
  qed
  have "is_dir (tree d') q" if "prefix q (records_of dir)" for q
  proof -
    have "q \<noteq> records_of dir @ [n]" for n using prefix_length_le [OF that] by auto
    then have "map_of (tree d') q = map_of (tree d5) q" using r6 by metis
    with e5 that show ?thesis using is_dir_cong by blast
  qed
  with at4 r6 keep show ?thesis by (auto simp: file_store_def key_chosen_def s)
qed

section \<open>Opening again\<close>

definition calm :: "store_env \<Rightarrow> bool" where
  "calm e \<longleftrightarrow> faults e = (\<lambda>_. None)"

lemma calm_call:
  "calm e \<Longrightarrow> f (tree d) = (r, t) \<Longrightarrow>
     syscall (sys e) f g d = (r, d\<lparr>tree := t, trail := trail d @ [t], syscalls := syscalls d + 1\<rparr>)"
  by (simp add: calm_def syscall_works)

lemma t_mkdirs_existing: "\<forall>q \<in> set ps. is_dir t q \<Longrightarrow> t_mkdirs m ps t = (Inr (), t)"
  by (induction ps) (auto simp: is_dir_def split: option.splits node.splits)

lemma ensure_calm:
  assumes "calm e" and "\<forall>q. prefix q p \<longrightarrow> is_dir (tree d) q"
  obtains d1 where "ensure_private_directory e p d = (Inr (), d1)" "same_but p (tree d) (tree d1)" "is_dir (tree d1) p"
proof -
  have "t_mkdirs (511 AND NOT (umask e)) (prefixes p) (tree d) = (Inr (), tree d)"
    using assms(2) by (intro t_mkdirs_existing) auto
  then have c: "fs_create_dir_all (sys e) p d =
      (Inr (), d\<lparr>tree := tree d, trail := trail d @ [tree d], syscalls := syscalls d + 1\<rparr>)" (is "_ = (_, ?d)")
    unfolding fs_create_dir_all_def by (intro calm_call [OF assms(1)]) simp
  obtain m where m: "map_of (tree d) p = Some (Directory m)"
    using spec [OF assms(2), of p] by (auto simp: is_dir_def split: option.splits node.splits)
  let ?t = "AList.update p (Directory 448) (tree d)"
  have "t_chmod 448 p (tree d) = (Inr (), ?t)" using m by (simp add: t_chmod_def chmod_def)
  then have "fs_set_permissions (sys e) p 448 ?d =
      (Inr (), ?d\<lparr>tree := ?t, trail := trail ?d @ [?t], syscalls := syscalls ?d + 1\<rparr>)" (is "_ = (_, ?d')")
    unfolding fs_set_permissions_def by (intro calm_call [OF assms(1)]) simp
  with c have "ensure_private_directory e p d = (Inr (), ?d')" by (simp add: ensure_private_directory_def)
  then show ?thesis by (rule that) (simp_all add: same_but_def is_dir_def)
qed

lemma calm_read: "calm e \<Longrightarrow> map_of (tree d) p = Some (Regular v m) \<Longrightarrow>
    \<exists>d1. fs_read (sys e) p d = (Inr v, d1) \<and> tree d1 = tree d"
  unfolding fs_read_def by (intro exI conjI, rule calm_call) (auto simp: t_read_def)

lemma calm_sync: "calm e \<Longrightarrow> is_dir (tree d) p \<Longrightarrow> \<exists>d1. sync_directory e p d = (Inr (), d1) \<and> tree d1 = tree d"
  unfolding sync_directory_def fs_sync_def err_st_Inr
  by (intro exI conjI, rule calm_call) (auto simp: is_dir_def split: option.splits)

lemma calm_load_file_key:
  assumes "calm e" and "map_of (tree d) (dir @ [FILE_KEY_NAME]) = Some (Regular key m)" and "m AND 63 = 0"
    and "length key = KEY_BYTES"
  shows "\<exists>d1. load_file_key e dir d = (Inr key, d1) \<and> tree d1 = tree d"
proof -
  let ?d = "d\<lparr>tree := tree d, trail := trail d @ [tree d], syscalls := syscalls d + 1\<rparr>"
  have "fs_metadata (sys e) (dir @ [FILE_KEY_NAME]) d = (Inr (Regular key m), ?d)"
    unfolding fs_metadata_def by (rule calm_call [OF assms(1)]) (simp add: assms(2))
  then obtain d1 where 1: "fs_metadata (sys e) (dir @ [FILE_KEY_NAME]) d = (Inr (Regular key m), d1)" "tree d1 = tree d"
    by simp
  obtain d2 where "fs_read (sys e) (dir @ [FILE_KEY_NAME]) d1 = (Inr key, d2)" "tree d2 = tree d1"
    using calm_read [OF assms(1)] assms(2) 1(2) by metis
  with 1 assms(3,4) show ?thesis by (simp add: load_file_key_def node_mode_def store_decode_key_def)
qed

lemma calm_read_provider:
  assumes "calm e" and "map_of (tree d) p = Some (Regular v m)" and "is_utf8 (marker_text v)"
    and "provider_of_marker (marker_text v) = Inr kind"
  shows "\<exists>d1. read_provider e p d = (Inr (Some kind), d1) \<and> tree d1 = tree d"
proof -
  obtain d1 where "fs_read (sys e) p d = (Inr v, d1)" "tree d1 = tree d" using calm_read [OF assms(1,2)] by blast
  with assms(3,4) show ?thesis by (simp add: read_provider_def marker_text_def)
qed

lemma calm_remove_interrupted:
  assumes "calm e"
  shows "distinct names \<Longrightarrow>
    \<forall>name \<in> set names. interrupted_write name \<longrightarrow> (\<exists>c m. map_of (tree d) (p @ [name]) = Some (Regular c m)) \<Longrightarrow>
    \<exists>d1. remove_interrupted e p names d = (Inr (), d1)"
proof (induction names arbitrary: d)
  case (Cons name names)
  show ?case
  proof (cases "interrupted_write name")
    case False
    with Cons show ?thesis by simp
  next
    case True
    with Cons.prems(2) obtain c m where at: "map_of (tree d) (p @ [name]) = Some (Regular c m)" by auto
    let ?t = "AList.delete (p @ [name]) (tree d)"
    let ?d = "d\<lparr>tree := ?t, trail := trail d @ [?t], syscalls := syscalls d + 1\<rparr>"
    have "fs_remove_file (sys e) (p @ [name]) d = (Inr (), ?d)"
      unfolding fs_remove_file_def by (rule calm_call [OF assms]) (simp add: t_remove_file_def at)
    moreover have "\<exists>d1. remove_interrupted e p names ?d = (Inr (), d1)"
      using Cons.prems by (intro Cons.IH) auto
    ultimately show ?thesis using True by simp
  qed
qed simp

lemma t_children_exists: "name \<in> set (t_children p t) \<Longrightarrow> map_of t (p @ [name]) \<noteq> None"
  by (auto simp: t_children_def map_of_eq_None_iff) (metis append_butlast_last_id fst_conv image_eqI)

lemma calm_recover:
  assumes "calm e" and "is_dir (tree d) p"
    and "\<And>name n. interrupted_write name \<Longrightarrow> map_of (tree d) (p @ [name]) = Some n \<Longrightarrow> \<exists>c m. n = Regular c m"
  shows "\<exists>d1. recover_interrupted_writes e p d = (Inr (), d1)"
proof -
  let ?d = "d\<lparr>tree := tree d, trail := trail d @ [tree d], syscalls := syscalls d + 1\<rparr>"
  have l: "fs_read_dir (sys e) p d = (Inr (t_children p (tree d)), ?d)"
    unfolding fs_read_dir_def by (rule calm_call [OF assms(1)]) (simp add: assms(2))
  have "\<exists>c m. map_of (tree ?d) (p @ [name]) = Some (Regular c m)"
    if "name \<in> set (t_children p (tree d))" "interrupted_write name" for name
    using t_children_exists [OF that(1)] assms(3) [OF that(2)] by auto
  then obtain d1 where r: "remove_interrupted e p (t_children p (tree d)) ?d = (Inr (), d1)"
    using calm_remove_interrupted [OF assms(1), of "t_children p (tree d)" ?d p]
    by (auto simp: t_children_def)
  have "map_of (tree d1) p = map_of (tree ?d) p" using remove_interrupted_Inr [OF r] by auto
  then have "is_dir (tree d1) p" using assms(2) is_dir_cong [of "tree d1" p "tree ?d"] by simp
  from calm_sync [OF assms(1) this] l r show ?thesis by (auto simp: recover_interrupted_writes_def)
qed

lemma reopen:
  assumes "calm e" and "file_store dir key (tree d)" and "request_matches req FileProvider"
  shows "\<exists>d'. SealedStore_open e dir req d = (Inr \<lparr>state_directory = dir, records_directory = records_of dir,
      provider = FileProvider, key_state = \<lparr>ks_key = key, erased = False\<rparr>\<rparr>, d')
    \<and> (\<forall>name. \<not> interrupted_write name \<longrightarrow>
         map_of (tree d') (records_of dir @ [name]) = map_of (tree d) (records_of dir @ [name]))"
proof -
  note fs = assms(2) [unfolded file_store_def]
  have dirs: "\<forall>q. prefix q dir \<longrightarrow> is_dir (tree d) q" using fs by simp
  obtain d1 where 1: "ensure_private_directory e dir d = (Inr (), d1)" "same_but dir (tree d) (tree d1)" "is_dir (tree d1) dir"
    using ensure_calm [OF assms(1) dirs] by blast
  have t1: "map_of (tree d1) (dir @ x # xs) = map_of (tree d) (dir @ x # xs)" for x xs
    using 1(2) by (simp add: same_but_def)
  from fs t1 obtain m v m' where k: "m AND 63 = 0" "map_of (tree d1) (dir @ [FILE_KEY_NAME]) = Some (Regular key m)"
    and v: "map_of (tree d1) (dir @ [MODE_MARKER]) = Some (Regular v m')" "is_utf8 (marker_text v)"
      "provider_of_marker (marker_text v) = Inr FileProvider" by auto
  obtain d2 where 2: "read_provider e (dir @ [MODE_MARKER]) d1 = (Inr (Some FileProvider), d2)" "tree d2 = tree d1"
    using calm_read_provider [OF assms(1) v] by blast
  obtain d3 where 3: "load_file_key e dir d2 = (Inr key, d3)" "tree d3 = tree d1"
    using calm_load_file_key [OF assms(1), of d2 dir key m] k fs 2(2) by auto
  have "is_dir (tree d3) q" if "prefix q (records_of dir)" for q
    using that 3(2) 1 fs is_dir_cong [of "tree d1" q "tree d"] by (cases "q = dir") (auto simp: same_but_def)
  then obtain d4 where 4: "ensure_private_directory e (records_of dir) d3 = (Inr (), d4)"
    "same_but (records_of dir) (tree d3) (tree d4)" "is_dir (tree d4) (records_of dir)"
    using ensure_calm [OF assms(1), of "records_of dir" d3] by blast
  have t4: "map_of (tree d4) (records_of dir @ [name]) = map_of (tree d) (records_of dir @ [name])" for name
    using 4(2) 3(2) t1 [of RECORD_DIRECTORY "[name]"] by (simp add: same_but_def)
  have "\<exists>c m. n = Regular c m" if "interrupted_write name" "map_of (tree d4) (records_of dir @ [name]) = Some n" for name n
    using that fs unfolding t4 by blast
  then obtain d5 where 5: "recover_interrupted_writes e (records_of dir) d4 = (Inr (), d5)"
    using calm_recover [OF assms(1) 4(3)] by blast
  have "map_of (tree d5) (records_of dir @ [name]) = map_of (tree d) (records_of dir @ [name])"
    if "\<not> interrupted_write name" for name
    using recover_Inr [OF 5] that t4 [of name] by (metis append_same_eq last_snoc)
  with 1(1) 2(1) 3(1) 4(1) 5 assms(3) show ?thesis
    by (simp add: SealedStore_open_def load_existing_def)
qed

lemma tree_restart [simp]: "tree (restart t) = t"
  by (simp add: restart_def)

text \<open>
  C14. The store survives restarts and crashes. Let a store with the file provider be opened,
  whatever calls failed on the way, and used by any writes and deletions, again with any failures.
  From every directory state on the way, the next start without failures succeeds, finds the same
  master key, and reads every record as the running store would have read it in that state.
\<close>

theorem survives_restart:
  assumes "SealedStore_open e dir req d = (Inr s, d1)" and "provider s = FileProvider"
    and "t \<in> insert (tree d1) (set (drop (length (trail d1)) (trail (fold (apply_op c s) ops d1))))"
    and "calm e'" and "request_matches req' FileProvider"
  shows "\<exists>s' d'. SealedStore_open e' dir req' (restart t) = (Inr s', d')
    \<and> key_state s' = key_state s
    \<and> (\<forall>name. observed c e' s' name (tree d') = observed c e' s name t)"
proof -
  from open_establishes [OF assms(1,2)] have fs: "file_store dir (ks_key (key_state s)) (tree d1)"
    and rd: "records_directory s = records_of dir" and live: "\<not> erased (key_state s)" by auto
  have "file_store dir (ks_key (key_state s)) t"
    using assms(3) fs ops_keep [OF rd fs, of c ops] by (auto simp: passes_def)
  then have "file_store dir (ks_key (key_state s)) (tree (restart t))" by simp
  from reopen [OF assms(4) this assms(5)] obtain d' where
    o: "SealedStore_open e' dir req' (restart t) = (Inr \<lparr>state_directory = dir, records_directory = records_of dir,
      provider = FileProvider, key_state = \<lparr>ks_key = ks_key (key_state s), erased = False\<rparr>\<rparr>, d')" (is "_ = (Inr ?s, _)")
    and same: "\<And>name. \<not> interrupted_write name \<Longrightarrow>
         map_of (tree d') (records_of dir @ [name]) = map_of t (records_of dir @ [name])"
    by auto
  have ks: "key_state ?s = key_state s" using live by (cases "key_state s") simp
  have "observed c e' ?s name (tree d') = observed c e' s name t" for name
  proof (cases "validate_record_name name")
    case (Inr u)
    then have "\<not> interrupted_write name" using valid_name_no_dot [of name] by (auto simp: interrupted_write_def)
    from same [OF this] rd ks show ?thesis by (simp add: observed_def2 t_read_def)
  qed (simp add: observed_def2)
  with o ks show ?thesis by blast
qed

end
