(* ===== verification/Sealed_Examples.thy ===== *)
theory Sealed_Examples
  imports Sealed_Restart
begin

text \<open>
  Undisturbed runs of the sealed store: when no call fails a write succeeds. The concrete store of
  this theory carries the witnesses, and the theory states what an interrupted first start
  leads to.
\<close>

definition quiet_from :: "store_env \<Rightarrow> disk \<Rightarrow> bool" where
  "quiet_from e d \<longleftrightarrow> (\<forall>k \<ge> syscalls d. faults e k = None)"

lemma quiet_call:
  assumes "quiet_from e d" and "f (tree d) = (r, t)"
  shows "syscall (sys e) f g d = (r, d\<lparr>tree := t, trail := trail d @ [t], syscalls := syscalls d + 1\<rparr>)"
    and "quiet_from e (d\<lparr>tree := t, trail := trail d @ [t], syscalls := syscalls d + 1\<rparr>)"
  using assms by (simp_all add: quiet_from_def syscall_works)

lemma quiet_next:
  assumes "quiet_from e d" and "f (tree d) = (r, t)"
  shows "\<exists>d'. syscall (sys e) f g d = (r, d') \<and> tree d' = t \<and> quiet_from e d'"
  using quiet_call(1) [of e d f r t g, OF assms] quiet_call(2) [of e d f r t, OF assms] by auto

lemma parent_is_dir_child [simp]: "parent_is_dir t (p @ [x]) = is_dir t p"
  by (simp add: parent_is_dir_def)

lemma is_dir_update [simp]:
  "is_dir (AList.update p n t) q = (if q = p then (case n of Directory _ \<Rightarrow> True | _ \<Rightarrow> False) else is_dir t q)"
  by (simp add: is_dir_def)

lemma has_children_update: "has_children (AList.update p n t) q \<longleftrightarrow> strict_prefix q p \<or> has_children t q"
  by (induction t) (auto simp: has_children_def)

lemma quiet_atomic_write:
  assumes "quiet_from e d" and "random e (syscalls d) = Some f" and "is_dir (tree d) parent" and "is_utf8 name"
    and "map_of (tree d) (parent @ [temporary_name e name (map f [0..<8])]) = None"
    and "\<not> is_dir (tree d) (parent @ [name])" and "\<not> has_children (tree d) (parent @ [name])"
  shows "\<exists>d'. atomic_write e (parent @ [name]) bs d = (Inr (), d')"
proof -
  let ?tmp = "parent @ [temporary_name e name (map f [0..<8])]" and ?p = "parent @ [name]"
  have ne: "temporary_name e name (map f [0..<8]) \<noteq> name"
    using temporary_name_longer [of name e "map f [0..<8]"] by auto
  then have np: "\<not> prefix ?tmp ?p" "\<not> prefix ?p ?tmp" "?tmp \<noteq> ?p" by auto
  let ?d0 = "d\<lparr>syscalls := syscalls d + 1\<rparr>"
  have r: "getrandom_fill (sys e) 8 d = (Inr (map f [0..<8]), ?d0)" by (simp add: getrandom_fill_def assms(2))
  have q0: "quiet_from e ?d0" using assms(1) by (simp add: quiet_from_def)
  let ?m = "384 AND NOT (umask e)"
  let ?t1 = "AList.update ?tmp (Regular [] ?m) (tree d)"
  obtain d1 where 1: "fs_create_new (sys e) 384 ?tmp ?d0 = (Inr (), d1)" "tree d1 = ?t1" "quiet_from e d1"
    using quiet_next [OF q0, of "t_create_new ?m ?tmp" "Inr ()" ?t1 "\<lambda>_ t. t"] assms(3,5)
    unfolding fs_create_new_def by (auto simp: t_create_new_def)
  let ?t2 = "AList.update ?tmp (Regular bs ?m) ?t1"
  obtain d2 where 2: "fs_write_all (sys e) ?tmp bs d1 = (Inr (), d2)" "tree d2 = ?t2" "quiet_from e d2"
    using quiet_next [OF 1(3), of "t_append ?tmp bs" "Inr ()" ?t2 "\<lambda>fl t. snd (t_append ?tmp (take (written fl) bs) t)"] 1(2)
    unfolding fs_write_all_def by (auto simp: t_append_def)
  obtain d3 where 3: "fs_sync (sys e) ?tmp d2 = (Inr (), d3)" "tree d3 = ?t2" "quiet_from e d3"
    using quiet_next [OF 2(3), of "\<lambda>t. (if map_of t ?tmp = None then Inl Io_NotFound else Inr (), t)" "Inr ()" ?t2 "\<lambda>_ t. t"] 2(2)
    unfolding fs_sync_def by auto
  let ?t4 = "moved ?tmp ?p (without ?p ?t2)"
  have dir: "is_dir ?t2 parent" using assms(3) by simp
  have nd: "\<not> is_dir ?t2 ?p" "\<not> is_dir ?t2 ?tmp" using assms(6) np by auto
  have nc: "\<not> has_children ?t2 ?p" using assms(7) np by (simp add: has_children_update strict_prefix_def)
  obtain d4 where 4: "fs_rename (sys e) ?tmp ?p d3 = (Inr (), d4)" "tree d4 = ?t4" "quiet_from e d4"
    using quiet_next [OF 3(3), of "t_rename ?tmp ?p" "Inr ()" ?t4 "\<lambda>_ t. t"] 3(2) dir nd nc np
    unfolding fs_rename_def by (auto simp: t_rename_def)
  have p4: "map_of ?t4 ?p = Some (Regular bs ?m)"
    using map_of_moved(1) [OF np(1,2), of ?t2 "[]"] by simp
  let ?t5 = "AList.update ?p (Regular bs 384) ?t4"
  obtain d5 where 5: "fs_set_permissions (sys e) ?p 384 d4 = (Inr (), d5)" "tree d5 = ?t5" "quiet_from e d5"
    using quiet_next [OF 4(3), of "t_chmod 384 ?p" "Inr ()" ?t5 "\<lambda>_ t. t"] 4(2) p4
    unfolding fs_set_permissions_def by (auto simp: t_chmod_def chmod_def)
  have "map_of ?t5 parent = map_of (tree d) parent"
    using map_of_moved(2) [OF np(1,2), of parent ?t2] by (simp add: above_not_below)
  with assms(3) have "map_of ?t5 parent \<noteq> None" by (auto simp: is_dir_def split: option.splits)
  then obtain d6 where 6: "fs_sync (sys e) parent d5 = (Inr (), d6)"
    using quiet_next [OF 5(3), of "\<lambda>t. (if map_of t parent = None then Inl Io_NotFound else Inr (), t)" "Inr ()" ?t5 "\<lambda>_ t. t"] 5(2)
    unfolding fs_sync_def by auto
  have "replace_file e parent ?tmp ?p bs ?d0 = (Inr (), d6)"
    using 1(1) 2(1) 3(1) 4(1) 5(1) 6 by (simp add: replace_file_def sync_directory_def)
  with r show ?thesis by (simp add: atomic_write_def path_parent_def assms(4))
qed

lemma valid_name_utf8: "validate_record_name name = Inr () \<Longrightarrow> is_utf8 name"
proof -
  assume "validate_record_name name = Inr ()"
  then have "is_ascii_alphanumeric x \<or> x \<in> {CHR ''-'', CHR ''_'', CHR ''.''}" if "x \<in> set name" for x
    using that by (auto simp: validate_record_name_def list_all_iff split: if_splits)
  then have "\<forall>x \<in> set name. byte_val x \<le> 127" by (fastforce simp: ascii_defs)
  then show ?thesis by (rule is_utf8_ascii)
qed

lemma quiet_write:
  assumes "quiet_from e d" and "\<forall>k. random e k \<noteq> None" and "is_dir (tree d) (records_directory s)"
    and "validate_record_name name = Inr ()" and "length plaintext \<le> MAX_RECORD_BYTES"
    and "\<not> erased (key_state s)"
    and "\<And>nonce aad m. xchacha_encrypt c (ks_key (key_state s)) nonce aad m \<noteq> None"
    and "\<And>rnd. map_of (tree d) (records_directory s @ [temporary_name e name rnd]) = None"
    and "\<not> is_dir (tree d) (records_directory s @ [name])" "\<not> has_children (tree d) (records_directory s @ [name])"
  shows "\<exists>d'. store_write c e s name plaintext d = (Inr (), d')"
proof -
  obtain f where f: "random e (syscalls d) = Some f" using assms(2) by blast
  obtain g where g: "random e (syscalls d + 1) = Some g" using assms(2) by blast
  let ?d = "d\<lparr>syscalls := syscalls d + 1\<rparr>"
  have "\<exists>d'. atomic_write e (records_directory s @ [name]) bs ?d = (Inr (), d')" for bs
    using assms g by (intro quiet_atomic_write [of e ?d g]) (simp_all add: quiet_from_def valid_name_utf8)
  moreover obtain ct where "xchacha_encrypt c (ks_key (key_state s)) (map f [0..<NONCE_BYTES]) (record_aad name) plaintext = Some ct"
    using assms(7) by blast
  ultimately show ?thesis
    using assms(4-6) f by (simp add: store_write_def getrandom_fill_def KeyState_key_def write_with_nonce_def)
qed

section \<open>A concrete store\<close>

definition demo_tree :: tree where
  "demo_tree =
     [([], Directory 493), ([''s''], Directory 448), ([''s'', ''records''], Directory 448),
      ([''s'', ''master.key''], Regular (replicate 32 7) 384),
      ([''s'', ''storage-mode''], Regular (as_bytes (''file'' @ [CHR 0x0A])) 384)]"

definition demo_store_env :: store_env where
  "demo_store_env =
     \<lparr>faults = (\<lambda>_. None), random = (\<lambda>_. Some (\<lambda>_. 0)), umask = 18, pid = 1,
      ss_connect = (\<lambda>_. False), ss_collection = (\<lambda>_. False), ss_locked = (\<lambda>_. None),
      ss_search = (\<lambda>_. None), ss_create = (\<lambda>_ _. False), ss_delete = (\<lambda>_. False)\<rparr>"

definition demo_store :: sealed_store where
  "demo_store = \<lparr>state_directory = [''s''], records_directory = [''s'', ''records''],
     provider = FileProvider, key_state = \<lparr>ks_key = replicate 32 7, erased = False\<rparr>\<rparr>"

lemma demo_calm: "calm demo_store_env" "faults demo_store_env = (\<lambda>_. None)" "quiet_from demo_store_env d"
  by (simp_all add: calm_def demo_store_env_def quiet_from_def)

lemma demo_file_store: "file_store [''s''] (replicate 32 7) demo_tree"
proof -
  have "is_dir demo_tree q" if "prefix q [''s'', ''records'']" for q
    using that by (auto simp: prefix_Cons is_dir_def demo_tree_def)
  moreover have "map_of demo_tree [''s'', ''records'', name] = None" for name
    by (simp add: demo_tree_def)
  moreover have "marker_text (as_bytes (''file'' @ [CHR 0x0A])) = provider_name FileProvider"
    unfolding marker_text_as_bytes by (simp add: provider_name_def)
  ultimately show ?thesis
    using provider_of_own_marker [of FileProvider]
    by (simp add: file_store_def KEY_BYTES_def RECORD_DIRECTORY_def FILE_KEY_NAME_def MODE_MARKER_def)
      (simp add: demo_tree_def)
qed

lemma demo_reopen:
  "\<exists>d. SealedStore_open demo_store_env [''s''] RequestFile (restart demo_tree) = (Inr demo_store, d)"
  using reopen [OF demo_calm(1), of "[''s'']" "replicate 32 7" "restart demo_tree" RequestFile] demo_file_store
  by (auto simp: demo_store_def request_matches_def RECORD_DIRECTORY_def)

theorem survives_restart_witness:
  "\<exists>d1 s' d'. SealedStore_open demo_store_env [''s''] RequestFile (restart demo_tree) = (Inr demo_store, d1)
     \<and> SealedStore_open demo_store_env [''s''] Auto (restart (tree d1)) = (Inr s', d')
     \<and> key_state s' = key_state demo_store"
proof -
  obtain d1 where o: "SealedStore_open demo_store_env [''s''] RequestFile (restart demo_tree) = (Inr demo_store, d1)"
    using demo_reopen by blast
  from survives_restart [OF o _ _ demo_calm(1), of "tree d1" reference_crates "[]" Auto] o show ?thesis
    by (auto simp: demo_store_def request_matches_def)
qed

text \<open>Writes to the concrete store, which may also hold one record \<open>n\<close>.\<close>

definition demo_tree_with :: "string \<Rightarrow> bytes \<Rightarrow> tree" where
  "demo_tree_with n bs = demo_tree @ [([''s'', ''records'', n], Regular bs 384)]"

lemma demo_write:
  assumes "quiet_from e d" and "random e = random demo_store_env" and "tree d = demo_tree \<or> tree d = demo_tree_with n bs"
    and "validate_record_name name = Inr ()" and "validate_record_name n = Inr ()" and "length plaintext \<le> MAX_RECORD_BYTES"
  shows "\<exists>d'. store_write reference_crates e demo_store name plaintext d = (Inr (), d')"
proof (rule quiet_write)
  have ne: "n \<noteq> temporary_name e name rnd" for rnd
    using valid_name_no_dot [OF assms(5)] temporary_name_dot(1) [of e name rnd] by auto
  show "map_of (tree d) (records_directory demo_store @ [temporary_name e name rnd]) = None" for rnd
    using assms(3) ne [of rnd] by (auto simp: demo_store_def demo_tree_def demo_tree_with_def)
  show "\<not> has_children (tree d) (records_directory demo_store @ [name])"
    using assms(3) by (auto simp: has_children_def demo_tree_def demo_tree_with_def demo_store_def strict_prefix_def)
  show "is_dir (tree d) (records_directory demo_store)" "\<not> is_dir (tree d) (records_directory demo_store @ [name])"
    using assms(3) by (auto simp: is_dir_def demo_store_def demo_tree_def demo_tree_with_def split: option.splits if_splits)
qed (use assms in \<open>simp_all add: demo_store_env_def demo_store_def reference_crates_def\<close>)

lemma valid_a: "validate_record_name ''a'' = Inr ()"
  by (simp add: validate_record_name_def ascii_defs)

theorem store_write_atomic_witness:
  "\<exists>d'. store_write reference_crates demo_store_env demo_store ''a'' [1, 2] (restart demo_tree) = (Inr (), d')
     \<and> observed reference_crates demo_store_env demo_store ''a'' demo_tree = Inl RecordNotFound
     \<and> list_all (\<lambda>t. observed reference_crates demo_store_env demo_store ''a'' t \<in> {Inl RecordNotFound, Inr [1, 2]})
         (trail d')
     \<and> observed reference_crates demo_store_env demo_store ''a'' (tree d') = Inr [1, 2]"
proof -
  obtain d' where w: "store_write reference_crates demo_store_env demo_store ''a'' [1, 2] (restart demo_tree) = (Inr (), d')"
    using demo_write [OF demo_calm(3), where d = "restart demo_tree" and n = "''a''" and bs = "[]"
        and name = "''a''" and plaintext = "[1, 2]"] valid_a
    by (auto simp: MAX_RECORD_BYTES_def)
  have old: "observed reference_crates demo_store_env demo_store ''a'' demo_tree = Inl RecordNotFound"
    by (simp add: observed_def2 validate_record_name_def ascii_defs KeyState_key_def demo_store_def t_read_def demo_tree_def)
  from store_write_atomic [OF reference_aead_laws w] old w show ?thesis
    by (auto simp: list_all_iff restart_def)
qed

end
