(* ===== verification/Sealed_Erase.thy ===== *)
theory Sealed_Erase
  imports Sealed_Examples
begin

text \<open>Properties of the terminal erasure and of an interrupted first start.\<close>

section \<open>Erasure\<close>

lemma KeyState_erase_erased: "KeyState_erase k = (r, k') \<Longrightarrow> erased k'"
  by (auto simp: KeyState_erase_def split: if_splits)

lemma erased_refuses:
  assumes "erased (key_state s)"
  shows "fst (store_read c e s name d) \<in> {Inl InvalidRecordName, Inl Erased}"
    and "fst (store_write c e s name plaintext d) \<in> {Inl InvalidRecordName, Inl RecordTooLarge, Inl Random, Inl Erased}"
    and "tree (snd (store_write c e s name plaintext d)) = tree d"
    and "fst (store_delete e s name d) \<in> {Inl InvalidRecordName, Inl Erased}"
    and "snd (store_delete e s name d) = d"
    and "fst (panic_erase e s d) = Inl Erased"
proof -
  have k: "KeyState_key (key_state s) = Inl Erased" using assms by (simp add: KeyState_key_def)
  show "fst (store_read c e s name d) \<in> {Inl InvalidRecordName, Inl Erased}"
    "fst (store_delete e s name d) \<in> {Inl InvalidRecordName, Inl Erased}" "snd (store_delete e s name d) = d"
    by (simp_all add: store_read_def store_delete_def validate_record_name_def k)
  show "fst (store_write c e s name plaintext d) \<in> {Inl InvalidRecordName, Inl RecordTooLarge, Inl Random, Inl Erased}"
    "tree (snd (store_write c e s name plaintext d)) = tree d"
    by (simp_all add: store_write_def validate_record_name_def k getrandom_fill_def split: option.splits)
  show "fst (panic_erase e s d) = Inl Erased"
    using assms by (simp add: panic_erase_def KeyState_erase_def)
qed

lemma erase_files_Inr:
  assumes "erase_files e s d = (Inr k, d')"
  shows "k = provider s \<and> (\<forall>p. prefix (state_directory s) p \<longrightarrow> map_of (tree d') p = None)"
proof -
  from assms obtain d1 d2 d3 r1 parent where
    "delete_ciphertext_before_reporting e (state_directory s) parent d2 = (Inr (), d')" "k = provider s"
    unfolding erase_files_def
    by (auto elim!: then_st_cases simp: Let_def split: node.splits option.splits prod.splits)
  then obtain d3 where rm: "fs_remove_dir_all (sys e) (state_directory s) d2 = (Inr (), d3)"
    and "tree d' = tree d3"
    unfolding delete_ciphertext_before_reporting_def
    by (auto elim!: then_st_cases dest!: sync_directory_disk)
  moreover have "map_of (tree d3) p = None" if "prefix (state_directory s) p" for p
    using rm that unfolding fs_remove_dir_all_def
    by (auto dest!: syscall_step(3) simp: t_remove_dir_all_def split: option.splits node.splits)
  ultimately show ?thesis using \<open>k = provider s\<close> by simp
qed

text \<open>
  C17. Erasure is terminal. After \<open>panic_erase\<close>, whether or not it succeeded, the store in memory
  refuses every read, write, deletion and further erasure without touching the disk; the key bytes
  are overwritten; and when it reports success nothing is left at or below the state directory.
\<close>

theorem erase_is_terminal:
  assumes "panic_erase e s d = (r, s', d')" and "\<not> erased (key_state s)"
  shows "ks_key (key_state s') = replicate (length (ks_key (key_state s))) 0
    \<and> (\<forall>p k. r = Inr k \<longrightarrow> prefix (state_directory s) p \<longrightarrow> map_of (tree d') p = None)
    \<and> fst (store_read c e2 s' name d2) \<in> {Inl InvalidRecordName, Inl Erased}
    \<and> fst (store_write c e2 s' name plaintext d2) \<in> {Inl InvalidRecordName, Inl RecordTooLarge, Inl Random, Inl Erased}
    \<and> tree (snd (store_write c e2 s' name plaintext d2)) = tree d2
    \<and> fst (store_delete e2 s' name d2) \<in> {Inl InvalidRecordName, Inl Erased}
    \<and> snd (store_delete e2 s' name d2) = d2
    \<and> fst (panic_erase e2 s' d2) = Inl Erased"
proof -
  let ?k = "\<lparr>ks_key = replicate (length (ks_key (key_state s))) 0, erased = True\<rparr> :: key_state"
  have s': "s' = s\<lparr>key_state := ?k\<rparr>" and ef: "erase_files e (s\<lparr>key_state := ?k\<rparr>) d = (r, d')"
    using assms by (auto simp: panic_erase_def KeyState_erase_def Let_def split: prod.splits)
  have "erased (key_state s')" by (simp add: s')
  note refuses = erased_refuses [OF this]
  have "map_of (tree d') p = None" if "r = Inr k" "prefix (state_directory s) p" for p k
    using erase_files_Inr [of e "s\<lparr>key_state := ?k\<rparr>" d k d'] ef that by simp
  with refuses show ?thesis by (simp add: s')
qed

lemma ss_syscalls:
  "ss_items e d = (r, d') \<Longrightarrow> syscalls d \<le> syscalls d' \<and> tree d' = tree d"
  unfolding ss_items_def ss_require_def ss_try_def ss_call_def
  by (auto elim!: then_st_cases split: if_splits)

lemma delete_secret_service_key_disk: "delete_secret_service_key e d = (r, d') \<Longrightarrow> tree d' = tree d"
  unfolding delete_secret_service_key_def ss_require_def ss_call_def
  by (auto elim!: then_st_cases dest!: ss_syscalls split: if_splits)

lemma delete_key_disk:
  assumes "delete_external_master_key e s d = (r, d')"
  shows "same_but (state_directory s @ [FILE_KEY_NAME]) (tree d) (tree d')"
proof (cases "provider s")
  case SecretService
  with assms show ?thesis by (auto simp: delete_external_master_key_def dest: delete_secret_service_key_disk)
next
  case FileProvider
  obtain x d1 where rm: "fs_remove_file (sys e) (state_directory s @ [FILE_KEY_NAME]) d = (x, d1)" by fastforce
  have "tree d' = tree d1"
    using assms FileProvider rm
    by (cases x) (auto simp: delete_external_master_key_def dest: sync_directory_disk)
  with one_path_calls(3) [OF rm] show ?thesis by simp
qed

text \<open>
  C18. The records go even when the key cannot be deleted. As long as the file system itself works,
  \<open>panic_erase\<close> leaves nothing at or below the state directory whatever the Secret Service answers
  and whether or not the key file was there, and changes nothing elsewhere.
\<close>

theorem erase_removes_records:
  assumes "calm e" and "panic_erase e s d = (r, s', d')" and "\<not> erased (key_state s)"
    and "is_dir (tree d) (state_directory s)" and "state_directory s \<noteq> []"
  shows "(prefix (state_directory s) p \<longrightarrow> map_of (tree d') p = None)
    \<and> (\<not> prefix (state_directory s) p \<longrightarrow> map_of (tree d') p = map_of (tree d) p)"
proof -
  let ?dir = "state_directory s"
  let ?s = "s\<lparr>key_state := \<lparr>ks_key = replicate (length (ks_key (key_state s))) 0, erased = True\<rparr>\<rparr>"
  have ef: "erase_files e ?s d = (r, d')"
    using assms(2,3) by (auto simp: panic_erase_def KeyState_erase_def Let_def split: prod.splits)
  obtain m where m: "map_of (tree d) ?dir = Some (Directory m)"
    using assms(4) by (auto simp: is_dir_def split: option.splits node.splits)
  let ?d = "d\<lparr>tree := tree d, trail := trail d @ [tree d], syscalls := syscalls d + 1\<rparr>"
  have meta: "fs_metadata (sys e) ?dir d = (Inr (Directory m), ?d)"
    unfolding fs_metadata_def by (rule calm_call [OF assms(1)]) (simp add: m)
  obtain r1 d1 where dk: "delete_external_master_key e ?s ?d = (r1, d1)" by fastforce
  obtain r2 d2 where dc: "delete_ciphertext_before_reporting e ?dir (butlast ?dir) d1 = (r2, d2)" by fastforce
  have "d' = d2"
    using ef meta dk dc assms(5) by (auto simp: erase_files_def path_parent_def split: prod.splits)
  have sb: "same_but (?dir @ [FILE_KEY_NAME]) (tree d) (tree d1)" using delete_key_disk [OF dk] by simp
  then have m1: "map_of (tree d1) ?dir = Some (Directory m)" using m by (simp add: same_but_def)
  let ?t = "without ?dir (tree d1)"
  let ?d3 = "d1\<lparr>tree := ?t, trail := trail d1 @ [?t], syscalls := syscalls d1 + 1\<rparr>"
  have "fs_remove_dir_all (sys e) ?dir d1 = (Inr (), ?d3)"
    unfolding fs_remove_dir_all_def by (rule calm_call [OF assms(1)]) (simp add: t_remove_dir_all_def m1)
  then have "sync_directory e (butlast ?dir) ?d3 = (r2, d2)"
    using dc by (simp add: delete_ciphertext_before_reporting_def)
  then have "tree d' = ?t" using sync_directory_disk \<open>d' = d2\<close> by fastforce
  moreover have "map_of (tree d1) p = map_of (tree d) p" if "\<not> prefix ?dir p"
    using sb that unfolding same_but_def by (metis prefixI)
  ultimately show ?thesis by simp
qed

theorem erase_is_terminal_witness:
  "\<exists>r s' d'. panic_erase demo_store_env demo_store (restart demo_tree) = (r, s', d')
     \<and> ks_key (key_state s') = replicate 32 0
     \<and> fst (panic_erase demo_store_env s' d') = Inl Erased"
proof -
  obtain r s' d' where p: "panic_erase demo_store_env demo_store (restart demo_tree) = (r, s', d')"
    by (metis prod_cases3)
  moreover have "\<not> erased (key_state demo_store)" by (simp add: demo_store_def)
  ultimately show ?thesis
    using erase_is_terminal [OF p, of reference_crates demo_store_env "''a''" d' "[]"]
    by (auto simp: demo_store_def)
qed

theorem erase_removes_records_witness:
  "\<exists>r s' d'. panic_erase demo_store_env demo_store (restart demo_tree) = (r, s', d')
     \<and> map_of (tree d') [''s'', ''storage-mode''] = None \<and> map_of (tree d') [] = Some (Directory 493)"
proof -
  obtain r s' d' where p: "panic_erase demo_store_env demo_store (restart demo_tree) = (r, s', d')"
    by (metis prod_cases3)
  have h: "\<not> erased (key_state demo_store)" "is_dir (tree (restart demo_tree)) (state_directory demo_store)"
    "state_directory demo_store \<noteq> []"
    by (simp_all add: demo_store_def is_dir_def demo_tree_def)
  from erase_removes_records [OF demo_calm(1) p h, of "[''s'', ''storage-mode'']"]
    erase_removes_records [OF demo_calm(1) p h, of "[]"] p show ?thesis
    by (auto simp: demo_store_def) (simp add: demo_tree_def)
qed

section \<open>An interrupted first start\<close>

text \<open>
  C19. A start that stops between writing the key file and writing the provider marker blocks every
  later start with the file provider: without the marker, opening takes the first-run path again
  and refuses the key file it finds there.
\<close>

theorem interrupted_first_start:
  assumes "create_file_key e dir d = (Inr key, d')" and "\<forall>q. prefix q dir \<longrightarrow> is_dir (tree d) q"
    and "map_of (tree d') (dir @ [MODE_MARKER]) = None" and "calm e'"
  shows "fst (SealedStore_open e' dir RequestFile (restart (tree d'))) = Inl ProviderStateExists"
proof -
  note ck = create_file_key_Inr [OF assms(1)]
  have "\<forall>q. prefix q dir \<longrightarrow> is_dir (tree (restart (tree d'))) q"
    using ck assms(2) is_dir_cong [of "tree d'" _ "tree d"] by simp
  then obtain d1 where 1: "ensure_private_directory e' dir (restart (tree d')) = (Inr (), d1)"
    "same_but dir (tree d') (tree d1)"
    using ensure_calm [OF assms(4)] by (metis tree_restart)
  have t1: "map_of (tree d1) (dir @ [x]) = map_of (tree d') (dir @ [x])" for x
    using 1(2) by (simp add: same_but_def)
  let ?d2 = "d1\<lparr>tree := tree d1, trail := trail d1 @ [tree d1], syscalls := syscalls d1 + 1\<rparr>"
  have "fs_read (sys e') (dir @ [MODE_MARKER]) d1 = (Inl Io_NotFound, ?d2)"
    unfolding fs_read_def by (rule calm_call [OF assms(4)]) (simp add: t_read_def t1 assms(3))
  then have 2: "read_provider e' (dir @ [MODE_MARKER]) d1 = (Inr None, ?d2)" by (simp add: read_provider_def)
  let ?d3 = "?d2\<lparr>tree := tree ?d2, trail := trail ?d2 @ [tree ?d2], syscalls := syscalls ?d2 + 1\<rparr>"
  have "fs_metadata (sys e') (dir @ [FILE_KEY_NAME]) ?d2 = (Inr (Regular key 384), ?d3)"
    unfolding fs_metadata_def by (rule calm_call [OF assms(4)]) (use ck in \<open>simp add: t1\<close>)
  then have "fs_exists (sys e') (dir @ [FILE_KEY_NAME]) ?d2 = (True, ?d3)"
    unfolding fs_exists_def by (simp only: prod.case sum.disc(2) not_False_eq_True)
  then have "create_file_key e' dir ?d2 = (Inl ProviderStateExists, ?d3)"
    unfolding create_file_key_def Let_def by (simp only: prod.case if_True)
  then have "select_first_run e' dir RequestFile ?d2 = (Inl ProviderStateExists, ?d3)"
    unfolding select_first_run_def by (simp only: requested_provider.case then_st_simps)
  then show ?thesis
    using 1(1) 2 by (simp add: SealedStore_open_def Let_def)
qed

definition bare_tree :: tree where
  "bare_tree = [([], Directory 493), ([''s''], Directory 448)]"

theorem interrupted_first_start_witness:
  "\<exists>key d'. create_file_key demo_store_env [''s''] (restart bare_tree) = (Inr key, d')
     \<and> fst (SealedStore_open demo_store_env [''s''] RequestFile (restart (tree d'))) = Inl ProviderStateExists"
proof -
  let ?d1 = "(restart bare_tree)\<lparr>tree := bare_tree, trail := [bare_tree], syscalls := 1\<rparr>"
  let ?d2 = "?d1\<lparr>syscalls := 2\<rparr>"
  let ?key = "map (\<lambda>_. 0) [0..<KEY_BYTES] :: bytes"
  have no: "fs_exists (sys demo_store_env) [''s'', FILE_KEY_NAME] (restart bare_tree) = (False, ?d1)"
    by (simp add: fs_exists_def fs_metadata_def syscall_works demo_calm bare_tree_def restart_def)
  have g: "MasterKey_generate demo_store_env ?d1 = (Inr ?key, ?d2)"
    by (simp add: MasterKey_generate_def getrandom_fill_def demo_store_env_def)
  have "\<exists>d'. atomic_write demo_store_env ([''s''] @ [FILE_KEY_NAME]) ?key ?d2 = (Inr (), d')"
  proof (rule quiet_atomic_write [where f = "\<lambda>_. 0"])
    show "is_utf8 FILE_KEY_NAME" by (rule is_utf8_ascii) (simp add: FILE_KEY_NAME_def)
    show "\<not> has_children (tree ?d2) ([''s''] @ [FILE_KEY_NAME])"
      by (simp add: has_children_def bare_tree_def strict_prefix_def)
  qed (simp_all add: demo_calm, simp_all add: demo_store_env_def bare_tree_def is_dir_def)
  then obtain d' where w: "atomic_write demo_store_env [''s'', FILE_KEY_NAME] ?key ?d2 = (Inr (), d')" by auto
  have c: "create_file_key demo_store_env [''s''] (restart bare_tree) = (Inr ?key, d')"
    using no g w by (simp add: create_file_key_def)
  have dirs: "\<forall>q. prefix q [''s''] \<longrightarrow> is_dir (tree (restart bare_tree)) q"
    by (auto simp: prefix_Cons is_dir_def bare_tree_def)
  have "map_of (tree d') ([''s''] @ [MODE_MARKER]) = map_of (tree ?d2) ([''s''] @ [MODE_MARKER])"
    using w by (intro atomic_write_other [where dir = "[''s'']" and x = FILE_KEY_NAME])
      (auto simp: fixed_not_temporary)
  then have "map_of (tree d') ([''s''] @ [MODE_MARKER]) = None" by (simp add: bare_tree_def)
  from interrupted_first_start [OF c dirs this demo_calm(1)] c show ?thesis by blast
qed

end
