(* ===== verification/Nostr_Event.thy ===== *)
theory Nostr_Event
  imports Json
begin

text \<open>
  NIP-01 events (\<open>omachat-nostr/src/event.rs\<close>): their canonical form and identifier, the resource
  limits, signing and verification. Shown: what \<open>sign_with_aux\<close> produces is accepted by \<open>verify\<close> and
  survives its JSON text, and two accepted events with one identifier have the same fields unless
  SHA-256 collides.
\<close>

section \<open>Types\<close>

type_synonym tag = "string list"

record unsigned_event =
  u_pubkey :: string
  u_created_at :: u64
  u_kind :: u32
  u_tags :: "tag list"
  u_content :: string

record signed_event =
  s_id :: string
  s_pubkey :: string
  s_created_at :: u64
  s_kind :: u32
  s_tags :: "tag list"
  s_content :: string
  s_sig :: string

record event_limits =
  max_serialized_bytes :: nat
  max_content_bytes :: nat
  max_tags :: nat
  max_tag_fields :: nat
  max_tag_field_bytes :: nat
  max_future_seconds :: u64

definition DEFAULT_MAX_SERIALIZED_BYTES :: nat where "DEFAULT_MAX_SERIALIZED_BYTES = 256 * 1024"
definition DEFAULT_MAX_CONTENT_BYTES :: nat where "DEFAULT_MAX_CONTENT_BYTES = 64 * 1024"
definition DEFAULT_MAX_TAGS :: nat where "DEFAULT_MAX_TAGS = 64"
definition DEFAULT_MAX_TAG_FIELDS :: nat where "DEFAULT_MAX_TAG_FIELDS = 16"
definition DEFAULT_MAX_TAG_FIELD_BYTES :: nat where "DEFAULT_MAX_TAG_FIELD_BYTES = 1024"
definition DEFAULT_MAX_FUTURE_SECONDS :: u64 where "DEFAULT_MAX_FUTURE_SECONDS = 15 * 60"

definition EventLimits_default :: event_limits where
  "EventLimits_default =
    \<lparr>max_serialized_bytes = DEFAULT_MAX_SERIALIZED_BYTES, max_content_bytes = DEFAULT_MAX_CONTENT_BYTES,
     max_tags = DEFAULT_MAX_TAGS, max_tag_fields = DEFAULT_MAX_TAG_FIELDS,
     max_tag_field_bytes = DEFAULT_MAX_TAG_FIELD_BYTES, max_future_seconds = DEFAULT_MAX_FUTURE_SECONDS\<rparr>"

lemmas event_default_defs = EventLimits_default_def DEFAULT_MAX_SERIALIZED_BYTES_def
  DEFAULT_MAX_CONTENT_BYTES_def DEFAULT_MAX_TAGS_def DEFAULT_MAX_TAG_FIELDS_def
  DEFAULT_MAX_TAG_FIELD_BYTES_def DEFAULT_MAX_FUTURE_SECONDS_def

datatype event_error =
    Event_Json
  | InvalidHex nat
  | Event_SecretKey
  | Event_PublicKey
  | PublicKeyMismatch
  | Event_Signing
  | Event_Signature
  | IdMismatch
  | SerializedTooLarge nat nat
  | ContentTooLarge nat nat
  | TooManyTags nat nat
  | TooManyTagFields nat nat nat
  | TagFieldTooLarge nat nat nat nat
  | TooFarInFuture u64 u64

section \<open>Operations\<close>

definition xonly_public_key :: "crates \<Rightarrow> bytes \<Rightarrow> event_error + bytes" where
  "xonly_public_key c secret_key =
     (if schnorr_secret_ok c secret_key then Inr (schnorr_public c secret_key) else Inl Event_SecretKey)"

definition decode_hex :: "crates \<Rightarrow> nat \<Rightarrow> string \<Rightarrow> event_error + bytes" where
  "decode_hex c n value =
     (if length value \<noteq> n * 2 \<or> list_ex (\<lambda>b. \<not> is_lower_hexdigit b) value then Inl (InvalidHex n)
      else case hex_decode c value of
        None \<Rightarrow> Inl (InvalidHex n)
      | Some bs \<Rightarrow> if length bs = n then Inr bs else Inl (InvalidHex n))"

definition decode_hex_32 :: "crates \<Rightarrow> string \<Rightarrow> event_error + bytes" where
  "decode_hex_32 c value = decode_hex c 32 value"

definition decode_hex_64 :: "crates \<Rightarrow> string \<Rightarrow> event_error + bytes" where
  "decode_hex_64 c value = decode_hex c 64 value"

definition tags_json :: "tag list \<Rightarrow> json" where
  "tags_json ts = JArr (map (\<lambda>t. JArr (map JStr t)) ts)"

definition canonical_json :: "json_crate \<Rightarrow> unsigned_event \<Rightarrow> event_error + bytes" where
  "canonical_json jc e =
     ok_or Event_Json (json_to_vec jc
       (JArr [JInt 0, JStr (u_pubkey e), JInt (uint (u_created_at e)), JInt (uint (u_kind e)),
                tags_json (u_tags e), JStr (u_content e)]))"

definition event_id :: "crates \<Rightarrow> json_crate \<Rightarrow> unsigned_event \<Rightarrow> event_error + bytes" where
  "event_id c jc e = and_then (canonical_json jc e) (\<lambda>bs. Inr (sha256 c bs))"

fun validate_fields :: "event_limits \<Rightarrow> nat \<Rightarrow> nat \<Rightarrow> string list \<Rightarrow> event_error + unit" where
  "validate_fields limits tag_index field_index [] = Inr ()"
| "validate_fields limits tag_index field_index (field # rest) =
     (if max_tag_field_bytes limits < length field
      then Inl (TagFieldTooLarge tag_index field_index (length field) (max_tag_field_bytes limits))
      else validate_fields limits tag_index (field_index + 1) rest)"

fun validate_tags :: "event_limits \<Rightarrow> nat \<Rightarrow> tag list \<Rightarrow> event_error + unit" where
  "validate_tags limits tag_index [] = Inr ()"
| "validate_tags limits tag_index (tag # tags) =
     (if max_tag_fields limits < length tag
      then Inl (TooManyTagFields tag_index (length tag) (max_tag_fields limits))
      else and_then (validate_fields limits tag_index 0 tag) (\<lambda>_. validate_tags limits (tag_index + 1) tags))"

definition event_validate :: "crates \<Rightarrow> event_limits \<Rightarrow> unsigned_event \<Rightarrow> event_error + unit" where
  "event_validate c limits e =
     and_then (decode_hex_32 c (u_pubkey e)) (\<lambda>_.
       if max_content_bytes limits < length (u_content e)
       then Inl (ContentTooLarge (length (u_content e)) (max_content_bytes limits))
       else if max_tags limits < length (u_tags e)
       then Inl (TooManyTags (length (u_tags e)) (max_tags limits))
       else validate_tags limits 0 (u_tags e))"

definition UnsignedEvent_new ::
  "crates \<Rightarrow> string \<Rightarrow> u64 \<Rightarrow> u32 \<Rightarrow> tag list \<Rightarrow> string \<Rightarrow> event_limits \<Rightarrow> event_error + unsigned_event" where
  "UnsignedEvent_new c pk created k ts body limits =
     (let e = \<lparr>u_pubkey = pk, u_created_at = created, u_kind = k, u_tags = ts, u_content = body\<rparr> in
      and_then (event_validate c limits e) (\<lambda>_. Inr e))"

definition sign_with_aux ::
  "crates \<Rightarrow> json_crate \<Rightarrow> bytes \<Rightarrow> bytes \<Rightarrow> event_limits \<Rightarrow> unsigned_event \<Rightarrow> event_error + signed_event" where
  "sign_with_aux c jc secret_key auxiliary_randomness limits e =
     and_then (event_validate c limits e) (\<lambda>_.
     if \<not> schnorr_secret_ok c secret_key then Inl Event_SecretKey
     else
       and_then (decode_hex_32 c (u_pubkey e)) (\<lambda>public_key.
       if schnorr_public c secret_key \<noteq> public_key then Inl PublicKeyMismatch
       else
         and_then (event_id c jc e) (\<lambda>digest.
         and_then (ok_or Event_Signing (schnorr_sign c secret_key digest auxiliary_randomness)) (\<lambda>signature.
         Inr \<lparr>s_id = hex_encode c digest, s_pubkey = u_pubkey e, s_created_at = u_created_at e,
              s_kind = u_kind e, s_tags = u_tags e, s_content = u_content e,
              s_sig = hex_encode c signature\<rparr>))))"

definition event_unsigned :: "signed_event \<Rightarrow> unsigned_event" where
  "event_unsigned e =
    \<lparr>u_pubkey = s_pubkey e, u_created_at = s_created_at e, u_kind = s_kind e, u_tags = s_tags e,
     u_content = s_content e\<rparr>"

text \<open>The derived serializer and deserializer of \<open>SignedEvent\<close>, with unknown fields denied.\<close>

definition signed_event_json :: "signed_event \<Rightarrow> json" where
  "signed_event_json e =
     JObj [(''id'', JStr (s_id e)), (''pubkey'', JStr (s_pubkey e)),
              (''created_at'', JInt (uint (s_created_at e))), (''kind'', JInt (uint (s_kind e))),
              (''tags'', tags_json (s_tags e)), (''content'', JStr (s_content e)),
              (''sig'', JStr (s_sig e))]"

definition de_signed_event :: "json \<Rightarrow> signed_event option" where
  "de_signed_event j =
     (case de_struct [''id'', ''pubkey'', ''created_at'', ''kind'', ''tags'', ''content'', ''sig''] j of
        Some [a, b, t, k, ts, x, s] \<Rightarrow>
          (case (de_string a, de_string b, de_u64 t, de_u32 k, de_vec (de_vec de_string) ts, de_string x, de_string s) of
             (Some a, Some b, Some t, Some k, Some ts, Some x, Some s) \<Rightarrow>
               Some \<lparr>s_id = a, s_pubkey = b, s_created_at = t, s_kind = k, s_tags = ts, s_content = x, s_sig = s\<rparr>
           | _ \<Rightarrow> None)
      | _ \<Rightarrow> None)"

definition event_verify :: "crates \<Rightarrow> json_crate \<Rightarrow> u64 \<Rightarrow> event_limits \<Rightarrow> signed_event \<Rightarrow> event_error + unit" where
  "event_verify c jc now limits e =
     and_then (ok_or Event_Json (json_to_vec jc (signed_event_json e))) (\<lambda>serialized.
     if max_serialized_bytes limits < length serialized
     then Inl (SerializedTooLarge (length serialized) (max_serialized_bytes limits))
     else if saturating_add now (max_future_seconds limits) < s_created_at e
     then Inl (TooFarInFuture (s_created_at e) (saturating_add now (max_future_seconds limits)))
     else
       let unsig = event_unsigned e in
       and_then (event_validate c limits unsig) (\<lambda>_.
       and_then (event_id c jc unsig) (\<lambda>expected_id.
       and_then (decode_hex_32 c (s_id e)) (\<lambda>supplied_id.
       if expected_id \<noteq> supplied_id then Inl IdMismatch
       else
         and_then (decode_hex_32 c (s_pubkey e)) (\<lambda>public_key.
         if \<not> schnorr_key_ok c public_key then Inl Event_PublicKey
         else
           and_then (decode_hex_64 c (s_sig e)) (\<lambda>signature_bytes.
           if \<not> schnorr_sig_ok c signature_bytes then Inl Event_Signature
           else if schnorr_verify c public_key expected_id signature_bytes then Inr ()
           else Inl Event_Signature))))))"

definition SignedEvent_from_json ::
  "crates \<Rightarrow> json_crate \<Rightarrow> bytes \<Rightarrow> u64 \<Rightarrow> event_limits \<Rightarrow> event_error + signed_event" where
  "SignedEvent_from_json c jc bs now limits =
     (if max_serialized_bytes limits < length bs
      then Inl (SerializedTooLarge (length bs) (max_serialized_bytes limits))
      else
        and_then (ok_or Event_Json (Option.bind (json_from_slice jc bs) de_signed_event)) (\<lambda>event.
        and_then (event_verify c jc now limits event) (\<lambda>_. Inr event)))"

section \<open>Text and JSON\<close>

text \<open>Every \<open>String\<close> of the program is valid text.\<close>

definition unsigned_utf8 :: "unsigned_event \<Rightarrow> bool" where
  "unsigned_utf8 e \<longleftrightarrow>
     is_utf8 (u_pubkey e) \<and> is_utf8 (u_content e) \<and> list_all (list_all is_utf8) (u_tags e)"

definition signed_utf8 :: "signed_event \<Rightarrow> bool" where
  "signed_utf8 e \<longleftrightarrow> unsigned_utf8 (event_unsigned e) \<and> is_utf8 (s_id e) \<and> is_utf8 (s_sig e)"

lemma is_utf8_lower_hex: "list_all is_lower_hexdigit s \<Longrightarrow> is_utf8 s"
  by (rule is_utf8_ascii) (auto simp: list_all_iff ascii_defs)

lemma is_utf8_hex_encode: "hex_laws c \<Longrightarrow> is_utf8 (hex_encode c bs)"
  by (rule is_utf8_lower_hex) (simp add: hex_laws_def)

lemma tags_json_exact: "1 < n \<Longrightarrow> json_exact n (tags_json ts) \<longleftrightarrow> list_all (list_all is_utf8) ts"
  by (simp add: tags_json_def json_exact_array list_all_iff)

lemma tags_json_inject [simp]: "tags_json ts = tags_json us \<longleftrightarrow> ts = us"
proof -
  have "inj JStr" "inj (\<lambda>t. JArr (map JStr t))" by (auto simp: inj_def inj_map_eq_map)
  then show ?thesis by (simp add: tags_json_def inj_map_eq_map)
qed

lemma de_tags_json [simp]: "de_vec (de_vec de_string) (tags_json ts) = Some ts"
proof -
  have "de_all (de_vec de_string) (map (\<lambda>t. JArr (map JStr t)) ts) = Some ts" by simp
  then show ?thesis by (simp add: de_vec_def tags_json_def)
qed

lemma is_utf8_field_names:
  "is_utf8 ''id''" "is_utf8 ''pubkey''" "is_utf8 ''created_at''" "is_utf8 ''kind''" "is_utf8 ''tags''"
  "is_utf8 ''content''" "is_utf8 ''sig''"
  by (simp_all add: is_utf8_ascii)

lemma signed_event_json_exact: "signed_utf8 e \<Longrightarrow> json_exact 127 (signed_event_json e)"
  by (simp add: signed_event_json_def json_exact_object tags_json_exact signed_utf8_def unsigned_utf8_def
      event_unsigned_def is_utf8_field_names)

lemma de_signed_event_json [simp]: "de_signed_event (signed_event_json e) = Some e"
  by (simp add: de_signed_event_def signed_event_json_def de_struct_def insert_commute)

section \<open>Identifiers\<close>

definition sha256_laws :: "crates \<Rightarrow> bool" where
  "sha256_laws c \<longleftrightarrow> (\<forall>m. length (sha256 c m) = 32)"

lemma reference_sha256_laws: "sha256_laws reference_crates"
  by (simp add: sha256_laws_def reference_crates_def min_def)

lemma decode_hex_Inr:
  "decode_hex c n v = Inr bs \<longleftrightarrow>
     length v = n * 2 \<and> list_all is_lower_hexdigit v \<and> hex_decode c v = Some bs \<and> length bs = n"
  by (auto simp: decode_hex_def list_all_iff list_ex_iff split: option.splits)

lemmas decode_hex_defs = decode_hex_32_def decode_hex_64_def

lemma decode_hex_encode:
  "hex_laws c \<Longrightarrow> length bs = n \<Longrightarrow> decode_hex c n (hex_encode c bs) = Inr bs"
  by (simp add: decode_hex_Inr hex_laws_roundtrip hex_laws_length) (simp add: hex_laws_def)

lemma canonical_json_inject:
  assumes "json_laws jc" and "unsigned_utf8 e" "unsigned_utf8 f"
    and "canonical_json jc e = Inr bs" "canonical_json jc f = Inr bs"
  shows "e = f"
proof -
  let ?j = "\<lambda>e. JArr [JInt 0, JStr (u_pubkey e), JInt (uint (u_created_at e)), JInt (uint (u_kind e)),
                tags_json (u_tags e), JStr (u_content e)]"
  have "json_exact 127 (?j e)" "json_exact 127 (?j f)"
    using assms(2,3) by (simp_all add: unsigned_utf8_def json_exact_array tags_json_exact)
  from json_laws_inject [OF assms(1) this] assms(4,5) have "?j e = ?j f"
    by (simp add: canonical_json_def)
  then show ?thesis by (simp add: word_uint_eq_iff)
qed

lemma event_verify_Inr:
  assumes "event_verify c jc now limits e = Inr u"
  obtains serialized bs digest pk sg where
    "json_to_vec jc (signed_event_json e) = Some serialized" "length serialized \<le> max_serialized_bytes limits"
    "s_created_at e \<le> saturating_add now (max_future_seconds limits)"
    "event_validate c limits (event_unsigned e) = Inr ()"
    "canonical_json jc (event_unsigned e) = Inr bs" "digest = sha256 c bs"
    "decode_hex_32 c (s_id e) = Inr digest" "decode_hex_32 c (s_pubkey e) = Inr pk" "schnorr_key_ok c pk"
    "decode_hex_64 c (s_sig e) = Inr sg" "schnorr_sig_ok c sg" "schnorr_verify c pk digest sg"
  using assms by (auto simp: event_verify_def event_id_def Let_def not_less split: if_splits)

lemma sign_verifies:
  assumes laws: "hex_laws c" "schnorr_laws c" "sha256_laws c"
    and utf8: "unsigned_utf8 e"
    and sign: "sign_with_aux c jc sk aux limits e = Inr s"
    and size: "json_to_vec jc (signed_event_json s) = Some bs" "length bs \<le> max_serialized_bytes limits"
    and clock: "u_created_at e \<le> saturating_add now (max_future_seconds limits)"
  shows "event_unsigned s = e" and "event_verify c jc now limits s = Inr ()" and "signed_utf8 s"
proof -
  obtain m sg where v: "event_validate c limits e = Inr ()" "schnorr_secret_ok c sk"
      "decode_hex_32 c (u_pubkey e) = Inr (schnorr_public c sk)" "canonical_json jc e = Inr m"
      "schnorr_sign c sk (sha256 c m) aux = Some sg"
    and s: "s = \<lparr>s_id = hex_encode c (sha256 c m), s_pubkey = u_pubkey e, s_created_at = u_created_at e,
              s_kind = u_kind e, s_tags = u_tags e, s_content = u_content e, s_sig = hex_encode c sg\<rparr>"
    using sign by (auto simp: sign_with_aux_def event_id_def split: if_splits)
  show un: "event_unsigned s = e" by (simp add: s event_unsigned_def)
  have sg: "length sg = 64" "schnorr_sig_ok c sg" "schnorr_key_ok c (schnorr_public c sk)"
    "schnorr_verify c (schnorr_public c sk) (sha256 c m) sg"
    using laws(2) v(2,5) by (auto simp: schnorr_laws_def SIGNATURE_BYTES_def)
  have ids: "decode_hex_32 c (s_id s) = Inr (sha256 c m)" "decode_hex_64 c (s_sig s) = Inr sg"
    using laws(1,3) sg(1) by (simp_all add: s decode_hex_defs decode_hex_encode sha256_laws_def)
  have sel: "s_pubkey s = u_pubkey e" "s_created_at s = u_created_at e" by (simp_all add: s)
  show "event_verify c jc now limits s = Inr ()"
    using size clock v sg ids un sel by (simp add: event_verify_def event_id_def Let_def not_less del: and_then_Inr)
  show "signed_utf8 s"
    using utf8 laws(1) un by (simp add: signed_utf8_def s is_utf8_hex_encode)
qed

section \<open>A concrete event\<close>

definition demo_key :: bytes where "demo_key = replicate 32 1"

definition demo_note :: unsigned_event where
  "demo_note =
    \<lparr>u_pubkey = hex_string demo_key, u_created_at = 5, u_kind = 14, u_tags = [], u_content = ''hi''\<rparr>"

lemma reference_event_length:
  assumes "json_to_vec reference_json (signed_event_json e) = Some bs" and "s_tags e = []"
  shows "length bs = 2 * (102 + 2 * (length (s_id e) + length (s_pubkey e) + length (s_content e) + length (s_sig e))
      + unat (s_created_at e) + unat (s_kind e))"
  using assms
  by (auto simp: reference_json_def signed_event_json_def put_json_container length_put length_hex_string
      tags_json_def split: if_splits)

lemma reference_signs:
  assumes "unsigned_utf8 e" and "u_pubkey e = hex_string key" and "length key = 32"
    and "event_validate reference_crates limits e = Inr ()"
  obtains s bs where "sign_with_aux reference_crates reference_json key aux limits e = Inr s"
    "event_unsigned s = e" "length (s_id s) = 64" "length (s_sig s) = 128"
    "json_to_vec reference_json (signed_event_json s) = Some bs"
proof -
  obtain m where m: "canonical_json reference_json e = Inr m"
    using json_laws_obtain [OF reference_json_laws, of "JArr [JInt 0, JStr (u_pubkey e),
        JInt (uint (u_created_at e)), JInt (uint (u_kind e)), tags_json (u_tags e), JStr (u_content e)]"] assms(1)
    by (auto simp: canonical_json_def unsigned_utf8_def json_exact_array tags_json_exact)
  have key: "decode_hex_32 reference_crates (u_pubkey e) = Inr key"
    using assms(2,3) by (simp add: decode_hex_defs decode_hex_Inr reference_crates_def hex_parse_string
        length_hex_string hex_string_lower)
  let ?d = "sha256 reference_crates m"
  obtain s where s: "sign_with_aux reference_crates reference_json key aux limits e = Inr s"
    and f: "event_unsigned s = e" "s_id s = hex_string ?d" "s_sig s = hex_string (stamp key ?d)"
    using assms(3,4) key m
    by (simp add: sign_with_aux_def event_id_def event_unsigned_def reference_crates_def)
  have "signed_utf8 s" using assms(1) f by (simp add: signed_utf8_def is_utf8_hex)
  then obtain bs where "json_to_vec reference_json (signed_event_json s) = Some bs"
    using json_laws_obtain [OF reference_json_laws signed_event_json_exact] by blast
  moreover have "length ?d = 32" using reference_sha256_laws by (simp add: sha256_laws_def)
  ultimately show ?thesis using that s f by (simp add: length_hex_string length_stamp)
qed

lemma demo_utf8: "unsigned_utf8 demo_note"
  by (simp add: unsigned_utf8_def demo_note_def is_utf8_hex is_utf8_ascii)

lemma demo_valid: "event_validate reference_crates EventLimits_default demo_note = Inr ()"
proof -
  have "decode_hex_32 reference_crates (u_pubkey demo_note) = Inr demo_key"
    by (simp add: decode_hex_defs decode_hex_Inr demo_note_def demo_key_def reference_crates_def hex_parse_string
        length_hex_string hex_string_lower)
  then show ?thesis by (simp add: event_validate_def demo_note_def event_default_defs)
qed

lemma demo_signs:
  obtains s bs where "sign_with_aux reference_crates reference_json demo_key aux EventLimits_default demo_note = Inr s"
    "json_to_vec reference_json (signed_event_json s) = Some bs"
    "length bs \<le> max_serialized_bytes EventLimits_default"
proof -
  have "u_pubkey demo_note = hex_string demo_key" "length demo_key = 32" by (simp_all add: demo_note_def demo_key_def)
  then obtain s bs where s: "sign_with_aux reference_crates reference_json demo_key aux EventLimits_default demo_note = Inr s"
    "event_unsigned s = demo_note" "length (s_id s) = 64" "length (s_sig s) = 128"
    "json_to_vec reference_json (signed_event_json s) = Some bs"
    using reference_signs [OF demo_utf8 _ _ demo_valid] by metis
  have f: "s_pubkey s = hex_string demo_key" "s_tags s = []" "s_content s = ''hi''" "s_created_at s = 5" "s_kind s = 14"
    using s(2) by (simp_all add: event_unsigned_def demo_note_def)
  have "length bs \<le> max_serialized_bytes EventLimits_default"
    using reference_event_length [OF s(5)] s(3,4) f
    by (simp add: length_hex_string demo_key_def event_default_defs)
  with that s show ?thesis by blast
qed

lemmas reference_event_laws = reference_hex_laws reference_schnorr_laws reference_sha256_laws

lemma demo_clock: "u_created_at demo_note \<le> saturating_add 5 (max_future_seconds EventLimits_default)"
  by (simp add: demo_note_def event_default_defs saturating_add_def)

text \<open>
  C26. An identifier names one event. Two events that pass verification under the same identifier,
  whatever the clocks and limits they were verified with, carry the same author, time, kind, tags
  and content as soon as SHA-256 does not confuse their two canonical forms: both forms exist, have
  the same digest, and are equal exactly when the two events carry the same fields.
\<close>

theorem verified_id_binds:
  assumes "json_laws jc" and "signed_utf8 e" "signed_utf8 f"
    and "event_verify c jc now limits e = Inr ()" "event_verify c jc now' limits' f = Inr ()"
    and "s_id e = s_id f"
  shows "\<exists>x y. canonical_json jc (event_unsigned e) = Inr x \<and> canonical_json jc (event_unsigned f) = Inr y
    \<and> sha256 c x = sha256 c y \<and> decode_hex_32 c (s_id e) = Inr (sha256 c x)
    \<and> (x = y \<longleftrightarrow> event_unsigned e = event_unsigned f)"
proof -
  obtain x where x: "canonical_json jc (event_unsigned e) = Inr x" "decode_hex_32 c (s_id e) = Inr (sha256 c x)"
    using event_verify_Inr [OF assms(4)] by metis
  obtain y where y: "canonical_json jc (event_unsigned f) = Inr y" "decode_hex_32 c (s_id f) = Inr (sha256 c y)"
    using event_verify_Inr [OF assms(5)] by metis
  have "sha256 c x = sha256 c y" using x(2) y(2) assms(6) by simp
  moreover have "event_unsigned e = event_unsigned f" if "x = y"
    using canonical_json_inject [OF assms(1) _ _ x(1)] y(1) that assms(2,3) by (simp add: signed_utf8_def)
  moreover have "x = y" if "event_unsigned e = event_unsigned f"
    using x(1) y(1) that by simp
  ultimately show ?thesis using x y by blast
qed

theorem verified_id_binds_witness:
  "\<exists>s. event_verify reference_crates reference_json 5 EventLimits_default s = Inr () \<and> event_unsigned s = demo_note
     \<and> (\<exists>x. canonical_json reference_json demo_note = Inr x \<and> decode_hex_32 reference_crates (s_id s) = Inr (sha256 reference_crates x))"
proof -
  obtain s bs where s: "sign_with_aux reference_crates reference_json demo_key [] EventLimits_default demo_note = Inr s"
    "json_to_vec reference_json (signed_event_json s) = Some bs"
    "length bs \<le> max_serialized_bytes EventLimits_default"
    by (rule demo_signs)
  note v = sign_verifies [OF reference_event_laws demo_utf8 s demo_clock]
  from verified_id_binds [OF reference_json_laws v(3) v(3) v(2) v(2)] v(1,2) show ?thesis by metis
qed

text \<open>
  What is signed verifies. An event produced by \<open>sign_with_aux\<close> keeps the fields it was
  made from; as long as its JSON is within the size limit and the receiver's clock is not too far
  behind, \<open>verify\<close> accepts it, and reading its JSON text yields the same event.
\<close>

theorem signed_event_roundtrip:
  assumes laws: "hex_laws c" "schnorr_laws c" "sha256_laws c" "json_laws jc"
    and utf8: "unsigned_utf8 e"
    and sign: "sign_with_aux c jc sk aux limits e = Inr s"
    and size: "json_to_vec jc (signed_event_json s) = Some bs" "length bs \<le> max_serialized_bytes limits"
    and clock: "u_created_at e \<le> saturating_add now (max_future_seconds limits)"
  shows "event_unsigned s = e \<and> event_verify c jc now limits s = Inr ()
    \<and> SignedEvent_from_json c jc bs now limits = Inr s"
proof -
  note v = sign_verifies [OF laws(1-3) utf8 sign size clock]
  from json_laws_read(1) [OF laws(4) signed_event_json_exact [OF v(3)] size(1)] v(1,2) size(2)
  show ?thesis by (simp add: SignedEvent_from_json_def)
qed

theorem signed_event_roundtrip_witness:
  "\<exists>s bs. sign_with_aux reference_crates reference_json demo_key [] EventLimits_default demo_note = Inr s
     \<and> SignedEvent_from_json reference_crates reference_json bs 5 EventLimits_default = Inr s \<and> event_unsigned s = demo_note"
proof -
  obtain s bs where s: "sign_with_aux reference_crates reference_json demo_key [] EventLimits_default demo_note = Inr s"
    "json_to_vec reference_json (signed_event_json s) = Some bs"
    "length bs \<le> max_serialized_bytes EventLimits_default"
    by (rule demo_signs)
  from signed_event_roundtrip [OF reference_event_laws reference_json_laws demo_utf8 s demo_clock] s(1)
  show ?thesis by blast
qed

end
