(* ===== verification/Nip44.thy ===== *)
theory Nip44
  imports Keys
begin

text \<open>
  NIP-44 version 2 payloads (\<open>omachat-crypto/src/nip44.rs\<close>): padding, the encrypted and
  authenticated envelope, and its decoding. The stream cipher, HMAC, HKDF, base64 and the curve
  operations come from third-party crates and are the fields of \<open>nip44_crates\<close>.
\<close>

section \<open>Library functions\<close>

text \<open>
  A \<open>None\<close> of \<open>chacha20\<close>, \<open>hmac\<close>, \<open>hkdf_from_prk\<close> or \<open>hkdf_expand\<close> is the error of the respective
  constructor or call. \<open>shared_x secret peer\<close> multiplies the lifted peer point with the secret.
\<close>

record nip44_crates =
  b64_encode :: "bytes \<Rightarrow> string"
  b64_decode :: "string \<Rightarrow> bytes option"
  chacha20 :: "bytes \<Rightarrow> bytes \<Rightarrow> bytes \<Rightarrow> bytes option"
  hmac :: "bytes \<Rightarrow> bytes \<Rightarrow> bytes option"
  hkdf_extract :: "bytes \<Rightarrow> bytes \<Rightarrow> bytes"
  hkdf_from_prk :: "bytes \<Rightarrow> bytes option"
  hkdf_expand :: "bytes \<Rightarrow> bytes \<Rightarrow> nat \<Rightarrow> bytes option"
  secret_ok :: "bytes \<Rightarrow> bool"
  point_ok :: "bytes \<Rightarrow> bool"
  shared_x :: "bytes \<Rightarrow> bytes \<Rightarrow> bytes option"

text \<open>
  Documented behaviour: base64 is an invertible encoding of 4 characters per started group of 3
  bytes over an alphabet of ASCII characters without \<open>#\<close>; applying the ChaCha20 keystream twice restores the data and
  keeps its length, for keys of 32 and nonces of 12 bytes; HMAC-SHA256 accepts every key and has
  32 bytes; HKDF accepts a 32-byte key and delivers the requested number of bytes.
\<close>

definition nip44_laws :: "nip44_crates \<Rightarrow> bool" where
  "nip44_laws l \<longleftrightarrow>
     (\<forall>bs. b64_decode l (b64_encode l bs) = Some bs
        \<and> length (b64_encode l bs) = (length bs + 2) div 3 * 4
        \<and> CHR ''#'' \<notin> set (b64_encode l bs) \<and> list_all (\<lambda>x. byte_val x \<le> 127) (b64_encode l bs))
     \<and> (\<forall>k n m. length k = 32 \<longrightarrow> length n = 12 \<longrightarrow>
          (\<exists>ct. chacha20 l k n m = Some ct \<and> length ct = length m \<and> chacha20 l k n ct = Some m))
     \<and> (\<forall>k m. \<exists>t. hmac l k m = Some t \<and> length t = 32)
     \<and> (\<forall>prk info. length prk = 32 \<longrightarrow> (\<exists>h okm. hkdf_from_prk l prk = Some h
          \<and> hkdf_expand l h info 76 = Some okm \<and> length okm = 76))"

section \<open>Definitions\<close>

definition VERSION :: byte where "VERSION = 2"
definition SALT :: bytes where "SALT = as_bytes ''nip44-v2''"
definition NONCE_LEN :: nat where "NONCE_LEN = 32"
definition MAC_LEN :: nat where "MAC_LEN = 32"
definition MESSAGE_KEY_LEN :: nat where "MESSAGE_KEY_LEN = 76"
definition MIN_ENCODED_PAYLOAD_LEN :: nat where "MIN_ENCODED_PAYLOAD_LEN = 132"
definition MIN_DECODED_PAYLOAD_LEN :: nat where "MIN_DECODED_PAYLOAD_LEN = 99"
definition EXTENDED_PREFIX_THRESHOLD :: nat where "EXTENDED_PREFIX_THRESHOLD = 65536"
definition MAX_PLAINTEXT_LEN :: nat where "MAX_PLAINTEXT_LEN = 1024 * 1024"

datatype nip44_error =
    InvalidSecretKey | InvalidPublicKey | InvalidPlaintextLength | PayloadTooLarge
  | InvalidPayloadSize | InvalidBase64 | Nip44_UnsupportedVersion | InvalidMac | InvalidPadding
  | InvalidUtf8 | RandomnessUnavailable | KeyDerivationFailed

text \<open>Checked arithmetic on the 64-bit \<open>usize\<close>.\<close>

definition usize_checked :: "nat \<Rightarrow> nat option" where
  "usize_checked n = (if n < 2 ^ 64 then Some n else None)"

fun bit_len :: "nat \<Rightarrow> nat" where
  "bit_len n = (if n = 0 then 0 else Suc (bit_len (n div 2)))"

declare bit_len.simps [simp del]

definition checked_next_power_of_two :: "nat \<Rightarrow> nat option" where
  "checked_next_power_of_two n = usize_checked (2 ^ bit_len (n - 1))"

definition calc_padded_len :: "nat \<Rightarrow> nip44_error + nat" where
  "calc_padded_len plaintext_len =
     (if plaintext_len = 0 then Inl InvalidPlaintextLength
      else if plaintext_len \<le> 32 then Inr 32
      else case checked_next_power_of_two plaintext_len of
        None \<Rightarrow> Inl PayloadTooLarge
      | Some next_power \<Rightarrow>
          let chunk = (if next_power \<le> 256 then 32 else next_power div 8) in
          ok_or PayloadTooLarge
            (Option.bind (usize_checked ((plaintext_len - 1) div chunk + 1))
               (\<lambda>chunks. usize_checked (chunks * chunk))))"

definition pad :: "bytes \<Rightarrow> nip44_error + bytes" where
  "pad plaintext =
     (let plaintext_len = length plaintext in
      if plaintext_len = 0 then Inl InvalidPlaintextLength
      else if MAX_PLAINTEXT_LEN < plaintext_len \<or> 2 ^ 32 - 1 < plaintext_len then Inl PayloadTooLarge
      else and_then (calc_padded_len plaintext_len) (\<lambda>padded_len.
        let prefix = (if EXTENDED_PREFIX_THRESHOLD \<le> plaintext_len
                      then [0, 0] @ be_bytes 4 plaintext_len else be_bytes 2 plaintext_len) in
        Inr (prefix @ plaintext @ replicate (padded_len - plaintext_len) 0)))"

definition unpad :: "bytes \<Rightarrow> nip44_error + bytes" where
  "unpad padded =
     (if length padded < 2 then Inl InvalidPadding
      else
        let first = from_be (take 2 padded) in
        and_then
          (if first = 0 then
             if length padded < 6 then Inl InvalidPadding
             else
               let len = from_be (take 4 (drop 2 padded)) in
               if len < EXTENDED_PREFIX_THRESHOLD then Inl InvalidPadding else Inr (6, len)
           else Inr (2, first))
          (\<lambda>(prefix_len, plaintext_len).
             if MAX_PLAINTEXT_LEN < plaintext_len then Inl PayloadTooLarge
             else and_then (calc_padded_len plaintext_len) (\<lambda>padded_len.
               case usize_checked (prefix_len + padded_len) of
                 None \<Rightarrow> Inl InvalidPadding
               | Some expected \<Rightarrow>
                   if length padded \<noteq> expected then Inl InvalidPadding
                   else case usize_checked (prefix_len + plaintext_len) of
                     None \<Rightarrow> Inl InvalidPadding
                   | Some end_index \<Rightarrow>
                       if end_index \<le> length padded
                       then Inr (take plaintext_len (drop prefix_len padded))
                       else Inl InvalidPadding)))"

definition maximum_encoded_payload_len :: "nip44_error + nat" where
  "maximum_encoded_payload_len =
     (let prefix_len = (if EXTENDED_PREFIX_THRESHOLD \<le> MAX_PLAINTEXT_LEN then 6 else 2) in
      and_then (calc_padded_len MAX_PLAINTEXT_LEN) (\<lambda>padded_len.
        ok_or PayloadTooLarge
          (Option.bind (usize_checked (1 + NONCE_LEN + prefix_len + padded_len + MAC_LEN)) (\<lambda>raw_len.
           Option.bind (usize_checked (raw_len + 2)) (\<lambda>n. usize_checked (n div 3 * 4))))))"

definition message_keys :: "nip44_crates \<Rightarrow> bytes \<Rightarrow> bytes \<Rightarrow> nip44_error + bytes" where
  "message_keys l key nonce =
     ok_or KeyDerivationFailed
       (Option.bind (hkdf_from_prk l key) (\<lambda>h. hkdf_expand l h nonce MESSAGE_KEY_LEN))"

definition encrypt_with_conversation_key ::
  "nip44_crates \<Rightarrow> bytes \<Rightarrow> string \<Rightarrow> bytes \<Rightarrow> nip44_error + string" where
  "encrypt_with_conversation_key l key plaintext nonce =
     and_then (pad (as_bytes plaintext)) (\<lambda>padded.
     and_then (message_keys l key nonce) (\<lambda>keys.
     and_then (ok_or KeyDerivationFailed
                (chacha20 l (take 32 keys) (take 12 (drop 32 keys)) padded)) (\<lambda>ciphertext.
     and_then (ok_or KeyDerivationFailed (hmac l (drop 44 keys) (nonce @ ciphertext))) (\<lambda>mac.
     Inr (b64_encode l (VERSION # nonce @ ciphertext @ mac))))))"

text \<open>\<open>verify_slice\<close> succeeds exactly when the supplied bytes are the computed code.\<close>

definition decrypt_with_conversation_key ::
  "nip44_crates \<Rightarrow> bytes \<Rightarrow> string \<Rightarrow> nip44_error + string" where
  "decrypt_with_conversation_key l key payload =
     (if payload = [] \<or> hd payload = CHR ''#'' then Inl Nip44_UnsupportedVersion
      else if length payload < MIN_ENCODED_PAYLOAD_LEN then Inl InvalidPayloadSize
      else and_then maximum_encoded_payload_len (\<lambda>maximum.
        if maximum < length payload then Inl PayloadTooLarge
        else case b64_decode l payload of
          None \<Rightarrow> Inl InvalidBase64
        | Some decoded \<Rightarrow>
            if length decoded < MIN_DECODED_PAYLOAD_LEN then Inl InvalidPayloadSize
            else if decoded ! 0 \<noteq> VERSION then Inl Nip44_UnsupportedVersion
            else
              let nonce = take 32 (drop 1 decoded);
                  ciphertext_end = length decoded - MAC_LEN;
                  ciphertext = drop 33 (take ciphertext_end decoded);
                  supplied_mac = drop ciphertext_end decoded in
              and_then (message_keys l key nonce) (\<lambda>keys.
              and_then (ok_or KeyDerivationFailed (hmac l (drop 44 keys) (nonce @ ciphertext)))
                (\<lambda>mac.
              if mac \<noteq> supplied_mac then Inl InvalidMac
              else
              and_then (ok_or KeyDerivationFailed
                (chacha20 l (take 32 keys) (take 12 (drop 32 keys)) ciphertext)) (\<lambda>padded.
              and_then (unpad padded) (\<lambda>plaintext.
                let s = map (\<lambda>b. char_of (unat b)) plaintext in
                if is_utf8 s then Inr s else Inl InvalidUtf8))))))"

definition conversation_key :: "nip44_crates \<Rightarrow> bytes \<Rightarrow> bytes \<Rightarrow> nip44_error + bytes" where
  "conversation_key l local_secret peer_public_key =
     (if \<not> secret_ok l local_secret then Inl InvalidSecretKey
      else if \<not> point_ok l (2 # peer_public_key) then Inl InvalidPublicKey
      else case shared_x l local_secret peer_public_key of
        None \<Rightarrow> Inl InvalidPublicKey
      | Some x \<Rightarrow> Inr (hkdf_extract l SALT x))"

definition encrypt_with_nonce ::
  "nip44_crates \<Rightarrow> bytes \<Rightarrow> bytes \<Rightarrow> string \<Rightarrow> bytes \<Rightarrow> nip44_error + string" where
  "encrypt_with_nonce l local_secret peer_public_key plaintext nonce =
     and_then (conversation_key l local_secret peer_public_key)
       (\<lambda>key. encrypt_with_conversation_key l key plaintext nonce)"

definition encrypt ::
  "nip44_crates \<Rightarrow> bytes option \<Rightarrow> bytes \<Rightarrow> bytes \<Rightarrow> string \<Rightarrow> nip44_error + string" where
  "encrypt l random local_secret peer_public_key plaintext =
     (case random of
        None \<Rightarrow> Inl RandomnessUnavailable
      | Some nonce \<Rightarrow> encrypt_with_nonce l local_secret peer_public_key plaintext nonce)"

definition decrypt :: "nip44_crates \<Rightarrow> bytes \<Rightarrow> bytes \<Rightarrow> string \<Rightarrow> nip44_error + string" where
  "decrypt l local_secret peer_public_key payload =
     and_then (conversation_key l local_secret peer_public_key)
       (\<lambda>key. decrypt_with_conversation_key l key payload)"

section \<open>Padded lengths\<close>

lemma bit_len_upper: "n < 2 ^ bit_len n"
proof (induction n rule: bit_len.induct)
  case (1 n)
  show ?case
  proof (cases "n = 0")
    case False
    with 1 have "n div 2 < 2 ^ bit_len (n div 2)" by simp
    with False show ?thesis by (subst bit_len.simps) simp
  qed (simp add: bit_len.simps)
qed

lemma bit_len_le: "n < 2 ^ k \<Longrightarrow> bit_len n \<le> k"
proof (induction n arbitrary: k rule: bit_len.induct)
  case (1 n)
  show ?case
  proof (cases "n = 0")
    case False
    with 1(2) obtain k' where k: "k = Suc k'" by (cases k) auto
    with 1(2) have "n div 2 < 2 ^ k'" by auto
    with 1(1) False k show ?thesis by (subst bit_len.simps) simp
  qed (simp add: bit_len.simps)
qed

lemma next_power:
  assumes "0 < n" and "n \<le> 2 ^ k" and "k < 64"
  shows "\<exists>j \<le> k. checked_next_power_of_two n = Some (2 ^ j) \<and> n \<le> 2 ^ j"
proof -
  have "bit_len (n - 1) \<le> k" using assms by (intro bit_len_le) auto
  moreover have "n \<le> 2 ^ bit_len (n - 1)" using bit_len_upper [of "n - 1"] assms(1) by simp
  moreover have "(2 :: nat) ^ bit_len (n - 1) < 2 ^ 64"
    using calculation(1) assms(3) by (intro power_strict_increasing) auto
  ultimately show ?thesis
    by (auto simp: checked_next_power_of_two_def usize_checked_def)
qed

text \<open>
  For every admissible length the padded length exists, holds the text, is a multiple of 32 and
  does not exceed the limit itself.
\<close>

lemma calc_padded_len_power:
  assumes "0 < n" and "n \<le> 2 ^ k" and k: "5 \<le> k" "k \<le> 20"
  shows "\<exists>p. calc_padded_len n = Inr p \<and> n \<le> p \<and> 32 \<le> p \<and> 32 dvd p \<and> p \<le> 2 ^ k"
proof (cases "n \<le> 32")
  case True
  have "(2 :: nat) ^ 5 \<le> 2 ^ k" using k(1) by (intro power_increasing) auto
  with True assms show ?thesis by (simp add: calc_padded_len_def)
next
  case False
  from next_power [OF assms(1,2)] k obtain j where j: "j \<le> k" "n \<le> 2 ^ j"
    and np: "checked_next_power_of_two n = Some (2 ^ j)"
    by auto
  have "5 < j"
  proof (rule ccontr)
    assume "\<not> 5 < j"
    then have "(2 :: nat) ^ j \<le> 2 ^ 5" by (intro power_increasing) auto
    with j(2) False show False by simp
  qed
  define e where "e = (if j \<le> 8 then 5 else j - 3)"
  have e: "5 \<le> e" "e \<le> j" using \<open>5 < j\<close> by (auto simp: e_def)
  have small: "(2 :: nat) ^ j \<le> 256 \<longleftrightarrow> j \<le> 8"
    using power_increasing_iff [of "2 :: nat" j 8] by simp
  have "(2 :: nat) ^ j = 8 * 2 ^ (j - 3)"
    using \<open>5 < j\<close> power_add [of "2 :: nat" 3 "j - 3"] by simp
  then have eighth: "(2 :: nat) ^ j div 8 = 2 ^ (j - 3)" by simp
  have chunk: "(if (2 :: nat) ^ j \<le> 256 then 32 else 2 ^ j div 8) = (2 :: nat) ^ e"
    unfolding small eighth by (simp add: e_def)
  define p where "p = ((n - 1) div 2 ^ e + 1) * 2 ^ e"
  have "(n - 1) div 2 ^ e * 2 ^ e + (n - 1) mod 2 ^ e = n - 1"
    by (rule div_mult_mod_eq)
  moreover have "(n - 1) mod 2 ^ e < 2 ^ e" by simp
  ultimately have "n - 1 < (n - 1) div 2 ^ e * 2 ^ e + 2 ^ e" by linarith
  then have "n - 1 < p" by (simp add: p_def add.commute)
  then have "n \<le> p" using assms(1) by simp
  have split: "(2 :: nat) ^ j = 2 ^ (j - e) * 2 ^ e" using e by (simp add: power_add [symmetric])
  have "n - 1 < 2 ^ (j - e) * 2 ^ e" using j(2) assms(1) by (simp add: split)
  then have "(n - 1) div 2 ^ e < 2 ^ (j - e)" by (simp add: less_mult_imp_div_less)
  then have "(n - 1) div 2 ^ e + 1 \<le> 2 ^ (j - e)" by simp
  then have "p \<le> 2 ^ j" unfolding p_def split by (rule mult_le_mono1)
  also have "(2 :: nat) ^ j \<le> 2 ^ k" using j(1) by (intro power_increasing) auto
  finally have le: "p \<le> 2 ^ k" .
  also have "(2 :: nat) ^ k \<le> 2 ^ 20" using k(2) by (intro power_increasing) auto
  finally have "p \<le> 2 ^ 20" .
  have "(n - 1) div 2 ^ e + 1 \<le> p"
    using mult_le_mono2 [of 1 "2 ^ e" "(n - 1) div 2 ^ e + 1"] by (simp add: p_def)
  then have fits: "(n - 1) div 2 ^ e + 1 < 2 ^ 64" "p < 2 ^ 64"
    using \<open>p \<le> 2 ^ 20\<close> by simp_all
  have "(2 :: nat) ^ 5 dvd 2 ^ e" using e(1) by (rule le_imp_power_dvd)
  then have "32 dvd p" by (simp add: p_def)
  moreover have "calc_padded_len n = Inr p"
    using False assms(1) np fits chunk
    by (simp add: calc_padded_len_def usize_checked_def Let_def p_def)
  ultimately show ?thesis
    using \<open>n \<le> p\<close> le False by auto
qed

lemma calc_padded_len_ok:
  assumes "0 < n" and "n \<le> MAX_PLAINTEXT_LEN"
  shows "\<exists>p. calc_padded_len n = Inr p \<and> n \<le> p \<and> 32 \<le> p \<and> 32 dvd p \<and> p \<le> MAX_PLAINTEXT_LEN"
  using calc_padded_len_power [of n 20] assms by (simp add: MAX_PLAINTEXT_LEN_def)

section \<open>Round trips\<close>

lemma pad_ok:
  assumes "0 < length pt" and "length pt \<le> MAX_PLAINTEXT_LEN"
  obtains p prefix where "calc_padded_len (length pt) = Inr p" "length pt \<le> p" "32 \<le> p"
    "p \<le> MAX_PLAINTEXT_LEN"
    "prefix = (if EXTENDED_PREFIX_THRESHOLD \<le> length pt
       then [0, 0] @ be_bytes 4 (length pt) else be_bytes 2 (length pt))"
    "pad pt = Inr (prefix @ pt @ replicate (p - length pt) 0)"
proof -
  from calc_padded_len_ok [OF assms] obtain p where p: "calc_padded_len (length pt) = Inr p"
    "length pt \<le> p" "32 \<le> p" "p \<le> MAX_PLAINTEXT_LEN" by blast
  with assms show ?thesis
    by (intro that [of p]) (auto simp: pad_def Let_def MAX_PLAINTEXT_LEN_def)
qed

lemma unpad_short:
  assumes "0 < length pt" and "length pt < EXTENDED_PREFIX_THRESHOLD"
    and "calc_padded_len (length pt) = Inr p" and "length pt \<le> p" and "p \<le> MAX_PLAINTEXT_LEN"
  shows "unpad (be_bytes 2 (length pt) @ pt @ replicate (p - length pt) 0) = Inr pt"
proof -
  have "from_be (be_bytes 2 (length pt)) = length pt"
    using assms(2) by (simp add: from_be_be_bytes EXTENDED_PREFIX_THRESHOLD_def)
  with assms show ?thesis
    by (simp add: unpad_def Let_def usize_checked_def EXTENDED_PREFIX_THRESHOLD_def
        MAX_PLAINTEXT_LEN_def)
qed

lemma unpad_long:
  assumes "EXTENDED_PREFIX_THRESHOLD \<le> length pt" and "length pt \<le> MAX_PLAINTEXT_LEN"
    and "calc_padded_len (length pt) = Inr p" and "length pt \<le> p" and "p \<le> MAX_PLAINTEXT_LEN"
  shows "unpad (([0, 0] @ be_bytes 4 (length pt)) @ pt @ replicate (p - length pt) 0) = Inr pt"
proof -
  have "from_be (be_bytes 4 (length pt)) = length pt"
    using assms(2) by (simp add: from_be_be_bytes MAX_PLAINTEXT_LEN_def)
  moreover have "from_be [0, 0] = 0" by (simp add: from_be_def)
  ultimately show ?thesis
    using assms by (simp add: unpad_def Let_def usize_checked_def MAX_PLAINTEXT_LEN_def)
qed

lemma pad_unpad:
  assumes "pad pt = Inr padded"
  shows "unpad padded = Inr pt" and "0 < length pt" and "length pt \<le> MAX_PLAINTEXT_LEN"
    and "34 \<le> length padded" and "length padded \<le> 6 + MAX_PLAINTEXT_LEN"
proof -
  show pos: "0 < length pt" and max: "length pt \<le> MAX_PLAINTEXT_LEN"
    using assms by (auto simp: pad_def Let_def split: if_splits)
  from pos max obtain p prefix where p: "calc_padded_len (length pt) = Inr p" "length pt \<le> p" "32 \<le> p"
    "p \<le> MAX_PLAINTEXT_LEN"
    and prefix: "prefix = (if EXTENDED_PREFIX_THRESHOLD \<le> length pt
       then [0, 0] @ be_bytes 4 (length pt) else be_bytes 2 (length pt))"
    and pad: "pad pt = Inr (prefix @ pt @ replicate (p - length pt) 0)"
    by (rule pad_ok)
  then have padded: "padded = prefix @ pt @ replicate (p - length pt) 0" using assms by simp
  show "unpad padded = Inr pt"
    using unpad_short [OF pos _ p(1,2,4)] unpad_long [OF _ max p(1,2,4)]
    by (simp only: padded prefix split: if_split) simp
  show "34 \<le> length padded" "length padded \<le> 6 + MAX_PLAINTEXT_LEN"
    using p by (auto simp: padded prefix)
qed

text \<open>
  NIP-44 padding is lossless and hides the length in size classes. Every text of 1 byte to
  1 MiB is padded to a total whose padded part is a multiple of 32 bytes, at least 32 and at most
  1 MiB, and removing the padding returns exactly the text. Both length prefixes are covered.
\<close>

theorem padding_roundtrip:
  assumes "0 < length pt" and "length pt \<le> MAX_PLAINTEXT_LEN"
  shows "\<exists>padded p. pad pt = Inr padded \<and> unpad padded = Inr pt
    \<and> calc_padded_len (length pt) = Inr p \<and> 32 dvd p \<and> length pt \<le> p \<and> p \<le> MAX_PLAINTEXT_LEN
    \<and> length padded = p + (if length pt < EXTENDED_PREFIX_THRESHOLD then 2 else 6)"
proof -
  from assms obtain p prefix where p: "calc_padded_len (length pt) = Inr p" "length pt \<le> p"
    and prefix: "prefix = (if EXTENDED_PREFIX_THRESHOLD \<le> length pt
       then [0, 0] @ be_bytes 4 (length pt) else be_bytes 2 (length pt))"
    and pad: "pad pt = Inr (prefix @ pt @ replicate (p - length pt) 0)"
    by (rule pad_ok)
  with calc_padded_len_ok [OF assms] pad_unpad(1) [OF pad] show ?thesis
    by (auto simp: prefix)
qed

theorem padding_roundtrip_witness:
  "\<exists>padded. pad (as_bytes ''hello'') = Inr padded \<and> unpad padded = Inr (as_bytes ''hello'')
    \<and> length padded = 34"
proof -
  have "calc_padded_len (length (as_bytes ''hello'')) = Inr 32" by (simp add: calc_padded_len_def)
  then show ?thesis
    using padding_roundtrip [of "as_bytes ''hello''"]
    by (auto simp: MAX_PLAINTEXT_LEN_def EXTENDED_PREFIX_THRESHOLD_def)
qed

lemma maximum_encoded: "maximum_encoded_payload_len = Inr 1398196"
proof -
  have "bit_len 1048575 = 20" by (simp add: bit_len.simps)
  then have "calc_padded_len 1048576 = Inr 1048576"
    by (simp add: calc_padded_len_def checked_next_power_of_two_def usize_checked_def)
  then show ?thesis
    by (simp add: maximum_encoded_payload_len_def MAX_PLAINTEXT_LEN_def EXTENDED_PREFIX_THRESHOLD_def
        NONCE_LEN_def MAC_LEN_def usize_checked_def)
qed

lemma chars_of_as_bytes: "map (\<lambda>b. char_of (unat b)) (as_bytes s) = s"
  by (simp add: as_bytes_def comp_def unat_of_char_byte)

lemma message_keys_ok:
  assumes "nip44_laws l" and "length key = 32"
  obtains keys where "message_keys l key nonce = Inr keys" "length keys = 76"
proof -
  from assms obtain h okm where "hkdf_from_prk l key = Some h" "hkdf_expand l h nonce 76 = Some okm"
    "length okm = 76"
    unfolding nip44_laws_def by blast
  then show ?thesis by (intro that) (simp_all add: message_keys_def MESSAGE_KEY_LEN_def)
qed

lemma cipher_ok:
  assumes "nip44_laws l" and "length keys = 76"
  obtains ct where "chacha20 l (take 32 keys) (take 12 (drop 32 keys)) m = Some ct"
    "length ct = length m" "chacha20 l (take 32 keys) (take 12 (drop 32 keys)) ct = Some m"
proof -
  have "length (take 32 keys) = 32" "length (take 12 (drop 32 keys)) = 12" using assms(2) by simp_all
  with assms(1) show ?thesis using that unfolding nip44_laws_def by blast
qed

lemma mac_ok:
  assumes "nip44_laws l"
  obtains t where "hmac l k m = Some t" "length t = 32"
  using assms unfolding nip44_laws_def by blast

lemma b64_ok:
  assumes "nip44_laws l"
  shows "b64_decode l (b64_encode l bs) = Some bs"
    and "length (b64_encode l bs) = (length bs + 2) div 3 * 4"
    and "b64_encode l bs \<noteq> [] \<Longrightarrow> hd (b64_encode l bs) \<noteq> CHR ''#''"
    and "is_utf8 (b64_encode l bs)"
proof -
  from assms have all: "b64_decode l (b64_encode l bs) = Some bs
      \<and> length (b64_encode l bs) = (length bs + 2) div 3 * 4 \<and> CHR ''#'' \<notin> set (b64_encode l bs)
      \<and> list_all (\<lambda>x. byte_val x \<le> 127) (b64_encode l bs)"
    unfolding nip44_laws_def by blast
  then show "b64_decode l (b64_encode l bs) = Some bs"
    "length (b64_encode l bs) = (length bs + 2) div 3 * 4" by auto
  show "is_utf8 (b64_encode l bs)" using all by (intro is_utf8_ascii) (simp add: list_all_iff)
  show "hd (b64_encode l bs) \<noteq> CHR ''#''" if "b64_encode l bs \<noteq> []"
    using all hd_in_set [OF that] by auto
qed

lemma envelope_roundtrip:
  assumes laws: "nip44_laws l" and key: "length key = 32" and nonce: "length nonce = NONCE_LEN"
    and msg: "is_utf8 msg" "0 < length msg" "length msg \<le> MAX_PLAINTEXT_LEN"
  shows "\<exists>payload. encrypt_with_conversation_key l key msg nonce = Inr payload
    \<and> decrypt_with_conversation_key l key payload = Inr msg"
proof -
  from msg obtain padded where pad: "pad (as_bytes msg) = Inr padded"
    using pad_ok [of "as_bytes msg"] by auto
  note p = pad_unpad [OF pad]
  from message_keys_ok [OF laws key] obtain keys
    where keys: "message_keys l key nonce = Inr keys" "length keys = 76" by blast
  from cipher_ok [OF laws keys(2)] obtain ct
    where ct: "chacha20 l (take 32 keys) (take 12 (drop 32 keys)) padded = Some ct"
      "length ct = length padded" "chacha20 l (take 32 keys) (take 12 (drop 32 keys)) ct = Some padded"
    by blast
  from mac_ok [OF laws] obtain mac
    where mac: "hmac l (drop 44 keys) (nonce @ ct) = Some mac" "length mac = 32" by blast
  let ?raw = "VERSION # nonce @ ct @ mac"
  have len: "length ?raw = 65 + length padded" using nonce ct(2) mac(2) by (simp add: NONCE_LEN_def)
  then have range: "99 \<le> length ?raw" "length ?raw \<le> 1048647"
    using p(4,5) by (simp_all add: MAX_PLAINTEXT_LEN_def)
  have "33 \<le> (length ?raw + 2) div 3" using div_le_mono [of 101 "length ?raw + 2" 3] range(1) by simp
  then have "132 \<le> (length ?raw + 2) div 3 * 4" by linarith
  moreover have "(length ?raw + 2) div 3 \<le> 349549"
    using div_le_mono [of "length ?raw + 2" 1048649 3] range(2) by simp
  then have "(length ?raw + 2) div 3 * 4 \<le> 1398196" by linarith
  ultimately have size: "132 \<le> length (b64_encode l ?raw)" "length (b64_encode l ?raw) \<le> 1398196"
    by (simp_all only: b64_ok(2) [OF laws])
  have slices: "take 32 (drop 1 ?raw) = nonce" "drop 33 (take (length ?raw - 32) ?raw) = ct"
    "drop (length ?raw - 32) ?raw = mac"
    using nonce mac(2) by (simp_all add: NONCE_LEN_def take_Cons' drop_Cons')
  from size have "b64_encode l ?raw \<noteq> []" by auto
  with b64_ok [OF laws] size range(1) nonce mac ct keys p(1) msg(1) slices
  have "decrypt_with_conversation_key l key (b64_encode l ?raw) = Inr msg"
    by (simp add: decrypt_with_conversation_key_def maximum_encoded MIN_ENCODED_PAYLOAD_LEN_def
        MIN_DECODED_PAYLOAD_LEN_def NONCE_LEN_def MAC_LEN_def Let_def chars_of_as_bytes
        del: length_append list.size)
  moreover have "encrypt_with_conversation_key l key msg nonce = Inr (b64_encode l ?raw)"
    using pad keys ct mac by (simp add: encrypt_with_conversation_key_def)
  ultimately show ?thesis by blast
qed

text \<open>
  C9. Encryption round trip. With a 32-byte conversation key and a 32-byte nonce, every UTF-8
  text of 1 byte to 1 MiB is encrypted, and the payload decrypts under the same key to exactly
  that text: the payload always lies within the size limits that decryption enforces.
\<close>

theorem encrypt_decrypt:
  assumes "nip44_laws l" and "length key = 32" and "length nonce = NONCE_LEN"
    and "is_utf8 msg" "0 < length msg" "length msg \<le> MAX_PLAINTEXT_LEN"
  shows "\<exists>payload. encrypt_with_conversation_key l key msg nonce = Inr payload
    \<and> decrypt_with_conversation_key l key payload = Inr msg"
  using assms by (rule envelope_roundtrip)

section \<open>An executable instance\<close>

text \<open>
  Base64 itself, and stand-ins with the same interface and laws for the rest: a length-preserving
  involution for the cipher and prefix functions.
\<close>

definition b64_alphabet :: string where
  "b64_alphabet = ''ABCDEFGHIJKLMNOPQRSTUVWXYZabcdefghijklmnopqrstuvwxyz0123456789+/''"

definition b64_char :: "nat \<Rightarrow> char" where
  "b64_char n = b64_alphabet ! n"

definition b64_val :: "char \<Rightarrow> nat" where
  "b64_val x = length (takeWhile (\<lambda>y. y \<noteq> x) b64_alphabet)"

fun base64 :: "nat list \<Rightarrow> string" where
  "base64 [] = []"
| "base64 [a] = [b64_char (a div 4), b64_char (a mod 4 * 16), CHR ''='', CHR ''='']"
| "base64 [a, b] = [b64_char (a div 4), b64_char (a mod 4 * 16 + b div 16), b64_char (b mod 16 * 4), CHR ''='']"
| "base64 (a # b # c # r) =
     b64_char (a div 4) # b64_char (a mod 4 * 16 + b div 16) # b64_char (b mod 16 * 4 + c div 64)
       # b64_char (c mod 64) # base64 r"

fun unbase64 :: "string \<Rightarrow> nat list option" where
  "unbase64 [] = Some []"
| "unbase64 (w # x # y # z # r) =
     (let a = b64_val w * 4 + b64_val x div 16; b = b64_val x mod 16 * 16 + b64_val y div 4;
          c = b64_val y mod 4 * 64 + b64_val z in
      if y = CHR ''='' then Some [a]
      else if z = CHR ''='' then Some [a, b]
      else map_option (\<lambda>bs. a # b # c # bs) (unbase64 r))"
| "unbase64 _ = None"

lemma takeWhile_nth_distinct:
  "distinct xs \<Longrightarrow> n < length xs \<Longrightarrow> length (takeWhile (\<lambda>y. y \<noteq> xs ! n) xs) = n"
proof (induction xs arbitrary: n)
  case (Cons x xs)
  then show ?case by (cases n) (auto simp: nth_mem)
qed simp

lemma b64_alphabet_facts: "distinct b64_alphabet" "length b64_alphabet = 64" "CHR ''='' \<notin> set b64_alphabet"
  "list_all (\<lambda>x. byte_val x \<le> 127 \<and> x \<noteq> CHR ''#'') b64_alphabet"
  by (simp_all add: b64_alphabet_def)

lemma b64_val_char: "n < 64 \<Longrightarrow> b64_val (b64_char n) = n"
  using takeWhile_nth_distinct [of b64_alphabet n] by (simp add: b64_val_def b64_char_def b64_alphabet_facts)

lemma b64_char_in: "n < 64 \<Longrightarrow> b64_char n \<in> set b64_alphabet"
  by (simp add: b64_char_def b64_alphabet_facts)

lemma b64_char_not_pad: "n < 64 \<Longrightarrow> b64_char n \<noteq> CHR ''=''"
  using b64_char_in b64_alphabet_facts(3) by metis

lemma sextets:
  fixes a b c :: nat
  assumes "a < 256" "b < 256" "c < 256"
  shows "a div 4 < 64" "a mod 4 * 16 < 64" "a mod 4 * 16 + b div 16 < 64" "b mod 16 * 4 < 64"
    "b mod 16 * 4 + c div 64 < 64" "c mod 64 < 64"
proof -
  have d: "a div 4 < 64" "b div 16 < 16" "c div 64 < 4" using assms by (simp_all add: less_mult_imp_div_less)
  have m: "a mod 4 < 4" "b mod 16 < 16" "c mod 64 < 64" by simp_all
  from d m show "a div 4 < 64" "a mod 4 * 16 < 64" "a mod 4 * 16 + b div 16 < 64" "b mod 16 * 4 < 64"
    "b mod 16 * 4 + c div 64 < 64" "c mod 64 < 64" by linarith+
qed

lemma join_split:
  fixes a b :: nat
  assumes "b < k"
  shows "(a * k + b) div k = a" and "(a * k + b) mod k = b"
  using assms by simp_all

lemma unbase64_base64: "list_all (\<lambda>n. n < 256) bs \<Longrightarrow> unbase64 (base64 bs) = Some bs"
proof (induction bs rule: base64.induct)
  case (2 a)
  then show ?case by (simp add: Let_def b64_val_char sextets [of a a a])
next
  case (3 a b)
  then have "b div 16 < 16" by (simp add: less_mult_imp_div_less)
  note j = join_split [OF this, of "a mod 4"]
  with 3 j show ?case
    by (simp add: Let_def b64_val_char b64_char_not_pad sextets [of a b b] mult.commute)
next
  case (4 a b c r)
  then have "b div 16 < 16" "c div 64 < 4" by (simp_all add: less_mult_imp_div_less)
  note j = join_split [OF this(1), of "a mod 4"] join_split [OF this(2), of "b mod 16"]
  with 4 j show ?case
    by (simp add: Let_def b64_val_char b64_char_not_pad sextets [of a b c] mult.commute)
qed simp

lemma length_base64: "length (base64 bs) = (length bs + 2) div 3 * 4"
proof (induction bs rule: base64.induct)
  case (4 a b c r)
  have "(length r + 3 + 2) div 3 = (length r + 2) div 3 + 1" by presburger
  with 4 show ?case by simp
qed simp_all

lemma base64_set: "list_all (\<lambda>n. n < 256) bs \<Longrightarrow> set (base64 bs) \<subseteq> insert CHR ''='' (set b64_alphabet)"
  by (induction bs rule: base64.induct) (auto simp: b64_char_in sextets)

lemma bytes_below: "list_all (\<lambda>n. n < 256) (map unat (bs :: bytes))"
  by (simp add: list_all_iff unat_byte_bound)

definition reference_nip44 :: nip44_crates where
  "reference_nip44 =
    \<lparr>b64_encode = (\<lambda>bs. base64 (map unat bs)), b64_decode = (\<lambda>x. map_option (map word_of_nat) (unbase64 x)),
     chacha20 = (\<lambda>k n m. Some (rev m)),
     hmac = (\<lambda>k m. Some (take 32 (k @ m @ replicate 32 0))),
     hkdf_extract = (\<lambda>salt x. take 32 (x @ replicate 32 0)),
     hkdf_from_prk = Some, hkdf_expand = (\<lambda>prk info n. Some (take n (prk @ info @ replicate n 0))),
     secret_ok = (\<lambda>k. length k = 32), point_ok = (\<lambda>p. length p = 33),
     shared_x = (\<lambda>a b. Some (map2 (+) a b))\<rparr>"

lemma base64_plain:
  assumes "x \<in> set (base64 (map unat (bs :: bytes)))"
  shows "x \<noteq> CHR ''#'' \<and> byte_val x \<le> 127"
proof -
  have "x = CHR ''='' \<or> x \<in> set b64_alphabet" using assms base64_set [OF bytes_below, of bs] by blast
  then show ?thesis
  proof
    assume "x = CHR ''=''"
    then show ?thesis by simp
  qed (use b64_alphabet_facts(4) in \<open>unfold list_all_iff, blast\<close>)
qed

lemma base64_laws:
  fixes bs :: bytes
  shows "CHR ''#'' \<notin> set (base64 (map unat bs))" "list_all (\<lambda>x. byte_val x \<le> 127) (base64 (map unat bs))"
    "map_option (map word_of_nat) (unbase64 (base64 (map unat bs))) = Some bs"
proof -
  show "CHR ''#'' \<notin> set (base64 (map unat bs))" using base64_plain by blast
  show "list_all (\<lambda>x. byte_val x \<le> 127) (base64 (map unat bs))" unfolding list_all_iff using base64_plain by blast
  show "map_option (map word_of_nat) (unbase64 (base64 (map unat bs))) = Some bs"
    by (simp add: unbase64_base64 [OF bytes_below] comp_def)
qed

lemma reference_nip44_laws: "nip44_laws reference_nip44"
  unfolding nip44_laws_def reference_nip44_def by (simp add: base64_laws length_base64 min_def)

theorem encrypt_decrypt_witness:
  "\<exists>payload. encrypt_with_conversation_key reference_nip44 (replicate 32 1) ''hello'' (replicate 32 2)
      = Inr payload
    \<and> decrypt_with_conversation_key reference_nip44 (replicate 32 1) payload = Inr ''hello''"
  by (rule encrypt_decrypt [OF reference_nip44_laws])
    (simp_all add: NONCE_LEN_def MAX_PLAINTEXT_LEN_def is_utf8_ascii)

section \<open>Authenticity\<close>

lemma payload_split:
  assumes "65 \<le> length d"
  shows "d = d ! 0 # take 32 (drop 1 d) @ drop 33 (take (length d - 32) d) @ drop (length d - 32) d"
proof -
  have "drop 33 d = take (length d - 65) (drop 33 d) @ drop (length d - 65) (drop 33 d)"
    by (rule append_take_drop_id [symmetric])
  also have "take (length d - 65) (drop 33 d) = drop 33 (take (length d - 32) d)"
    using assms by (simp add: drop_take)
  also have "drop (length d - 65) (drop 33 d) = drop (length d - 32) d" using assms by simp
  finally have tail: "drop 33 d = drop 33 (take (length d - 32) d) @ drop (length d - 32) d" .
  have "d = d ! 0 # drop 1 d" using assms by (cases d) auto
  also have "drop 1 d = take 32 (drop 1 d) @ drop 33 d"
    using append_take_drop_id [of 32 "drop 1 d"] by simp
  finally show ?thesis using tail by simp
qed

lemma unpad_length:
  assumes "unpad padded = Inr pt"
  shows "0 < length pt" and "length pt \<le> MAX_PLAINTEXT_LEN"
proof -
  from assms obtain prefix_len n p where n: "n \<le> MAX_PLAINTEXT_LEN" "calc_padded_len n = Inr p"
    and pt: "pt = take n (drop prefix_len padded)" and len: "prefix_len + n \<le> length padded"
    by (auto simp: unpad_def Let_def usize_checked_def not_less split: if_splits)
  from n(2) have "0 < n" by (auto simp: calc_padded_len_def split: if_splits)
  with n pt len show "0 < length pt" "length pt \<le> MAX_PLAINTEXT_LEN" by auto
qed

lemma decrypt_elim:
  assumes "decrypt_with_conversation_key l key payload = Inr msg"
  obtains decoded keys padded plaintext where
    "b64_decode l payload = Some decoded" "99 \<le> length decoded" "decoded ! 0 = VERSION"
    "message_keys l key (take 32 (drop 1 decoded)) = Inr keys"
    "hmac l (drop 44 keys) (take 32 (drop 1 decoded) @ drop 33 (take (length decoded - 32) decoded))
       = Some (drop (length decoded - 32) decoded)"
    "unpad padded = Inr plaintext" "msg = map (\<lambda>b. char_of (unat b)) plaintext" "is_utf8 msg"
    "132 \<le> length payload" "length payload \<le> 1398196"
proof -
  note [simp] = decrypt_with_conversation_key_def maximum_encoded MIN_ENCODED_PAYLOAD_LEN_def
    MIN_DECODED_PAYLOAD_LEN_def MAC_LEN_def
  show ?thesis
    using assms by (auto simp: Let_def split: if_splits option.splits intro!: that)
qed

text \<open>
  Nothing unauthenticated is returned. When decryption returns a text, the payload is within
  the size limits, decodes to version 2, a 32-byte nonce, a ciphertext and a 32-byte code, and that
  code is the HMAC of nonce and ciphertext under the key derived for this conversation and nonce;
  the text is valid UTF-8 of 1 byte to 1 MiB.
\<close>

theorem decrypt_authentic:
  assumes "decrypt_with_conversation_key l key payload = Inr msg"
  shows "\<exists>nonce ct mac keys. b64_decode l payload = Some (VERSION # nonce @ ct @ mac)
    \<and> length nonce = NONCE_LEN \<and> length mac = MAC_LEN
    \<and> message_keys l key nonce = Inr keys
    \<and> hmac l (drop 44 keys) (nonce @ ct) = Some mac
    \<and> 132 \<le> length payload \<and> length payload \<le> 1398196
    \<and> is_utf8 msg \<and> 0 < length msg \<and> length msg \<le> MAX_PLAINTEXT_LEN"
  using assms
proof (rule decrypt_elim)
  fix d keys padded plaintext
  assume d: "b64_decode l payload = Some d" "99 \<le> length d" "d ! 0 = VERSION"
    and rest: "message_keys l key (take 32 (drop 1 d)) = Inr keys"
      "hmac l (drop 44 keys) (take 32 (drop 1 d) @ drop 33 (take (length d - 32) d))
         = Some (drop (length d - 32) d)"
      "132 \<le> length payload" "length payload \<le> 1398196" "is_utf8 msg"
    and un: "unpad padded = Inr plaintext" and msg: "msg = map (\<lambda>b. char_of (unat b)) plaintext"
  have "d = VERSION # take 32 (drop 1 d) @ drop 33 (take (length d - 32) d) @ drop (length d - 32) d"
    using payload_split [of d] d by simp
  with d have dec: "b64_decode l payload = Some (VERSION # take 32 (drop 1 d)
      @ drop 33 (take (length d - 32) d) @ drop (length d - 32) d)" by simp
  have "length (take 32 (drop 1 d)) = NONCE_LEN" "length (drop (length d - 32) d) = MAC_LEN"
    "0 < length msg" "length msg \<le> MAX_PLAINTEXT_LEN"
    using d unpad_length [OF un] by (simp_all add: NONCE_LEN_def MAC_LEN_def msg)
  with dec rest show ?thesis by blast
qed

theorem decrypt_authentic_witness:
  "\<exists>payload nonce ct mac.
     decrypt_with_conversation_key reference_nip44 (replicate 32 1) payload = Inr ''hello''
     \<and> b64_decode reference_nip44 payload = Some (VERSION # nonce @ ct @ mac) \<and> length mac = MAC_LEN"
proof -
  have "\<exists>payload. encrypt_with_conversation_key reference_nip44 (replicate 32 1) ''hello'' (replicate 32 2)
      = Inr payload
    \<and> decrypt_with_conversation_key reference_nip44 (replicate 32 1) payload = Inr ''hello''"
    by (rule envelope_roundtrip [OF reference_nip44_laws])
      (simp_all add: NONCE_LEN_def MAX_PLAINTEXT_LEN_def is_utf8_ascii)
  then show ?thesis using decrypt_authentic by blast
qed

end
