(* ===== verification/Urls.thy ===== *)
theory Urls
  imports Text
begin

text \<open>
  What the program reads of a parsed URL. Parsing is the work of the \<open>url\<close> crate and is the
  parameter \<open>url_crate\<close> of the definitions that use it: \<open>None\<close> for a parse error. \<open>url_host\<close> is
  \<open>host_str()\<close> (an IPv6 host in brackets), \<open>url_address\<close> is \<open>host()\<close>, \<open>url_port\<close> is
  \<open>port_or_known_default()\<close>, \<open>url_text\<close> is the serialization \<open>as_str()\<close>.
\<close>

datatype host = Domain string | Ipv4 u32 | Ipv6 "128 word"

text \<open>\<open>is_loopback\<close> of the two address types.\<close>

fun host_is_loopback :: "host \<Rightarrow> bool" where
  "host_is_loopback (Domain _) = False"
| "host_is_loopback (Ipv4 a) = (unat a div 2 ^ 24 = 127)"
| "host_is_loopback (Ipv6 a) = (a = 1)"

record url =
  url_scheme :: string
  url_host :: "string option"
  url_address :: "host option"
  url_port :: "nat option"
  url_username :: string
  url_password :: "string option"
  url_query :: "string option"
  url_fragment :: "string option"
  url_text :: string

type_synonym url_crate = "string \<Rightarrow> url option"

text \<open>An instance that knows the two URLs of the examples.\<close>

definition plain_url :: "string \<Rightarrow> string \<Rightarrow> nat \<Rightarrow> string \<Rightarrow> url" where
  "plain_url s h p x =
    \<lparr>url_scheme = s, url_host = Some h, url_address = Some (Domain h), url_port = Some p, url_username = [], url_password = None,
     url_query = None, url_fragment = None, url_text = x\<rparr>"

definition reference_urls :: url_crate where
  "reference_urls x =
     (if x = ''wss://a.example/'' then Some (plain_url ''wss'' ''a.example'' 443 x)
      else if x = ''wss://b.example/'' then Some (plain_url ''wss'' ''b.example'' 443 x)
      else None)"

end
