(* ===== verification/Gift_Wrap.thy ===== *)
theory Gift_Wrap
  imports Nostr_Event Nip44 Urls
begin

text \<open>
  NIP-59 gift wraps (\<open>omachat-nostr/src/gift_wrap.rs\<close>): a chat message is an unsigned \<open>rumor\<close>,
  encrypted and signed by its author in a seal, which is encrypted again in a wrap signed by a
  one-time key. Shown: whatever opens is authentic, that is the author named by the rumor signed
  the seal around it; and what \<open>create_gift_wrap_with_material\<close> builds is opened by its recipient
  to the same rumor.
\<close>

section \<open>Types\<close>

definition SEAL_KIND :: u32 where "SEAL_KIND = 13"
definition CHAT_MESSAGE_KIND :: u32 where "CHAT_MESSAGE_KIND = 14"
definition GIFT_WRAP_KIND :: u32 where "GIFT_WRAP_KIND = 1059"
definition EPHEMERAL_GIFT_WRAP_KIND :: u32 where "EPHEMERAL_GIFT_WRAP_KIND = 21059"
definition MAX_CHAT_RECIPIENTS :: nat where "MAX_CHAT_RECIPIENTS = 10"
definition MAX_TIMESTAMP_SKEW_SECONDS :: u64 where "MAX_TIMESTAMP_SKEW_SECONDS = 2 * 24 * 60 * 60"

lemmas gift_kinds = SEAL_KIND_def CHAT_MESSAGE_KIND_def GIFT_WRAP_KIND_def EPHEMERAL_GIFT_WRAP_KIND_def

record rumor =
  r_id :: string
  r_pubkey :: string
  r_created_at :: u64
  r_kind :: u32
  r_tags :: "tag list"
  r_content :: string

record chat_recipient =
  recipient_public_key :: bytes
  relay_hint :: "string option"

datatype gift_wrap_persistence = Persistent | Ephemeral

fun persistence_kind :: "gift_wrap_persistence \<Rightarrow> u32" where
  "persistence_kind Persistent = GIFT_WRAP_KIND"
| "persistence_kind Ephemeral = EPHEMERAL_GIFT_WRAP_KIND"

record gift_wrap_material =
  seal_created_at :: u64
  seal_nonce :: bytes
  seal_auxiliary_randomness :: bytes
  wrapper_secret_key :: bytes
  wrapper_created_at :: u64
  wrapper_nonce :: bytes
  wrapper_auxiliary_randomness :: bytes

record opened_gift_wrap =
  opened_seal :: signed_event
  opened_rumor :: rumor

datatype gift_wrap_error =
    Gift_Event event_error
  | Gift_Encryption nip44_error
  | Gift_Json
  | InvalidRecipientCount
  | DuplicateOrSelfRecipient
  | InvalidRelayHint
  | Gift_InvalidHex
  | RumorIdMismatch
  | AuthorMismatch
  | WrongWrapperKind
  | RecipientMismatch
  | WrongSealKind
  | SealHasTags
  | RumorTooLarge
  | Gift_RandomnessUnavailable

section \<open>Rumors\<close>

definition rumor_unsigned :: "rumor \<Rightarrow> unsigned_event" where
  "rumor_unsigned r =
    \<lparr>u_pubkey = r_pubkey r, u_created_at = r_created_at r, u_kind = r_kind r, u_tags = r_tags r,
     u_content = r_content r\<rparr>"

definition Rumor_new ::
  "crates \<Rightarrow> json_crate \<Rightarrow> unsigned_event \<Rightarrow> event_limits \<Rightarrow> gift_wrap_error + rumor" where
  "Rumor_new c jc event limits =
     and_then (map_err Gift_Event (UnsignedEvent_new c (u_pubkey event) (u_created_at event) (u_kind event)
        (u_tags event) (u_content event) limits)) (\<lambda>event.
     and_then (map_err Gift_Event (event_id c jc event)) (\<lambda>digest.
     Inr \<lparr>r_id = hex_encode c digest, r_pubkey = u_pubkey event, r_created_at = u_created_at event,
          r_kind = u_kind event, r_tags = u_tags event, r_content = u_content event\<rparr>))"

definition Rumor_verify :: "crates \<Rightarrow> json_crate \<Rightarrow> event_limits \<Rightarrow> rumor \<Rightarrow> gift_wrap_error + unit" where
  "Rumor_verify c jc limits r =
     and_then (map_err Gift_Event (UnsignedEvent_new c (r_pubkey r) (r_created_at r) (r_kind r)
        (r_tags r) (r_content r) limits)) (\<lambda>event.
     and_then (map_err Gift_Event (event_id c jc event)) (\<lambda>digest.
     if hex_encode c digest \<noteq> r_id r then Inl RumorIdMismatch else Inr ()))"

definition rumor_json :: "rumor \<Rightarrow> json" where
  "rumor_json r =
     JObj [(''id'', JStr (r_id r)), (''pubkey'', JStr (r_pubkey r)),
              (''created_at'', JInt (uint (r_created_at r))), (''kind'', JInt (uint (r_kind r))),
              (''tags'', tags_json (r_tags r)), (''content'', JStr (r_content r))]"

definition de_rumor :: "json \<Rightarrow> rumor option" where
  "de_rumor j =
     (case de_struct [''id'', ''pubkey'', ''created_at'', ''kind'', ''tags'', ''content''] j of
        Some [a, b, t, k, ts, x] \<Rightarrow>
          (case (de_string a, de_string b, de_u64 t, de_u32 k, de_vec (de_vec de_string) ts, de_string x) of
             (Some a, Some b, Some t, Some k, Some ts, Some x) \<Rightarrow>
               Some \<lparr>r_id = a, r_pubkey = b, r_created_at = t, r_kind = k, r_tags = ts, r_content = x\<rparr>
           | _ \<Rightarrow> None)
      | _ \<Rightarrow> None)"

section \<open>Validation\<close>

definition validate_relay_hint :: "url_crate \<Rightarrow> string \<Rightarrow> gift_wrap_error + unit" where
  "validate_relay_hint urls relay =
     and_then (ok_or InvalidRelayHint (urls relay)) (\<lambda>parsed.
     if url_scheme parsed \<notin> {''ws'', ''wss''} \<or> url_host parsed = None \<or> url_username parsed \<noteq> []
        \<or> url_password parsed \<noteq> None \<or> url_fragment parsed \<noteq> None
     then Inl InvalidRelayHint else Inr ())"

definition validate_lower_hex :: "string \<Rightarrow> nat \<Rightarrow> gift_wrap_error + unit" where
  "validate_lower_hex value n =
     (if length value \<noteq> n * 2 \<or> list_ex (\<lambda>b. \<not> is_lower_hexdigit b) value then Inl Gift_InvalidHex else Inr ())"

definition decode_lower_hex_32 :: "crates \<Rightarrow> string \<Rightarrow> gift_wrap_error + bytes" where
  "decode_lower_hex_32 c value =
     and_then (validate_lower_hex value 32) (\<lambda>_.
     case hex_decode c value of
       None \<Rightarrow> Inl Gift_InvalidHex
     | Some bs \<Rightarrow> if length bs = 32 then Inr bs else Inl Gift_InvalidHex)"

section \<open>Chat rumors\<close>

fun recipient_tags ::
  "crates \<Rightarrow> url_crate \<Rightarrow> string \<Rightarrow> string list \<Rightarrow> chat_recipient list \<Rightarrow> gift_wrap_error + tag list" where
  "recipient_tags c urls sender seen [] = Inr []"
| "recipient_tags c urls sender seen (r # rs) =
     (let public_key = hex_encode c (recipient_public_key r) in
      if public_key = sender \<or> public_key \<in> set seen then Inl DuplicateOrSelfRecipient
      else
        and_then (case relay_hint r of
                    None \<Rightarrow> Inr [''p'', public_key]
                  | Some relay \<Rightarrow> and_then (validate_relay_hint urls relay) (\<lambda>_. Inr [''p'', public_key, relay])) (\<lambda>tag.
        and_then (recipient_tags c urls sender (public_key # seen) rs) (\<lambda>tags. Inr (tag # tags))))"

definition create_chat_rumor ::
  "crates \<Rightarrow> json_crate \<Rightarrow> url_crate \<Rightarrow> bytes \<Rightarrow> u64 \<Rightarrow> chat_recipient list \<Rightarrow> string \<Rightarrow> string option
     \<Rightarrow> string option \<Rightarrow> event_limits \<Rightarrow> gift_wrap_error + rumor" where
  "create_chat_rumor c jc urls sender_secret_key created recipients body subject reply_to limits =
     (if recipients = [] \<or> MAX_CHAT_RECIPIENTS < length recipients then Inl InvalidRecipientCount
      else
        and_then (map_err Gift_Event (xonly_public_key c sender_secret_key)) (\<lambda>sender_key.
        let sender = hex_encode c sender_key in
        and_then (recipient_tags c urls sender [] recipients) (\<lambda>tags.
        and_then (case reply_to of
                    None \<Rightarrow> Inr tags
                  | Some reply \<Rightarrow> and_then (validate_lower_hex reply 32) (\<lambda>_. Inr (tags @ [[''e'', reply]]))) (\<lambda>tags.
        let tags = (case subject of None \<Rightarrow> tags | Some x \<Rightarrow> tags @ [[''subject'', x]]) in
        and_then (map_err Gift_Event (UnsignedEvent_new c sender created CHAT_MESSAGE_KIND tags body limits)) (\<lambda>event.
          Rumor_new c jc event limits)))))"

section \<open>Wrapping\<close>

text \<open>The seal around a rumor, and the wrap around a seal.\<close>

definition seal_rumor ::
  "crates \<Rightarrow> json_crate \<Rightarrow> nip44_crates \<Rightarrow> rumor \<Rightarrow> bytes \<Rightarrow> bytes \<Rightarrow> gift_wrap_material \<Rightarrow> event_limits
     \<Rightarrow> gift_wrap_error + signed_event" where
  "seal_rumor c jc l r sender_secret_key recipient material limits =
     and_then (ok_or Gift_Json (json_to_vec jc (rumor_json r))) (\<lambda>text.
     and_then (map_err Gift_Encryption
        (encrypt_with_nonce l sender_secret_key recipient (text_of text) (seal_nonce material))) (\<lambda>encrypted_rumor.
     and_then (map_err Gift_Event
        (UnsignedEvent_new c (r_pubkey r) (seal_created_at material) SEAL_KIND [] encrypted_rumor limits)) (\<lambda>event.
     map_err Gift_Event
       (sign_with_aux c jc sender_secret_key (seal_auxiliary_randomness material) limits event))))"

definition wrap_seal ::
  "crates \<Rightarrow> json_crate \<Rightarrow> nip44_crates \<Rightarrow> signed_event \<Rightarrow> bytes \<Rightarrow> gift_wrap_persistence \<Rightarrow> gift_wrap_material
     \<Rightarrow> event_limits \<Rightarrow> gift_wrap_error + signed_event" where
  "wrap_seal c jc l seal recipient persistence material limits =
     and_then (map_err Gift_Event (xonly_public_key c (wrapper_secret_key material))) (\<lambda>wrapper_public.
     and_then (ok_or Gift_Json (json_to_vec jc (signed_event_json seal))) (\<lambda>text.
     and_then (map_err Gift_Encryption
        (encrypt_with_nonce l (wrapper_secret_key material) recipient (text_of text) (wrapper_nonce material)))
       (\<lambda>encrypted_seal.
     and_then (map_err Gift_Event
        (UnsignedEvent_new c (hex_encode c wrapper_public) (wrapper_created_at material) (persistence_kind persistence)
           [[''p'', hex_encode c recipient]] encrypted_seal limits)) (\<lambda>event.
     map_err Gift_Event
       (sign_with_aux c jc (wrapper_secret_key material) (wrapper_auxiliary_randomness material) limits event)))))"

definition create_gift_wrap_with_material ::
  "crates \<Rightarrow> json_crate \<Rightarrow> nip44_crates \<Rightarrow> rumor \<Rightarrow> bytes \<Rightarrow> bytes \<Rightarrow> gift_wrap_persistence \<Rightarrow> gift_wrap_material
     \<Rightarrow> event_limits \<Rightarrow> gift_wrap_error + signed_event" where
  "create_gift_wrap_with_material c jc l r sender_secret_key recipient persistence material limits =
     and_then (Rumor_verify c jc limits r) (\<lambda>_.
     and_then (map_err Gift_Event (xonly_public_key c sender_secret_key)) (\<lambda>sender.
     if r_pubkey r \<noteq> hex_encode c sender then Inl AuthorMismatch
     else
       and_then (seal_rumor c jc l r sender_secret_key recipient material limits) (\<lambda>seal.
         wrap_seal c jc l seal recipient persistence material limits)))"

text \<open>
  Randomness is drawn call by call: \<open>rng i n\<close> is what the \<open>i\<close>-th call of \<open>getrandom::fill\<close> delivers
  for \<open>n\<close> bytes, and the state counts the calls.
\<close>

type_synonym rng = "nat \<Rightarrow> nat \<Rightarrow> bytes option"

definition random_array :: "rng \<Rightarrow> nat \<Rightarrow> (gift_wrap_error + bytes) \<times> nat" where
  "random_array rng i = (ok_or Gift_RandomnessUnavailable (rng i 32), i + 1)"

fun secret_attempts :: "crates \<Rightarrow> rng \<Rightarrow> nat \<Rightarrow> nat \<Rightarrow> (gift_wrap_error + bytes) \<times> nat" where
  "secret_attempts c rng 0 i = (Inl Gift_RandomnessUnavailable, i)"
| "secret_attempts c rng (Suc n) i =
     then_st (random_array rng i) (\<lambda>candidate i.
       if schnorr_secret_ok c candidate then (Inr candidate, i) else secret_attempts c rng n i)"

definition random_secret_key :: "crates \<Rightarrow> rng \<Rightarrow> nat \<Rightarrow> (gift_wrap_error + bytes) \<times> nat" where
  "random_secret_key c rng i = secret_attempts c rng 128 i"

definition random_past_timestamp :: "rng \<Rightarrow> u64 \<Rightarrow> nat \<Rightarrow> (gift_wrap_error + u64) \<times> nat" where
  "random_past_timestamp rng now i =
     (map_err (\<lambda>_. Gift_RandomnessUnavailable)
        (and_then (ok_or () (rng i 8)) (\<lambda>bs.
           Inr (saturating_sub now (word_of_nat (from_le bs) mod (MAX_TIMESTAMP_SKEW_SECONDS + 1))))), i + 1)"

definition create_gift_wrap ::
  "crates \<Rightarrow> json_crate \<Rightarrow> nip44_crates \<Rightarrow> rng \<Rightarrow> rumor \<Rightarrow> bytes \<Rightarrow> bytes \<Rightarrow> u64 \<Rightarrow> gift_wrap_persistence
     \<Rightarrow> event_limits \<Rightarrow> nat \<Rightarrow> (gift_wrap_error + signed_event) \<times> nat" where
  "create_gift_wrap c jc l rng r sender_secret_key recipient now persistence limits i =
     then_st (random_past_timestamp rng now i) (\<lambda>sealed_at i.
     then_st (random_array rng i) (\<lambda>nonce1 i.
     then_st (random_array rng i) (\<lambda>aux1 i.
     then_st (random_secret_key c rng i) (\<lambda>wrapper i.
     then_st (random_past_timestamp rng now i) (\<lambda>wrapped_at i.
     then_st (random_array rng i) (\<lambda>nonce2 i.
     then_st (random_array rng i) (\<lambda>aux2 i.
       (create_gift_wrap_with_material c jc l r sender_secret_key recipient persistence
          \<lparr>seal_created_at = sealed_at, seal_nonce = nonce1, seal_auxiliary_randomness = aux1,
           wrapper_secret_key = wrapper, wrapper_created_at = wrapped_at, wrapper_nonce = nonce2,
           wrapper_auxiliary_randomness = aux2\<rparr> limits, i))))))))"

section \<open>Opening\<close>

definition first_is :: "string \<Rightarrow> tag \<Rightarrow> bool" where
  "first_is name tag = (case tag of [] \<Rightarrow> False | x # _ \<Rightarrow> x = name)"

definition addressed_to :: "signed_event \<Rightarrow> string \<Rightarrow> bool" where
  "addressed_to w recipient =
     (case filter (first_is ''p'') (s_tags w) of
        [tag] \<Rightarrow> 1 < length tag \<and> tag ! 1 = recipient
      | _ \<Rightarrow> False)"

definition open_gift_wrap ::
  "crates \<Rightarrow> json_crate \<Rightarrow> nip44_crates \<Rightarrow> signed_event \<Rightarrow> bytes \<Rightarrow> u64 \<Rightarrow> event_limits
     \<Rightarrow> gift_wrap_error + opened_gift_wrap" where
  "open_gift_wrap c jc l w recipient_secret_key now limits =
     and_then (map_err Gift_Event (event_verify c jc now limits w)) (\<lambda>_.
     if s_kind w \<noteq> GIFT_WRAP_KIND \<and> s_kind w \<noteq> EPHEMERAL_GIFT_WRAP_KIND then Inl WrongWrapperKind
     else
       and_then (map_err Gift_Event (xonly_public_key c recipient_secret_key)) (\<lambda>recipient.
       if \<not> addressed_to w (hex_encode c recipient) then Inl RecipientMismatch
       else
         and_then (decode_lower_hex_32 c (s_pubkey w)) (\<lambda>wrapper_public.
         and_then (map_err Gift_Encryption (decrypt l recipient_secret_key wrapper_public (s_content w))) (\<lambda>seal_text.
         and_then (map_err Gift_Event (SignedEvent_from_json c jc (as_bytes seal_text) now limits)) (\<lambda>seal.
         if s_kind seal \<noteq> SEAL_KIND then Inl WrongSealKind
         else if s_tags seal \<noteq> [] then Inl SealHasTags
         else
           and_then (decode_lower_hex_32 c (s_pubkey seal)) (\<lambda>author_public.
           and_then (map_err Gift_Encryption (decrypt l recipient_secret_key author_public (s_content seal))) (\<lambda>rumor_text.
           if max_serialized_bytes limits < length rumor_text then Inl RumorTooLarge
           else
             and_then (ok_or Gift_Json (Option.bind (json_from_slice jc (as_bytes rumor_text)) de_rumor)) (\<lambda>r.
             and_then (Rumor_verify c jc limits r) (\<lambda>_.
             if r_pubkey r \<noteq> s_pubkey seal then Inl AuthorMismatch
             else Inr \<lparr>opened_seal = seal, opened_rumor = r\<rparr>)))))))))"

section \<open>Authenticity\<close>

lemma UnsignedEvent_new_Inr:
  "UnsignedEvent_new c pk created k ts body limits = Inr e \<longleftrightarrow>
     e = \<lparr>u_pubkey = pk, u_created_at = created, u_kind = k, u_tags = ts, u_content = body\<rparr>
     \<and> event_validate c limits e = Inr ()"
  by (auto simp: UnsignedEvent_new_def Let_def)

lemma Rumor_verify_Inr:
  "Rumor_verify c jc limits r = Inr u \<longleftrightarrow>
     event_validate c limits (rumor_unsigned r) = Inr ()
     \<and> (\<exists>m. canonical_json jc (rumor_unsigned r) = Inr m \<and> r_id r = hex_encode c (sha256 c m))"
  by (auto simp: Rumor_verify_def UnsignedEvent_new_Inr rumor_unsigned_def event_id_def split: if_splits)

lemma decode_lower_hex_32_Inr: "decode_lower_hex_32 c v = Inr bs \<longleftrightarrow> decode_hex_32 c v = Inr bs"
  by (auto simp: decode_lower_hex_32_def validate_lower_hex_def decode_hex_32_def decode_hex_def split: option.splits)

lemma open_gift_wrap_Inr:
  assumes "open_gift_wrap c jc l w sk now limits = Inr opened"
  obtains me seal_text pk rumor_text where "xonly_public_key c sk = Inr me" "addressed_to w (hex_encode c me)"
      "SignedEvent_from_json c jc (as_bytes seal_text) now limits = Inr (opened_seal opened)"
      "s_kind w = GIFT_WRAP_KIND \<or> s_kind w = EPHEMERAL_GIFT_WRAP_KIND" "s_tags (opened_seal opened) = []"
      "decode_hex_32 c (s_pubkey (opened_seal opened)) = Inr pk"
      "decrypt l sk pk (s_content (opened_seal opened)) = Inr rumor_text"
      "Option.bind (json_from_slice jc (as_bytes rumor_text)) de_rumor = Some (opened_rumor opened)"
      "Rumor_verify c jc limits (opened_rumor opened) = Inr ()"
      "r_pubkey (opened_rumor opened) = s_pubkey (opened_seal opened)"
  using assms unfolding open_gift_wrap_def decode_lower_hex_32_Inr and_then_Inr map_err_Inr
  by (auto simp: decode_lower_hex_32_Inr split: if_splits)

section \<open>Delivery\<close>

text \<open>
  Both ends derive the same secret: the product of one party's key with the other's public point
  has one x coordinate. HKDF-Extract delivers 32 bytes.
\<close>

definition ecdh_laws :: "crates \<Rightarrow> nip44_crates \<Rightarrow> bool" where
  "ecdh_laws c l \<longleftrightarrow>
     (\<forall>a b. schnorr_secret_ok c a \<longrightarrow> schnorr_secret_ok c b \<longrightarrow>
        secret_ok l a \<and> point_ok l (2 # schnorr_public c b)
        \<and> shared_x l a (schnorr_public c b) = shared_x l b (schnorr_public c a))
     \<and> (\<forall>salt x. length (hkdf_extract l salt x) = 32)"

lemma conversation_key_shared:
  assumes "ecdh_laws c l" "schnorr_secret_ok c a" "schnorr_secret_ok c b"
  shows "conversation_key l a (schnorr_public c b) = conversation_key l b (schnorr_public c a)"
    and "conversation_key l a (schnorr_public c b) = Inr k \<Longrightarrow> length k = 32"
  using assms by (auto simp: ecdh_laws_def conversation_key_def split: option.splits if_splits)

lemma encrypted_text_arrives:
  assumes laws: "nip44_laws l" "ecdh_laws c l" and keys: "schnorr_secret_ok c a" "schnorr_secret_ok c b"
    and enc: "encrypt_with_nonce l a (schnorr_public c b) msg nonce = Inr payload"
    and nonce: "length nonce = 32" and utf8: "is_utf8 msg"
  shows "decrypt l b (schnorr_public c a) payload = Inr msg" and "is_utf8 payload"
proof -
  from enc obtain k where k: "conversation_key l a (schnorr_public c b) = Inr k"
    "encrypt_with_conversation_key l k msg nonce = Inr payload"
    by (auto simp: encrypt_with_nonce_def)
  obtain padded where "pad (as_bytes msg) = Inr padded"
    using k(2) by (auto simp: encrypt_with_conversation_key_def)
  from pad_unpad(2,3) [OF this] have len: "0 < length msg" "length msg \<le> MAX_PLAINTEXT_LEN" by simp_all
  from envelope_roundtrip [OF laws(1) conversation_key_shared(2) [OF laws(2) keys k(1)] _ utf8 len] nonce k(2)
  have "decrypt_with_conversation_key l k payload = Inr msg" by (metis NONCE_LEN_def Inr_inject)
  moreover have "conversation_key l b (schnorr_public c a) = Inr k"
    using conversation_key_shared(1) [OF laws(2) keys] k(1) by simp
  ultimately show "decrypt l b (schnorr_public c a) payload = Inr msg" by (simp add: decrypt_def)
  show "is_utf8 payload" using k(2) b64_ok(4) [OF laws(1)] by (auto simp: encrypt_with_conversation_key_def)
qed

definition rumor_utf8 :: "rumor \<Rightarrow> bool" where
  "rumor_utf8 r \<longleftrightarrow> unsigned_utf8 (rumor_unsigned r) \<and> is_utf8 (r_id r)"

lemma rumor_json_exact: "rumor_utf8 r \<Longrightarrow> json_exact 127 (rumor_json r)"
  by (simp add: rumor_json_def json_exact_object tags_json_exact rumor_utf8_def unsigned_utf8_def
      rumor_unsigned_def is_utf8_field_names)

lemma de_rumor_json [simp]: "de_rumor (rumor_json r) = Some r"
  by (simp add: de_rumor_def rumor_json_def de_struct_def insert_commute)

lemma decode_hex_32_encode: "hex_laws c \<Longrightarrow> length bs = 32 \<Longrightarrow> decode_hex_32 c (hex_encode c bs) = Inr bs"
  by (simp add: decode_hex_32_def decode_hex_encode)

lemma sign_with_aux_unsigned: "sign_with_aux c jc sk aux limits e = Inr s \<Longrightarrow> event_unsigned s = e"
  by (auto simp: sign_with_aux_def event_unsigned_def split: if_splits)

lemma seal_rumor_Inr:
  assumes "seal_rumor c jc l r sk recipient mat limits = Inr seal"
  obtains bs payload e where "json_to_vec jc (rumor_json r) = Some bs"
    "encrypt_with_nonce l sk recipient (text_of bs) (seal_nonce mat) = Inr payload"
    "e = \<lparr>u_pubkey = r_pubkey r, u_created_at = seal_created_at mat, u_kind = SEAL_KIND, u_tags = [], u_content = payload\<rparr>"
    "sign_with_aux c jc sk (seal_auxiliary_randomness mat) limits e = Inr seal"
  using assms by (auto simp: seal_rumor_def UnsignedEvent_new_Inr)

lemma wrap_seal_Inr:
  assumes "wrap_seal c jc l seal recipient persistence mat limits = Inr w"
  obtains bs payload e where "json_to_vec jc (signed_event_json seal) = Some bs"
    "schnorr_secret_ok c (wrapper_secret_key mat)"
    "encrypt_with_nonce l (wrapper_secret_key mat) recipient (text_of bs) (wrapper_nonce mat) = Inr payload"
    "e = \<lparr>u_pubkey = hex_encode c (schnorr_public c (wrapper_secret_key mat)), u_created_at = wrapper_created_at mat,
       u_kind = persistence_kind persistence, u_tags = [[''p'', hex_encode c recipient]], u_content = payload\<rparr>"
    "sign_with_aux c jc (wrapper_secret_key mat) (wrapper_auxiliary_randomness mat) limits e = Inr w"
  using assms by (auto simp: wrap_seal_def UnsignedEvent_new_Inr xonly_public_key_def split: if_splits)

lemma event_unsigned_fields:
  assumes "event_unsigned s = e"
  shows "s_pubkey s = u_pubkey e" "s_created_at s = u_created_at e" "s_kind s = u_kind e" "s_tags s = u_tags e"
    "s_content s = u_content e"
  using assms by (auto simp: event_unsigned_def)

definition material_ok :: "gift_wrap_material \<Rightarrow> event_limits \<Rightarrow> u64 \<Rightarrow> bool" where
  "material_ok mat limits now \<longleftrightarrow>
     length (seal_nonce mat) = 32 \<and> length (wrapper_nonce mat) = 32
     \<and> seal_created_at mat \<le> saturating_add now (max_future_seconds limits)
     \<and> wrapper_created_at mat \<le> saturating_add now (max_future_seconds limits)"

definition fits :: "json_crate \<Rightarrow> event_limits \<Rightarrow> json \<Rightarrow> bool" where
  "fits jc limits j \<longleftrightarrow> (\<exists>bs. json_to_vec jc j = Some bs \<and> length bs \<le> max_serialized_bytes limits)"

definition wrap_laws :: "crates \<Rightarrow> json_crate \<Rightarrow> nip44_crates \<Rightarrow> bool" where
  "wrap_laws c jc l \<longleftrightarrow>
     hex_laws c \<and> schnorr_laws c \<and> sha256_laws c \<and> json_laws jc \<and> nip44_laws l \<and> ecdh_laws c l"

lemma wrap_lawsD:
  assumes "wrap_laws c jc l"
  shows "hex_laws c" "schnorr_laws c" "sha256_laws c" "json_laws jc" "nip44_laws l" "ecdh_laws c l"
  using assms by (simp_all add: wrap_laws_def)

lemma public_key_length:
  "schnorr_laws c \<Longrightarrow> schnorr_secret_ok c sk \<Longrightarrow> length (schnorr_public c sk) = 32"
  by (simp add: schnorr_laws_def KEY_BYTES_def)

lemma sealed_rumor:
  assumes laws: "wrap_laws c jc l" and keys: "schnorr_secret_ok c sk" "schnorr_secret_ok c rk"
    and mat: "material_ok mat limits now" and utf8: "rumor_utf8 r"
    and author: "r_pubkey r = hex_encode c (schnorr_public c sk)"
    and seal: "seal_rumor c jc l r sk (schnorr_public c rk) mat limits = Inr seal"
    and size: "fits jc limits (signed_event_json seal)"
  shows "event_verify c jc now limits seal = Inr ()" and "signed_utf8 seal" and "s_kind seal = SEAL_KIND"
    and "s_tags seal = []" and "s_pubkey seal = r_pubkey r"
    and "\<exists>bs. json_to_vec jc (rumor_json r) = Some bs \<and>
        decrypt l rk (schnorr_public c sk) (s_content seal) = Inr (text_of bs)"
proof -
  note laws = wrap_lawsD [OF laws]
  obtain bs payload e where e: "json_to_vec jc (rumor_json r) = Some bs"
    "encrypt_with_nonce l sk (schnorr_public c rk) (text_of bs) (seal_nonce mat) = Inr payload"
    "e = \<lparr>u_pubkey = r_pubkey r, u_created_at = seal_created_at mat, u_kind = SEAL_KIND, u_tags = [], u_content = payload\<rparr>"
    "sign_with_aux c jc sk (seal_auxiliary_randomness mat) limits e = Inr seal"
    by (rule seal_rumor_Inr [OF seal])
  have txt8: "is_utf8 (text_of bs)" using json_laws_read(3) [OF laws(4) rumor_json_exact [OF utf8] e(1)] .
  note enc = encrypted_text_arrives [OF laws(5,6) keys e(2) _ txt8]
  have n: "length (seal_nonce mat) = 32" and clock: "u_created_at e \<le> saturating_add now (max_future_seconds limits)"
    using mat by (simp_all add: material_ok_def e(3))
  have "unsigned_utf8 e"
    using utf8 enc(2) [OF n] by (simp add: e(3) unsigned_utf8_def rumor_utf8_def rumor_unsigned_def)
  note v = sign_verifies [OF laws(1-3) this e(4) _ _ clock]
  obtain sb where sb: "json_to_vec jc (signed_event_json seal) = Some sb" "length sb \<le> max_serialized_bytes limits"
    using size by (auto simp: fits_def)
  show "event_verify c jc now limits seal = Inr ()" "signed_utf8 seal" by (rule v(2,3) [OF sb])+
  note f = event_unsigned_fields [OF sign_with_aux_unsigned [OF e(4)]]
  show "s_kind seal = SEAL_KIND" "s_tags seal = []" "s_pubkey seal = r_pubkey r" by (simp_all add: f e(3))
  show "\<exists>bs. json_to_vec jc (rumor_json r) = Some bs \<and>
        decrypt l rk (schnorr_public c sk) (s_content seal) = Inr (text_of bs)"
    using e(1) enc(1) [OF n] by (simp add: f e(3))
qed

lemma wrapped_seal:
  assumes laws: "wrap_laws c jc l" and keys: "schnorr_secret_ok c rk"
    and mat: "material_ok mat limits now" and utf8: "signed_utf8 seal"
    and wrap: "wrap_seal c jc l seal (schnorr_public c rk) persistence mat limits = Inr w"
    and size: "fits jc limits (signed_event_json w)"
  shows "event_verify c jc now limits w = Inr ()" and "s_kind w = persistence_kind persistence"
    and "addressed_to w (hex_encode c (schnorr_public c rk))"
    and "\<exists>pk bs. decode_hex_32 c (s_pubkey w) = Inr pk \<and> json_to_vec jc (signed_event_json seal) = Some bs
        \<and> decrypt l rk pk (s_content w) = Inr (text_of bs)"
proof -
  note laws = wrap_lawsD [OF laws]
  let ?wk = "wrapper_secret_key mat"
  obtain bs payload e where e: "json_to_vec jc (signed_event_json seal) = Some bs" "schnorr_secret_ok c ?wk"
    "encrypt_with_nonce l ?wk (schnorr_public c rk) (text_of bs) (wrapper_nonce mat) = Inr payload"
    "e = \<lparr>u_pubkey = hex_encode c (schnorr_public c ?wk), u_created_at = wrapper_created_at mat,
       u_kind = persistence_kind persistence, u_tags = [[''p'', hex_encode c (schnorr_public c rk)]], u_content = payload\<rparr>"
    "sign_with_aux c jc ?wk (wrapper_auxiliary_randomness mat) limits e = Inr w"
    by (rule wrap_seal_Inr [OF wrap])
  have txt8: "is_utf8 (text_of bs)" using json_laws_read(3) [OF laws(4) signed_event_json_exact [OF utf8] e(1)] .
  note enc = encrypted_text_arrives [OF laws(5,6) e(2) keys e(3) _ txt8]
  have n: "length (wrapper_nonce mat) = 32" and clock: "u_created_at e \<le> saturating_add now (max_future_seconds limits)"
    using mat by (simp_all add: material_ok_def e(4))
  have "unsigned_utf8 e"
    using enc(2) [OF n] laws(1) by (simp add: e(4) unsigned_utf8_def is_utf8_hex_encode is_utf8_ascii)
  note v = sign_verifies [OF laws(1-3) this e(5) _ _ clock]
  show "event_verify c jc now limits w = Inr ()" using size v(2) by (auto simp: fits_def)
  note f = event_unsigned_fields [OF sign_with_aux_unsigned [OF e(5)]]
  show "s_kind w = persistence_kind persistence" by (simp add: f e(4))
  show "addressed_to w (hex_encode c (schnorr_public c rk))" by (simp add: f e(4) addressed_to_def first_is_def)
  show "\<exists>pk bs. decode_hex_32 c (s_pubkey w) = Inr pk \<and> json_to_vec jc (signed_event_json seal) = Some bs
        \<and> decrypt l rk pk (s_content w) = Inr (text_of bs)"
    using e(1) enc(1) [OF n] decode_hex_32_encode [OF laws(1) public_key_length [OF laws(2) e(2)]]
    by (simp add: f e(4))
qed

lemma create_gift_wrap_Inr:
  assumes "create_gift_wrap_with_material c jc l r sk recipient persistence mat limits = Inr w"
  obtains seal where "Rumor_verify c jc limits r = Inr ()" "schnorr_secret_ok c sk"
    "r_pubkey r = hex_encode c (schnorr_public c sk)" "seal_rumor c jc l r sk recipient mat limits = Inr seal"
    "wrap_seal c jc l seal recipient persistence mat limits = Inr w"
  using assms by (auto simp: create_gift_wrap_with_material_def xonly_public_key_def split: if_splits)

lemma created_wrap_opens:
  assumes "wrap_laws c jc l" and "schnorr_secret_ok c rk" and "material_ok mat limits now" and "rumor_utf8 r"
    and create: "create_gift_wrap_with_material c jc l r sk (schnorr_public c rk) persistence mat limits = Inr w"
    and seal: "seal_rumor c jc l r sk (schnorr_public c rk) mat limits = Inr seal"
    and "fits jc limits (rumor_json r)" "fits jc limits (signed_event_json seal)" "fits jc limits (signed_event_json w)"
  shows "open_gift_wrap c jc l w rk now limits = Inr \<lparr>opened_seal = seal, opened_rumor = r\<rparr>"
proof -
  note laws = wrap_lawsD [OF assms(1)]
  from seal obtain c1: "Rumor_verify c jc limits r = Inr ()" and c2: "schnorr_secret_ok c sk"
    and c3: "r_pubkey r = hex_encode c (schnorr_public c sk)"
    and c4: "wrap_seal c jc l seal (schnorr_public c rk) persistence mat limits = Inr w"
    using create_gift_wrap_Inr [OF create] by (metis Inr_inject)
  note s = sealed_rumor [OF assms(1) c2 assms(2-4) c3 seal assms(8)]
  note w = wrapped_seal [OF assms(1-3) s(2) c4 assms(9)]
  obtain wpk sb where wd: "decode_lower_hex_32 c (s_pubkey w) = Inr wpk"
    "json_to_vec jc (signed_event_json seal) = Some sb" "decrypt l rk wpk (s_content w) = Inr (text_of sb)"
    using w(4) by (auto simp: decode_lower_hex_32_Inr)
  obtain rb where rd: "json_to_vec jc (rumor_json r) = Some rb"
    "decrypt l rk (schnorr_public c sk) (s_content seal) = Inr (text_of rb)"
    using s(6) by blast
  have sizes: "length sb \<le> max_serialized_bytes limits" "length rb \<le> max_serialized_bytes limits"
    using assms(7,8) wd(2) rd(1) by (simp_all add: fits_def)
  have seal_read: "SignedEvent_from_json c jc sb now limits = Inr seal"
    using json_laws_read(1) [OF laws(4) signed_event_json_exact [OF s(2)] wd(2)] s(1) sizes(1)
    by (simp add: SignedEvent_from_json_def)
  have rumor_read: "json_from_slice jc rb = Some (rumor_json r)"
    by (rule json_laws_read(1) [OF laws(4) rumor_json_exact [OF assms(4)] rd(1)])
  have apk: "decode_lower_hex_32 c (s_pubkey seal) = Inr (schnorr_public c sk)"
    using decode_hex_32_encode [OF laws(1) public_key_length [OF laws(2) c2]]
    by (simp add: s(5) c3 decode_lower_hex_32_Inr)
  have kind: "s_kind w = GIFT_WRAP_KIND \<or> s_kind w = EPHEMERAL_GIFT_WRAP_KIND"
    using w(2) by (cases persistence) simp_all
  show ?thesis
    using w(1,3) wd rd(2) seal_read rumor_read apk kind s(3,4,5) c1 sizes(2) assms(2)
    by (simp add: open_gift_wrap_def xonly_public_key_def del: and_then_Inr)
qed

section \<open>A concrete message\<close>

lemma reference_ecdh_laws: "ecdh_laws reference_crates reference_nip44"
proof -
  have "map2 (+) a b = map2 (+) b (a :: bytes)" for a b
    by (rule nth_equalityI) (auto simp: add.commute)
  then show ?thesis by (simp add: ecdh_laws_def reference_crates_def reference_nip44_def min_def)
qed

lemma reference_wrap_laws: "wrap_laws reference_crates reference_json reference_nip44"
  by (simp add: wrap_laws_def reference_event_laws reference_json_laws reference_nip44_laws reference_ecdh_laws)

lemma reference_encrypts:
  assumes "length a = 32" "length b = 32" "length nonce = 32" "is_utf8 msg" "0 < length msg"
    and len: "length msg \<le> 2 ^ k" "5 \<le> k" "k \<le> 15"
  obtains payload where "encrypt_with_nonce reference_nip44 a b msg nonce = Inr payload"
    "length payload \<le> (2 ^ k + 69) div 3 * 4" "is_utf8 payload"
proof -
  have k15: "(2 :: nat) ^ k \<le> 2 ^ 15" using len(3) by (intro power_increasing) auto
  have "k \<le> 20" using len(3) by simp
  from calc_padded_len_power [OF assms(5) len(1,2) this] obtain p where
    p: "calc_padded_len (length msg) = Inr p" "length msg \<le> p" "p \<le> 2 ^ k" by blast
  have small: "length msg \<le> 32768" using len(1) k15 by simp
  have pad: "pad (as_bytes msg) = Inr (be_bytes 2 (length msg) @ as_bytes msg @ replicate (p - length msg) 0)"
    using p(1) assms(5) small by (simp add: pad_def MAX_PLAINTEXT_LEN_def EXTENDED_PREFIX_THRESHOLD_def Let_def)
  obtain key where key: "conversation_key reference_nip44 a b = Inr key"
    using assms(1,2) by (simp add: conversation_key_def reference_nip44_def)
  obtain keys where keys: "message_keys reference_nip44 key nonce = Inr keys"
    by (simp add: message_keys_def reference_nip44_def)
  let ?ct = "rev (be_bytes 2 (length msg) @ as_bytes msg @ replicate (p - length msg) 0)"
  obtain mac where mac: "hmac reference_nip44 (drop 44 keys) (nonce @ ?ct) = Some mac" "length mac = 32"
    by (rule mac_ok [OF reference_nip44_laws])
  have "chacha20 reference_nip44 x y m = Some (rev m)" for x y m by (simp add: reference_nip44_def)
  then have enc: "encrypt_with_nonce reference_nip44 a b msg nonce
      = Inr (b64_encode reference_nip44 (VERSION # nonce @ ?ct @ mac))"
    using key keys pad mac(1) by (simp add: encrypt_with_nonce_def encrypt_with_conversation_key_def del: rev_append)
  have "length (VERSION # nonce @ ?ct @ mac) = 67 + p" using p(2) assms(3) mac(2) by simp
  then have "length (b64_encode reference_nip44 (VERSION # nonce @ ?ct @ mac)) = (p + 69) div 3 * 4"
    using b64_ok(2) [OF reference_nip44_laws, of "VERSION # nonce @ ?ct @ mac"] by (simp add: add.commute)
  also have "\<dots> \<le> (2 ^ k + 69) div 3 * 4" using p(3) by (simp add: div_le_mono)
  finally show ?thesis using that [OF enc] b64_ok(4) [OF reference_nip44_laws] by simp
qed

definition demo_material :: gift_wrap_material where
  "demo_material =
    \<lparr>seal_created_at = 3, seal_nonce = replicate 32 7, seal_auxiliary_randomness = [],
     wrapper_secret_key = replicate 32 9, wrapper_created_at = 4, wrapper_nonce = replicate 32 8,
     wrapper_auxiliary_randomness = []\<rparr>"

definition demo_recipient :: bytes where "demo_recipient = replicate 32 2"

lemma demo_rumor:
  obtains r rb where "Rumor_new reference_crates reference_json demo_note EventLimits_default = Inr r"
    "rumor_unsigned r = demo_note" "Rumor_verify reference_crates reference_json EventLimits_default r = Inr ()"
    "rumor_utf8 r" "json_to_vec reference_json (rumor_json r) = Some rb" "length rb \<le> 1024" "rb \<noteq> []"
proof -
  obtain m where m: "canonical_json reference_json demo_note = Inr m"
    using json_laws_obtain [OF reference_json_laws, of "JArr [JInt 0, JStr (u_pubkey demo_note),
        JInt (uint (u_created_at demo_note)), JInt (uint (u_kind demo_note)), tags_json (u_tags demo_note),
        JStr (u_content demo_note)]"] demo_utf8
    by (auto simp: canonical_json_def unsigned_utf8_def json_exact_array tags_json_exact)
  let ?d = "sha256 reference_crates m"
  let ?r = "\<lparr>r_id = hex_string ?d, r_pubkey = hex_string demo_key, r_created_at = 5, r_kind = 14, r_tags = [], r_content = ''hi''\<rparr>"
  have enc: "hex_encode reference_crates = hex_string" by (simp add: reference_crates_def)
  have un: "rumor_unsigned ?r = demo_note" by (simp add: rumor_unsigned_def demo_note_def)
  have new: "Rumor_new reference_crates reference_json demo_note EventLimits_default = Inr ?r"
    using demo_valid m by (simp add: Rumor_new_def UnsignedEvent_new_Inr event_id_def enc) (simp add: demo_note_def)
  have v: "Rumor_verify reference_crates reference_json EventLimits_default ?r = Inr ()"
    using demo_valid m by (auto simp: Rumor_verify_Inr un enc)
  have u: "rumor_utf8 ?r" using demo_utf8 by (simp add: rumor_utf8_def un is_utf8_hex)
  obtain rb where rb: "json_to_vec reference_json (rumor_json ?r) = Some rb"
    using json_laws_obtain [OF reference_json_laws rumor_json_exact [OF u]] by blast
  have "length ?d = 32" using reference_sha256_laws by (simp add: sha256_laws_def)
  with rb have "length rb \<le> 1024"
    by (auto simp: reference_json_def rumor_json_def put_json_container length_put length_hex_string tags_json_def
        demo_key_def split: if_splits)
  with that new un v u rb json_laws_read(2) [OF reference_json_laws rumor_json_exact [OF u] rb]
  show ?thesis by blast
qed

lemma reference_valid:
  assumes "length key = 32" "length body \<le> 65536"
  shows "event_validate reference_crates EventLimits_default
     \<lparr>u_pubkey = hex_string key, u_created_at = t, u_kind = k, u_tags = [], u_content = body\<rparr> = Inr ()"
    and "length x = 64 \<Longrightarrow> event_validate reference_crates EventLimits_default
     \<lparr>u_pubkey = hex_string key, u_created_at = t, u_kind = k, u_tags = [[''p'', x]], u_content = body\<rparr> = Inr ()"
proof -
  have "decode_hex_32 reference_crates (hex_string key) = Inr key"
    using assms(1) by (simp add: decode_hex_defs decode_hex_Inr reference_crates_def hex_parse_string
        length_hex_string hex_string_lower)
  then show "event_validate reference_crates EventLimits_default
     \<lparr>u_pubkey = hex_string key, u_created_at = t, u_kind = k, u_tags = [], u_content = body\<rparr> = Inr ()"
    "length x = 64 \<Longrightarrow> event_validate reference_crates EventLimits_default
     \<lparr>u_pubkey = hex_string key, u_created_at = t, u_kind = k, u_tags = [[''p'', x]], u_content = body\<rparr> = Inr ()"
    using assms(2) by (simp_all add: event_validate_def event_default_defs)
qed

lemma reference_addressed_length:
  assumes "json_to_vec reference_json (signed_event_json e) = Some bs" and "s_tags e = [[''p'', x]]"
  shows "length bs = 2 * (113 + 2 * (length (s_id e) + length (s_pubkey e) + length (s_content e) + length (s_sig e) + length x)
      + unat (s_created_at e) + unat (s_kind e))"
  using assms
  by (auto simp: reference_json_def signed_event_json_def put_json_container length_put length_hex_string
      tags_json_def split: if_splits)

lemma demo_seal:
  assumes r: "rumor_unsigned r = demo_note" "rumor_utf8 r"
    and rb: "json_to_vec reference_json (rumor_json r) = Some rb" "length rb \<le> 1024" "rb \<noteq> []"
  obtains seal sb where "seal_rumor reference_crates reference_json reference_nip44 r demo_key demo_recipient
      demo_material EventLimits_default = Inr seal" "signed_utf8 seal"
    "json_to_vec reference_json (signed_event_json seal) = Some sb" "length sb \<le> 8192" "sb \<noteq> []"
proof -
  have utf8: "is_utf8 (text_of rb)"
    by (rule json_laws_read(3) [OF reference_json_laws rumor_json_exact [OF r(2)] rb(1)])
  have lens: "length demo_key = 32" "length demo_recipient = 32" "length (seal_nonce demo_material) = 32"
    by (simp_all add: demo_key_def demo_recipient_def demo_material_def)
  have t: "0 < length (text_of rb)" "length (text_of rb) \<le> 2 ^ 10" using rb(2,3) by simp_all
  obtain payload where pl: "encrypt_with_nonce reference_nip44 demo_key demo_recipient (text_of rb)
      (seal_nonce demo_material) = Inr payload" "length payload \<le> (2 ^ 10 + 69) div 3 * 4" "is_utf8 payload"
    by (rule reference_encrypts [OF lens utf8 t]) simp_all
  let ?e = "\<lparr>u_pubkey = hex_string demo_key, u_created_at = 3, u_kind = SEAL_KIND, u_tags = [], u_content = payload\<rparr>"
  have v: "event_validate reference_crates EventLimits_default ?e = Inr ()"
    using pl(2) lens(1) by (intro reference_valid(1)) simp_all
  have pk: "r_pubkey r = hex_string demo_key" using r(1) by (simp add: rumor_unsigned_def demo_note_def)
  have "unsigned_utf8 ?e" using pl(3) by (simp add: unsigned_utf8_def is_utf8_hex)
  from reference_signs [OF this _ lens(1) v, of "[]"] obtain seal sb where
    s: "sign_with_aux reference_crates reference_json demo_key [] EventLimits_default ?e = Inr seal"
      "event_unsigned seal = ?e" "length (s_id seal) = 64" "length (s_sig seal) = 128"
      "json_to_vec reference_json (signed_event_json seal) = Some sb" by auto
  note f = event_unsigned_fields [OF s(2), simplified]
  have "seal_rumor reference_crates reference_json reference_nip44 r demo_key demo_recipient
      demo_material EventLimits_default = Inr seal"
    using rb(1) pl(1) pk v s(1)
    by (simp add: seal_rumor_def UnsignedEvent_new_def demo_material_def del: and_then_Inr)
  moreover have "length sb \<le> 8192" "sb \<noteq> []"
    using reference_event_length [OF s(5)] f s(3,4) pl(2) lens(1)
    by (auto simp: length_hex_string SEAL_KIND_def)
  moreover have "signed_utf8 seal"
    using \<open>unsigned_utf8 ?e\<close> s by (auto simp: signed_utf8_def sign_with_aux_def is_utf8_hex_encode
        [OF reference_hex_laws] split: if_splits)
  ultimately show ?thesis using that s(5) by blast
qed

lemma demo_wrap:
  assumes "signed_utf8 seal"
    and sb: "json_to_vec reference_json (signed_event_json seal) = Some sb" "length sb \<le> 8192" "sb \<noteq> []"
  obtains w wb where "wrap_seal reference_crates reference_json reference_nip44 seal demo_recipient Persistent
      demo_material EventLimits_default = Inr w"
    "json_to_vec reference_json (signed_event_json w) = Some wb" "length wb \<le> 262144"
proof -
  let ?wk = "replicate 32 9 :: bytes"
  have utf8: "is_utf8 (text_of sb)"
    by (rule json_laws_read(3) [OF reference_json_laws signed_event_json_exact [OF assms(1)] sb(1)])
  have lens: "length ?wk = 32" "length demo_recipient = 32" "length (wrapper_nonce demo_material) = 32"
    by (simp_all add: demo_recipient_def demo_material_def)
  have t: "0 < length (text_of sb)" "length (text_of sb) \<le> 2 ^ 13" using sb(2,3) by simp_all
  obtain payload where pl: "encrypt_with_nonce reference_nip44 ?wk demo_recipient (text_of sb)
      (wrapper_nonce demo_material) = Inr payload" "length payload \<le> (2 ^ 13 + 69) div 3 * 4" "is_utf8 payload"
    by (rule reference_encrypts [OF lens utf8 t]) simp_all
  let ?e = "\<lparr>u_pubkey = hex_string ?wk, u_created_at = 4, u_kind = GIFT_WRAP_KIND,
    u_tags = [[''p'', hex_string demo_recipient]], u_content = payload\<rparr>"
  have v: "event_validate reference_crates EventLimits_default ?e = Inr ()"
    using pl(2) lens(2) by (intro reference_valid(2)) (simp_all add: length_hex_string)
  have "unsigned_utf8 ?e" using pl(3) by (simp add: unsigned_utf8_def is_utf8_hex is_utf8_ascii)
  from reference_signs [OF this _ lens(1) v, of "[]"] obtain w wb where
    s: "sign_with_aux reference_crates reference_json ?wk [] EventLimits_default ?e = Inr w"
      "event_unsigned w = ?e" "length (s_id w) = 64" "length (s_sig w) = 128"
      "json_to_vec reference_json (signed_event_json w) = Some wb" by auto
  note f = event_unsigned_fields [OF s(2), simplified]
  have c: "hex_encode reference_crates = hex_string" "schnorr_secret_ok reference_crates ?wk"
    "schnorr_public reference_crates ?wk = ?wk"
    by (simp_all add: reference_crates_def)
  have mat: "wrapper_secret_key demo_material = ?wk" "wrapper_created_at demo_material = 4"
    "wrapper_auxiliary_randomness demo_material = []" by (simp_all add: demo_material_def)
  have "wrap_seal reference_crates reference_json reference_nip44 seal demo_recipient Persistent
      demo_material EventLimits_default = Inr w"
    using sb(1) pl(1) v s(1)
    by (simp add: wrap_seal_def UnsignedEvent_new_def xonly_public_key_def c mat del: and_then_Inr)
  moreover have "length wb \<le> 262144"
    using reference_addressed_length [OF s(5)] f s(3,4) pl(2) lens
    by (simp add: length_hex_string GIFT_WRAP_KIND_def)
  ultimately show ?thesis using that s(5) by blast
qed

lemma demo_material_ok: "material_ok demo_material EventLimits_default 5"
  by (simp add: material_ok_def demo_material_def event_default_defs saturating_add_def)

lemma demo_recipient_key:
  "schnorr_secret_ok reference_crates demo_recipient" "schnorr_public reference_crates demo_recipient = demo_recipient"
  by (simp_all add: reference_crates_def demo_recipient_def)

lemma demo_created:
  obtains r seal w where
    "Rumor_new reference_crates reference_json demo_note EventLimits_default = Inr r" "rumor_utf8 r"
    "create_gift_wrap_with_material reference_crates reference_json reference_nip44 r demo_key
       (schnorr_public reference_crates demo_recipient) Persistent demo_material EventLimits_default = Inr w"
    "seal_rumor reference_crates reference_json reference_nip44 r demo_key
       (schnorr_public reference_crates demo_recipient) demo_material EventLimits_default = Inr seal"
    "fits reference_json EventLimits_default (rumor_json r)"
    "fits reference_json EventLimits_default (signed_event_json seal)"
    "fits reference_json EventLimits_default (signed_event_json w)"
proof -
  obtain r rb where r: "Rumor_new reference_crates reference_json demo_note EventLimits_default = Inr r"
    "rumor_unsigned r = demo_note" "Rumor_verify reference_crates reference_json EventLimits_default r = Inr ()"
    "rumor_utf8 r" "json_to_vec reference_json (rumor_json r) = Some rb" "length rb \<le> 1024" "rb \<noteq> []"
    by (rule demo_rumor)
  obtain seal sb where s: "seal_rumor reference_crates reference_json reference_nip44 r demo_key demo_recipient
      demo_material EventLimits_default = Inr seal" "signed_utf8 seal"
    "json_to_vec reference_json (signed_event_json seal) = Some sb" "length sb \<le> 8192" "sb \<noteq> []"
    by (rule demo_seal [OF r(2,4-7)])
  obtain w wb where w: "wrap_seal reference_crates reference_json reference_nip44 seal demo_recipient Persistent
      demo_material EventLimits_default = Inr w"
    "json_to_vec reference_json (signed_event_json w) = Some wb" "length wb \<le> 262144"
    by (rule demo_wrap [OF s(2-5)])
  have pk: "r_pubkey r = hex_string demo_key" using r(2) by (simp add: rumor_unsigned_def demo_note_def)
  have "hex_encode reference_crates = hex_string" "xonly_public_key reference_crates demo_key = Inr demo_key"
    by (simp_all add: reference_crates_def xonly_public_key_def demo_key_def)
  then have c: "create_gift_wrap_with_material reference_crates reference_json reference_nip44 r demo_key
       (schnorr_public reference_crates demo_recipient) Persistent demo_material EventLimits_default = Inr w"
    using r(3) pk s(1) w(1)
    by (simp add: create_gift_wrap_with_material_def demo_recipient_key(2) del: and_then_Inr)
  have f: "fits reference_json EventLimits_default (rumor_json r)"
    "fits reference_json EventLimits_default (signed_event_json seal)"
    "fits reference_json EventLimits_default (signed_event_json w)"
    using r(5,6) s(3,4) w(2,3) by (auto simp: fits_def event_default_defs)
  show ?thesis using that [OF r(1,4) c _ f] s(1) by (simp add: demo_recipient_key(2))
qed

text \<open>
  C28. A gift wrap reaches its recipient. The wrap that \<open>create_gift_wrap_with_material\<close> builds for
  a recipient is opened by that recipient, with a clock that is not too far behind and as long as
  rumor, seal and wrap fit the size limit, to exactly the rumor it was made from, in the seal that
  the sender signed.
\<close>

theorem gift_wrap_roundtrip:
  assumes "wrap_laws c jc l" and "schnorr_secret_ok c rk" and "material_ok mat limits now" and "rumor_utf8 r"
    and create: "create_gift_wrap_with_material c jc l r sk (schnorr_public c rk) persistence mat limits = Inr w"
    and seal: "seal_rumor c jc l r sk (schnorr_public c rk) mat limits = Inr seal"
    and "fits jc limits (rumor_json r)" "fits jc limits (signed_event_json seal)" "fits jc limits (signed_event_json w)"
  shows "open_gift_wrap c jc l w rk now limits = Inr \<lparr>opened_seal = seal, opened_rumor = r\<rparr>"
  using assms by (rule created_wrap_opens)

theorem gift_wrap_roundtrip_witness:
  "\<exists>r seal w. Rumor_new reference_crates reference_json demo_note EventLimits_default = Inr r
     \<and> open_gift_wrap reference_crates reference_json reference_nip44 w demo_recipient 5 EventLimits_default
       = Inr \<lparr>opened_seal = seal, opened_rumor = r\<rparr>"
proof (rule demo_created)
  fix r seal w
  assume d: "Rumor_new reference_crates reference_json demo_note EventLimits_default = Inr r" "rumor_utf8 r"
    "create_gift_wrap_with_material reference_crates reference_json reference_nip44 r demo_key
       (schnorr_public reference_crates demo_recipient) Persistent demo_material EventLimits_default = Inr w"
    "seal_rumor reference_crates reference_json reference_nip44 r demo_key
       (schnorr_public reference_crates demo_recipient) demo_material EventLimits_default = Inr seal"
    "fits reference_json EventLimits_default (rumor_json r)"
    "fits reference_json EventLimits_default (signed_event_json seal)"
    "fits reference_json EventLimits_default (signed_event_json w)"
  from gift_wrap_roundtrip [OF reference_wrap_laws demo_recipient_key(1) demo_material_ok d(2-7)] d(1)
  show ?thesis by blast
qed

lemma opened_authentic:
  assumes "open_gift_wrap c jc l w sk now limits = Inr opened"
  defines "seal \<equiv> opened_seal opened" and "r \<equiv> opened_rumor opened"
  shows "\<exists>pk m sg rumor_text n me.
      decode_hex_32 c (r_pubkey r) = Inr pk \<and> s_pubkey seal = r_pubkey r
    \<and> canonical_json jc (event_unsigned seal) = Inr m \<and> decode_hex_64 c (s_sig seal) = Inr sg
    \<and> schnorr_verify c pk (sha256 c m) sg \<and> s_tags seal = []
    \<and> decrypt l sk pk (s_content seal) = Inr rumor_text
    \<and> Option.bind (json_from_slice jc (as_bytes rumor_text)) de_rumor = Some r
    \<and> canonical_json jc (rumor_unsigned r) = Inr n \<and> r_id r = hex_encode c (sha256 c n)
    \<and> xonly_public_key c sk = Inr me
    \<and> (\<exists>tag. filter (first_is ''p'') (s_tags w) = [tag] \<and> 1 < length tag \<and> tag ! 1 = hex_encode c me)"
proof -
  note opened = open_gift_wrap_Inr [OF assms(1), folded seal_def r_def]
  obtain me seal_text pk rumor_text where
    o: "xonly_public_key c sk = Inr me" "addressed_to w (hex_encode c me)"
      "SignedEvent_from_json c jc (as_bytes seal_text) now limits = Inr seal" "s_tags seal = []"
      "decode_hex_32 c (s_pubkey seal) = Inr pk" "decrypt l sk pk (s_content seal) = Inr rumor_text"
      "Option.bind (json_from_slice jc (as_bytes rumor_text)) de_rumor = Some r"
      "Rumor_verify c jc limits r = Inr ()" "r_pubkey r = s_pubkey seal"
    by (rule opened)
  from o(3) have v: "event_verify c jc now limits seal = Inr ()"
    by (auto simp: SignedEvent_from_json_def split: if_splits)
  obtain m pk' sg where m: "canonical_json jc (event_unsigned seal) = Inr m" "decode_hex_32 c (s_pubkey seal) = Inr pk'"
      "decode_hex_64 c (s_sig seal) = Inr sg" "schnorr_verify c pk' (sha256 c m) sg"
    using event_verify_Inr [OF v] by metis
  have "\<exists>tag. filter (first_is ''p'') (s_tags w) = [tag] \<and> 1 < length tag \<and> tag ! 1 = hex_encode c me"
    using o(2) by (auto simp: addressed_to_def split: list.splits)
  moreover obtain n where "canonical_json jc (rumor_unsigned r) = Inr n" "r_id r = hex_encode c (sha256 c n)"
    using o(8) by (auto simp: Rumor_verify_Inr)
  moreover have "pk' = pk" using o(5) m(2) by simp
  ultimately show ?thesis using o(1,4-7,9) m by metis
qed

text \<open>
  C29. What opens is authentic. If \<open>open_gift_wrap\<close> returns a rumor, then the public key that the
  rumor names as its author signed the seal it came in, the seal's text decrypts under that same
  key and the recipient's secret to the rumor, the seal carries no tags, the wrap is addressed to
  the recipient and to nobody else, and the rumor's identifier is the digest of its fields.
\<close>

theorem opened_is_authentic:
  assumes "open_gift_wrap c jc l w sk now limits = Inr opened"
  defines "seal \<equiv> opened_seal opened" and "r \<equiv> opened_rumor opened"
  shows "\<exists>pk m sg rumor_text n me.
      decode_hex_32 c (r_pubkey r) = Inr pk \<and> s_pubkey seal = r_pubkey r
    \<and> canonical_json jc (event_unsigned seal) = Inr m \<and> decode_hex_64 c (s_sig seal) = Inr sg
    \<and> schnorr_verify c pk (sha256 c m) sg \<and> s_tags seal = []
    \<and> decrypt l sk pk (s_content seal) = Inr rumor_text
    \<and> Option.bind (json_from_slice jc (as_bytes rumor_text)) de_rumor = Some r
    \<and> canonical_json jc (rumor_unsigned r) = Inr n \<and> r_id r = hex_encode c (sha256 c n)
    \<and> xonly_public_key c sk = Inr me
    \<and> (\<exists>tag. filter (first_is ''p'') (s_tags w) = [tag] \<and> 1 < length tag \<and> tag ! 1 = hex_encode c me)"
  unfolding seal_def r_def by (rule opened_authentic [OF assms(1)])

theorem opened_is_authentic_witness:
  "\<exists>w opened m sg. open_gift_wrap reference_crates reference_json reference_nip44 w demo_recipient 5 EventLimits_default
       = Inr opened
     \<and> canonical_json reference_json (event_unsigned (opened_seal opened)) = Inr m
     \<and> decode_hex_64 reference_crates (s_sig (opened_seal opened)) = Inr sg
     \<and> schnorr_verify reference_crates demo_key (sha256 reference_crates m) sg"
proof (rule demo_created)
  fix r seal w
  assume d: "Rumor_new reference_crates reference_json demo_note EventLimits_default = Inr r" "rumor_utf8 r"
    "create_gift_wrap_with_material reference_crates reference_json reference_nip44 r demo_key
       (schnorr_public reference_crates demo_recipient) Persistent demo_material EventLimits_default = Inr w"
    "seal_rumor reference_crates reference_json reference_nip44 r demo_key
       (schnorr_public reference_crates demo_recipient) demo_material EventLimits_default = Inr seal"
    "fits reference_json EventLimits_default (rumor_json r)"
    "fits reference_json EventLimits_default (signed_event_json seal)"
    "fits reference_json EventLimits_default (signed_event_json w)"
  note o = created_wrap_opens [OF reference_wrap_laws demo_recipient_key(1) demo_material_ok d(2-7)]
  have "r_pubkey r = hex_string demo_key"
    using d(1) by (auto simp: Rumor_new_def UnsignedEvent_new_Inr demo_note_def)
  moreover have "decode_hex_32 reference_crates (hex_string demo_key) = Inr demo_key"
    by (simp add: decode_hex_defs decode_hex_Inr demo_key_def reference_crates_def hex_parse_string
        length_hex_string hex_string_lower)
  ultimately obtain m sg where "canonical_json reference_json (event_unsigned seal) = Inr m"
    "decode_hex_64 reference_crates (s_sig seal) = Inr sg"
    "schnorr_verify reference_crates demo_key (sha256 reference_crates m) sg"
    using opened_is_authentic [OF o] by auto
  with o show ?thesis
    by (intro exI [of _ w] exI [of _ "\<lparr>opened_seal = seal, opened_rumor = r\<rparr>"] exI [of _ m] exI [of _ sg]) simp
qed

end
