(* ===== verification/Dedup.thy ===== *)
theory Dedup
  imports Prelude
begin

text \<open>
  The bounded memory of event identifiers that the direct-message inbox and the relay pool both
  keep: a set of identifiers and the queue of their arrival times. The two copies in the source
  differ only in their clock, so the loops are stated once over a predicate \<open>expired\<close> on arrival
  times. Shown: the set and the queue agree and stay bounded, and an identifier is forgotten only
  when it expires or after as many later identifiers as the capacity.
\<close>

type_synonym 't window = "string set \<times> ('t \<times> string) list"

text \<open>The two loops of \<open>remember\<close>: dropping expired entries, and making room for a new one.\<close>

fun drop_expired :: "('t \<Rightarrow> bool) \<Rightarrow> string set \<Rightarrow> ('t \<times> string) list \<Rightarrow> 't window" where
  "drop_expired expired seen [] = (seen, [])"
| "drop_expired expired seen ((t, x) # order) =
     (if \<not> expired t then (seen, (t, x) # order) else drop_expired expired (seen - {x}) order)"

fun make_room :: "nat \<Rightarrow> string set \<Rightarrow> ('t \<times> string) list \<Rightarrow> 't window" where
  "make_room cap seen [] = (seen, [])"
| "make_room cap seen ((t, x) # order) =
     (if card seen < cap then (seen, (t, x) # order) else make_room cap (seen - {x}) order)"

definition window_remember :: "('t \<Rightarrow> bool) \<Rightarrow> nat \<Rightarrow> 't \<Rightarrow> string \<Rightarrow> 't window \<Rightarrow> bool \<times> 't window" where
  "window_remember expired cap now x w =
     (case drop_expired expired (fst w) (snd w) of (seen, order) \<Rightarrow>
        if x \<in> seen then (False, (seen, order))
        else case make_room cap seen order of (seen, order) \<Rightarrow>
          (True, (insert x seen, order @ [(now, x)])))"

section \<open>Invariant\<close>

definition window_inv :: "nat \<Rightarrow> 't window \<Rightarrow> bool" where
  "window_inv cap w \<longleftrightarrow>
     fst w = set (map snd (snd w)) \<and> distinct (map snd (snd w)) \<and> length (snd w) \<le> max cap 1"

definition agree :: "'t window \<Rightarrow> bool" where
  "agree w \<longleftrightarrow> fst w = set (map snd (snd w)) \<and> distinct (map snd (snd w))"

lemma agree_Cons: "agree (seen, (t, x) # order) \<Longrightarrow> agree (seen - {x}, order)"
  by (auto simp: agree_def)

lemma agree_card: "agree w \<Longrightarrow> card (fst w) = length (snd w)"
  unfolding agree_def by (metis distinct_card length_map)

lemma drop_expired_suffix:
  "agree (seen, order) \<Longrightarrow> drop_expired expired seen order = (seen', order') \<Longrightarrow>
     agree (seen', order') \<and> order' = dropWhile (\<lambda>(t, _). expired t) order"
proof (induction expired seen order rule: drop_expired.induct)
  case (2 expired seen t x order)
  then show ?case using agree_Cons [of seen t x order] by (auto split: if_splits)
qed auto

lemma make_room_suffix:
  "agree (seen, order) \<Longrightarrow> make_room cap seen order = (seen', order') \<Longrightarrow>
     agree (seen', order') \<and> order' = drop (length order - (cap - 1)) order"
proof (induction cap seen order rule: make_room.induct)
  case (2 cap seen t x order)
  have n: "card seen = Suc (length order)" using agree_card [OF 2(2)] by simp
  show ?case
  proof (cases "card seen < cap")
    case True
    with 2 n show ?thesis by auto
  next
    case False
    with 2(3) have "make_room cap (seen - {x}) order = (seen', order')" by simp
    from 2(1) [OF False agree_Cons [OF 2(2)] this]
    have r: "agree (seen', order')" "order' = drop (length order - (cap - 1)) order" by blast+
    show ?thesis
    proof (cases "cap = 0")
      case True
      with r show ?thesis by simp
    next
      case c: False
      have "length ((t, x) # order) - (cap - 1) = Suc (length order - (cap - 1))" using False n c by simp
      with r show ?thesis by simp
    qed
  qed
qed auto

lemma window_remember_cases:
  assumes inv: "window_inv cap w" and r: "window_remember expired cap now x w = (new, w')"
  obtains kept where "kept = dropWhile (\<lambda>(t, _). expired t) (snd w)"
    "new \<longleftrightarrow> x \<notin> set (map snd kept)"
    "snd w' = (if new then drop (length kept - (cap - 1)) kept @ [(now, x)] else kept)"
    "window_inv cap w'"
proof -
  obtain seen order where d: "drop_expired expired (fst w) (snd w) = (seen, order)" by fastforce
  have aw: "agree (fst w, snd w)" using inv by (simp add: window_inv_def agree_def)
  note e = drop_expired_suffix [OF aw d]
  have len: "length order \<le> max cap 1"
    using e inv le_trans [OF length_dropWhile_le [of "\<lambda>(t, _). expired t" "snd w"]] by (simp add: window_inv_def)
  show ?thesis
  proof (cases "x \<in> seen")
    case True
    with r d have "new = False" "w' = (seen, order)" by (auto simp: window_remember_def)
    with True e len show ?thesis by (intro that [of order]) (auto simp: agree_def window_inv_def)
  next
    case False
    obtain seen2 order2 where m: "make_room cap seen order = (seen2, order2)" by fastforce
    note f = make_room_suffix [OF conjunct1 [OF e] m]
    have w': "new = True" "w' = (insert x seen2, order2 @ [(now, x)])"
      using r d m False by (auto simp: window_remember_def)
    have "x \<notin> set (map snd order2)"
      using e f False by (auto simp: agree_def dest: in_set_dropD)
    moreover have "length order2 \<le> cap - 1" using e f by simp
    ultimately show ?thesis
      using e f w' False by (intro that [of order]) (auto simp: agree_def window_inv_def max_def)
  qed
qed

lemma window_inv_remember: "window_inv cap w \<Longrightarrow> window_inv cap (snd (window_remember expired cap now x w))"
  by (metis prod.collapse window_remember_cases)

section \<open>Forgetting\<close>

lemma dropWhile_keeps:
  assumes "\<not> P y"
  shows "\<exists>pre'. dropWhile P (pre @ y # post) = pre' @ y # post"
  using assms by (induction pre) auto

lemma drop_keeps:
  assumes "n \<le> length pre"
  shows "\<exists>pre'. drop n (pre @ y # post) = pre' @ y # post"
  using assms by simp

text \<open>One more identifier: an entry that has not expired stays, with the newer entries behind it, unless they fill the window.\<close>

lemma window_step:
  assumes inv: "window_inv cap w" and at: "snd w = pre @ (t, y) # post" and fresh: "\<not> expired t"
    and r: "window_remember expired cap now x w = (new, w')"
  shows "(\<exists>pre' post'. snd w' = pre' @ (t, y) # post' \<and> length post' = length post + of_bool new)
    \<or> (new \<and> cap \<le> length post + 1)"
proof -
  obtain kept where k: "kept = dropWhile (\<lambda>(t, _). expired t) (snd w)"
    "snd w' = (if new then drop (length kept - (cap - 1)) kept @ [(now, x)] else kept)"
    by (rule window_remember_cases [OF inv r]) blast
  obtain pre' where pre': "kept = pre' @ (t, y) # post"
    using dropWhile_keeps [of "\<lambda>(t, _). expired t" "(t, y)" pre post] fresh k(1) at by auto
  show ?thesis
  proof (cases "new \<and> cap \<le> length post + 1")
    case False
    show ?thesis
    proof (cases new)
      case True
      with False have "length kept - (cap - 1) \<le> length pre'" by (simp add: pre')
      from drop_keeps [OF this, of "(t, y)" post] obtain p2 where
        "drop (length kept - (cap - 1)) kept = p2 @ (t, y) # post" by (auto simp: pre')
      with k(2) True have "snd w' = p2 @ (t, y) # (post @ [(now, x)])" by simp
      with True show ?thesis by (metis length_append_singleton of_bool_eq(2) Suc_eq_plus1)
    qed (use k(2) pre' in auto)
  qed blast
qed

text \<open>A run of arrivals \<open>(identifier, time)\<close>, with the number of new identifiers in it.\<close>

fun window_run :: "('t \<Rightarrow> 't \<Rightarrow> bool) \<Rightarrow> nat \<Rightarrow> (string \<times> 't) list \<Rightarrow> 't window \<Rightarrow> nat \<times> 't window" where
  "window_run expired cap [] w = (0, w)"
| "window_run expired cap ((x, now) # ops) w =
     (case window_remember (expired now) cap now x w of (new, w) \<Rightarrow>
        case window_run expired cap ops w of (n, w) \<Rightarrow> (of_bool new + n, w))"

lemma window_run_inv: "window_inv cap w \<Longrightarrow> window_run expired cap ops w = (n, w') \<Longrightarrow> window_inv cap w'"
proof (induction ops arbitrary: w n)
  case (Cons op ops)
  obtain x now where op: "op = (x, now)" by fastforce
  obtain new w1 where r: "window_remember (expired now) cap now x w = (new, w1)" by (metis surj_pair)
  have "window_inv cap w1" using window_inv_remember [OF Cons.prems(1)] r by (metis snd_conv)
  moreover obtain k where "window_run expired cap ops w1 = (k, w')"
    using Cons.prems(2) r by (auto simp: op split: prod.splits)
  ultimately show ?case by (rule Cons.IH)
qed simp

lemma window_run_keeps:
  assumes "window_inv cap w" and "snd w = pre @ (t, y) # post" and "list_all (\<lambda>(_, now). \<not> expired now t) ops"
    and "window_run expired cap ops w = (n, w')"
  shows "window_inv cap w' \<and> ((\<exists>pre' post'. snd w' = pre' @ (t, y) # post' \<and> length post' = length post + n)
    \<or> cap \<le> length post + n)"
  using assms
proof (induction ops arbitrary: w pre post n)
  case (Cons op ops)
  obtain x now where op: "op = (x, now)" by fastforce
  obtain new w1 where r: "window_remember (expired now) cap now x w = (new, w1)" by (metis surj_pair)
  obtain k where run: "window_run expired cap ops w1 = (k, w')" and n: "n = of_bool new + k"
    using Cons.prems(4) r by (auto simp: op split: prod.splits)
  have fresh: "\<not> expired now t" using Cons.prems(3) by (simp add: op)
  have inv1: "window_inv cap w1" using window_inv_remember [OF Cons.prems(1)] r by (metis snd_conv)
  have inv': "window_inv cap w'" by (rule window_run_inv [OF inv1 run])
  from window_step [OF Cons.prems(1,2) fresh r] show ?case
  proof
    assume "\<exists>pre' post'. snd w1 = pre' @ (t, y) # post' \<and> length post' = length post + of_bool new"
    then obtain pre' post' where p: "snd w1 = pre' @ (t, y) # post'" "length post' = length post + of_bool new" by blast
    have "list_all (\<lambda>(_, now). \<not> expired now t) ops" using Cons.prems(3) by simp
    from Cons.IH [OF inv1 p(1) this run] p(2) n show ?thesis by (auto simp: add.assoc)
  next
    assume "new \<and> cap \<le> length post + 1"
    with inv' n show ?thesis by simp
  qed
qed auto

lemma window_no_repeat:
  assumes "window_inv cap w" and first: "window_remember (expired now) cap now y w = (True, w1)"
    and run: "window_run expired cap ops w1 = (n, w2)"
    and again: "window_remember (expired now') cap now' y w2 = (True, w3)"
  shows "list_ex (\<lambda>(_, t). expired t now) (ops @ [(y, now')]) \<or> cap \<le> n"
proof (rule ccontr)
  assume not: "\<not> ?thesis"
  obtain kept where "snd w1 = drop (length kept - (cap - 1)) kept @ [(now, y)]" and inv1: "window_inv cap w1"
    by (rule window_remember_cases [OF assms(1) first]) auto
  then have at: "snd w1 = drop (length kept - (cap - 1)) kept @ (now, y) # []" by simp
  have live: "list_all (\<lambda>(_, t). \<not> expired t now) ops" "\<not> expired now' now"
    using not by (auto simp: list_all_iff list_ex_iff)
  from window_run_keeps [OF inv1 at live(1) run] not obtain pre post where
    inv2: "window_inv cap w2" and w2: "snd w2 = pre @ (now, y) # post" by auto
  obtain kept2 where k: "kept2 = dropWhile (\<lambda>(t, _). expired now' t) (snd w2)" "y \<notin> set (map snd kept2)"
    by (rule window_remember_cases [OF inv2 again]) auto
  obtain pre' where "kept2 = pre' @ (now, y) # post"
    using dropWhile_keeps [of "\<lambda>(t, _). expired now' t" "(now, y)" pre post] live(2) k(1) w2 by auto
  with k(2) show False by simp
qed

end
