(* ===== verification/Dm_Inbox.thy ===== *)
theory Dm_Inbox
  imports Gift_Wrap Dedup
begin

text \<open>
  The direct-message inbox (\<open>omachat-nostr/src/dm_inbox.rs\<close>): a gift wrap from a relay is checked
  to be addressed to the user, opened, remembered by its identifier and delivered unless its
  author is blocked. Shown: over any history, a wrap is delivered a second time only after the
  time to live or after as many later wraps as the memory holds.
\<close>

section \<open>Types\<close>

definition DEFAULT_DM_LOOKBACK_SECONDS :: u64 where "DEFAULT_DM_LOOKBACK_SECONDS = 30 * 24 * 60 * 60"
definition DEFAULT_DM_FETCH_LIMIT :: nat where "DEFAULT_DM_FETCH_LIMIT = 500"

record dm_inbox_config =
  lookback_seconds :: u64
  fetch_limit :: nat
  dedup_capacity :: nat
  dedup_ttl_seconds :: u64
  event_limits :: event_limits

definition DmInboxConfig_default :: dm_inbox_config where
  "DmInboxConfig_default =
    \<lparr>lookback_seconds = DEFAULT_DM_LOOKBACK_SECONDS, fetch_limit = DEFAULT_DM_FETCH_LIMIT,
     dedup_capacity = 10000, dedup_ttl_seconds = DEFAULT_DM_LOOKBACK_SECONDS,
     event_limits = EventLimits_default\<rparr>"

record dm_message_metadata =
  gift_wrap_id :: string
  seal_id :: string
  rumor_id :: string
  author_pubkey :: string
  dm_created_at :: u64

record dm_message =
  dm_metadata :: dm_message_metadata
  dm_tags :: "tag list"
  dm_content :: string

datatype dm_inbox_receive =
    Inbox_Message dm_message
  | Inbox_Blocked dm_message_metadata
  | Inbox_Duplicate string

record dm_inbox =
  inbox_config :: dm_inbox_config
  blocked_authors :: "string set"
  inbox_seen :: "string set"
  inbox_seen_order :: "(u64 \<times> string) list"

datatype dm_inbox_error =
    Inbox_InvalidConfig
  | Inbox_InvalidPublicKey
  | Inbox_InvalidSecretKey
  | WrongRecipient
  | UnexpectedGiftWrapKind u32
  | UnexpectedRumorKind u32
  | Inbox_GiftWrap gift_wrap_error

section \<open>Operations\<close>

definition DmInbox_new :: "dm_inbox_config \<Rightarrow> dm_inbox_error + dm_inbox" where
  "DmInbox_new config =
     (if lookback_seconds config = 0 \<or> fetch_limit config = 0 \<or> dedup_capacity config = 0
         \<or> dedup_ttl_seconds config = 0
      then Inl Inbox_InvalidConfig
      else Inr \<lparr>inbox_config = config, blocked_authors = {}, inbox_seen = {}, inbox_seen_order = []\<rparr>)"

definition validate_xonly :: "string \<Rightarrow> dm_inbox_error + unit" where
  "validate_xonly value =
     (if length value = 64 \<and> list_all is_lower_hexdigit value then Inr () else Inl Inbox_InvalidPublicKey)"

definition subscription_filter :: "string \<Rightarrow> u64 \<Rightarrow> dm_inbox \<Rightarrow> dm_inbox_error + json" where
  "subscription_filter recipient now b =
     and_then (validate_xonly recipient) (\<lambda>_.
     Inr (JObj [(''#p'', JArr [JStr recipient]), (''kinds'', JArr [JInt (uint GIFT_WRAP_KIND)]),
                   (''limit'', JInt (int (fetch_limit (inbox_config b)))),
                   (''since'', JInt (uint (saturating_sub now (lookback_seconds (inbox_config b)))))]))"

definition block_author :: "string \<Rightarrow> dm_inbox \<Rightarrow> (dm_inbox_error + unit) \<times> dm_inbox" where
  "block_author author b =
     (case validate_xonly author of
        Inl e \<Rightarrow> (Inl e, b)
      | Inr _ \<Rightarrow> (Inr (), b\<lparr>blocked_authors := insert author (blocked_authors b)\<rparr>))"

definition unblock_author :: "string \<Rightarrow> dm_inbox \<Rightarrow> (dm_inbox_error + unit) \<times> dm_inbox" where
  "unblock_author author b =
     (case validate_xonly author of
        Inl e \<Rightarrow> (Inl e, b)
      | Inr _ \<Rightarrow> (Inr (), b\<lparr>blocked_authors := blocked_authors b - {author}\<rparr>))"

definition require_exact_outer_recipient :: "signed_event \<Rightarrow> string \<Rightarrow> dm_inbox_error + unit" where
  "require_exact_outer_recipient w recipient_hex =
     (case List.map_filter (\<lambda>tag. if 1 < length tag then Some (tag ! 1) else None)
             (filter (first_is ''p'') (s_tags w)) of
        [recipient] \<Rightarrow> if recipient = recipient_hex then Inr () else Inl WrongRecipient
      | _ \<Rightarrow> Inl WrongRecipient)"

definition inbox_expired :: "u64 \<Rightarrow> u64 \<Rightarrow> u64 \<Rightarrow> bool" where
  "inbox_expired ttl now seen_at \<longleftrightarrow> \<not> saturating_sub now seen_at < ttl"

definition inbox_remember :: "string \<Rightarrow> u64 \<Rightarrow> dm_inbox \<Rightarrow> bool \<times> dm_inbox" where
  "inbox_remember event now b =
     (case window_remember (inbox_expired (dedup_ttl_seconds (inbox_config b)) now) (dedup_capacity (inbox_config b))
             now event (inbox_seen b, inbox_seen_order b) of
        (new, seen, order) \<Rightarrow> (new, b\<lparr>inbox_seen := seen, inbox_seen_order := order\<rparr>))"

definition apply_author_policy :: "signed_event \<Rightarrow> opened_gift_wrap \<Rightarrow> dm_inbox \<Rightarrow> dm_inbox_receive" where
  "apply_author_policy w opened b =
     (let r = opened_rumor opened;
          metadata = \<lparr>gift_wrap_id = s_id w, seal_id = s_id (opened_seal opened), rumor_id = r_id r,
                      author_pubkey = r_pubkey r, dm_created_at = r_created_at r\<rparr> in
      if r_pubkey r \<in> blocked_authors b then Inbox_Blocked metadata
      else Inbox_Message \<lparr>dm_metadata = metadata, dm_tags = r_tags r, dm_content = r_content r\<rparr>)"

definition receive ::
  "crates \<Rightarrow> json_crate \<Rightarrow> nip44_crates \<Rightarrow> signed_event \<Rightarrow> bytes \<Rightarrow> u64 \<Rightarrow> dm_inbox
     \<Rightarrow> (dm_inbox_error + dm_inbox_receive) \<times> dm_inbox" where
  "receive c jc l w recipient_secret_key now b =
     (if s_kind w \<noteq> GIFT_WRAP_KIND then (Inl (UnexpectedGiftWrapKind (s_kind w)), b)
      else
        then_st (map_err (\<lambda>_. Inbox_InvalidSecretKey) (xonly_public_key c recipient_secret_key), b) (\<lambda>public_key b.
        then_st (require_exact_outer_recipient w (hex_encode c public_key), b) (\<lambda>_ b.
        then_st (map_err Inbox_GiftWrap
                  (open_gift_wrap c jc l w recipient_secret_key now (event_limits (inbox_config b))), b) (\<lambda>opened b.
        if r_kind (opened_rumor opened) \<noteq> CHAT_MESSAGE_KIND
        then (Inl (UnexpectedRumorKind (r_kind (opened_rumor opened))), b)
        else
          case inbox_remember (s_id w) now b of
            (False, b) \<Rightarrow> (Inr (Inbox_Duplicate (s_id w)), b)
          | (True, b) \<Rightarrow> (Inr (apply_author_policy w opened b), b)))))"

section \<open>No second delivery\<close>

datatype inbox_op =
    Receive signed_event bytes u64
  | Block string
  | Unblock string

fun is_new :: "dm_inbox_error + dm_inbox_receive \<Rightarrow> bool" where
  "is_new (Inr (Inbox_Message _)) = True"
| "is_new (Inr (Inbox_Blocked _)) = True"
| "is_new _ = False"

text \<open>A history, with the number of wraps that were new.\<close>

fun inbox_step :: "crates \<Rightarrow> json_crate \<Rightarrow> nip44_crates \<Rightarrow> inbox_op \<Rightarrow> dm_inbox \<Rightarrow> bool \<times> dm_inbox" where
  "inbox_step c jc l (Receive w sk now) b = (case receive c jc l w sk now b of (r, b) \<Rightarrow> (is_new r, b))"
| "inbox_step c jc l (Block a) b = (False, snd (block_author a b))"
| "inbox_step c jc l (Unblock a) b = (False, snd (unblock_author a b))"

fun inbox_run :: "crates \<Rightarrow> json_crate \<Rightarrow> nip44_crates \<Rightarrow> inbox_op list \<Rightarrow> dm_inbox \<Rightarrow> nat \<times> dm_inbox" where
  "inbox_run c jc l [] b = (0, b)"
| "inbox_run c jc l (op # ops) b =
     (case inbox_step c jc l op b of (new, b) \<Rightarrow>
        case inbox_run c jc l ops b of (n, b) \<Rightarrow> (of_bool new + n, b))"

fun op_time :: "inbox_op \<Rightarrow> u64 option" where
  "op_time (Receive _ _ now) = Some now"
| "op_time _ = None"

abbreviation inbox_window :: "dm_inbox \<Rightarrow> u64 window" where
  "inbox_window b \<equiv> (inbox_seen b, inbox_seen_order b)"

lemma receive_remember:
  assumes "receive c jc l w sk now b = (r, b')"
  shows "inbox_config b' = inbox_config b \<and>
    (b' = b \<and> \<not> is_new r \<or> inbox_remember (s_id w) now b = (is_new r, b'))"
proof -
  have "inbox_config (snd (inbox_remember x now b)) = inbox_config b" for x
    by (simp add: inbox_remember_def split: prod.splits)
  then have cfg: "inbox_remember x now b = (new, d) \<Longrightarrow> inbox_config d = inbox_config b" for x new d by (metis snd_conv)
  have new: "is_new (Inr (apply_author_policy w opened d))" for opened d
    by (simp add: apply_author_policy_def Let_def)
  from assms show ?thesis
    unfolding receive_def
    by (auto simp: then_st_def new split: if_splits sum.splits prod.splits bool.splits dest: cfg)
qed

lemma inbox_remember_window:
  assumes "inbox_remember x now b = (new, b')"
  shows "window_remember (inbox_expired (dedup_ttl_seconds (inbox_config b)) now) (dedup_capacity (inbox_config b))
    now x (inbox_window b) = (new, inbox_window b')"
  using assms by (auto simp: inbox_remember_def split: prod.splits)

lemma inbox_step_window:
  assumes "inbox_step c jc l op b = (new, b')"
  shows "inbox_config b' = inbox_config b \<and>
    (inbox_window b' = inbox_window b \<and> \<not> new
     \<or> (\<exists>w sk now. op = Receive w sk now \<and> inbox_remember (s_id w) now b = (new, b')))"
proof (cases op)
  case (Receive w sk now)
  with assms obtain r where "receive c jc l w sk now b = (r, b')" "new = is_new r" by (auto split: prod.splits)
  with receive_remember [OF this(1)] Receive show ?thesis by auto
qed (use assms in \<open>auto simp: block_author_def unblock_author_def split: sum.splits\<close>)

lemma inbox_run_window:
  assumes "inbox_run c jc l ops b = (n, b')"
  shows "inbox_config b' = inbox_config b \<and> (\<exists>wops.
    window_run (inbox_expired (dedup_ttl_seconds (inbox_config b))) (dedup_capacity (inbox_config b)) wops (inbox_window b)
      = (n, inbox_window b')
    \<and> set (map snd wops) \<subseteq> set (List.map_filter op_time ops))"
  using assms
proof (induction ops arbitrary: b n)
  case Nil
  then show ?case by (auto intro: exI [of _ "[]"])
next
  case (Cons op ops)
  obtain new b1 where s: "inbox_step c jc l op b = (new, b1)" by (metis surj_pair)
  obtain k where r: "inbox_run c jc l ops b1 = (k, b')" and n: "n = of_bool new + k"
    using Cons.prems s by (auto split: prod.splits)
  note st = inbox_step_window [OF s]
  then have cfg: "inbox_config b1 = inbox_config b" by blast
  obtain wops where w: "inbox_config b' = inbox_config b" and
    "window_run (inbox_expired (dedup_ttl_seconds (inbox_config b))) (dedup_capacity (inbox_config b)) wops (inbox_window b1)
      = (k, inbox_window b')" "set (map snd wops) \<subseteq> set (List.map_filter op_time ops)"
    using Cons.IH [OF r] cfg by auto
  note run = this(2,3)
  from st show ?case
  proof (elim conjE disjE exE)
    assume "inbox_window b1 = inbox_window b" "\<not> new"
    with run w n show ?thesis by (auto split: option.splits)
  next
    fix g sk now
    assume op: "op = Receive g sk now" and "inbox_remember (s_id g) now b = (new, b1)"
    from inbox_remember_window [OF this(2)] run w n
    show ?thesis by (intro conjI exI [of _ "(s_id g, now) # wops"]) (auto simp: op)
  qed
qed

lemma DmInbox_new_window: "DmInbox_new config = Inr b \<Longrightarrow> window_inv n (inbox_window b) \<and> inbox_config b = config"
  by (auto simp: DmInbox_new_def window_inv_def split: if_splits)

lemma new_remembers:
  assumes "receive c jc l w sk now b = (r, b')" and "is_new r"
  shows "inbox_remember (s_id w) now b = (True, b')" and "inbox_config b' = inbox_config b"
  using receive_remember [OF assms(1)] assms(2) by auto

text \<open>
  C30. No message is delivered twice. After any history of an inbox, once a gift wrap was new
  (delivered, or withheld because its author is blocked), a wrap with the same identifier is new
  again only if the clock of some call since then was past its time to live, or if at least as
  many other wraps were new in between as the memory holds.
\<close>

theorem inbox_no_redelivery:
  assumes "DmInbox_new config = Inr b0" and "inbox_run c jc l before b0 = (m, b)"
    and "receive c jc l w sk now b = (x, b1)" "is_new x"
    and "inbox_run c jc l between b1 = (n, b2)"
    and "receive c jc l w' sk' now' b2 = (y, b3)" "is_new y" "s_id w' = s_id w"
  shows "list_ex (\<lambda>t. dedup_ttl_seconds config \<le> saturating_sub t now)
      (List.map_filter op_time (between @ [Receive w' sk' now']))
    \<or> dedup_capacity config \<le> n"
proof -
  let ?ex = "inbox_expired (dedup_ttl_seconds config)" and ?cap = "dedup_capacity config"
  note n0 = DmInbox_new_window [OF assms(1), of ?cap]
  obtain wops0 where r0: "inbox_config b = config" "window_run ?ex ?cap wops0 (inbox_window b0) = (m, inbox_window b)"
    using inbox_run_window [OF assms(2)] n0 by auto
  have inv: "window_inv ?cap (inbox_window b)" using window_run_inv [OF _ r0(2)] n0 by blast
  note f = new_remembers [OF assms(3,4)]
  note first = inbox_remember_window [OF f(1), unfolded r0(1)]
  obtain wops where r: "inbox_config b2 = config" "window_run ?ex ?cap wops (inbox_window b1) = (n, inbox_window b2)"
    "set (map snd wops) \<subseteq> set (List.map_filter op_time between)"
    using inbox_run_window [OF assms(5)] f(2) r0(1) by auto
  note again = inbox_remember_window [OF new_remembers(1) [OF assms(6,7)], unfolded r(1) assms(8)]
  from window_no_repeat [OF inv first r(2) again]
  show ?thesis
  proof
    assume "list_ex (\<lambda>(_, t). ?ex t now) (wops @ [(s_id w, now')])"
    then obtain u t where "(u, t) \<in> set wops \<or> t = now'" "?ex t now" by (auto simp: list_ex_iff)
    then have "t \<in> set (map snd wops) \<or> t = now'" "?ex t now" by force+
    then show ?thesis using r(3) by (auto simp: list_ex_iff inbox_expired_def not_less)
  qed simp
qed

lemma demo_wrap_received:
  obtains w where "\<And>now b. 5 \<le> now \<Longrightarrow> event_limits (inbox_config b) = EventLimits_default \<Longrightarrow>
    \<exists>opened. receive reference_crates reference_json reference_nip44 w demo_recipient now b =
      (case inbox_remember (s_id w) now b of
         (False, b) \<Rightarrow> (Inr (Inbox_Duplicate (s_id w)), b)
       | (True, b) \<Rightarrow> (Inr (apply_author_policy w opened b), b))"
proof (rule demo_created)
  fix r seal w
  assume d: "Rumor_new reference_crates reference_json demo_note EventLimits_default = Inr r" "rumor_utf8 r"
    "create_gift_wrap_with_material reference_crates reference_json reference_nip44 r demo_key
       (schnorr_public reference_crates demo_recipient) Persistent demo_material EventLimits_default = Inr w"
    "seal_rumor reference_crates reference_json reference_nip44 r demo_key
       (schnorr_public reference_crates demo_recipient) demo_material EventLimits_default = Inr seal"
    "fits reference_json EventLimits_default (rumor_json r)"
    "fits reference_json EventLimits_default (signed_event_json seal)"
    "fits reference_json EventLimits_default (signed_event_json w)"
  have mat: "material_ok demo_material EventLimits_default now" if "5 \<le> now" for now
    using that by (simp add: material_ok_def demo_material_def event_default_defs u64_arith min_def)
  have "r_kind r = CHAT_MESSAGE_KIND"
    using d(1) by (auto simp: Rumor_new_def UnsignedEvent_new_Inr demo_note_def CHAT_MESSAGE_KIND_def)
  moreover have "s_kind w = GIFT_WRAP_KIND" "s_tags w = [[''p'', hex_encode reference_crates demo_recipient]]"
    using d(3) by (auto elim!: create_gift_wrap_Inr wrap_seal_Inr simp: demo_recipient_key(2)
        dest!: sign_with_aux_unsigned dest: event_unsigned_fields)
  ultimately show thesis
    using created_wrap_opens [OF reference_wrap_laws demo_recipient_key(1) mat d(2-7)] demo_recipient_key
    by (intro that [of w]) (auto simp: receive_def xonly_public_key_def require_exact_outer_recipient_def first_is_def)
qed

theorem inbox_no_redelivery_witness:
  "\<exists>b0 w x b1 y b3. DmInbox_new DmInboxConfig_default = Inr b0
     \<and> receive reference_crates reference_json reference_nip44 w demo_recipient 5 b0 = (x, b1) \<and> is_new x
     \<and> receive reference_crates reference_json reference_nip44 w demo_recipient 2592005 b1 = (y, b3) \<and> is_new y
     \<and> (dedup_ttl_seconds DmInboxConfig_default \<le> saturating_sub 2592005 5 \<or> dedup_capacity DmInboxConfig_default \<le> 0)"
proof (rule demo_wrap_received)
  fix w
  assume rec: "\<And>now b. 5 \<le> now \<Longrightarrow> event_limits (inbox_config b) = EventLimits_default \<Longrightarrow>
    \<exists>opened. receive reference_crates reference_json reference_nip44 w demo_recipient now b =
      (case inbox_remember (s_id w) now b of
         (False, b) \<Rightarrow> (Inr (Inbox_Duplicate (s_id w)), b)
       | (True, b) \<Rightarrow> (Inr (apply_author_policy w opened b), b))"
  let ?x = "s_id w"
  obtain b0 where b0: "DmInbox_new DmInboxConfig_default = Inr b0"
    "b0 = \<lparr>inbox_config = DmInboxConfig_default, blocked_authors = {}, inbox_seen = {}, inbox_seen_order = []\<rparr>"
    by (simp add: DmInbox_new_def DmInboxConfig_default_def DEFAULT_DM_LOOKBACK_SECONDS_def DEFAULT_DM_FETCH_LIMIT_def)
  let ?b1 = "b0\<lparr>inbox_seen := {?x}, inbox_seen_order := [(5, ?x)]\<rparr>"
  let ?b3 = "b0\<lparr>inbox_seen := {?x}, inbox_seen_order := [(2592005, ?x)]\<rparr>"
  have new: "is_new (Inr (apply_author_policy w opened d))" for opened d
    by (simp add: apply_author_policy_def Let_def)
  have 1: "inbox_remember ?x 5 b0 = (True, ?b1)"
    by (simp add: inbox_remember_def window_remember_def b0(2))
  have 2: "inbox_remember ?x 2592005 ?b1 = (True, ?b3)"
    by (simp add: inbox_remember_def window_remember_def b0(2) inbox_expired_def saturating_sub_def
        DmInboxConfig_default_def DEFAULT_DM_LOOKBACK_SECONDS_def)
  have lim: "event_limits (inbox_config b0) = EventLimits_default" "event_limits (inbox_config ?b1) = EventLimits_default"
    by (simp_all add: b0(2) DmInboxConfig_default_def)
  obtain x where r1: "receive reference_crates reference_json reference_nip44 w demo_recipient 5 b0 = (x, ?b1)" "is_new x"
    using rec [OF _ lim(1), of 5] 1 new by auto
  obtain y where r2: "receive reference_crates reference_json reference_nip44 w demo_recipient 2592005 ?b1 = (y, ?b3)" "is_new y"
    using rec [OF _ lim(2), of 2592005] 2 new by auto
  have "inbox_run reference_crates reference_json reference_nip44 [] b0 = (0, b0)"
    "inbox_run reference_crates reference_json reference_nip44 [] ?b1 = (0, ?b1)" by simp_all
  from inbox_no_redelivery [OF b0(1) this(1) r1 this(2) r2]
  have "dedup_ttl_seconds DmInboxConfig_default \<le> saturating_sub 2592005 5 \<or> dedup_capacity DmInboxConfig_default \<le> 0"
    by simp
  with b0(1) r1 r2 show ?thesis by blast
qed

end
