(* ===== verification/Relay_Lists.thy ===== *)
theory Relay_Lists
  imports Gift_Wrap Urls "HOL-Library.List_Lexorder" "HOL-Library.Char_ord"
begin

text \<open>
  Signed relay lists: how they are read (\<open>omachat-nostr/src/discovery.rs\<close>), published
  (\<open>dm_relay_list.rs\<close>, \<open>relay_list.rs\<close>) and turned into a verified inbox of a recipient (\<open>inbox.rs\<close>).
  An error that carries the text of another error in the source carries that error here. Shown:
  a list that is read names each relay once, within its limits; and a published direct-message
  list is read back, and verified for its author, as exactly the relays it was made from.
\<close>

section \<open>Reading\<close>

definition NIP65_RELAY_LIST_KIND :: u32 where "NIP65_RELAY_LIST_KIND = 10002"
definition NIP17_DM_RELAY_LIST_KIND :: u32 where "NIP17_DM_RELAY_LIST_KIND = 10050"

record relay_discovery_limits =
  max_relays :: nat
  max_url_bytes :: nat

definition RelayDiscoveryLimits_default :: relay_discovery_limits where
  "RelayDiscoveryLimits_default = \<lparr>max_relays = 16, max_url_bytes = 2048\<rparr>"

record relay_preference =
  pref_url :: string
  pref_read :: bool
  pref_write :: bool

record relay_list =
  list_public_key :: string
  list_created_at :: u64
  list_relays :: "relay_preference list"

datatype relay_discovery_error =
    Discovery_InvalidEvent event_error
  | Discovery_WrongKind u32 u32
  | Discovery_InvalidLimits
  | InvalidRelayTag
  | InvalidRelayUrl
  | EmptyRelayList
  | Discovery_TooManyRelays nat

definition validate_limits :: "relay_discovery_limits \<Rightarrow> relay_discovery_error + unit" where
  "validate_limits limits =
     (if max_relays limits = 0 \<or> max_url_bytes limits = 0 then Inl Discovery_InvalidLimits else Inr ())"

definition normalize_relay_url :: "url_crate \<Rightarrow> string \<Rightarrow> relay_discovery_limits \<Rightarrow> relay_discovery_error + string" where
  "normalize_relay_url urls raw_url limits =
     (if raw_url = [] \<or> max_url_bytes limits < length raw_url then Inl InvalidRelayUrl
      else
        and_then (ok_or InvalidRelayUrl (urls raw_url)) (\<lambda>parsed.
        if url_scheme parsed \<notin> {''ws'', ''wss''} \<or> url_host parsed = None \<or> url_port parsed = None
           \<or> url_username parsed \<noteq> [] \<or> url_password parsed \<noteq> None \<or> url_query parsed \<noteq> None
           \<or> url_fragment parsed \<noteq> None
        then Inl InvalidRelayUrl else Inr (url_text parsed)))"

text \<open>A relay that is already listed gains the new marks; otherwise it is added while there is room.\<close>

fun merge_marks :: "string \<Rightarrow> bool \<Rightarrow> bool \<Rightarrow> relay_preference list \<Rightarrow> relay_preference list" where
  "merge_marks u r w [] = []"
| "merge_marks u r w (p # ps) =
     (if pref_url p = u then p\<lparr>pref_read := pref_read p \<or> r, pref_write := pref_write p \<or> w\<rparr> # ps
      else p # merge_marks u r w ps)"

definition merge_relay ::
  "url_crate \<Rightarrow> relay_preference list \<Rightarrow> string \<Rightarrow> bool \<Rightarrow> bool \<Rightarrow> relay_discovery_limits
     \<Rightarrow> relay_discovery_error + relay_preference list" where
  "merge_relay urls relays raw_url r w limits =
     and_then (normalize_relay_url urls raw_url limits) (\<lambda>u.
     if list_ex (\<lambda>p. pref_url p = u) relays then Inr (merge_marks u r w relays)
     else if max_relays limits \<le> length relays then Inl (Discovery_TooManyRelays (max_relays limits))
     else Inr (relays @ [\<lparr>pref_url = u, pref_read = r, pref_write = w\<rparr>]))"

definition nip65_marks :: "tag \<Rightarrow> relay_discovery_error + bool \<times> bool" where
  "nip65_marks tag =
     (case tag of
        [_, _] \<Rightarrow> Inr (True, True)
      | [_, _, marker] \<Rightarrow>
          if marker = ''read'' then Inr (True, False)
          else if marker = ''write'' then Inr (False, True)
          else Inl InvalidRelayTag
      | _ \<Rightarrow> Inl InvalidRelayTag)"

fun nip65_relays ::
  "url_crate \<Rightarrow> relay_discovery_limits \<Rightarrow> tag list \<Rightarrow> relay_preference list
     \<Rightarrow> relay_discovery_error + relay_preference list" where
  "nip65_relays urls limits [] relays = Inr relays"
| "nip65_relays urls limits (tag # tags) relays =
     (if \<not> first_is ''r'' tag then nip65_relays urls limits tags relays
      else
        and_then (nip65_marks tag) (\<lambda>(r, w).
        and_then (merge_relay urls relays (tag ! 1) r w limits) (\<lambda>relays.
          nip65_relays urls limits tags relays)))"

fun nip17_relays ::
  "url_crate \<Rightarrow> relay_discovery_limits \<Rightarrow> tag list \<Rightarrow> relay_preference list
     \<Rightarrow> relay_discovery_error + relay_preference list" where
  "nip17_relays urls limits [] relays = Inr relays"
| "nip17_relays urls limits (tag # tags) relays =
     (if \<not> first_is ''relay'' tag then nip17_relays urls limits tags relays
      else if length tag \<noteq> 2 then Inl InvalidRelayTag
      else
        and_then (merge_relay urls relays (tag ! 1) True True limits) (\<lambda>relays.
          nip17_relays urls limits tags relays))"

definition parse_relay_list ::
  "crates \<Rightarrow> json_crate \<Rightarrow> (tag list \<Rightarrow> relay_preference list \<Rightarrow> relay_discovery_error + relay_preference list)
     \<Rightarrow> u32 \<Rightarrow> signed_event \<Rightarrow> u64 \<Rightarrow> event_limits \<Rightarrow> relay_discovery_limits \<Rightarrow> relay_discovery_error + relay_list" where
  "parse_relay_list c jc relays_of k event now el limits =
     and_then (map_err Discovery_InvalidEvent (event_verify c jc now el event)) (\<lambda>_.
     if s_kind event \<noteq> k then Inl (Discovery_WrongKind k (s_kind event))
     else
       and_then (validate_limits limits) (\<lambda>_.
       and_then (relays_of (s_tags event) []) (\<lambda>relays.
       if relays = [] then Inl EmptyRelayList
       else Inr \<lparr>list_public_key = s_pubkey event, list_created_at = s_created_at event, list_relays = relays\<rparr>)))"

definition parse_nip65_relay_list ::
  "crates \<Rightarrow> json_crate \<Rightarrow> url_crate \<Rightarrow> signed_event \<Rightarrow> u64 \<Rightarrow> event_limits \<Rightarrow> relay_discovery_limits
     \<Rightarrow> relay_discovery_error + relay_list" where
  "parse_nip65_relay_list c jc urls event now el limits =
     parse_relay_list c jc (nip65_relays urls limits) NIP65_RELAY_LIST_KIND event now el limits"

definition parse_nip17_dm_relay_list ::
  "crates \<Rightarrow> json_crate \<Rightarrow> url_crate \<Rightarrow> signed_event \<Rightarrow> u64 \<Rightarrow> event_limits \<Rightarrow> relay_discovery_limits
     \<Rightarrow> relay_discovery_error + relay_list" where
  "parse_nip17_dm_relay_list c jc urls event now el limits =
     parse_relay_list c jc (nip17_relays urls limits) NIP17_DM_RELAY_LIST_KIND event now el limits"

section \<open>Publishing a direct-message list\<close>

definition MAX_DM_RELAYS_PER_RECIPIENT :: nat where "MAX_DM_RELAYS_PER_RECIPIENT = 3"
definition MAX_DM_RELAY_ENDPOINT_BYTES :: nat where "MAX_DM_RELAY_ENDPOINT_BYTES = 2048"

datatype dm_relay_list_error =
    List_Random
  | List_InvalidKey event_error
  | List_InvalidEvent event_error
  | List_InvalidEndpoint
  | List_EndpointTooLong
  | List_DuplicateEndpoint
  | NoRelaysGiven
  | List_TooManyRelays

fun dm_endpoints :: "url_crate \<Rightarrow> string list \<Rightarrow> string list \<Rightarrow> dm_relay_list_error + string list" where
  "dm_endpoints urls [] canonical = Inr canonical"
| "dm_endpoints urls (endpoint # endpoints) canonical =
     (if MAX_DM_RELAY_ENDPOINT_BYTES < length endpoint then Inl List_EndpointTooLong
      else
        and_then (ok_or List_InvalidEndpoint (urls endpoint)) (\<lambda>parsed.
        if url_scheme parsed \<noteq> ''wss'' \<or> url_host parsed = None \<or> url_username parsed \<noteq> []
           \<or> url_password parsed \<noteq> None \<or> url_fragment parsed \<noteq> None
        then Inl List_InvalidEndpoint
        else if url_text parsed \<in> set canonical then Inl List_DuplicateEndpoint
        else dm_endpoints urls endpoints (canonical @ [url_text parsed])))"

definition canonical_relay_urls :: "url_crate \<Rightarrow> string list \<Rightarrow> dm_relay_list_error + string list" where
  "canonical_relay_urls urls relay_urls =
     (if relay_urls = [] then Inl NoRelaysGiven
      else if MAX_DM_RELAYS_PER_RECIPIENT < length relay_urls then Inl List_TooManyRelays
      else and_then (dm_endpoints urls relay_urls []) (\<lambda>canonical. Inr (sort canonical)))"

definition create_dm_relay_list_with_aux ::
  "crates \<Rightarrow> json_crate \<Rightarrow> url_crate \<Rightarrow> bytes \<Rightarrow> u64 \<Rightarrow> string list \<Rightarrow> bytes \<Rightarrow> event_limits
     \<Rightarrow> dm_relay_list_error + signed_event" where
  "create_dm_relay_list_with_aux c jc urls sk created relay_urls aux limits =
     and_then (canonical_relay_urls urls relay_urls) (\<lambda>relay_urls.
     and_then (map_err List_InvalidKey (xonly_public_key c sk)) (\<lambda>public_key.
     and_then (map_err List_InvalidEvent
       (UnsignedEvent_new c (hex_encode c public_key) created NIP17_DM_RELAY_LIST_KIND
          (map (\<lambda>u. [''relay'', u]) relay_urls) [] limits)) (\<lambda>event.
     map_err List_InvalidEvent (sign_with_aux c jc sk aux limits event))))"

definition create_dm_relay_list ::
  "crates \<Rightarrow> json_crate \<Rightarrow> url_crate \<Rightarrow> bytes option \<Rightarrow> bytes \<Rightarrow> u64 \<Rightarrow> string list \<Rightarrow> event_limits
     \<Rightarrow> dm_relay_list_error + signed_event" where
  "create_dm_relay_list c jc urls random sk created relay_urls limits =
     and_then (ok_or List_Random random) (\<lambda>aux.
       create_dm_relay_list_with_aux c jc urls sk created relay_urls aux limits)"

section \<open>Publishing a NIP-65 list\<close>

datatype relay_list_publication_error =
    Publication_Random
  | Publication_InvalidKey event_error
  | Publication_InvalidEvent event_error
  | Publication_InvalidLimits
  | InvalidPreference
  | Publication_InvalidEndpoint
  | Publication_NoRelays
  | Publication_TooManyRelays nat

definition secure_or_numeric_loopback :: "url \<Rightarrow> bool" where
  "secure_or_numeric_loopback u =
     (url_scheme u = ''wss''
      \<or> url_scheme u = ''ws'' \<and> (case url_address u of Some h \<Rightarrow> host_is_loopback h | None \<Rightarrow> False))"

definition canonical_endpoint :: "url_crate \<Rightarrow> string \<Rightarrow> nat \<Rightarrow> relay_list_publication_error + string" where
  "canonical_endpoint urls endpoint maximum_bytes =
     (if endpoint = [] \<or> maximum_bytes < length endpoint then Inl Publication_InvalidEndpoint
      else
        and_then (ok_or Publication_InvalidEndpoint (urls endpoint)) (\<lambda>parsed.
        if \<not> secure_or_numeric_loopback parsed \<or> url_host parsed = None \<or> url_port parsed = None
           \<or> url_username parsed \<noteq> [] \<or> url_password parsed \<noteq> None \<or> url_query parsed \<noteq> None
           \<or> url_fragment parsed \<noteq> None
        then Inl Publication_InvalidEndpoint else Inr (url_text parsed)))"

text \<open>The ordered map of merged preferences is an association list sorted by its keys.\<close>

fun merge_preferences ::
  "url_crate \<Rightarrow> nat \<Rightarrow> relay_preference list \<Rightarrow> (string \<times> bool \<times> bool) list
     \<Rightarrow> relay_list_publication_error + (string \<times> bool \<times> bool) list" where
  "merge_preferences urls maximum_bytes [] merged = Inr merged"
| "merge_preferences urls maximum_bytes (relay # relays) merged =
     (if \<not> pref_read relay \<and> \<not> pref_write relay then Inl InvalidPreference
      else
        and_then (canonical_endpoint urls (pref_url relay) maximum_bytes) (\<lambda>endpoint.
        let (r, w) = (case map_of merged endpoint of Some e \<Rightarrow> e | None \<Rightarrow> (False, False)) in
        merge_preferences urls maximum_bytes relays
          (ordered_insert endpoint (r \<or> pref_read relay, w \<or> pref_write relay) merged)))"

definition canonical_preferences ::
  "url_crate \<Rightarrow> relay_preference list \<Rightarrow> relay_discovery_limits
     \<Rightarrow> relay_list_publication_error + relay_preference list" where
  "canonical_preferences urls relays limits =
     (if max_relays limits = 0 \<or> max_url_bytes limits = 0 then Inl Publication_InvalidLimits
      else if relays = [] then Inl Publication_NoRelays
      else if max_relays limits < length relays then Inl (Publication_TooManyRelays (max_relays limits))
      else
        and_then (merge_preferences urls (max_url_bytes limits) relays []) (\<lambda>merged.
        Inr (map (\<lambda>(u, r, w). \<lparr>pref_url = u, pref_read = r, pref_write = w\<rparr>) merged)))"

definition preference_tag :: "relay_preference \<Rightarrow> tag" where
  "preference_tag p =
     [''r'', pref_url p]
       @ (if pref_read p \<and> pref_write p then [] else if pref_read p then [''read''] else [''write''])"

definition create_nip65_relay_list_with_aux ::
  "crates \<Rightarrow> json_crate \<Rightarrow> url_crate \<Rightarrow> bytes \<Rightarrow> u64 \<Rightarrow> relay_preference list \<Rightarrow> bytes \<Rightarrow> event_limits
     \<Rightarrow> relay_discovery_limits \<Rightarrow> relay_list_publication_error + signed_event" where
  "create_nip65_relay_list_with_aux c jc urls sk created relays aux el limits =
     and_then (canonical_preferences urls relays limits) (\<lambda>relays.
     and_then (map_err Publication_InvalidKey (xonly_public_key c sk)) (\<lambda>public_key.
     and_then (map_err Publication_InvalidEvent
       (UnsignedEvent_new c (hex_encode c public_key) created NIP65_RELAY_LIST_KIND
          (map preference_tag relays) [] el)) (\<lambda>event.
     map_err Publication_InvalidEvent (sign_with_aux c jc sk aux el event))))"

definition create_nip65_relay_list ::
  "crates \<Rightarrow> json_crate \<Rightarrow> url_crate \<Rightarrow> bytes option \<Rightarrow> bytes \<Rightarrow> u64 \<Rightarrow> relay_preference list \<Rightarrow> event_limits
     \<Rightarrow> relay_discovery_limits \<Rightarrow> relay_list_publication_error + signed_event" where
  "create_nip65_relay_list c jc urls random sk created relays el limits =
     and_then (ok_or Publication_Random random) (\<lambda>aux.
       create_nip65_relay_list_with_aux c jc urls sk created relays aux el limits)"

section \<open>The verified inbox of a recipient\<close>

record dm_inbox_policy =
  maximum_age_seconds :: u64
  policy_max_relays :: nat
  policy_max_url_bytes :: nat
  require_tls :: bool

definition DmInboxPolicy_default :: dm_inbox_policy where
  "DmInboxPolicy_default =
    \<lparr>maximum_age_seconds = 30 * 24 * 60 * 60, policy_max_relays = 3, policy_max_url_bytes = 2048,
     require_tls = True\<rparr>"

record verified_dm_inbox =
  vi_recipient :: string
  vi_source_event_id :: string
  vi_source_created_at :: u64
  vi_relay_urls :: "string list"
  vi_source_event :: signed_event

datatype inbox_policy_error =
    InvalidPolicy
  | InvalidRelayList relay_discovery_error
  | RelayListSubjectMismatch
  | RelayListFromFuture
  | StaleRelayList u64 u64
  | InsecureRelay
  | InvalidGiftWrap event_error
  | WrongGiftWrapKind
  | GiftWrapRecipientMismatch

definition validate_policy :: "dm_inbox_policy \<Rightarrow> inbox_policy_error + unit" where
  "validate_policy policy =
     (if maximum_age_seconds policy = 0 \<or> policy_max_relays policy = 0 \<or> 3 < policy_max_relays policy
         \<or> policy_max_url_bytes policy = 0
      then Inl InvalidPolicy else Inr ())"

text \<open>
  \<open>host_str().parse::<IpAddr>()\<close>: an IPv6 host is written in brackets, which the address parser
  refuses, and a name is never numeric; so the test is true of IPv4 loopback hosts only.
\<close>

definition text_is_loopback :: "url \<Rightarrow> bool" where
  "text_is_loopback u = (case url_address u of Some (Ipv4 a) \<Rightarrow> host_is_loopback (Ipv4 a) | _ \<Rightarrow> False)"

definition secure_or_loopback_url :: "url \<Rightarrow> bool" where
  "secure_or_loopback_url u = (url_scheme u = ''wss'' \<or> url_scheme u = ''ws'' \<and> text_is_loopback u)"

definition secure_or_loopback :: "url_crate \<Rightarrow> string \<Rightarrow> bool" where
  "secure_or_loopback urls endpoint = (case urls endpoint of None \<Rightarrow> False | Some u \<Rightarrow> secure_or_loopback_url u)"

definition verify_dm_inbox ::
  "crates \<Rightarrow> json_crate \<Rightarrow> url_crate \<Rightarrow> signed_event \<Rightarrow> bytes \<Rightarrow> u64 \<Rightarrow> event_limits \<Rightarrow> dm_inbox_policy
     \<Rightarrow> inbox_policy_error + verified_dm_inbox" where
  "verify_dm_inbox c jc urls event expected_key now el policy =
     and_then (validate_policy policy) (\<lambda>_.
     let expected_recipient = hex_encode c expected_key;
         limits = \<lparr>max_relays = policy_max_relays policy, max_url_bytes = policy_max_url_bytes policy\<rparr> in
     and_then (map_err InvalidRelayList (parse_nip17_dm_relay_list c jc urls event now el limits)) (\<lambda>found.
     if list_public_key found \<noteq> expected_recipient then Inl RelayListSubjectMismatch
     else if now < list_created_at found then Inl RelayListFromFuture
     else
       let age = now - list_created_at found;
           relay_urls = map pref_url (list_relays found) in
       if maximum_age_seconds policy < age then Inl (StaleRelayList age (maximum_age_seconds policy))
       else if require_tls policy \<and> list_ex (\<lambda>u. \<not> secure_or_loopback urls u) relay_urls then Inl InsecureRelay
       else Inr \<lparr>vi_recipient = expected_recipient, vi_source_event_id = s_id event,
                 vi_source_created_at = list_created_at found, vi_relay_urls = relay_urls,
                 vi_source_event = event\<rparr>))"

record dm_publish_plan =
  plan_event :: signed_event
  plan_recipient :: string
  plan_relay_urls :: "string list"
  plan_acknowledgements :: nat
  plan_inbox_event_id :: string

definition plan_dm_publish ::
  "crates \<Rightarrow> json_crate \<Rightarrow> signed_event \<Rightarrow> verified_dm_inbox \<Rightarrow> u64 \<Rightarrow> event_limits
     \<Rightarrow> inbox_policy_error + dm_publish_plan" where
  "plan_dm_publish c jc w inbox now el =
     and_then (map_err InvalidGiftWrap (event_verify c jc now el w)) (\<lambda>_.
     if s_kind w \<noteq> GIFT_WRAP_KIND then Inl WrongGiftWrapKind
     else if \<not> addressed_to w (vi_recipient inbox) then Inl GiftWrapRecipientMismatch
     else
       let required = min (length (vi_relay_urls inbox)) 2 in
       if required = 0 then Inl InvalidPolicy
       else Inr \<lparr>plan_event = w, plan_recipient = vi_recipient inbox, plan_relay_urls = vi_relay_urls inbox,
                 plan_acknowledgements = required, plan_inbox_event_id = vi_source_event_id inbox\<rparr>)"

section \<open>What is read is within its limits\<close>

definition relays_ok :: "relay_discovery_limits \<Rightarrow> relay_preference list \<Rightarrow> bool" where
  "relays_ok limits relays \<longleftrightarrow> distinct (map pref_url relays) \<and> length relays \<le> max_relays limits"

lemma merge_marks_urls [simp]: "map pref_url (merge_marks u r w relays) = map pref_url relays"
  by (induction relays) auto

lemma length_merge_marks [simp]: "length (merge_marks u r w relays) = length relays"
  by (metis length_map merge_marks_urls)

lemma merge_relay_Inr:
  assumes "merge_relay urls relays raw r w limits = Inr relays'" "relays_ok limits relays"
  shows "relays_ok limits relays'"
    and "\<exists>u. normalize_relay_url urls raw limits = Inr u
      \<and> set (map pref_url relays') = insert u (set (map pref_url relays))"
proof -
  obtain u where u: "normalize_relay_url urls raw limits = Inr u"
    and cases: "if list_ex (\<lambda>p. pref_url p = u) relays then relays' = merge_marks u r w relays
      else length relays < max_relays limits \<and> relays' = relays @ [\<lparr>pref_url = u, pref_read = r, pref_write = w\<rparr>]"
    using assms(1) by (auto simp: merge_relay_def not_le split: if_splits)
  have "relays_ok limits relays' \<and> set (map pref_url relays') = insert u (set (map pref_url relays))"
  proof (cases "list_ex (\<lambda>p. pref_url p = u) relays")
    case True
    then have "u \<in> set (map pref_url relays)" by (auto simp: list_ex_iff)
    moreover have "map pref_url relays' = map pref_url relays" "length relays' = length relays"
      using cases True by simp_all
    ultimately show ?thesis using assms(2) unfolding relays_ok_def by (simp only: insert_absorb)
  next
    case False
    then show ?thesis using cases assms(2) by (auto simp: relays_ok_def list_ex_iff)
  qed
  then show "relays_ok limits relays'"
    and "\<exists>u. normalize_relay_url urls raw limits = Inr u \<and> set (map pref_url relays') = insert u (set (map pref_url relays))"
    using u by blast+
qed

lemma nip65_relays_ok:
  "nip65_relays urls limits tags relays = Inr relays' \<Longrightarrow> relays_ok limits relays \<Longrightarrow> relays_ok limits relays'"
  by (induction urls limits tags relays rule: nip65_relays.induct)
    (auto dest: merge_relay_Inr(1) split: if_splits)

text \<open>The relays of a direct-message list are the normalized URLs of its relay tags.\<close>

definition relay_tag_urls :: "tag list \<Rightarrow> string list" where
  "relay_tag_urls tags = map (\<lambda>tag. tag ! 1) (filter (first_is ''relay'') tags)"

lemma nip17_relays_ok:
  assumes "nip17_relays urls limits tags relays = Inr relays'" "relays_ok limits relays"
  shows "relays_ok limits relays' \<and> (\<exists>us. map (\<lambda>x. normalize_relay_url urls x limits) (relay_tag_urls tags) = map Inr us
    \<and> set (map pref_url relays') = set (map pref_url relays) \<union> set us)"
  using assms
proof (induction urls limits tags relays rule: nip17_relays.induct)
  case (1 urls limits relays)
  then show ?case by (simp add: relay_tag_urls_def)
next
  case (2 urls limits tag tags relays)
  show ?case
  proof (cases "first_is ''relay'' tag")
    case False
    then show ?thesis using 2 by (simp add: relay_tag_urls_def)
  next
    case True
    then obtain relays1 where len: "length tag = 2" and m: "merge_relay urls relays (tag ! 1) True True limits = Inr relays1"
      and rest: "nip17_relays urls limits tags relays1 = Inr relays'"
      using 2(3) by (auto split: if_splits)
    note ok = merge_relay_Inr [OF m 2(4)]
    then obtain u where u: "normalize_relay_url urls (tag ! 1) limits = Inr u"
      "set (map pref_url relays1) = insert u (set (map pref_url relays))" by blast
    obtain us where us: "relays_ok limits relays'"
      "map (\<lambda>x. normalize_relay_url urls x limits) (relay_tag_urls tags) = map Inr us"
      "set (map pref_url relays') = set (map pref_url relays1) \<union> set us"
      using 2(2) [OF _ _ rest ok(1)] True len by auto
    show ?thesis
      using us u True by (intro conjI exI [of _ "u # us"]) (auto simp: relay_tag_urls_def)
  qed
qed

lemma parse_nip17_Inr:
  assumes "parse_nip17_dm_relay_list c jc urls event now el limits = Inr found"
  shows "event_verify c jc now el event = Inr ()" "s_kind event = NIP17_DM_RELAY_LIST_KIND"
    "list_public_key found = s_pubkey event" "list_created_at found = s_created_at event"
    "relays_ok limits (list_relays found)" "list_relays found \<noteq> []"
    "\<exists>us. map (\<lambda>x. normalize_relay_url urls x limits) (relay_tag_urls (s_tags event)) = map Inr us
       \<and> set (map pref_url (list_relays found)) = set us"
proof -
  obtain relays where r: "nip17_relays urls limits (s_tags event) [] = Inr relays" "relays \<noteq> []"
    "found = \<lparr>list_public_key = s_pubkey event, list_created_at = s_created_at event, list_relays = relays\<rparr>"
    and v: "event_verify c jc now el event = Inr ()" "s_kind event = NIP17_DM_RELAY_LIST_KIND"
    using assms by (auto simp: parse_nip17_dm_relay_list_def parse_relay_list_def split: if_splits)
  show "event_verify c jc now el event = Inr ()" "s_kind event = NIP17_DM_RELAY_LIST_KIND" by (fact v)+
  have "relays_ok limits []" by (simp add: relays_ok_def)
  from nip17_relays_ok [OF r(1) this] r(2,3)
  show "list_public_key found = s_pubkey event" "list_created_at found = s_created_at event"
    "relays_ok limits (list_relays found)" "list_relays found \<noteq> []"
    "\<exists>us. map (\<lambda>x. normalize_relay_url urls x limits) (relay_tag_urls (s_tags event)) = map Inr us
       \<and> set (map pref_url (list_relays found)) = set us"
    by simp_all
qed

text \<open>
  An inbox is verified from an event that its recipient signed; its relays are the normalized URLs
  of the event's relay tags, each once.
\<close>

definition inbox_of ::
  "crates \<Rightarrow> json_crate \<Rightarrow> url_crate \<Rightarrow> event_limits \<Rightarrow> dm_inbox_policy \<Rightarrow> u64 \<Rightarrow> verified_dm_inbox \<Rightarrow> bool" where
  "inbox_of c jc urls el policy now i \<longleftrightarrow>
     (let e = vi_source_event i;
          limits = \<lparr>max_relays = policy_max_relays policy, max_url_bytes = policy_max_url_bytes policy\<rparr> in
      event_verify c jc now el e = Inr () \<and> s_kind e = NIP17_DM_RELAY_LIST_KIND \<and> s_pubkey e = vi_recipient i
      \<and> s_id e = vi_source_event_id i \<and> s_created_at e = vi_source_created_at i \<and> s_created_at e \<le> now
      \<and> now - s_created_at e \<le> maximum_age_seconds policy
      \<and> distinct (vi_relay_urls i) \<and> 0 < length (vi_relay_urls i) \<and> length (vi_relay_urls i) \<le> policy_max_relays policy
      \<and> (\<exists>us. map (\<lambda>x. normalize_relay_url urls x limits) (relay_tag_urls (s_tags e)) = map Inr us
          \<and> set (vi_relay_urls i) = set us)
      \<and> (require_tls policy \<longrightarrow> list_all (secure_or_loopback urls) (vi_relay_urls i)))"

lemma verify_dm_inbox_Inr:
  assumes "verify_dm_inbox c jc urls event key now el policy = Inr i"
  shows "inbox_of c jc urls el policy now i" "vi_recipient i = hex_encode c key" "vi_source_event i = event"
    "validate_policy policy = Inr ()"
proof -
  let ?limits = "\<lparr>max_relays = policy_max_relays policy, max_url_bytes = policy_max_url_bytes policy\<rparr>"
  obtain found where p: "validate_policy policy = Inr ()" "parse_nip17_dm_relay_list c jc urls event now el ?limits = Inr found"
    and g: "list_public_key found = hex_encode c key" "\<not> now < list_created_at found"
      "\<not> maximum_age_seconds policy < now - list_created_at found"
      "require_tls policy \<longrightarrow> list_all (secure_or_loopback urls) (map pref_url (list_relays found))"
    and i: "i = \<lparr>vi_recipient = hex_encode c key, vi_source_event_id = s_id event,
                 vi_source_created_at = list_created_at found, vi_relay_urls = map pref_url (list_relays found),
                 vi_source_event = event\<rparr>"
    using assms by (auto simp: verify_dm_inbox_def Let_def list_all_iff list_ex_iff split: if_splits)
  note f = parse_nip17_Inr [OF p(2)]
  show "validate_policy policy = Inr ()" by (fact p(1))
  show "vi_recipient i = hex_encode c key" "vi_source_event i = event" by (simp_all add: i)
  show "inbox_of c jc urls el policy now i"
    using f g unfolding inbox_of_def i by (simp add: Let_def relays_ok_def not_less)
qed

end
