(* ===== verification/Relay_Cache.thy ===== *)
theory Relay_Cache
  imports Relay_Lists "HOL-Library.AList"
begin

text \<open>
  The caches of verified relay lists (\<open>omachat-nostr/src/dm_relay_cache.rs\<close>, \<open>relay_list_cache.rs\<close>) and
  the routing of a message by them (\<open>dm_relay_routing.rs\<close>, \<open>dm_routed_publish.rs\<close>). A cache is an
  ordered map from hexadecimal public keys, kept as a sorted association list. Both caches promise
  that an older list never replaces a newer one; the locale \<open>newest_cache\<close> states that promise once
  and derives what any history of insertions leaves in a cache.
\<close>

section \<open>The promise\<close>

locale newest_cache =
  fixes put :: "'op \<Rightarrow> 's \<Rightarrow> 's"
    and get :: "'k \<Rightarrow> 's \<Rightarrow> 'v option"
    and stores :: "'op \<Rightarrow> 'k \<Rightarrow> 'v \<Rightarrow> bool"
    and newer :: "'v \<Rightarrow> 'v \<Rightarrow> bool"
  assumes newer_refl: "newer v v"
    and newer_trans: "newer w v \<Longrightarrow> newer u w \<Longrightarrow> newer u v"
    and put_cases: "(\<forall>k. get k (put x s) = get k s) \<or>
      (\<exists>k v. stores x k v \<and> get k (put x s) = Some v \<and> (\<forall>w. get k s = Some w \<longrightarrow> newer v w)
        \<and> (\<forall>k'. k' \<noteq> k \<longrightarrow> get k' (put x s) = get k' s))"
begin

lemma put_keeps:
  assumes "get k s = Some v"
  shows "\<exists>w. get k (put x s) = Some w \<and> newer w v"
proof (cases "\<forall>k. get k (put x s) = get k s")
  case True
  then show ?thesis using assms newer_refl by simp
next
  case False
  then obtain k' v' where "get k' (put x s) = Some v'" "\<forall>w. get k' s = Some w \<longrightarrow> newer v' w"
    "\<forall>j. j \<noteq> k' \<longrightarrow> get j (put x s) = get j s"
    using put_cases [of x s] by blast
  then show ?thesis using assms newer_refl by (cases "k = k'") auto
qed

lemma fold_keeps:
  assumes "get k s = Some v"
  shows "\<exists>w. get k (fold put xs s) = Some w \<and> newer w v"
  using assms
proof (induction xs arbitrary: s v)
  case Nil
  then show ?case using newer_refl by simp
next
  case (Cons x xs)
  obtain w where "get k (put x s) = Some w" "newer w v" using put_keeps [OF Cons.prems] by blast
  with Cons.IH [of "put x s" w] show ?case using newer_trans by auto
qed

lemma fold_source:
  assumes "get k (fold put xs s) = Some v"
  shows "get k s = Some v \<or> (\<exists>x \<in> set xs. stores x k v)"
  using assms
proof (induction xs arbitrary: s)
  case (Cons x xs)
  then have "get k (put x s) = Some v \<or> (\<exists>x \<in> set xs. stores x k v)" by simp
  moreover have "get k s = Some v \<or> stores x k v" if "get k (put x s) = Some v"
    using put_cases [of x s] that by (metis option.inject)
  ultimately show ?case by auto
qed simp

end

section \<open>The cache of direct-message relays\<close>

definition MAX_CACHED_DM_RECIPIENTS :: nat where "MAX_CACHED_DM_RECIPIENTS = 4096"
definition MAX_SERIALIZED_CACHE_BYTES :: nat where "MAX_SERIALIZED_CACHE_BYTES = 1048576"
definition CACHE_FORMAT_VERSION :: byte where "CACHE_FORMAT_VERSION = 1"

record dm_relay_record =
  rec_recipient :: bytes
  rec_source_event_id :: bytes
  rec_source_created_at :: u64
  rec_verified_at :: u64
  rec_relays :: "string list"
  rec_source_event :: signed_event

datatype dm_relay_cache_error =
    Cache_InvalidRecipient
  | Cache_InvalidSourceEvent
  | Cache_InvalidVerificationTime
  | Cache_InvalidEndpoint
  | Cache_EndpointTooLong
  | Cache_DuplicateEndpoint
  | Cache_TooManyRelays
  | CacheFull
  | CacheTooLarge
  | Cache_InvalidEncoding
  | Cache_UnsupportedVersion
  | Rollback
  | Equivocation
  | SourceBindingMismatch

datatype cache_mutation = Stored | Unchanged

text \<open>The endpoint loop, shared in the source by the cache and the bootstrap route up to its errors.\<close>

datatype endpoint_error = Endpoint_TooLong | Endpoint_Invalid | Endpoint_Duplicate

fun endpoint_loop :: "url_crate \<Rightarrow> string list \<Rightarrow> string list \<Rightarrow> endpoint_error + string list" where
  "endpoint_loop urls [] canonical = Inr canonical"
| "endpoint_loop urls (endpoint # endpoints) canonical =
     (if MAX_DM_RELAY_ENDPOINT_BYTES < length endpoint then Inl Endpoint_TooLong
      else
        and_then (ok_or Endpoint_Invalid (urls endpoint)) (\<lambda>parsed.
        if \<not> secure_or_loopback_url parsed \<or> url_host parsed = None \<or> url_username parsed \<noteq> []
           \<or> url_password parsed \<noteq> None \<or> url_fragment parsed \<noteq> None
        then Inl Endpoint_Invalid
        else if url_text parsed \<in> set canonical then Inl Endpoint_Duplicate
        else endpoint_loop urls endpoints (canonical @ [url_text parsed])))"

fun cache_endpoint_error :: "endpoint_error \<Rightarrow> dm_relay_cache_error" where
  "cache_endpoint_error Endpoint_TooLong = Cache_EndpointTooLong"
| "cache_endpoint_error Endpoint_Invalid = Cache_InvalidEndpoint"
| "cache_endpoint_error Endpoint_Duplicate = Cache_DuplicateEndpoint"

definition canonicalize_and_validate ::
  "crates \<Rightarrow> url_crate \<Rightarrow> dm_relay_record \<Rightarrow> dm_relay_cache_error + dm_relay_record" where
  "canonicalize_and_validate c urls r =
     (if rec_recipient r = replicate 32 0 then Inl Cache_InvalidRecipient
      else if rec_source_event_id r = replicate 32 0 then Inl Cache_InvalidSourceEvent
      else if rec_verified_at r < rec_source_created_at r then Inl Cache_InvalidVerificationTime
      else if s_pubkey (rec_source_event r) \<noteq> hex_encode c (rec_recipient r)
         \<or> s_id (rec_source_event r) \<noteq> hex_encode c (rec_source_event_id r)
         \<or> s_created_at (rec_source_event r) \<noteq> rec_source_created_at r
      then Inl SourceBindingMismatch
      else if MAX_DM_RELAYS_PER_RECIPIENT < length (rec_relays r) then Inl Cache_TooManyRelays
      else
        and_then (map_err cache_endpoint_error (endpoint_loop urls (rec_relays r) [])) (\<lambda>canonical.
        Inr (r\<lparr>rec_relays := sort canonical\<rparr>)))"

definition from_authenticated_event ::
  "crates \<Rightarrow> url_crate \<Rightarrow> bytes \<Rightarrow> bytes \<Rightarrow> u64 \<Rightarrow> u64 \<Rightarrow> string list \<Rightarrow> signed_event
     \<Rightarrow> dm_relay_cache_error + dm_relay_record" where
  "from_authenticated_event c urls recipient ident created verified relays event =
     canonicalize_and_validate c urls
       \<lparr>rec_recipient = recipient, rec_source_event_id = ident, rec_source_created_at = created,
        rec_verified_at = verified, rec_relays = relays, rec_source_event = event\<rparr>"

text \<open>\<open>hex::decode_to_slice\<close> into 32 bytes.\<close>

definition decode_32 :: "crates \<Rightarrow> string \<Rightarrow> bytes option" where
  "decode_32 c s = (case hex_decode c s of Some bs \<Rightarrow> if length bs = 32 then Some bs else None | None \<Rightarrow> None)"

definition to_cache_record ::
  "crates \<Rightarrow> url_crate \<Rightarrow> verified_dm_inbox \<Rightarrow> u64 \<Rightarrow> dm_relay_cache_error + dm_relay_record" where
  "to_cache_record c urls i verified =
     and_then (ok_or Cache_InvalidRecipient (decode_32 c (vi_recipient i))) (\<lambda>recipient.
     and_then (ok_or Cache_InvalidSourceEvent (decode_32 c (vi_source_event_id i))) (\<lambda>ident.
     from_authenticated_event c urls recipient ident (vi_source_created_at i) verified (vi_relay_urls i)
       (vi_source_event i)))"

type_synonym dm_relay_cache = "(string \<times> dm_relay_record) list"

definition persisted_dm_record :: "dm_relay_record \<Rightarrow> json" where
  "persisted_dm_record r =
     JObj [(''verified_at'', JInt (uint (rec_verified_at r))), (''source_event'', signed_event_json (rec_source_event r))]"

definition dm_cache_to_json :: "json_crate \<Rightarrow> dm_relay_cache \<Rightarrow> dm_relay_cache_error + bytes" where
  "dm_cache_to_json jc records =
     and_then (ok_or Cache_InvalidEncoding (json_to_vec jc
       (JObj [(''version'', JInt (uint CACHE_FORMAT_VERSION)), (''records'', JArr (map (persisted_dm_record \<circ> snd) records))])))
       (\<lambda>encoded. if MAX_SERIALIZED_CACHE_BYTES < length encoded then Inl CacheTooLarge else Inr encoded)"

text \<open>What the current entry of the key says about a new record: \<open>None\<close> to go on and store it.\<close>

definition against_current :: "dm_relay_record \<Rightarrow> dm_relay_cache \<Rightarrow> string \<Rightarrow> (dm_relay_cache_error + cache_mutation) option" where
  "against_current r records key =
     (case map_of records key of
        Some current \<Rightarrow>
          if rec_source_created_at r < rec_source_created_at current then Some (Inl Rollback)
          else if rec_source_created_at r = rec_source_created_at current then
            (if rec_source_event_id r \<noteq> rec_source_event_id current then Some (Inl Equivocation)
             else if rec_relays r \<noteq> rec_relays current \<or> rec_source_event r \<noteq> rec_source_event current
             then Some (Inl SourceBindingMismatch)
             else Some (Inr Unchanged))
          else None
      | None \<Rightarrow> if MAX_CACHED_DM_RECIPIENTS \<le> length records then Some (Inl CacheFull) else None)"

definition dm_cache_insert ::
  "crates \<Rightarrow> json_crate \<Rightarrow> url_crate \<Rightarrow> dm_relay_record \<Rightarrow> dm_relay_cache
     \<Rightarrow> (dm_relay_cache_error + cache_mutation) \<times> dm_relay_cache" where
  "dm_cache_insert c jc urls r records =
     then_st (canonicalize_and_validate c urls r, records) (\<lambda>r records.
     let key = hex_encode c (rec_recipient r) in
     case against_current r records key of
       Some answer \<Rightarrow> (answer, records)
     | None \<Rightarrow>
         let replaced = ordered_insert key r records in
         (case dm_cache_to_json jc replaced of
            Inl err \<Rightarrow>
              (Inl err,
               case map_of records key of
                 Some previous \<Rightarrow> ordered_insert key previous replaced
               | None \<Rightarrow> AList.delete key replaced)
          | Inr _ \<Rightarrow> (Inr Stored, replaced)))"

datatype 'r cache_lookup = Cache_Missing | Fresh 'r | OfflineStale 'r | UnusableClockRollback 'r

definition classify :: "('r \<Rightarrow> u64) \<Rightarrow> u64 \<Rightarrow> u64 \<Rightarrow> 'r option \<Rightarrow> 'r cache_lookup" where
  "classify created now window found =
     (case found of
        None \<Rightarrow> Cache_Missing
      | Some r \<Rightarrow>
          (case checked_sub now (created r) of
             None \<Rightarrow> UnusableClockRollback r
           | Some age \<Rightarrow> if age \<le> window then Fresh r else OfflineStale r))"

definition dm_cache_lookup :: "crates \<Rightarrow> bytes \<Rightarrow> u64 \<Rightarrow> u64 \<Rightarrow> dm_relay_cache \<Rightarrow> dm_relay_record cache_lookup" where
  "dm_cache_lookup c recipient now window records =
     classify rec_source_created_at now window (map_of records (hex_encode c recipient))"

definition de_persisted_dm_record :: "json \<Rightarrow> (u64 \<times> signed_event) option" where
  "de_persisted_dm_record j =
     (case de_struct [''verified_at'', ''source_event''] j of
        Some [t, e] \<Rightarrow> (case (de_u64 t, de_signed_event e) of (Some t, Some e) \<Rightarrow> Some (t, e) | _ \<Rightarrow> None)
      | _ \<Rightarrow> None)"

definition de_persisted_cache :: "nat \<Rightarrow> json \<Rightarrow> (nat \<times> (u64 \<times> signed_event) list) option" where
  "de_persisted_cache width j =
     (case de_struct [''version'', ''records''] j of
        Some [v, rs] \<Rightarrow> (case (de_uint width v, de_vec de_persisted_dm_record rs) of
            (Some v, Some rs) \<Rightarrow> Some (v, rs) | _ \<Rightarrow> None)
      | _ \<Rightarrow> None)"

fun dm_cache_load ::
  "crates \<Rightarrow> json_crate \<Rightarrow> url_crate \<Rightarrow> u64 \<Rightarrow> event_limits \<Rightarrow> dm_inbox_policy \<Rightarrow> (u64 \<times> signed_event) list
     \<Rightarrow> bytes set \<Rightarrow> dm_relay_cache \<Rightarrow> dm_relay_cache_error + dm_relay_cache" where
  "dm_cache_load c jc urls now el policy [] seen records = Inr records"
| "dm_cache_load c jc urls now el policy ((verified, event) # rest) seen records =
     (if now < verified then Inl Cache_InvalidVerificationTime
      else
        and_then (ok_or Cache_InvalidRecipient (decode_32 c (s_pubkey event))) (\<lambda>recipient.
        if recipient \<in> seen then Inl Cache_InvalidEncoding
        else
          and_then (map_err (\<lambda>_. Cache_InvalidSourceEvent)
            (verify_dm_inbox c jc urls event recipient now el policy)) (\<lambda>i.
          and_then (to_cache_record c urls i verified) (\<lambda>r.
          case dm_cache_insert c jc urls r records of
            (Inl err, _) \<Rightarrow> Inl err
          | (Inr _, records) \<Rightarrow> dm_cache_load c jc urls now el policy rest (insert recipient seen) records))))"

definition dm_cache_from_json ::
  "crates \<Rightarrow> json_crate \<Rightarrow> url_crate \<Rightarrow> bytes \<Rightarrow> u64 \<Rightarrow> event_limits \<Rightarrow> dm_inbox_policy
     \<Rightarrow> dm_relay_cache_error + dm_relay_cache" where
  "dm_cache_from_json c jc urls encoded now el policy =
     (if MAX_SERIALIZED_CACHE_BYTES < length encoded then Inl CacheTooLarge
      else
        and_then (ok_or Cache_InvalidEncoding (Option.bind (json_from_slice jc encoded) (de_persisted_cache 8)))
          (\<lambda>(v, rs).
        if v \<noteq> unat CACHE_FORMAT_VERSION then Inl Cache_UnsupportedVersion
        else if MAX_CACHED_DM_RECIPIENTS < length rs then Inl CacheFull
        else dm_cache_load c jc urls now el (policy\<lparr>maximum_age_seconds := - 1\<rparr>) rs {} []))"

section \<open>The cache of NIP-65 lists\<close>

definition MAX_CACHED_RELAY_LISTS :: nat where "MAX_CACHED_RELAY_LISTS = 4096"
definition DEFAULT_RELAY_LIST_FRESHNESS_SECONDS :: u64 where "DEFAULT_RELAY_LIST_FRESHNESS_SECONDS = 24 * 60 * 60"
definition MAX_SERIALIZED_RELAY_LIST_CACHE_BYTES :: nat where "MAX_SERIALIZED_RELAY_LIST_CACHE_BYTES = 1048576"
definition RELAY_LIST_CACHE_VERSION :: u16 where "RELAY_LIST_CACHE_VERSION = 1"

record relay_list_record =
  rl_list :: relay_list
  rl_source_event :: signed_event
  rl_verified_at :: u64

datatype relay_list_cache_error =
    RL_InvalidVerificationTime
  | RL_InvalidSourceEvent
  | RL_InvalidEncoding
  | RL_UnsupportedVersion u16
  | RL_Rollback
  | RL_CacheFull
  | RL_CacheTooLarge

type_synonym relay_list_cache = "(string \<times> relay_list_record) list"

definition persisted_rl_record :: "relay_list_record \<Rightarrow> json" where
  "persisted_rl_record r =
     JObj [(''verified_at'', JInt (uint (rl_verified_at r))), (''source_event'', signed_event_json (rl_source_event r))]"

definition rl_cache_to_json :: "json_crate \<Rightarrow> relay_list_cache \<Rightarrow> relay_list_cache_error + bytes" where
  "rl_cache_to_json jc records =
     and_then (ok_or RL_InvalidEncoding (json_to_vec jc
       (JObj [(''version'', JInt (uint RELAY_LIST_CACHE_VERSION)), (''records'', JArr (map (persisted_rl_record \<circ> snd) records))])))
       (\<lambda>encoded. if MAX_SERIALIZED_RELAY_LIST_CACHE_BYTES < length encoded then Inl RL_CacheTooLarge else Inr encoded)"

definition rl_against_current :: "signed_event \<Rightarrow> relay_list_cache \<Rightarrow> string \<Rightarrow> (relay_list_cache_error + cache_mutation) option" where
  "rl_against_current event records key =
     (case map_of records key of
        Some current \<Rightarrow>
          if s_created_at event < s_created_at (rl_source_event current) then Some (Inl RL_Rollback)
          else if s_created_at event = s_created_at (rl_source_event current) \<and> s_id (rl_source_event current) \<le> s_id event
          then Some (Inr Unchanged)
          else None
      | None \<Rightarrow> if MAX_CACHED_RELAY_LISTS \<le> length records then Some (Inl RL_CacheFull) else None)"

definition insert_event ::
  "crates \<Rightarrow> json_crate \<Rightarrow> url_crate \<Rightarrow> signed_event \<Rightarrow> u64 \<Rightarrow> u64 \<Rightarrow> event_limits \<Rightarrow> relay_discovery_limits
     \<Rightarrow> relay_list_cache \<Rightarrow> (relay_list_cache_error + cache_mutation) \<times> relay_list_cache" where
  "insert_event c jc urls event now verified el limits records =
     (if now < verified \<or> verified < s_created_at event then (Inl RL_InvalidVerificationTime, records)
      else
        then_st (map_err (\<lambda>_. RL_InvalidSourceEvent) (parse_nip65_relay_list c jc urls event now el limits), records)
          (\<lambda>found records.
        let key = list_public_key found in
        case rl_against_current event records key of
          Some answer \<Rightarrow> (answer, records)
        | None \<Rightarrow>
            let replaced = ordered_insert key \<lparr>rl_list = found, rl_source_event = event, rl_verified_at = verified\<rparr> records in
            (case rl_cache_to_json jc replaced of
               Inl err \<Rightarrow>
                 (Inl err,
                  case map_of records key of
                    Some previous \<Rightarrow> ordered_insert key previous replaced
                  | None \<Rightarrow> AList.delete key replaced)
             | Inr _ \<Rightarrow> (Inr Stored, replaced))))"

definition rl_cache_lookup :: "crates \<Rightarrow> bytes \<Rightarrow> u64 \<Rightarrow> u64 \<Rightarrow> relay_list_cache \<Rightarrow> relay_list_record cache_lookup" where
  "rl_cache_lookup c public_key now window records =
     classify (\<lambda>r. s_created_at (rl_source_event r)) now window (map_of records (hex_encode c public_key))"

fun rl_cache_load ::
  "crates \<Rightarrow> json_crate \<Rightarrow> url_crate \<Rightarrow> u64 \<Rightarrow> event_limits \<Rightarrow> relay_discovery_limits \<Rightarrow> (u64 \<times> signed_event) list
     \<Rightarrow> bytes set \<Rightarrow> relay_list_cache \<Rightarrow> relay_list_cache_error + relay_list_cache" where
  "rl_cache_load c jc urls now el limits [] seen records = Inr records"
| "rl_cache_load c jc urls now el limits ((verified, event) # rest) seen records =
     (if now < verified then Inl RL_InvalidVerificationTime
      else
        and_then (ok_or RL_InvalidSourceEvent (decode_32 c (s_pubkey event))) (\<lambda>public_key.
        if public_key \<in> seen then Inl RL_InvalidEncoding
        else
          case insert_event c jc urls event now verified el limits records of
            (Inl err, _) \<Rightarrow> Inl err
          | (Inr _, records) \<Rightarrow> rl_cache_load c jc urls now el limits rest (insert public_key seen) records))"

definition rl_cache_from_json ::
  "crates \<Rightarrow> json_crate \<Rightarrow> url_crate \<Rightarrow> bytes \<Rightarrow> u64 \<Rightarrow> event_limits \<Rightarrow> relay_discovery_limits
     \<Rightarrow> relay_list_cache_error + relay_list_cache" where
  "rl_cache_from_json c jc urls encoded now el limits =
     (if MAX_SERIALIZED_RELAY_LIST_CACHE_BYTES < length encoded then Inl RL_CacheTooLarge
      else
        and_then (ok_or RL_InvalidEncoding (Option.bind (json_from_slice jc encoded) (de_persisted_cache 16)))
          (\<lambda>(v, rs).
        if v \<noteq> unat RELAY_LIST_CACHE_VERSION then Inl (RL_UnsupportedVersion (word_of_nat v))
        else if MAX_CACHED_RELAY_LISTS < length rs then Inl RL_CacheFull
        else rl_cache_load c jc urls now el limits rs {} []))"

section \<open>Routing\<close>

record dm_relay_routing_policy =
  freshness_window_seconds :: u64
  allow_stale_offline :: bool
  allow_bootstrap_when_missing :: bool

definition DmRelayRoutingPolicy_default :: dm_relay_routing_policy where
  "DmRelayRoutingPolicy_default =
    \<lparr>freshness_window_seconds = 30 * 24 * 60 * 60, allow_stale_offline = False, allow_bootstrap_when_missing = False\<rparr>"

datatype route_provenance = VerifiedFresh bytes | VerifiedOfflineStale bytes | BootstrapMissingMetadata

record dm_relay_route =
  route_recipient :: bytes
  route_relay_urls :: "string list"
  route_source :: route_provenance
  route_acknowledgements :: nat

datatype dm_relay_routing_error =
    InvalidRecipientPublicKey
  | InvalidSourceEventId
  | MissingMetadata
  | StaleMetadata
  | ClockRollback
  | NoRelayEndpoints
  | TooManyRelayEndpoints
  | RelayEndpointTooLong
  | InvalidRelayEndpoint
  | DuplicateRelayEndpoint

definition make_route :: "bytes \<Rightarrow> string list \<Rightarrow> route_provenance \<Rightarrow> dm_relay_route" where
  "make_route recipient relay_urls source =
    \<lparr>route_recipient = recipient, route_relay_urls = relay_urls, route_source = source,
     route_acknowledgements = min (length relay_urls) 2\<rparr>"

definition route_verified :: "dm_relay_record \<Rightarrow> bool \<Rightarrow> dm_relay_routing_error + dm_relay_route" where
  "route_verified r stale =
     (if rec_relays r = [] then Inl NoRelayEndpoints
      else Inr (make_route (rec_recipient r) (rec_relays r)
        (if stale then VerifiedOfflineStale (rec_source_event_id r) else VerifiedFresh (rec_source_event_id r))))"

fun route_endpoint_error :: "endpoint_error \<Rightarrow> dm_relay_routing_error" where
  "route_endpoint_error Endpoint_TooLong = RelayEndpointTooLong"
| "route_endpoint_error Endpoint_Invalid = InvalidRelayEndpoint"
| "route_endpoint_error Endpoint_Duplicate = DuplicateRelayEndpoint"

definition route_bootstrap :: "url_crate \<Rightarrow> bytes \<Rightarrow> string list \<Rightarrow> dm_relay_routing_error + dm_relay_route" where
  "route_bootstrap urls recipient bootstrap =
     (if bootstrap = [] then Inl NoRelayEndpoints
      else if MAX_DM_RELAYS_PER_RECIPIENT < length bootstrap then Inl TooManyRelayEndpoints
      else
        and_then (map_err route_endpoint_error (endpoint_loop urls bootstrap [])) (\<lambda>canonical.
        Inr (make_route recipient (sort canonical) BootstrapMissingMetadata)))"

definition route_dm_relays ::
  "crates \<Rightarrow> url_crate \<Rightarrow> dm_relay_cache \<Rightarrow> bytes \<Rightarrow> u64 \<Rightarrow> string list \<Rightarrow> dm_relay_routing_policy
     \<Rightarrow> dm_relay_routing_error + dm_relay_route" where
  "route_dm_relays c urls records recipient now bootstrap policy =
     (if \<not> schnorr_key_ok c recipient then Inl InvalidRecipientPublicKey
      else case dm_cache_lookup c recipient now (freshness_window_seconds policy) records of
        Fresh r \<Rightarrow> route_verified r False
      | OfflineStale r \<Rightarrow> if allow_stale_offline policy then route_verified r True else Inl StaleMetadata
      | UnusableClockRollback r \<Rightarrow> Inl ClockRollback
      | Cache_Missing \<Rightarrow>
          if allow_bootstrap_when_missing policy then route_bootstrap urls recipient bootstrap else Inl MissingMetadata)"

definition route_verified_dm_inbox :: "crates \<Rightarrow> verified_dm_inbox \<Rightarrow> dm_relay_routing_error + dm_relay_route" where
  "route_verified_dm_inbox c i =
     and_then (ok_or InvalidRecipientPublicKey (decode_32 c (vi_recipient i))) (\<lambda>recipient.
     if \<not> schnorr_key_ok c recipient then Inl InvalidRecipientPublicKey
     else
       and_then (ok_or InvalidSourceEventId (decode_32 c (vi_source_event_id i))) (\<lambda>ident.
       if vi_relay_urls i = [] then Inl NoRelayEndpoints
       else Inr (make_route recipient (vi_relay_urls i) (VerifiedFresh ident))))"

record routed_dm_publish_plan =
  routed_event :: signed_event
  routed_recipient :: bytes
  routed_relay_urls :: "string list"
  routed_source :: route_provenance
  routed_acknowledgements :: nat

datatype routed_dm_publish_error =
    Routed_InvalidEvent event_error | Routed_WrongKind | Routed_RecipientMismatch | EmptyRoute

definition plan_routed_dm_publish ::
  "crates \<Rightarrow> json_crate \<Rightarrow> signed_event \<Rightarrow> dm_relay_route \<Rightarrow> u64 \<Rightarrow> event_limits
     \<Rightarrow> routed_dm_publish_error + routed_dm_publish_plan" where
  "plan_routed_dm_publish c jc event route now el =
     and_then (map_err Routed_InvalidEvent (event_verify c jc now el event)) (\<lambda>_.
     if s_kind event \<noteq> GIFT_WRAP_KIND then Inl Routed_WrongKind
     else if (case filter (first_is ''p'') (s_tags event) of
                [tag] \<Rightarrow> length tag \<noteq> 2 \<or> tag ! 1 \<noteq> hex_encode c (route_recipient route)
              | _ \<Rightarrow> True)
     then Inl Routed_RecipientMismatch
     else if route_relay_urls route = [] \<or> route_acknowledgements route = 0 then Inl EmptyRoute
     else Inr \<lparr>routed_event = event, routed_recipient = route_recipient route,
               routed_relay_urls = route_relay_urls route, routed_source = route_source route,
               routed_acknowledgements = route_acknowledgements route\<rparr>)"

section \<open>An older list never replaces a newer one\<close>

definition dm_put :: "crates \<Rightarrow> json_crate \<Rightarrow> url_crate \<Rightarrow> dm_relay_record \<Rightarrow> dm_relay_cache \<Rightarrow> dm_relay_cache" where
  "dm_put c jc urls r records = snd (dm_cache_insert c jc urls r records)"

definition dm_stores :: "crates \<Rightarrow> url_crate \<Rightarrow> dm_relay_record \<Rightarrow> string \<Rightarrow> dm_relay_record \<Rightarrow> bool" where
  "dm_stores c urls r k v \<longleftrightarrow> canonicalize_and_validate c urls r = Inr v \<and> k = hex_encode c (rec_recipient v)"

definition dm_newer :: "dm_relay_record \<Rightarrow> dm_relay_record \<Rightarrow> bool" where
  "dm_newer v w \<longleftrightarrow> rec_source_created_at w \<le> rec_source_created_at v"

definition dm_get :: "string \<Rightarrow> dm_relay_cache \<Rightarrow> dm_relay_record option" where
  "dm_get k records = map_of records k"

lemma restore_map_of:
  "map_of (case map_of records key of
      Some previous \<Rightarrow> ordered_insert key previous (ordered_insert key r records)
    | None \<Rightarrow> AList.delete key (ordered_insert key r records)) = map_of records"
  by (auto simp: delete_conv' fun_eq_iff split: option.splits)

lemma dm_put_cases:
  "(\<forall>k. dm_get k (dm_put c jc urls r records) = dm_get k records) \<or>
    (\<exists>k v. dm_stores c urls r k v \<and> dm_get k (dm_put c jc urls r records) = Some v
      \<and> (\<forall>w. dm_get k records = Some w \<longrightarrow> dm_newer v w)
      \<and> (\<forall>k'. k' \<noteq> k \<longrightarrow> dm_get k' (dm_put c jc urls r records) = dm_get k' records))"
proof (cases "canonicalize_and_validate c urls r")
  case (Inl err)
  then show ?thesis by (simp add: dm_put_def dm_cache_insert_def then_st_def)
next
  case (Inr v)
  let ?key = "hex_encode c (rec_recipient v)"
  show ?thesis
  proof (cases "against_current v records ?key = None \<and> (\<exists>bs. dm_cache_to_json jc (ordered_insert ?key v records) = Inr bs)")
    case True
    then have "dm_put c jc urls r records = ordered_insert ?key v records"
      using Inr by (auto simp: dm_put_def dm_cache_insert_def then_st_def Let_def)
    moreover have "dm_newer v w" if "map_of records ?key = Some w" for w
      using True that by (auto simp: against_current_def dm_newer_def split: if_splits)
    ultimately show ?thesis using Inr by (auto simp: dm_stores_def dm_get_def)
  next
    case False
    then have "map_of (dm_put c jc urls r records) = map_of records"
      using Inr restore_map_of [where records = records and key = ?key and r = v]
      by (auto simp: dm_put_def dm_cache_insert_def then_st_def Let_def split: option.splits sum.splits)
    then show ?thesis by (simp add: dm_get_def)
  qed
qed

interpretation dm_relays: newest_cache "dm_put c jc urls" dm_get "dm_stores c urls" dm_newer
  for c :: crates and jc :: json_crate and urls :: url_crate
  by (unfold_locales; (rule dm_put_cases)?) (auto simp: dm_newer_def)

text \<open>An insertion of a NIP-65 list: the event, the two clocks and the limits.\<close>

type_synonym rl_insertion = "signed_event \<times> u64 \<times> u64 \<times> event_limits \<times> relay_discovery_limits"

definition rl_put :: "crates \<Rightarrow> json_crate \<Rightarrow> url_crate \<Rightarrow> rl_insertion \<Rightarrow> relay_list_cache \<Rightarrow> relay_list_cache" where
  "rl_put c jc urls x records =
     (case x of (event, now, verified, el, limits) \<Rightarrow> snd (insert_event c jc urls event now verified el limits records))"

definition rl_stores :: "crates \<Rightarrow> json_crate \<Rightarrow> url_crate \<Rightarrow> rl_insertion \<Rightarrow> string \<Rightarrow> relay_list_record \<Rightarrow> bool" where
  "rl_stores c jc urls x k v \<longleftrightarrow>
     (case x of (event, now, verified, el, limits) \<Rightarrow>
        parse_nip65_relay_list c jc urls event now el limits = Inr (rl_list v)
        \<and> k = list_public_key (rl_list v) \<and> rl_source_event v = event \<and> rl_verified_at v = verified)"

definition rl_newer :: "relay_list_record \<Rightarrow> relay_list_record \<Rightarrow> bool" where
  "rl_newer v w \<longleftrightarrow>
     (s_created_at (rl_source_event w) < s_created_at (rl_source_event v)
      \<or> s_created_at (rl_source_event w) = s_created_at (rl_source_event v)
        \<and> s_id (rl_source_event v) \<le> s_id (rl_source_event w))"

definition rl_get :: "string \<Rightarrow> relay_list_cache \<Rightarrow> relay_list_record option" where
  "rl_get k records = map_of records k"

lemma rl_put_cases:
  "(\<forall>k. rl_get k (rl_put c jc urls x records) = rl_get k records) \<or>
    (\<exists>k v. rl_stores c jc urls x k v \<and> rl_get k (rl_put c jc urls x records) = Some v
      \<and> (\<forall>w. rl_get k records = Some w \<longrightarrow> rl_newer v w)
      \<and> (\<forall>k'. k' \<noteq> k \<longrightarrow> rl_get k' (rl_put c jc urls x records) = rl_get k' records))"
proof -
  obtain event now verified el limits where x: "x = (event, now, verified, el, limits)" by (metis prod_cases5)
  show ?thesis
  proof (cases "now < verified \<or> verified < s_created_at event \<or> isl (parse_nip65_relay_list c jc urls event now el limits)")
    case True
    then show ?thesis
      by (auto simp: rl_put_def x insert_event_def then_st_def map_err_def split: sum.splits)
  next
    case False
    then obtain found where found: "parse_nip65_relay_list c jc urls event now el limits = Inr found"
      by (cases "parse_nip65_relay_list c jc urls event now el limits") auto
    let ?key = "list_public_key found"
    let ?v = "\<lparr>rl_list = found, rl_source_event = event, rl_verified_at = verified\<rparr>"
    show ?thesis
    proof (cases "rl_against_current event records ?key = None \<and> (\<exists>bs. rl_cache_to_json jc (ordered_insert ?key ?v records) = Inr bs)")
      case True
      then have "rl_put c jc urls x records = ordered_insert ?key ?v records"
        using False found by (auto simp: rl_put_def x insert_event_def then_st_def Let_def map_err_def)
      moreover have "rl_newer ?v w" if "map_of records ?key = Some w" for w
        using True that by (auto simp: rl_against_current_def rl_newer_def split: if_splits)
      ultimately show ?thesis
        using found by (intro disjI2 exI [of _ ?key] exI [of _ ?v]) (auto simp: rl_stores_def rl_get_def x)
    next
      case stop: False
      then have "map_of (rl_put c jc urls x records) = map_of records"
        using False found restore_map_of [where records = records and key = ?key and r = ?v]
        by (auto simp: rl_put_def x insert_event_def then_st_def Let_def map_err_def split: option.splits sum.splits)
      then show ?thesis by (simp add: rl_get_def)
    qed
  qed
qed

interpretation relay_lists: newest_cache "rl_put c jc urls" rl_get "rl_stores c jc urls" rl_newer
  for c :: crates and jc :: json_crate and urls :: url_crate
  by (unfold_locales; (rule rl_put_cases)?) (auto simp: rl_newer_def)

section \<open>Messages go where the recipient asked\<close>

text \<open>Parsing the text of a URL gives the URL back.\<close>

definition url_laws :: "url_crate \<Rightarrow> bool" where
  "url_laws urls \<longleftrightarrow> (\<forall>x u. urls x = Some u \<longrightarrow> urls (url_text u) = Some u)"

definition canonical_text :: "url_crate \<Rightarrow> string \<Rightarrow> bool" where
  "canonical_text urls x \<longleftrightarrow> (\<exists>u. urls x = Some u \<and> url_text u = x)"

lemma endpoint_loop_canonical:
  assumes "endpoint_loop urls xs acc = Inr ys" "list_all (canonical_text urls) xs"
  shows "ys = acc @ xs"
  using assms
proof (induction urls xs acc rule: endpoint_loop.induct)
  case (2 urls x xs acc)
  then obtain u where "urls x = Some u" "url_text u = x" by (auto simp: canonical_text_def)
  with 2 show ?case by (auto split: if_splits)
qed simp

lemma canonicalize_Inr:
  assumes "canonicalize_and_validate c urls r = Inr v" "list_all (canonical_text urls) (rec_relays r)"
  shows "v = r\<lparr>rec_relays := sort (rec_relays r)\<rparr>" "s_pubkey (rec_source_event r) = hex_encode c (rec_recipient r)"
    "s_id (rec_source_event r) = hex_encode c (rec_source_event_id r)" "s_created_at (rec_source_event r) = rec_source_created_at r"
  using assms endpoint_loop_canonical [of urls "rec_relays r" "[]"]
  by (auto simp: canonicalize_and_validate_def split: if_splits)

text \<open>What a client learns: a list it verified for a recipient, stamped with the time it did so.\<close>

record lesson =
  les_event :: signed_event
  les_recipient :: bytes
  les_now :: u64
  les_limits :: event_limits
  les_policy :: dm_inbox_policy
  les_verified_at :: u64

definition learned :: "crates \<Rightarrow> json_crate \<Rightarrow> url_crate \<Rightarrow> lesson \<Rightarrow> dm_relay_record option" where
  "learned c jc urls x =
     (case verify_dm_inbox c jc urls (les_event x) (les_recipient x) (les_now x) (les_limits x) (les_policy x) of
        Inl _ \<Rightarrow> None
      | Inr i \<Rightarrow> (case to_cache_record c urls i (les_verified_at x) of Inl _ \<Rightarrow> None | Inr r \<Rightarrow> Some r))"

definition cache_after :: "crates \<Rightarrow> json_crate \<Rightarrow> url_crate \<Rightarrow> lesson list \<Rightarrow> dm_relay_cache" where
  "cache_after c jc urls xs = fold (dm_put c jc urls) (List.map_filter (learned c jc urls) xs) []"

lemma normalized_canonical:
  assumes "url_laws urls" "normalize_relay_url urls x limits = Inr y"
  shows "canonical_text urls y"
  using assms by (auto simp: normalize_relay_url_def canonical_text_def url_laws_def split: if_splits)

text \<open>The event a lesson was learned from names the relays of the record.\<close>

definition names_relays :: "url_crate \<Rightarrow> dm_inbox_policy \<Rightarrow> signed_event \<Rightarrow> string list \<Rightarrow> bool" where
  "names_relays urls policy event relays \<longleftrightarrow>
     (\<exists>us. map (\<lambda>x. normalize_relay_url urls x
          \<lparr>max_relays = policy_max_relays policy, max_url_bytes = policy_max_url_bytes policy\<rparr>)
        (relay_tag_urls (s_tags event)) = map Inr us \<and> set relays = set us)"

lemma inbox_canonical:
  assumes "url_laws urls" "verify_dm_inbox c jc urls event recipient now el policy = Inr i"
  shows "list_all (canonical_text urls) (vi_relay_urls i)"
proof -
  note i = verify_dm_inbox_Inr [OF assms(2)]
  let ?limits = "\<lparr>max_relays = policy_max_relays policy, max_url_bytes = policy_max_url_bytes policy\<rparr>"
  obtain us where us: "map (\<lambda>y. normalize_relay_url urls y ?limits) (relay_tag_urls (s_tags event)) = map Inr us"
    "set (vi_relay_urls i) = set us"
    using i(1,3) by (auto simp: inbox_of_def Let_def)
  have "canonical_text urls u" if "u \<in> set us" for u
  proof -
    from that have "Inr u \<in> set (map (\<lambda>y. normalize_relay_url urls y ?limits) (relay_tag_urls (s_tags event)))"
      unfolding us(1) by simp
    then show ?thesis using normalized_canonical [OF assms(1)] by auto
  qed
  then show ?thesis using us(2) by (auto simp: list_all_iff)
qed

lemma learned_record:
  assumes "url_laws urls" "hex_laws c" "learned c jc urls x = Some r"
  shows "list_all (canonical_text urls) (rec_relays r)" "rec_source_event r = les_event x"
    "event_verify c jc (les_now x) (les_limits x) (les_event x) = Inr ()"
    "s_kind (les_event x) = NIP17_DM_RELAY_LIST_KIND"
    "s_pubkey (les_event x) = hex_encode c (rec_recipient r)" "s_id (les_event x) = hex_encode c (rec_source_event_id r)"
    "s_created_at (les_event x) = rec_source_created_at r"
    "names_relays urls (les_policy x) (les_event x) (rec_relays r)"
proof -
  obtain i where v: "verify_dm_inbox c jc urls (les_event x) (les_recipient x) (les_now x) (les_limits x) (les_policy x) = Inr i"
    and r: "to_cache_record c urls i (les_verified_at x) = Inr r"
    using assms(3) by (auto simp: learned_def split: sum.splits)
  note i = verify_dm_inbox_Inr [OF v]
  obtain rp ident where raw: "canonicalize_and_validate c urls
      \<lparr>rec_recipient = rp, rec_source_event_id = ident, rec_source_created_at = vi_source_created_at i,
       rec_verified_at = les_verified_at x, rec_relays = vi_relay_urls i, rec_source_event = vi_source_event i\<rparr> = Inr r"
    using r by (auto simp: to_cache_record_def from_authenticated_event_def)
  obtain us where us: "map (\<lambda>y. normalize_relay_url urls y
        \<lparr>max_relays = policy_max_relays (les_policy x), max_url_bytes = policy_max_url_bytes (les_policy x)\<rparr>)
      (relay_tag_urls (s_tags (les_event x))) = map Inr us" "set (vi_relay_urls i) = set us"
    using i(1,3) by (auto simp: inbox_of_def Let_def)
  have all: "list_all (canonical_text urls) (vi_relay_urls i)" by (rule inbox_canonical [OF assms(1) v])
  note w = canonicalize_Inr [OF raw, simplified, OF all]
  show "list_all (canonical_text urls) (rec_relays r)" using all by (simp add: w(1) list_all_iff)
  show "rec_source_event r = les_event x" using i(3) by (simp add: w(1))
  show "event_verify c jc (les_now x) (les_limits x) (les_event x) = Inr ()"
    "s_kind (les_event x) = NIP17_DM_RELAY_LIST_KIND"
    using i(1,3) by (auto simp: inbox_of_def Let_def)
  show "s_pubkey (les_event x) = hex_encode c (rec_recipient r)" "s_id (les_event x) = hex_encode c (rec_source_event_id r)"
    "s_created_at (les_event x) = rec_source_created_at r"
    using w(2-4) i(3) by (simp_all add: w(1))
  show "names_relays urls (les_policy x) (les_event x) (rec_relays r)"
    using us by (auto simp: names_relays_def w(1))
qed

lemma cache_source:
  assumes "url_laws urls" "hex_laws c" "dm_get k (cache_after c jc urls xs) = Some v"
  shows "\<exists>x \<in> set xs. event_verify c jc (les_now x) (les_limits x) (les_event x) = Inr ()
    \<and> s_kind (les_event x) = NIP17_DM_RELAY_LIST_KIND \<and> s_pubkey (les_event x) = k
    \<and> s_id (les_event x) = hex_encode c (rec_source_event_id v) \<and> s_created_at (les_event x) = rec_source_created_at v
    \<and> names_relays urls (les_policy x) (les_event x) (rec_relays v) \<and> k = hex_encode c (rec_recipient v)"
proof -
  have "\<exists>r \<in> set (List.map_filter (learned c jc urls) xs). dm_stores c urls r k v"
    using dm_relays.fold_source [OF assms(3) [unfolded cache_after_def]] by (simp add: dm_get_def)
  then obtain x r where x: "x \<in> set xs" "learned c jc urls x = Some r" "dm_stores c urls r k v"
    by (auto simp: List.map_filter_def)
  note r = learned_record [OF assms(1,2) x(2)]
  have v: "v = r\<lparr>rec_relays := sort (rec_relays r)\<rparr>" "k = hex_encode c (rec_recipient v)"
    using canonicalize_Inr(1) [OF _ r(1)] x(3) by (auto simp: dm_stores_def)
  show ?thesis
    using x(1) r v by (intro bexI [of _ x]) (auto simp: names_relays_def)
qed

lemma cache_newest:
  assumes "xs = us @ vs" "dm_get k (cache_after c jc urls us) = Some w" "dm_get k (cache_after c jc urls xs) = Some v"
  shows "rec_source_created_at w \<le> rec_source_created_at v"
proof -
  have "cache_after c jc urls xs = fold (dm_put c jc urls) (List.map_filter (learned c jc urls) vs) (cache_after c jc urls us)"
    by (simp add: assms(1) cache_after_def map_filter_append)
  then show ?thesis
    using dm_relays.fold_keeps [OF assms(2), of c jc urls "List.map_filter (learned c jc urls) vs"] assms(3)
    by (auto simp: dm_newer_def)
qed

text \<open>An insertion that the cache refuses because the result would not fit or could not be written.\<close>

definition refused_for_space :: "crates \<Rightarrow> json_crate \<Rightarrow> url_crate \<Rightarrow> dm_relay_record \<Rightarrow> dm_relay_cache \<Rightarrow> bool" where
  "refused_for_space c jc urls r records \<longleftrightarrow>
     fst (dm_cache_insert c jc urls r records) \<in> {Inl CacheFull, Inl CacheTooLarge, Inl Cache_InvalidEncoding}"

lemma endpoint_loop_accepts:
  assumes "list_all (canonical_text urls) xs"
  shows "endpoint_loop urls xs acc = Inr (acc @ xs) \<longleftrightarrow> distinct xs \<and> set xs \<inter> set acc = {}
    \<and> (\<forall>x \<in> set xs. \<exists>y. endpoint_loop urls [x] [] = Inr y)"
  using assms
proof (induction xs arbitrary: acc)
  case (Cons x xs)
  obtain u where u: "urls x = Some u" "url_text u = x" using Cons.prems by (auto simp: canonical_text_def)
  have "endpoint_loop urls xs (acc @ [x]) = Inr (acc @ x # xs) \<longleftrightarrow> distinct xs \<and> set xs \<inter> set (acc @ [x]) = {}
      \<and> (\<forall>x \<in> set xs. \<exists>y. endpoint_loop urls [x] [] = Inr y)"
    using Cons.IH [of "acc @ [x]"] Cons.prems by simp
  then show ?case using u by auto
qed simp

lemma canonicalize_again:
  assumes "canonicalize_and_validate c urls r = Inr v" "list_all (canonical_text urls) (rec_relays r)"
  shows "\<exists>w. canonicalize_and_validate c urls v = Inr w \<and> rec_recipient w = rec_recipient v
    \<and> rec_source_created_at w = rec_source_created_at v"
proof -
  have v: "v = r\<lparr>rec_relays := sort (rec_relays r)\<rparr>" using canonicalize_Inr(1) [OF assms] .
  obtain ys where ys: "endpoint_loop urls (rec_relays r) [] = Inr ys"
    using assms(1) by (auto simp: canonicalize_and_validate_def split: if_splits)
  then have "endpoint_loop urls (rec_relays r) [] = Inr ([] @ rec_relays r)"
    using endpoint_loop_canonical [OF ys assms(2)] by simp
  moreover have "list_all (canonical_text urls) (rec_relays v)" using assms(2) by (simp add: v list_all_iff)
  moreover have "distinct (rec_relays v) = distinct (rec_relays r)" "set (rec_relays v) = set (rec_relays r)" by (simp_all add: v)
  ultimately have "endpoint_loop urls (rec_relays v) [] = Inr ([] @ rec_relays v)"
    using endpoint_loop_accepts [OF assms(2), of "[]"] endpoint_loop_accepts [of urls "rec_relays v" "[]"] by metis
  then show ?thesis
    using assms(1) by (auto simp: canonicalize_and_validate_def v split: if_splits)
qed

lemma learned_canonical:
  assumes "url_laws urls" "hex_laws c" "learned c jc urls x = Some r"
  obtains w where "canonicalize_and_validate c urls r = Inr w" "rec_recipient w = rec_recipient r"
    "rec_source_created_at w = rec_source_created_at r"
proof -
  obtain i where "to_cache_record c urls i (les_verified_at x) = Inr r"
    and v: "verify_dm_inbox c jc urls (les_event x) (les_recipient x) (les_now x) (les_limits x) (les_policy x) = Inr i"
    using assms(3) by (auto simp: learned_def split: sum.splits)
  then obtain q where q: "canonicalize_and_validate c urls q = Inr r" "rec_relays q = vi_relay_urls i"
    by (auto simp: to_cache_record_def from_authenticated_event_def)
  have "list_all (canonical_text urls) (rec_relays q)"
    using inbox_canonical [OF assms(1) v] q(2) by simp
  with canonicalize_again [OF q(1)] that show ?thesis by blast
qed

lemma insert_wins:
  assumes "canonicalize_and_validate c urls r = Inr v"
  shows "(\<exists>w. dm_get (hex_encode c (rec_recipient v)) (dm_put c jc urls r records) = Some w
      \<and> rec_source_created_at v \<le> rec_source_created_at w) \<or> refused_for_space c jc urls r records"
proof -
  let ?key = "hex_encode c (rec_recipient v)"
  consider (answer) answer where "against_current v records ?key = Some answer"
    | (full) err where "against_current v records ?key = None" "dm_cache_to_json jc (ordered_insert ?key v records) = Inl err"
    | (stored) bs where "against_current v records ?key = None" "dm_cache_to_json jc (ordered_insert ?key v records) = Inr bs"
    by (cases "against_current v records ?key"; cases "dm_cache_to_json jc (ordered_insert ?key v records)") auto
  then show ?thesis
  proof cases
    case answer
    then have "answer = Inl CacheFull \<or> (\<exists>w. map_of records ?key = Some w \<and> rec_source_created_at v \<le> rec_source_created_at w)"
      by (auto simp: against_current_def split: option.splits if_splits)
    with answer assms show ?thesis
      by (auto simp: refused_for_space_def dm_put_def dm_cache_insert_def dm_get_def)
  next
    case full
    then have "err = CacheTooLarge \<or> err = Cache_InvalidEncoding"
      by (auto simp: dm_cache_to_json_def ok_or_def split: option.splits if_splits)
    with full assms show ?thesis by (auto simp: refused_for_space_def dm_cache_insert_def Let_def)
  next
    case stored
    with assms show ?thesis by (auto simp: dm_put_def dm_cache_insert_def dm_get_def Let_def)
  qed
qed

lemma cache_offered:
  assumes "url_laws urls" "hex_laws c" "xs = us @ y # vs" "learned c jc urls y = Some r"
    and "\<not> refused_for_space c jc urls r (cache_after c jc urls us)"
  shows "\<exists>w. dm_get (hex_encode c (rec_recipient r)) (cache_after c jc urls xs) = Some w
    \<and> s_created_at (les_event y) \<le> rec_source_created_at w"
proof -
  obtain v where v: "canonicalize_and_validate c urls r = Inr v" "rec_recipient v = rec_recipient r"
    "rec_source_created_at v = rec_source_created_at r"
    by (rule learned_canonical [OF assms(1,2,4)])
  obtain w where w: "dm_get (hex_encode c (rec_recipient r)) (dm_put c jc urls r (cache_after c jc urls us)) = Some w"
    "rec_source_created_at r \<le> rec_source_created_at w"
    using insert_wins [OF v(1), of jc "cache_after c jc urls us"] assms(5) v(2,3) by auto
  have "cache_after c jc urls xs = fold (dm_put c jc urls) (List.map_filter (learned c jc urls) vs)
      (dm_put c jc urls r (cache_after c jc urls us))"
    by (simp add: assms(3,4) cache_after_def map_filter_append List.map_filter_simps)
  with dm_relays.fold_keeps [OF w(1), of c jc urls "List.map_filter (learned c jc urls) vs"] w(2)
    learned_record(7) [OF assms(1,2,4)]
  show ?thesis by (auto simp: dm_newer_def intro: order_trans)
qed

text \<open>
  C32. A message is routed to the relays its recipient last asked for. Whatever lists a client has
  verified and offered to the cache, in whatever order, a route for a recipient that does not come
  from the bootstrap relays consists of exactly the relays named by one relay list that the
  recipient signed and the client verified. That list is no older than the list the cache held at
  any earlier moment, and no older than any list of the recipient that was offered, save for those
  refused because the cache was full or too large; and it is within the freshness window unless
  stale lists are allowed. Bootstrap relays are used only if that is allowed and the cache has no
  list of the recipient, every one that was offered having been refused for space.
\<close>

theorem route_follows_recipient:
  assumes "url_laws urls" "hex_laws c"
    and "route_dm_relays c urls (cache_after c jc urls xs) recipient now bootstrap policy = Inr route"
  shows "route_recipient route = recipient \<and> route_relay_urls route \<noteq> [] \<and>
    (if route_source route = BootstrapMissingMetadata
     then allow_bootstrap_when_missing policy \<and> dm_get (hex_encode c recipient) (cache_after c jc urls xs) = None
       \<and> (\<forall>us y vs r. xs = us @ y # vs \<longrightarrow> learned c jc urls y = Some r \<longrightarrow> rec_recipient r = recipient \<longrightarrow>
            refused_for_space c jc urls r (cache_after c jc urls us))
     else \<exists>x \<in> set xs. event_verify c jc (les_now x) (les_limits x) (les_event x) = Inr ()
       \<and> s_kind (les_event x) = NIP17_DM_RELAY_LIST_KIND \<and> s_pubkey (les_event x) = hex_encode c recipient
       \<and> names_relays urls (les_policy x) (les_event x) (route_relay_urls route)
       \<and> s_created_at (les_event x) \<le> now
       \<and> (now - s_created_at (les_event x) \<le> freshness_window_seconds policy \<or> allow_stale_offline policy)
       \<and> (\<forall>us vs w. xs = us @ vs \<longrightarrow> dm_get (hex_encode c recipient) (cache_after c jc urls us) = Some w \<longrightarrow>
            rec_source_created_at w \<le> s_created_at (les_event x))
       \<and> (\<forall>us y vs r. xs = us @ y # vs \<longrightarrow> learned c jc urls y = Some r \<longrightarrow> rec_recipient r = recipient \<longrightarrow>
            s_created_at (les_event y) \<le> s_created_at (les_event x)
            \<or> refused_for_space c jc urls r (cache_after c jc urls us)))"
proof (cases "dm_get (hex_encode c recipient) (cache_after c jc urls xs)")
  case None
  then have "allow_bootstrap_when_missing policy" "route_bootstrap urls recipient bootstrap = Inr route"
    using assms(3) by (auto simp: route_dm_relays_def dm_cache_lookup_def classify_def dm_get_def split: if_splits)
  moreover have "sort ys \<noteq> []" if "endpoint_loop urls bootstrap [] = Inr ys" "bootstrap \<noteq> []" for ys
  proof -
    have "length ys = length acc + length xs" if "endpoint_loop urls xs acc = Inr ys" for xs acc
      using that by (induction urls xs acc rule: endpoint_loop.induct) (auto split: if_splits)
    from this [OF that(1)] that(2) show ?thesis by (metis length_0_conv length_sort add_is_0)
  qed
  moreover have "refused_for_space c jc urls r (cache_after c jc urls us)"
    if "xs = us @ y # vs" "learned c jc urls y = Some r" "rec_recipient r = recipient" for us y vs r
    using cache_offered [OF assms(1,2) that(1,2)] None that(3) by auto
  ultimately show ?thesis
    using None by (auto simp: route_bootstrap_def make_route_def split: if_splits)
next
  case (Some v)
  then have "\<exists>age. checked_sub now (rec_source_created_at v) = Some age
      \<and> (age \<le> freshness_window_seconds policy \<or> allow_stale_offline policy)
      \<and> (route_verified v False = Inr route \<or> route_verified v True = Inr route)"
    using assms(3) by (auto simp: route_dm_relays_def dm_cache_lookup_def classify_def dm_get_def split: if_splits option.splits)
  then have route: "route_relay_urls route = rec_relays v" "rec_relays v \<noteq> []" "route_recipient route = rec_recipient v"
    "route_source route \<noteq> BootstrapMissingMetadata" "rec_source_created_at v \<le> now"
    "now - rec_source_created_at v \<le> freshness_window_seconds policy \<or> allow_stale_offline policy"
    by (auto simp: route_verified_def make_route_def checked_sub_def split: if_splits)
  obtain x where x: "x \<in> set xs" "event_verify c jc (les_now x) (les_limits x) (les_event x) = Inr ()"
    "s_kind (les_event x) = NIP17_DM_RELAY_LIST_KIND" "s_pubkey (les_event x) = hex_encode c recipient"
    "s_created_at (les_event x) = rec_source_created_at v" "names_relays urls (les_policy x) (les_event x) (rec_relays v)"
    and k: "hex_encode c recipient = hex_encode c (rec_recipient v)"
    using cache_source [OF assms(1,2) Some] by blast
  have "rec_source_created_at w \<le> s_created_at (les_event x)"
    if "xs = us @ vs" "dm_get (hex_encode c recipient) (cache_after c jc urls us) = Some w" for us vs w
    using cache_newest [OF that Some] x(5) by simp
  moreover have "s_created_at (les_event y) \<le> s_created_at (les_event x)"
    if "xs = us @ y # vs" "learned c jc urls y = Some r" "rec_recipient r = recipient"
      "\<not> refused_for_space c jc urls r (cache_after c jc urls us)" for us y vs r
    using cache_offered [OF assms(1,2) that(1,2,4)] Some x(5) that(3) by auto
  ultimately show ?thesis
    using route x k assms(2) by (auto simp: hex_laws_inject)
qed

text \<open>One relay list, verified and cached.\<close>

definition demo_list :: unsigned_event where
  "demo_list =
    \<lparr>u_pubkey = hex_string demo_key, u_created_at = 5, u_kind = NIP17_DM_RELAY_LIST_KIND,
     u_tags = [[''relay'', ''wss://a.example/'']], u_content = []\<rparr>"

definition demo_lesson :: "nat \<Rightarrow> signed_event \<Rightarrow> lesson" where
  "demo_lesson n event =
    \<lparr>les_event = event, les_recipient = demo_key, les_now = 5,
     les_limits = EventLimits_default\<lparr>max_serialized_bytes := n\<rparr>, les_policy = DmInboxPolicy_default, les_verified_at = 5\<rparr>"

lemma reference_url_laws: "url_laws reference_urls"
  by (auto simp: url_laws_def reference_urls_def plain_url_def split: if_splits)

lemma reference_digest_nonzero:
  assumes "canonical_json reference_json e = Inr m"
  shows "sha256 reference_crates m \<noteq> replicate 32 0"
proof
  assume zero: "sha256 reference_crates m = replicate 32 0"
  obtain xs where j: "json_to_vec reference_json (JArr xs) = Some m"
    using assms by (auto simp: canonical_json_def)
  have "m = as_bytes (hex_string (put_json 127 (JArr xs)))"
    using j by (auto simp: reference_json_def split: if_splits)
  moreover have "put_json 127 (JArr xs) = 6 # tl (put_json 127 (JArr xs))" by (simp add: put_json_container)
  ultimately obtain ys where "m = as_bytes (hex_string (6 # ys))" by metis
  then have m: "m = of_char (hex_digit 0) # as_bytes (hex_digit 6 # hex_string ys)" by (simp add: as_bytes_def)
  have "hd (sha256 reference_crates m) = hd m" by (simp add: reference_crates_def m)
  also have "\<dots> = 48" using of_char_char_of [of 48] by (simp add: m hex_digit_def)
  finally show False using zero by simp
qed

lemma demo_list_signed:
  obtains event n ident where "event_unsigned event = demo_list" "signed_utf8 event" "length (s_id event) = 64" "length (s_sig event) = 128"
    "event_verify reference_crates reference_json 5 (EventLimits_default\<lparr>max_serialized_bytes := n\<rparr>) event = Inr ()"
    "s_id event = hex_string ident" "length ident = 32" "ident \<noteq> replicate 32 0"
proof -
  let ?el = "\<lambda>n. EventLimits_default\<lparr>max_serialized_bytes := n\<rparr>"
  have utf8: "unsigned_utf8 demo_list" by (simp add: unsigned_utf8_def demo_list_def is_utf8_hex is_utf8_ascii)
  have "decode_hex_32 reference_crates (hex_string demo_key) = Inr demo_key"
    by (simp add: decode_hex_defs decode_hex_Inr demo_key_def reference_crates_def hex_parse_string
        length_hex_string hex_string_lower)
  then have valid: "event_validate reference_crates (?el n) demo_list = Inr ()" for n
    by (simp add: event_validate_def event_default_defs demo_list_def)
  have key: "u_pubkey demo_list = hex_string demo_key" "length demo_key = 32" by (simp_all add: demo_list_def demo_key_def)
  obtain s bs where s: "sign_with_aux reference_crates reference_json demo_key [] (?el 0) demo_list = Inr s"
    "event_unsigned s = demo_list" "length (s_id s) = 64" "length (s_sig s) = 128"
    "json_to_vec reference_json (signed_event_json s) = Some bs"
    using reference_signs [OF utf8 key valid] by metis
  have any: "sign_with_aux reference_crates reference_json demo_key [] (?el n) demo_list = Inr s" for n
    using s(1) by (simp add: sign_with_aux_def valid del: and_then_Inr)
  have clock: "u_created_at demo_list \<le> saturating_add 5 (max_future_seconds (?el n))" for n
    by (simp add: demo_list_def event_default_defs saturating_add_def)
  have size: "length bs \<le> max_serialized_bytes (?el (length bs))" by simp
  note v = sign_verifies [OF reference_event_laws utf8 any s(5) size clock]
  obtain m where "canonical_json reference_json demo_list = Inr m" "s_id s = hex_string (sha256 reference_crates m)"
    using s(1) by (auto simp: sign_with_aux_def event_id_def reference_crates_def split: if_splits)
  then show ?thesis
    using that [of s "length bs" "sha256 reference_crates m"] s v reference_digest_nonzero reference_sha256_laws
    by (auto simp: sha256_laws_def)
qed

lemma demo_list_json:
  assumes "signed_utf8 event" "length (s_id event) = 64" "length (s_sig event) = 128" "s_pubkey event = hex_string demo_key"
    "s_created_at event = 5" "s_kind event = NIP17_DM_RELAY_LIST_KIND" "s_tags event = [[''relay'', ''wss://a.example/'']]"
    "s_content event = []" "rec_source_event r = event" "rec_verified_at r = 5"
  shows "\<exists>bs. dm_cache_to_json reference_json [(k, r)] = Inr bs"
proof -
  let ?j = "JObj [(''version'', JInt (uint CACHE_FORMAT_VERSION)), (''records'', JArr [persisted_dm_record r])]"
  have "json_exact 124 (signed_event_json event)"
    using assms(1) by (simp add: signed_event_json_def json_exact_object tags_json_exact signed_utf8_def
        unsigned_utf8_def event_unsigned_def is_utf8_field_names)
  then have "json_exact 127 ?j"
    using assms(9,10)
    by (simp add: persisted_dm_record_def json_exact_object json_exact_array is_utf8_ascii CACHE_FORMAT_VERSION_def)
  moreover have "length (put_json 127 ?j) \<le> 524288"
    using assms(2-10)
    by (simp add: persisted_dm_record_def put_json_container length_put signed_event_json_def tags_json_def
        CACHE_FORMAT_VERSION_def length_hex_string demo_key_def NIP17_DM_RELAY_LIST_KIND_def)
  ultimately show ?thesis
    by (simp add: dm_cache_to_json_def reference_json_def length_hex_string MAX_SERIALIZED_CACHE_BYTES_def del: and_then_Inr)
qed

lemma demo_list_cached:
  assumes e: "event_unsigned event = demo_list" "signed_utf8 event" "length (s_id event) = 64" "length (s_sig event) = 128"
    "event_verify reference_crates reference_json 5 (EventLimits_default\<lparr>max_serialized_bytes := n\<rparr>) event = Inr ()"
    "s_id event = hex_string ident" "length ident = 32" "ident \<noteq> replicate 32 0"
  shows "cache_after reference_crates reference_json reference_urls [demo_lesson n event] =
    [(hex_string demo_key,
      \<lparr>rec_recipient = demo_key, rec_source_event_id = ident, rec_source_created_at = 5, rec_verified_at = 5,
       rec_relays = [''wss://a.example/''], rec_source_event = event\<rparr>)]"
proof -
  let ?c = reference_crates and ?url = "''wss://a.example/''"
  let ?r = "\<lparr>rec_recipient = demo_key, rec_source_event_id = ident, rec_source_created_at = 5, rec_verified_at = 5,
       rec_relays = [?url], rec_source_event = event\<rparr>"
  have hx: "hex_encode ?c = hex_string" "hex_decode ?c = hex_parse" by (simp_all add: reference_crates_def)
  have f: "s_pubkey event = hex_string demo_key" "s_created_at event = 5" "s_kind event = NIP17_DM_RELAY_LIST_KIND"
    "s_tags event = [[''relay'', ?url]]" "s_content event = []"
    using e(1) by (simp_all add: event_unsigned_def demo_list_def)
  have url: "reference_urls ?url = Some (plain_url ''wss'' ''a.example'' 443 ?url)" by (simp add: reference_urls_def)
  have norm: "normalize_relay_url reference_urls ?url \<lparr>max_relays = 3, max_url_bytes = 2048\<rparr> = Inr ?url"
    by (simp add: normalize_relay_url_def url plain_url_def)
  have secure: "secure_or_loopback reference_urls ?url"
    by (simp add: secure_or_loopback_def url plain_url_def secure_or_loopback_url_def)
  let ?i = "\<lparr>vi_recipient = hex_string demo_key, vi_source_event_id = s_id event, vi_source_created_at = 5,
      vi_relay_urls = [?url], vi_source_event = event\<rparr>"
  have "verify_dm_inbox ?c reference_json reference_urls event demo_key 5 (EventLimits_default\<lparr>max_serialized_bytes := n\<rparr>)
      DmInboxPolicy_default = Inr ?i"
    by (simp add: verify_dm_inbox_def validate_policy_def DmInboxPolicy_default_def parse_nip17_dm_relay_list_def
        parse_relay_list_def e(5) f validate_limits_def first_is_def merge_relay_def norm secure Let_def
        hx del: and_then_Inr)
  moreover have canon: "canonicalize_and_validate ?c reference_urls ?r = Inr ?r"
    using e(7,8) by (simp add: canonicalize_and_validate_def f e(6) demo_key_def hx url plain_url_def
        MAX_DM_RELAYS_PER_RECIPIENT_def MAX_DM_RELAY_ENDPOINT_BYTES_def secure_or_loopback_url_def del: and_then_Inr)
  moreover have "to_cache_record ?c reference_urls ?i 5 = Inr ?r"
  proof -
    have "decode_32 ?c (hex_string demo_key) = Some demo_key" "decode_32 ?c (s_id event) = Some ident"
      using e(7) by (simp_all add: decode_32_def hx hex_parse_string e(6) demo_key_def)
    then show ?thesis using canon by (simp add: to_cache_record_def from_authenticated_event_def del: and_then_Inr)
  qed
  ultimately have "List.map_filter (learned ?c reference_json reference_urls) [demo_lesson n event] = [?r]"
    by (simp add: learned_def demo_lesson_def)
  moreover have "\<exists>bs. dm_cache_to_json reference_json [(hex_string demo_key, ?r)] = Inr bs"
    by (rule demo_list_json) (use e f in simp_all)
  ultimately show ?thesis
    using canon
    by (auto simp: cache_after_def dm_put_def dm_cache_insert_def then_st_def against_current_def
        MAX_CACHED_DM_RECIPIENTS_def hx Let_def)
qed

theorem route_follows_recipient_witness:
  "\<exists>n event route.
     route_dm_relays reference_crates reference_urls
       (cache_after reference_crates reference_json reference_urls [demo_lesson n event]) demo_key 5 []
       DmRelayRoutingPolicy_default = Inr route
     \<and> route_relay_urls route = [''wss://a.example/''] \<and> s_pubkey event = hex_string demo_key
     \<and> names_relays reference_urls DmInboxPolicy_default event (route_relay_urls route)"
proof -
  obtain event n ident where e: "event_unsigned event = demo_list" "signed_utf8 event" "length (s_id event) = 64"
    "length (s_sig event) = 128"
    "event_verify reference_crates reference_json 5 (EventLimits_default\<lparr>max_serialized_bytes := n\<rparr>) event = Inr ()"
    "s_id event = hex_string ident" "length ident = 32" "ident \<noteq> replicate 32 0"
    by (rule demo_list_signed)
  note cached = demo_list_cached [OF e]
  let ?route = "make_route demo_key [''wss://a.example/''] (VerifiedFresh ident)"
  have hx: "hex_encode reference_crates = hex_string" "schnorr_key_ok reference_crates demo_key"
    by (simp_all add: reference_crates_def demo_key_def)
  have r: "route_dm_relays reference_crates reference_urls
       (cache_after reference_crates reference_json reference_urls [demo_lesson n event]) demo_key 5 []
       DmRelayRoutingPolicy_default = Inr ?route"
    by (simp add: cached route_dm_relays_def hx dm_cache_lookup_def classify_def checked_sub_def
        DmRelayRoutingPolicy_default_def route_verified_def)
  from route_follows_recipient [OF reference_url_laws reference_hex_laws r]
  show ?thesis
    using r by (intro exI [of _ n] exI [of _ event] exI [of _ ?route]) (simp add: make_route_def demo_lesson_def hx)
qed

end
