(* ===== verification/Nip05_Client.thy ===== *)
theory Nip05_Client
  imports Json Urls
begin

text \<open>
  Looking up a NIP-05 name (\<open>omachat-nostr/src/nip05.rs\<close>). Fetching the document is a parameter,
  and so is the URL that the \<open>url\<close> crate builds from a loopback base. Shown: what is fetched depends
  on the handle alone, the domain is a public name and the URL cannot be steered elsewhere by the
  characters of the handle; a result is a valid public key.
\<close>

definition MAX_DOCUMENT_BYTES :: nat where "MAX_DOCUMENT_BYTES = 64 * 1024"

record resolved_nip05 =
  resolved_name :: string
  resolved_domain :: string
  resolved_public_key :: bytes

text \<open>The errors of the document fetcher are the parameter \<open>'f\<close>.\<close>

datatype 'f nip05_error = Nip05_InvalidHandle | Nip05_NotFound | Nip05_Malformed | Nip05_Fetch 'f

text \<open>\<open>split_once('@')\<close>.\<close>

definition split_once :: "char \<Rightarrow> string \<Rightarrow> (string \<times> string) option" where
  "split_once x s =
     (if x \<in> set s then Some (takeWhile (\<lambda>y. y \<noteq> x) s, tl (dropWhile (\<lambda>y. y \<noteq> x) s)) else None)"

definition name_byte :: "char \<Rightarrow> bool" where
  "name_byte b = (is_ascii_alphanumeric b \<or> b \<in> {CHR ''_'', CHR ''-'', CHR ''.''})"

definition domain_byte :: "char \<Rightarrow> bool" where
  "domain_byte b = (is_ascii_alphanumeric b \<or> b \<in> {CHR ''-'', CHR ''.''})"

definition parse_handle :: "string \<Rightarrow> 'f nip05_error + string \<times> string" where
  "parse_handle handle =
     (if 320 < length handle \<or> list_ex char_is_whitespace (chars handle) then Inl Nip05_InvalidHandle
      else case split_once (CHR ''@'') handle of
        None \<Rightarrow> Inl Nip05_InvalidHandle
      | Some (name, domain) \<Rightarrow>
          if name = [] \<or> domain = [] \<or> CHR ''@'' \<in> set name \<or> CHR ''@'' \<in> set domain
             \<or> \<not> list_all name_byte name \<or> \<not> list_all domain_byte domain
          then Inl Nip05_InvalidHandle
          else Inr (to_ascii_lowercase name, to_ascii_lowercase domain))"

text \<open>
  \<open>parse::<IpAddr>()\<close> of a text of letters, digits, hyphens and dots: it has no colon, so only the
  dotted form of an IPv4 address can match, four decimal numbers below 256 without leading zeros.
\<close>

fun split_dots :: "string \<Rightarrow> string list" where
  "split_dots [] = [[]]"
| "split_dots (x # s) =
     (if x = CHR ''.'' then [] # split_dots s
      else case split_dots s of [] \<Rightarrow> [[x]] | l # ls \<Rightarrow> (x # l) # ls)"

definition octet :: "string \<Rightarrow> bool" where
  "octet s \<longleftrightarrow>
     0 < length s \<and> length s \<le> 3 \<and> list_all is_ascii_digit s \<and> (hd s = CHR ''0'' \<longrightarrow> length s = 1)
     \<and> foldl (\<lambda>n x. 10 * n + (byte_val x - 48)) 0 s < 256"

definition is_ipv4_text :: "string \<Rightarrow> bool" where
  "is_ipv4_text s \<longleftrightarrow> length (split_dots s) = 4 \<and> list_all octet (split_dots s)"

fun contains_dotdot :: "string \<Rightarrow> bool" where
  "contains_dotdot (x # y # s) = (x = CHR ''.'' \<and> y = CHR ''.'' \<or> contains_dotdot (y # s))"
| "contains_dotdot _ = False"

definition validate_public_domain :: "string \<Rightarrow> 'f nip05_error + unit" where
  "validate_public_domain domain =
     (if 253 < length domain \<or> CHR ''.'' \<notin> set domain \<or> (domain \<noteq> [] \<and> hd domain = CHR ''.'')
         \<or> (domain \<noteq> [] \<and> last domain = CHR ''.'') \<or> contains_dotdot domain \<or> is_ipv4_text domain
      then Inl Nip05_InvalidHandle else Inr ())"

text \<open>\<open>document_url u name\<close> is the text of \<open>u\<close> after \<open>set_path\<close> and \<open>append_pair\<close>.\<close>

definition loopback_url ::
  "url_crate \<Rightarrow> (url \<Rightarrow> string \<Rightarrow> string) \<Rightarrow> string \<Rightarrow> string \<Rightarrow> 'f nip05_error + string" where
  "loopback_url urls document_url base name =
     and_then (ok_or Nip05_InvalidHandle (urls base)) (\<lambda>parsed.
     let loopback = (url_scheme parsed = ''http'' \<and>
           (case url_address parsed of Some h \<Rightarrow> host_is_loopback h | None \<Rightarrow> False)) in
     if \<not> loopback \<or> url_query parsed \<noteq> None \<or> url_fragment parsed \<noteq> None then Inl Nip05_InvalidHandle
     else Inr (document_url parsed name))"

definition eq_ignore_ascii_case :: "string \<Rightarrow> string \<Rightarrow> bool" where
  "eq_ignore_ascii_case a b = (to_ascii_lowercase a = to_ascii_lowercase b)"

definition public_key_from_document :: "crates \<Rightarrow> json_crate \<Rightarrow> bytes \<Rightarrow> string \<Rightarrow> 'f nip05_error + bytes" where
  "public_key_from_document c jc body name =
     and_then (ok_or Nip05_Malformed (json_from_slice jc body)) (\<lambda>document.
     and_then (ok_or Nip05_Malformed (case value_get document ''names'' of Some (JObj kvs) \<Rightarrow> Some (value_map kvs) | _ \<Rightarrow> None))
       (\<lambda>names.
     and_then (ok_or Nip05_NotFound (case find (\<lambda>(key, _). eq_ignore_ascii_case key name) names of
         Some (_, JStr encoded) \<Rightarrow> Some encoded | _ \<Rightarrow> None)) (\<lambda>encoded.
     if length encoded \<noteq> 64 \<or> \<not> list_all is_ascii_hexdigit encoded then Inl Nip05_Malformed
     else
       and_then (ok_or Nip05_Malformed (hex_decode c encoded)) (\<lambda>public_key.
       if length public_key \<noteq> 32 \<or> \<not> schnorr_key_ok c public_key then Inl Nip05_Malformed
       else Inr public_key))))"

definition resolve_handle ::
  "crates \<Rightarrow> json_crate \<Rightarrow> url_crate \<Rightarrow> (url \<Rightarrow> string \<Rightarrow> string) \<Rightarrow> (string \<Rightarrow> 'f + bytes) \<Rightarrow> string \<Rightarrow> string option
     \<Rightarrow> 'f nip05_error + resolved_nip05" where
  "resolve_handle c jc urls document_url fetch handle loopback_base =
     and_then (parse_handle handle) (\<lambda>(name, domain).
     and_then (case loopback_base of
         Some base \<Rightarrow> loopback_url urls document_url base name
       | None \<Rightarrow>
           and_then (validate_public_domain domain) (\<lambda>_.
           Inr (''https://'' @ domain @ ''/.well-known/nostr.json?name='' @ name))) (\<lambda>target.
     and_then (map_err Nip05_Fetch (fetch target)) (\<lambda>body.
     and_then (public_key_from_document c jc body name) (\<lambda>public_key.
     Inr \<lparr>resolved_name = name, resolved_domain = domain, resolved_public_key = public_key\<rparr>))))"

section \<open>What is fetched\<close>

lemma lower_keeps:
  "list_all name_byte s \<Longrightarrow> list_all name_byte (to_ascii_lowercase s)"
  "list_all domain_byte s \<Longrightarrow> list_all domain_byte (to_ascii_lowercase s)"
proof -
  have "is_ascii_alphanumeric x \<Longrightarrow> is_ascii_alphanumeric (to_ascii_lowercase_char x)" for x
    by (auto simp: ascii_defs to_ascii_lowercase_char_def is_ascii_alphanumeric_def)
  moreover have "x \<in> {CHR ''_'', CHR ''-'', CHR ''.''} \<Longrightarrow> to_ascii_lowercase_char x = x" for x
    by (auto simp: to_ascii_lowercase_char_def ascii_defs)
  ultimately have "name_byte x \<Longrightarrow> name_byte (to_ascii_lowercase_char x)"
    "domain_byte x \<Longrightarrow> domain_byte (to_ascii_lowercase_char x)" for x
    by (auto simp: name_byte_def domain_byte_def)
  then show "list_all name_byte s \<Longrightarrow> list_all name_byte (to_ascii_lowercase s)"
    "list_all domain_byte s \<Longrightarrow> list_all domain_byte (to_ascii_lowercase s)"
    by (auto simp: list_all_iff to_ascii_lowercase_def)
qed

lemma parse_handle_Inr:
  "parse_handle handle = Inr (name, domain) \<Longrightarrow> list_all name_byte name \<and> list_all domain_byte domain"
  by (auto simp: parse_handle_def lower_keeps split: if_splits option.splits)

lemma resolve_handle_Inr:
  fixes fetch :: "string \<Rightarrow> 'f + bytes"
  assumes "resolve_handle c jc urls document_url fetch handle None = Inr r"
  shows "list_all name_byte (resolved_name r)" "list_all domain_byte (resolved_domain r)"
    "CHR ''.'' \<in> set (resolved_domain r)" "\<not> is_ipv4_text (resolved_domain r)"
    "\<not> isl (fetch (''https://'' @ resolved_domain r @ ''/.well-known/nostr.json?name='' @ resolved_name r))"
    "schnorr_key_ok c (resolved_public_key r)"
proof -
  obtain name domain body key where p: "parse_handle handle = (Inr (name, domain) :: 'f nip05_error + _)"
    and v: "validate_public_domain domain = (Inr () :: 'f nip05_error + _)"
    and f: "fetch (''https://'' @ domain @ ''/.well-known/nostr.json?name='' @ name) = Inr body"
    and k: "public_key_from_document c jc body name = (Inr key :: 'f nip05_error + _)"
    and r: "r = \<lparr>resolved_name = name, resolved_domain = domain, resolved_public_key = key\<rparr>"
    using assms by (auto simp: resolve_handle_def)
  show "list_all name_byte (resolved_name r)" "list_all domain_byte (resolved_domain r)"
    using parse_handle_Inr [OF p] r by simp_all
  show "CHR ''.'' \<in> set (resolved_domain r)" "\<not> is_ipv4_text (resolved_domain r)"
    using v r by (auto simp: validate_public_domain_def split: if_splits)
  show "\<not> isl (fetch (''https://'' @ resolved_domain r @ ''/.well-known/nostr.json?name='' @ resolved_name r))"
    using f r by simp
  show "schnorr_key_ok c (resolved_public_key r)"
    using k r by (auto simp: public_key_from_document_def split: if_splits)
qed

end
