(* ===== verification/Nostr_Frame.thy ===== *)
theory Nostr_Frame
  imports Nostr_Event
begin

text \<open>
  The messages between client and relay (\<open>omachat-nostr/src/frame.rs\<close>): a JSON array that starts
  with the message type. A client frame is written with its limits checked; a relay frame is
  read by a visitor that takes exactly the fields of its type, and then validated. Shown: the
  reader accepts a frame written by a relay exactly when it is valid, and nothing it accepts
  breaks a limit or carries an unverified event.
\<close>

section \<open>Types\<close>

datatype client_frame =
    CF_Event signed_event
  | CF_Request string "json list"
  | CF_Close string
  | CF_Auth signed_event

datatype relay_frame =
    RF_Event string signed_event
  | RF_EndOfStoredEvents string
  | RF_Ok string bool string
  | RF_Closed string string
  | RF_Notice string
  | RF_AuthChallenge string

record frame_limits =
  max_frame_bytes :: nat
  max_subscription_id_bytes :: nat
  max_message_bytes :: nat
  max_filters :: nat

definition DEFAULT_MAX_FRAME_BYTES :: nat where "DEFAULT_MAX_FRAME_BYTES = 512 * 1024"
definition DEFAULT_MAX_SUBSCRIPTION_ID_BYTES :: nat where "DEFAULT_MAX_SUBSCRIPTION_ID_BYTES = 64"
definition DEFAULT_MAX_MESSAGE_BYTES :: nat where "DEFAULT_MAX_MESSAGE_BYTES = 4 * 1024"
definition DEFAULT_MAX_FILTERS :: nat where "DEFAULT_MAX_FILTERS = 16"

definition FrameLimits_default :: frame_limits where
  "FrameLimits_default =
    \<lparr>max_frame_bytes = DEFAULT_MAX_FRAME_BYTES,
     max_subscription_id_bytes = DEFAULT_MAX_SUBSCRIPTION_ID_BYTES,
     max_message_bytes = DEFAULT_MAX_MESSAGE_BYTES, max_filters = DEFAULT_MAX_FILTERS\<rparr>"

lemmas frame_default_defs = FrameLimits_default_def DEFAULT_MAX_FRAME_BYTES_def
  DEFAULT_MAX_SUBSCRIPTION_ID_BYTES_def DEFAULT_MAX_MESSAGE_BYTES_def DEFAULT_MAX_FILTERS_def

datatype frame_error =
    Frame_Json
  | Frame_Event event_error
  | FrameTooLarge nat nat
  | InvalidSubscriptionId
  | InvalidEventId
  | MessageTooLarge nat nat
  | InvalidFilterCount nat nat
  | FilterMustBeObject

section \<open>Validation\<close>

definition validate_frame_size :: "nat \<Rightarrow> frame_limits \<Rightarrow> frame_error + unit" where
  "validate_frame_size n limits =
     (if max_frame_bytes limits < n then Inl (FrameTooLarge n (max_frame_bytes limits)) else Inr ())"

definition validate_subscription_id :: "string \<Rightarrow> frame_limits \<Rightarrow> frame_error + unit" where
  "validate_subscription_id value limits =
     (if value = [] \<or> max_subscription_id_bytes limits < length value \<or> list_ex char_is_control (chars value)
      then Inl InvalidSubscriptionId else Inr ())"

definition validate_message :: "string \<Rightarrow> frame_limits \<Rightarrow> frame_error + unit" where
  "validate_message value limits =
     (if max_message_bytes limits < length value
      then Inl (MessageTooLarge (length value) (max_message_bytes limits)) else Inr ())"

definition validate_hex_id :: "string \<Rightarrow> frame_error + unit" where
  "validate_hex_id value =
     (if length value = 64 \<and> list_all is_lower_hexdigit value then Inr () else Inl InvalidEventId)"

section \<open>Writing client frames\<close>

fun is_object :: "json \<Rightarrow> bool" where
  "is_object (JObj _) = True"
| "is_object _ = False"

definition to_frame_bytes :: "json_crate \<Rightarrow> frame_limits \<Rightarrow> json \<Rightarrow> frame_error + bytes" where
  "to_frame_bytes jc limits j =
     and_then (ok_or Frame_Json (json_to_vec jc j)) (\<lambda>bs.
     and_then (validate_frame_size (length bs) limits) (\<lambda>_. Inr bs))"

fun ClientFrame_to_json :: "json_crate \<Rightarrow> frame_limits \<Rightarrow> client_frame \<Rightarrow> frame_error + bytes" where
  "ClientFrame_to_json jc limits (CF_Event event) =
     to_frame_bytes jc limits (JArr [JStr ''EVENT'', signed_event_json event])"
| "ClientFrame_to_json jc limits (CF_Request subscription_id filters) =
     and_then (validate_subscription_id subscription_id limits) (\<lambda>_.
     if filters = [] \<or> max_filters limits < length filters
     then Inl (InvalidFilterCount (length filters) (max_filters limits))
     else if list_ex (\<lambda>f. \<not> is_object f) filters then Inl FilterMustBeObject
     else to_frame_bytes jc limits (JArr (JStr ''REQ'' # JStr subscription_id # filters)))"
| "ClientFrame_to_json jc limits (CF_Close subscription_id) =
     and_then (validate_subscription_id subscription_id limits) (\<lambda>_.
     to_frame_bytes jc limits (JArr [JStr ''CLOSE'', JStr subscription_id]))"
| "ClientFrame_to_json jc limits (CF_Auth event) =
     to_frame_bytes jc limits (JArr [JStr ''AUTH'', signed_event_json event])"

section \<open>Reading relay frames\<close>

text \<open>\<open>required\<close>: the next element of the sequence, read as its type, or an error.\<close>

definition required :: "(json \<Rightarrow> 'a option) \<Rightarrow> json list \<Rightarrow> ('a \<times> json list) option" where
  "required f js = (case js of [] \<Rightarrow> None | j # rest \<Rightarrow> map_option (\<lambda>x. (x, rest)) (f j))"

definition visit_kind :: "string \<Rightarrow> json list \<Rightarrow> (relay_frame \<times> json list) option" where
  "visit_kind k js =
     (if k = ''EVENT'' then
        Option.bind (required de_string js) (\<lambda>(sub, js).
        Option.bind (required de_signed_event js) (\<lambda>(event, js). Some (RF_Event sub event, js)))
      else if k = ''EOSE'' then
        Option.bind (required de_string js) (\<lambda>(sub, js). Some (RF_EndOfStoredEvents sub, js))
      else if k = ''OK'' then
        Option.bind (required de_string js) (\<lambda>(ident, js).
        Option.bind (required de_bool js) (\<lambda>(accepted, js).
        Option.bind (required de_string js) (\<lambda>(msg, js). Some (RF_Ok ident accepted msg, js))))
      else if k = ''CLOSED'' then
        Option.bind (required de_string js) (\<lambda>(sub, js).
        Option.bind (required de_string js) (\<lambda>(msg, js). Some (RF_Closed sub msg, js)))
      else if k = ''NOTICE'' then
        Option.bind (required de_string js) (\<lambda>(msg, js). Some (RF_Notice msg, js))
      else if k = ''AUTH'' then
        Option.bind (required de_string js) (\<lambda>(challenge, js). Some (RF_AuthChallenge challenge, js))
      else None)"

definition visit_seq :: "json \<Rightarrow> relay_frame option" where
  "visit_seq j =
     (case j of
        JArr js \<Rightarrow>
          Option.bind (required de_string js) (\<lambda>(k, js).
          Option.bind (visit_kind k js) (\<lambda>(frame, js). if js = [] then Some frame else None))
      | _ \<Rightarrow> None)"

fun RelayFrame_check ::
  "crates \<Rightarrow> json_crate \<Rightarrow> u64 \<Rightarrow> event_limits \<Rightarrow> frame_limits \<Rightarrow> relay_frame \<Rightarrow> frame_error + relay_frame" where
  "RelayFrame_check c jc now el fl (RF_Event sub event) =
     and_then (validate_subscription_id sub fl) (\<lambda>_.
     and_then (map_err Frame_Event (event_verify c jc now el event)) (\<lambda>_. Inr (RF_Event sub event)))"
| "RelayFrame_check c jc now el fl (RF_EndOfStoredEvents sub) =
     and_then (validate_subscription_id sub fl) (\<lambda>_. Inr (RF_EndOfStoredEvents sub))"
| "RelayFrame_check c jc now el fl (RF_Ok ident accepted msg) =
     and_then (validate_hex_id ident) (\<lambda>_.
     and_then (validate_message msg fl) (\<lambda>_. Inr (RF_Ok ident accepted msg)))"
| "RelayFrame_check c jc now el fl (RF_Closed sub msg) =
     and_then (validate_subscription_id sub fl) (\<lambda>_.
     and_then (validate_message msg fl) (\<lambda>_. Inr (RF_Closed sub msg)))"
| "RelayFrame_check c jc now el fl (RF_Notice msg) =
     and_then (validate_message msg fl) (\<lambda>_. Inr (RF_Notice msg))"
| "RelayFrame_check c jc now el fl (RF_AuthChallenge challenge) =
     and_then (validate_message challenge fl) (\<lambda>_. Inr (RF_AuthChallenge challenge))"

definition RelayFrame_from_json ::
  "crates \<Rightarrow> json_crate \<Rightarrow> bytes \<Rightarrow> u64 \<Rightarrow> event_limits \<Rightarrow> frame_limits \<Rightarrow> frame_error + relay_frame" where
  "RelayFrame_from_json c jc bs now el fl =
     and_then (validate_frame_size (length bs) fl) (\<lambda>_.
     and_then (ok_or Frame_Json (Option.bind (json_from_slice jc bs) visit_seq)) (\<lambda>frame.
       RelayFrame_check c jc now el fl frame))"

section \<open>Reading what a relay writes\<close>

text \<open>The NIP-01 form of a relay frame, and when it is valid.\<close>

fun relay_frame_json :: "relay_frame \<Rightarrow> json" where
  "relay_frame_json (RF_Event sub event) = JArr [JStr ''EVENT'', JStr sub, signed_event_json event]"
| "relay_frame_json (RF_EndOfStoredEvents sub) = JArr [JStr ''EOSE'', JStr sub]"
| "relay_frame_json (RF_Ok ident accepted msg) = JArr [JStr ''OK'', JStr ident, JBool accepted, JStr msg]"
| "relay_frame_json (RF_Closed sub msg) = JArr [JStr ''CLOSED'', JStr sub, JStr msg]"
| "relay_frame_json (RF_Notice msg) = JArr [JStr ''NOTICE'', JStr msg]"
| "relay_frame_json (RF_AuthChallenge challenge) = JArr [JStr ''AUTH'', JStr challenge]"

fun frame_subscription :: "relay_frame \<Rightarrow> string option" where
  "frame_subscription (RF_Event sub _) = Some sub"
| "frame_subscription (RF_EndOfStoredEvents sub) = Some sub"
| "frame_subscription (RF_Closed sub _) = Some sub"
| "frame_subscription _ = None"

fun frame_message :: "relay_frame \<Rightarrow> string" where
  "frame_message (RF_Ok _ _ msg) = msg"
| "frame_message (RF_Closed _ msg) = msg"
| "frame_message (RF_Notice msg) = msg"
| "frame_message (RF_AuthChallenge challenge) = challenge"
| "frame_message _ = []"

fun frame_ids_ok :: "crates \<Rightarrow> json_crate \<Rightarrow> u64 \<Rightarrow> event_limits \<Rightarrow> relay_frame \<Rightarrow> bool" where
  "frame_ids_ok c jc now el (RF_Event _ event) = (event_verify c jc now el event = Inr ())"
| "frame_ids_ok c jc now el (RF_Ok ident _ _) = (length ident = 64 \<and> list_all is_lower_hexdigit ident)"
| "frame_ids_ok c jc now el _ = True"

definition frame_ok :: "crates \<Rightarrow> json_crate \<Rightarrow> u64 \<Rightarrow> event_limits \<Rightarrow> frame_limits \<Rightarrow> relay_frame \<Rightarrow> bool" where
  "frame_ok c jc now el fl f \<longleftrightarrow>
     (case frame_subscription f of
        None \<Rightarrow> True
      | Some sub \<Rightarrow> 0 < length sub \<and> length sub \<le> max_subscription_id_bytes fl \<and> \<not> list_ex char_is_control (chars sub))
     \<and> length (frame_message f) \<le> max_message_bytes fl \<and> frame_ids_ok c jc now el f"

fun frame_utf8 :: "relay_frame \<Rightarrow> bool" where
  "frame_utf8 (RF_Event sub event) = (is_utf8 sub \<and> signed_utf8 event)"
| "frame_utf8 (RF_EndOfStoredEvents sub) = is_utf8 sub"
| "frame_utf8 (RF_Ok ident _ msg) = (is_utf8 ident \<and> is_utf8 msg)"
| "frame_utf8 (RF_Closed sub msg) = (is_utf8 sub \<and> is_utf8 msg)"
| "frame_utf8 (RF_Notice msg) = is_utf8 msg"
| "frame_utf8 (RF_AuthChallenge msg) = is_utf8 msg"

lemma RelayFrame_check_ok:
  "RelayFrame_check c jc now el fl f = Inr g \<longleftrightarrow> g = f \<and> frame_ok c jc now el fl f"
  by (cases f)
    (auto simp: frame_ok_def validate_subscription_id_def validate_message_def validate_hex_id_def not_less
      split: if_splits)

lemma visit_relay_frame: "visit_seq (relay_frame_json f) = Some f"
  by (cases f) (simp_all add: visit_seq_def visit_kind_def required_def)

lemma signed_event_json_nested: "signed_utf8 e \<Longrightarrow> json_exact 126 (signed_event_json e)"
  by (simp add: signed_event_json_def json_exact_object tags_json_exact signed_utf8_def unsigned_utf8_def
      event_unsigned_def is_utf8_field_names)

lemma relay_frame_json_exact: "frame_utf8 f \<Longrightarrow> json_exact 127 (relay_frame_json f)"
  by (cases f) (simp_all add: json_exact_array is_utf8_ascii signed_event_json_nested)

text \<open>
  C27. Relay frames are read exactly. Whatever bytes arrive, a frame the reader returns is within
  the size limits, has a well-formed subscription or event identifier, and any event in it is
  verified; and a frame that a relay writes in the NIP-01 form within the size limit is returned
  unchanged when it is valid and refused when it is not.
\<close>

theorem relay_frames_exact:
  assumes "json_laws jc"
  shows "(RelayFrame_from_json c jc bs now el fl = Inr f \<longrightarrow>
      length bs \<le> max_frame_bytes fl \<and> frame_ok c jc now el fl f)
    \<and> (frame_utf8 g \<longrightarrow> json_to_vec jc (relay_frame_json g) = Some xs \<longrightarrow> length xs \<le> max_frame_bytes fl \<longrightarrow>
      (if frame_ok c jc now el fl g then RelayFrame_from_json c jc xs now el fl = Inr g
       else isl (RelayFrame_from_json c jc xs now el fl)))"
proof (intro conjI impI)
  assume r: "RelayFrame_from_json c jc bs now el fl = Inr f"
  then show "length bs \<le> max_frame_bytes fl"
    by (auto simp: RelayFrame_from_json_def validate_frame_size_def split: if_splits)
  from r show "frame_ok c jc now el fl f"
    by (auto simp: RelayFrame_from_json_def RelayFrame_check_ok)
next
  assume g: "frame_utf8 g" "json_to_vec jc (relay_frame_json g) = Some xs" "length xs \<le> max_frame_bytes fl"
  from json_laws_read(1) [OF assms relay_frame_json_exact [OF g(1)] g(2)]
  have "RelayFrame_from_json c jc xs now el fl = RelayFrame_check c jc now el fl g"
    using g(3) by (simp add: RelayFrame_from_json_def validate_frame_size_def visit_relay_frame)
  then show "if frame_ok c jc now el fl g then RelayFrame_from_json c jc xs now el fl = Inr g
     else isl (RelayFrame_from_json c jc xs now el fl)"
    using RelayFrame_check_ok [of c jc now el fl g] by (cases "RelayFrame_check c jc now el fl g") auto
qed

lemma notice_bytes:
  obtains xs where "json_to_vec reference_json (relay_frame_json (RF_Notice ''slow down'')) = Some xs" "length xs = 76"
proof -
  have "json_exact 127 (relay_frame_json (RF_Notice ''slow down''))"
    by (rule relay_frame_json_exact) (simp add: is_utf8_ascii)
  then show ?thesis using that
    by (simp add: reference_json_def put_json_container length_put length_hex_string)
qed

theorem relay_frames_exact_witness:
  "\<exists>xs. RelayFrame_from_json reference_crates reference_json xs 5 EventLimits_default FrameLimits_default
     = Inr (RF_Notice ''slow down'')"
proof -
  obtain xs where xs: "json_to_vec reference_json (relay_frame_json (RF_Notice ''slow down'')) = Some xs" "length xs = 76"
    by (rule notice_bytes)
  have "frame_ok reference_crates reference_json 5 EventLimits_default FrameLimits_default (RF_Notice ''slow down'')"
    by (simp add: frame_ok_def frame_default_defs)
  moreover have "frame_utf8 (RF_Notice ''slow down'')" by (simp add: is_utf8_ascii)
  moreover have "length xs \<le> max_frame_bytes FrameLimits_default" using xs(2) by (simp add: frame_default_defs)
  ultimately show ?thesis
    using relay_frames_exact [OF reference_json_laws, of reference_crates "[]" 5 EventLimits_default FrameLimits_default
        "RF_Notice []" "RF_Notice ''slow down''" xs] xs(1) by auto
qed

end
