(* ===== verification/Relay_Actor.thy ===== *)
theory Relay_Actor
  imports Nostr_Frame Gift_Wrap "HOL-Library.AList"
begin

text \<open>
  The connection to one relay (\<open>omachat-nostr/src/relay.rs\<close>) and the NIP-42 signer
  (\<open>omachat-nostr/src/auth.rs\<close>). The actor is a loop of connecting, serving a session and waiting
  to reconnect; here it is a function of its inputs: the commands it receives, the messages and
  events of the socket and the clock, and the outcome of connecting. Whatever it does is kept in
  a log. Shown: with a signer that has to authenticate, no frame but the authentication itself is
  sent before the relay accepted the event signed for its challenge in this connection, and never
  after a new challenge before that is accepted; and reconnection delays stay within their bounds.
\<close>

section \<open>Signer\<close>

definition NIP42_AUTH_KIND :: u32 where "NIP42_AUTH_KIND = 22242"

record relay_auth_signer =
  auth_secret_key :: bytes
  auth_public_key :: bytes

datatype relay_auth_error = EmptyChallenge | Auth_Randomness | Auth_Event event_error

definition RelayAuthSigner_from_secret_key :: "crates \<Rightarrow> bytes \<Rightarrow> relay_auth_error + relay_auth_signer" where
  "RelayAuthSigner_from_secret_key c sk =
     and_then (map_err Auth_Event (xonly_public_key c sk)) (\<lambda>pk.
     Inr \<lparr>auth_secret_key = sk, auth_public_key = pk\<rparr>)"

text \<open>\<open>aux\<close> is what \<open>getrandom::fill\<close> delivers.\<close>

definition sign_challenge ::
  "crates \<Rightarrow> json_crate \<Rightarrow> bytes option \<Rightarrow> relay_auth_signer \<Rightarrow> string \<Rightarrow> string \<Rightarrow> u64 \<Rightarrow> event_limits
     \<Rightarrow> relay_auth_error + signed_event" where
  "sign_challenge c jc aux signer relay_url challenge created limits =
     (if challenge = [] then Inl EmptyChallenge
      else
        and_then (ok_or Auth_Randomness aux) (\<lambda>aux.
        and_then (map_err Auth_Event
          (UnsignedEvent_new c (hex_encode c (auth_public_key signer)) created NIP42_AUTH_KIND
             [[''relay'', relay_url], [''challenge'', challenge]] [] limits)) (\<lambda>event.
        map_err Auth_Event (sign_with_aux c jc (auth_secret_key signer) aux limits event))))"

section \<open>Configuration\<close>

datatype relay_route = Direct | Socks5 string

datatype relay_authentication_policy = RequireWhenConfigured | AuthenticateWhenChallenged

record relay_config =
  rc_url :: string
  rc_route :: relay_route
  rc_auth :: "relay_auth_signer option"
  rc_policy :: relay_authentication_policy
  rc_command_capacity :: nat
  rc_notification_capacity :: nat
  rc_connect_timeout :: duration
  rc_ping_interval :: duration
  rc_idle_timeout :: duration
  rc_response_timeout :: duration
  rc_shutdown_timeout :: duration
  rc_reconnect_initial_delay :: duration
  rc_reconnect_max_delay :: duration
  rc_event_limits :: event_limits
  rc_frame_limits :: frame_limits

text \<open>
  \<open>Frame\<close> and \<open>Authentication\<close> carry the text of an error in the source; here they carry the error.
\<close>

datatype relay_error =
    RE_InvalidConfig string
  | RE_Url
  | RE_Io
  | RE_WebSocket
  | RE_Socks
  | RE_Frame frame_error
  | RE_Utf8
  | Backpressure
  | ConnectTimeout
  | ResponseTimeout
  | ShutdownTimeout
  | RE_Disconnected
  | RE_Stopped
  | RE_Task
  | DuplicatePublish
  | PublishRejected string
  | NotAuthenticated
  | AuthenticationFailed relay_auth_error

definition RelayConfig_new :: "string \<Rightarrow> relay_route \<Rightarrow> relay_config" where
  "RelayConfig_new u route =
    \<lparr>rc_url = u, rc_route = route, rc_auth = None, rc_policy = RequireWhenConfigured,
     rc_command_capacity = 64, rc_notification_capacity = 256, rc_connect_timeout = from_secs 20,
     rc_ping_interval = from_secs 30, rc_idle_timeout = from_secs 90, rc_response_timeout = from_secs 20,
     rc_shutdown_timeout = from_secs 1, rc_reconnect_initial_delay = from_secs 1,
     rc_reconnect_max_delay = from_secs 60, rc_event_limits = EventLimits_default,
     rc_frame_limits = FrameLimits_default\<rparr>"

definition RelayConfig_validate :: "url_crate \<Rightarrow> relay_config \<Rightarrow> relay_error + unit" where
  "RelayConfig_validate urls cfg =
     (if rc_command_capacity cfg = 0 \<or> rc_notification_capacity cfg = 0
      then Inl (RE_InvalidConfig ''queue capacities must be non-zero'')
      else if rc_connect_timeout cfg = 0 \<or> rc_ping_interval cfg = 0 \<or> rc_idle_timeout cfg \<le> rc_ping_interval cfg
         \<or> rc_response_timeout cfg = 0 \<or> rc_shutdown_timeout cfg = 0 \<or> rc_reconnect_initial_delay cfg = 0
         \<or> rc_reconnect_max_delay cfg < rc_reconnect_initial_delay cfg
      then Inl (RE_InvalidConfig ''invalid relay timer ordering'')
      else
        and_then (ok_or RE_Url (urls (rc_url cfg))) (\<lambda>parsed.
        if url_scheme parsed \<notin> {''ws'', ''wss''} \<or> url_host parsed = None \<or> url_port parsed = None
        then Inl (RE_InvalidConfig ''relay URL must be ws:// or wss://'') else Inr ()))"

section \<open>Reconnection\<close>

text \<open>\<open>hash\<close> is the default hasher applied to the URL and the number of failures; its algorithm is unspecified.\<close>

definition reconnect_delay :: "(string \<Rightarrow> u32 \<Rightarrow> u64) \<Rightarrow> relay_config \<Rightarrow> u32 \<Rightarrow> duration" where
  "reconnect_delay hash cfg failures =
     (let exponent = min (unat failures - 1) 20;
          saturate = (\<lambda>n. min n (2 ^ 128 - 1));
          max_millis = as_millis (rc_reconnect_max_delay cfg);
          capped_millis = min (saturate (as_millis (rc_reconnect_initial_delay cfg) * 2 ^ exponent)) max_millis;
          jitter_per_mille = 750 + unat (hash (rc_url cfg) failures) mod 501;
          jittered = min (max (saturate (capped_millis * jitter_per_mille) div 1000) 1) max_millis in
      (if jittered < 2 ^ 64 then jittered else 2 ^ 64 - 1) * 10 ^ 6)"

section \<open>The actor's state\<close>

datatype relay_health = Health_Connecting | Health_Connected | Health_Disconnected | Health_Stopped

datatype relay_notification =
    N_Connected
  | N_Disconnected
  | N_Event string signed_event
  | N_EndOfStoredEvents string
  | N_Closed string string
  | N_Notice string
  | N_AuthChallenge string
  | N_Authenticated string
  | N_AuthenticationRejected string string

record publish_acknowledgement =
  ack_event_id :: string
  ack_message :: string

text \<open>A command carries the ticket of the caller that waits for its answer.\<close>

datatype relay_command =
    Cmd_Publish signed_event nat
  | Cmd_Subscribe string "json list" nat
  | Cmd_Close string nat
  | Cmd_Shutdown

datatype relay_log =
    L_Health relay_health
  | L_Notify relay_notification
  | L_Sent client_frame
  | L_Received relay_frame
  | L_Acknowledged nat "relay_error + publish_acknowledgement"
  | L_Answered nat "relay_error + unit"
  | L_Ping
  | L_SocketClosed

record pending_authentication =
  pa_event_id :: string
  pa_public_key :: string

datatype actor_mode = Mode_Connect | Mode_Session | Mode_Wait | Mode_Stopped "relay_error option"

record relay_actor =
  act_mode :: actor_mode
  subscriptions :: "(string \<times> json list) list"
  awaiting :: "(string \<times> nat) list"
  pending_auth :: "pending_authentication option"
  consecutive_failures :: u32
  session_authenticated :: bool
  session_progress :: bool
  actor_log :: "relay_log list"

text \<open>
  What the environment decides: whether the socket takes a message, what the notification queue
  answers, and which callers have stopped waiting. Each is asked with the length of the log, so
  that every call may be answered differently.
\<close>

record relay_world =
  socket_takes :: "nat \<Rightarrow> bool"
  queue_answer :: "nat \<Rightarrow> relay_error option"
  abandoned :: "nat \<Rightarrow> nat \<Rightarrow> bool"

definition logged :: "relay_log \<Rightarrow> relay_actor \<Rightarrow> relay_actor" where
  "logged x a = a\<lparr>actor_log := actor_log a @ [x]\<rparr>"

definition notify :: "relay_world \<Rightarrow> relay_notification \<Rightarrow> relay_actor \<Rightarrow> (relay_error + unit) \<times> relay_actor" where
  "notify e n a =
     (case queue_answer e (length (actor_log a)) of
        None \<Rightarrow> (Inr (), logged (L_Notify n) a)
      | Some err \<Rightarrow> (Inl err, a))"

definition send_frame ::
  "json_crate \<Rightarrow> relay_world \<Rightarrow> frame_limits \<Rightarrow> client_frame \<Rightarrow> relay_actor \<Rightarrow> (relay_error + unit) \<times> relay_actor" where
  "send_frame jc e limits frame a =
     then_st (map_err RE_Frame (ClientFrame_to_json jc limits frame), a) (\<lambda>bs a.
     if \<not> is_utf8 (text_of bs) then (Inl RE_Utf8, a)
     else if socket_takes e (length (actor_log a)) then (Inr (), logged (L_Sent frame) a)
     else (Inl RE_WebSocket, a))"

fun send_requests ::
  "json_crate \<Rightarrow> relay_world \<Rightarrow> frame_limits \<Rightarrow> (string \<times> json list) list \<Rightarrow> relay_actor
     \<Rightarrow> (relay_error + unit) \<times> relay_actor" where
  "send_requests jc e limits [] a = (Inr (), a)"
| "send_requests jc e limits ((x, filters) # subs) a =
     then_st (send_frame jc e limits (CF_Request x filters) a) (\<lambda>_ a. send_requests jc e limits subs a)"

definition replay_subscriptions ::
  "json_crate \<Rightarrow> relay_world \<Rightarrow> relay_config \<Rightarrow> relay_actor \<Rightarrow> (relay_error + unit) \<times> relay_actor" where
  "replay_subscriptions jc e cfg a = send_requests jc e (rc_frame_limits cfg) (subscriptions a) a"

definition fail_pending :: "relay_error \<Rightarrow> relay_actor \<Rightarrow> relay_actor" where
  "fail_pending err a =
     a\<lparr>actor_log := actor_log a @ map (\<lambda>(_, t). L_Acknowledged t (Inl err)) (awaiting a), awaiting := []\<rparr>"

fun reject_command :: "relay_command \<Rightarrow> relay_error \<Rightarrow> relay_actor \<Rightarrow> relay_actor" where
  "reject_command (Cmd_Publish _ t) err a = logged (L_Acknowledged t (Inl err)) a"
| "reject_command (Cmd_Subscribe _ _ t) err a = logged (L_Answered t (Inl err)) a"
| "reject_command (Cmd_Close _ t) err a = logged (L_Answered t (Inl err)) a"
| "reject_command Cmd_Shutdown err a = a"

section \<open>Relay frames\<close>

definition acknowledge :: "string \<Rightarrow> bool \<Rightarrow> string \<Rightarrow> relay_actor \<Rightarrow> relay_actor" where
  "acknowledge ident accepted msg a =
     (case map_of (awaiting a) ident of
        None \<Rightarrow> a
      | Some t \<Rightarrow>
          logged (L_Acknowledged t
            (if accepted then Inr \<lparr>ack_event_id = ident, ack_message = msg\<rparr> else Inl (PublishRejected msg)))
            (a\<lparr>awaiting := AList.delete ident (awaiting a)\<rparr>))"

definition finish_authentication ::
  "json_crate \<Rightarrow> relay_world \<Rightarrow> relay_config \<Rightarrow> pending_authentication \<Rightarrow> bool \<Rightarrow> string \<Rightarrow> relay_actor
     \<Rightarrow> (relay_error + unit) \<times> relay_actor" where
  "finish_authentication jc e cfg auth accepted msg a =
     (if accepted then
        then_st (replay_subscriptions jc e cfg (a\<lparr>pending_auth := None, session_authenticated := True\<rparr>)) (\<lambda>_.
          notify e (N_Authenticated (pa_public_key auth)))
      else
        notify e (N_AuthenticationRejected (pa_public_key auth) msg)
          (a\<lparr>pending_auth := None, session_authenticated := False\<rparr>))"

definition answer_challenge ::
  "crates \<Rightarrow> json_crate \<Rightarrow> relay_world \<Rightarrow> relay_config \<Rightarrow> u64 \<Rightarrow> bytes option \<Rightarrow> string \<Rightarrow> relay_actor
     \<Rightarrow> (relay_error + unit) \<times> relay_actor" where
  "answer_challenge c jc e cfg now aux challenge a =
     then_st (notify e (N_AuthChallenge challenge) a) (\<lambda>_ a.
     case rc_auth cfg of
       None \<Rightarrow> (Inr (), a)
     | Some signer \<Rightarrow>
         let a = a\<lparr>session_authenticated := False\<rparr> in
         then_st (map_err AuthenticationFailed
           (sign_challenge c jc aux signer (rc_url cfg) challenge now (rc_event_limits cfg)), a) (\<lambda>event a.
         then_st (send_frame jc e (rc_frame_limits cfg) (CF_Auth event) a) (\<lambda>_ a.
         (Inr (), a\<lparr>pending_auth := Some \<lparr>pa_event_id = s_id event, pa_public_key = s_pubkey event\<rparr>\<rparr>))))"

fun on_frame ::
  "crates \<Rightarrow> json_crate \<Rightarrow> relay_world \<Rightarrow> relay_config \<Rightarrow> u64 \<Rightarrow> bytes option \<Rightarrow> relay_frame \<Rightarrow> relay_actor
     \<Rightarrow> (relay_error + unit) \<times> relay_actor" where
  "on_frame c jc e cfg now aux (RF_Event sub event) a = notify e (N_Event sub event) a"
| "on_frame c jc e cfg now aux (RF_EndOfStoredEvents sub) a = notify e (N_EndOfStoredEvents sub) a"
| "on_frame c jc e cfg now aux (RF_Ok ident accepted msg) a =
     (case pending_auth a of
        Some auth \<Rightarrow>
          if pa_event_id auth = ident then finish_authentication jc e cfg auth accepted msg a
          else (Inr (), acknowledge ident accepted msg a)
      | None \<Rightarrow> (Inr (), acknowledge ident accepted msg a))"
| "on_frame c jc e cfg now aux (RF_Closed sub msg) a = notify e (N_Closed sub msg) a"
| "on_frame c jc e cfg now aux (RF_Notice msg) a = notify e (N_Notice msg) a"
| "on_frame c jc e cfg now aux (RF_AuthChallenge challenge) a = answer_challenge c jc e cfg now aux challenge a"

text \<open>The clock is read when the frame is checked and again when a challenge is signed.\<close>

definition handle_relay_frame ::
  "crates \<Rightarrow> json_crate \<Rightarrow> relay_world \<Rightarrow> relay_config \<Rightarrow> bytes \<Rightarrow> u64 \<Rightarrow> u64 \<Rightarrow> bytes option \<Rightarrow> relay_actor
     \<Rightarrow> (relay_error + unit) \<times> relay_actor" where
  "handle_relay_frame c jc e cfg bs now sign_now aux a =
     then_st (map_err RE_Frame (RelayFrame_from_json c jc bs now (rc_event_limits cfg) (rc_frame_limits cfg)), a)
       (\<lambda>frame a. on_frame c jc e cfg sign_now aux frame (logged (L_Received frame) a))"

section \<open>Commands of a session\<close>

datatype session_exit = Stay | Leave bool

definition session_publish ::
  "json_crate \<Rightarrow> relay_world \<Rightarrow> relay_config \<Rightarrow> signed_event \<Rightarrow> nat \<Rightarrow> relay_actor \<Rightarrow> session_exit \<times> relay_actor" where
  "session_publish jc e cfg event t a =
     (if \<not> session_authenticated a then (Stay, logged (L_Acknowledged t (Inl NotAuthenticated)) a)
      else if (case map_of (awaiting a) (s_id event) of
                 Some u \<Rightarrow> \<not> abandoned e (length (actor_log a)) u | None \<Rightarrow> False)
      then (Stay, logged (L_Acknowledged t (Inl DuplicatePublish)) a)
      else
        let a = a\<lparr>awaiting := AList.delete (s_id event) (awaiting a)\<rparr> in
        case send_frame jc e (rc_frame_limits cfg) (CF_Event event) a of
          (Inr _, a) \<Rightarrow> (Stay, a\<lparr>awaiting := AList.update (s_id event) t (awaiting a)\<rparr>)
        | (Inl err, a) \<Rightarrow> (Leave True, logged (L_Acknowledged t (Inl err)) a))"

definition session_subscribe ::
  "json_crate \<Rightarrow> relay_world \<Rightarrow> relay_config \<Rightarrow> string \<Rightarrow> json list \<Rightarrow> nat \<Rightarrow> relay_actor
     \<Rightarrow> session_exit \<times> relay_actor" where
  "session_subscribe jc e cfg sub filters t a =
     (let insert = (\<lambda>a. a\<lparr>subscriptions := AList.update sub filters (subscriptions a)\<rparr>) in
      if \<not> session_authenticated a then (Stay, logged (L_Answered t (Inr ())) (insert a))
      else
        case send_frame jc e (rc_frame_limits cfg) (CF_Request sub filters) a of
          (Inr _, a) \<Rightarrow> (Stay, logged (L_Answered t (Inr ())) (insert a))
        | (Inl err, a) \<Rightarrow> (Leave True, logged (L_Answered t (Inl err)) a))"

definition session_close ::
  "json_crate \<Rightarrow> relay_world \<Rightarrow> relay_config \<Rightarrow> string \<Rightarrow> nat \<Rightarrow> relay_actor \<Rightarrow> session_exit \<times> relay_actor" where
  "session_close jc e cfg sub t a =
     (let a = a\<lparr>subscriptions := AList.delete sub (subscriptions a)\<rparr> in
      if \<not> session_authenticated a then (Stay, logged (L_Answered t (Inr ())) a)
      else
        case send_frame jc e (rc_frame_limits cfg) (CF_Close sub) a of
          (Inr _, a) \<Rightarrow> (Stay, logged (L_Answered t (Inr ())) a)
        | (Inl err, a) \<Rightarrow> (Leave True, logged (L_Answered t (Inl err)) a))"

section \<open>The actor\<close>

text \<open>
  An input is one thing the actor waits for: the outcome of connecting, the end of the delay, a
  command (\<open>None\<close> when every sender is gone), and in a session a text message with the clock and
  the randomness a reply may use, a ping or pong, the end or an unusable message of the socket,
  the tick of the ping interval and the expiry of the idle timer.
\<close>

datatype relay_input =
    In_Connected
  | In_ConnectFailed
  | In_Delay
  | In_Command "relay_command option"
  | In_Text bytes u64 u64 "bytes option"
  | In_PingPong
  | In_SocketEnd
  | In_PingTick
  | In_Idle

fun session_input ::
  "crates \<Rightarrow> json_crate \<Rightarrow> relay_world \<Rightarrow> relay_config \<Rightarrow> relay_input \<Rightarrow> relay_actor \<Rightarrow> session_exit \<times> relay_actor" where
  "session_input c jc e cfg (In_Command (Some (Cmd_Publish event t))) a = session_publish jc e cfg event t a"
| "session_input c jc e cfg (In_Command (Some (Cmd_Subscribe sub filters t))) a =
     session_subscribe jc e cfg sub filters t a"
| "session_input c jc e cfg (In_Command (Some (Cmd_Close sub t))) a = session_close jc e cfg sub t a"
| "session_input c jc e cfg (In_Command (Some Cmd_Shutdown)) a = (Leave False, logged L_SocketClosed a)"
| "session_input c jc e cfg (In_Command None) a = (Leave False, a)"
| "session_input c jc e cfg (In_Text bs now sign_now aux) a =
     (case handle_relay_frame c jc e cfg bs now sign_now aux (a\<lparr>session_progress := True\<rparr>) of
        (Inl _, a) \<Rightarrow> (Leave True, a)
      | (Inr _, a) \<Rightarrow> (Stay, a))"
| "session_input c jc e cfg In_PingPong a = (Stay, a\<lparr>session_progress := True\<rparr>)"
| "session_input c jc e cfg In_SocketEnd a = (Leave True, a)"
| "session_input c jc e cfg In_PingTick a =
     (if socket_takes e (length (actor_log a)) then (Stay, logged L_Ping a) else (Leave True, a))"
| "session_input c jc e cfg In_Idle a = (Leave True, a)"
| "session_input c jc e cfg In_Connected a = (Stay, a)"
| "session_input c jc e cfg In_ConnectFailed a = (Stay, a)"
| "session_input c jc e cfg In_Delay a = (Stay, a)"

text \<open>
  Leaving the loop: \<open>actor_break\<close> with \<open>break\<close>, \<open>actor_fail\<close> with an error; the map of waiting callers
  is dropped with the error, which a caller sees as \<open>Stopped\<close> too.
\<close>

definition actor_stop :: "relay_error option \<Rightarrow> relay_actor \<Rightarrow> relay_actor" where
  "actor_stop err a = (logged (L_Health Health_Stopped) (fail_pending RE_Stopped a))\<lparr>act_mode := Mode_Stopped err\<rparr>"

definition actor_connect :: "relay_actor \<Rightarrow> relay_actor" where
  "actor_connect a = (logged (L_Health Health_Connecting) a)\<lparr>act_mode := Mode_Connect\<rparr>"

definition saturating_succ :: "u32 \<Rightarrow> u32" where
  "saturating_succ n = (if n = - 1 then n else n + 1)"

definition actor_start :: relay_actor where
  "actor_start = actor_connect
    \<lparr>act_mode = Mode_Connect, subscriptions = [], awaiting = [], pending_auth = None, consecutive_failures = 0,
     session_authenticated = False, session_progress = False, actor_log = []\<rparr>"

definition authenticated_at_start :: "relay_config \<Rightarrow> bool" where
  "authenticated_at_start cfg = (rc_auth cfg = None \<or> rc_policy cfg = AuthenticateWhenChallenged)"

definition session_start :: "json_crate \<Rightarrow> relay_world \<Rightarrow> relay_config \<Rightarrow> relay_actor \<Rightarrow> relay_actor" where
  "session_start jc e cfg a =
     (case notify e N_Connected (logged (L_Health Health_Connected) a) of
        (Inl err, a) \<Rightarrow> actor_stop (Some err) a
      | (Inr _, a) \<Rightarrow>
          let a = a\<lparr>session_authenticated := authenticated_at_start cfg, session_progress := False\<rparr> in
          if session_authenticated a then
            case replay_subscriptions jc e cfg a of
              (Inl err, a) \<Rightarrow> actor_stop (Some err) a
            | (Inr _, a) \<Rightarrow> a\<lparr>act_mode := Mode_Session\<rparr>
          else a\<lparr>act_mode := Mode_Session\<rparr>)"

definition session_end :: "relay_world \<Rightarrow> relay_actor \<Rightarrow> relay_actor" where
  "session_end e a =
     (let a = (fail_pending RE_Disconnected a)\<lparr>pending_auth := None\<rparr> in
      case notify e N_Disconnected (logged (L_Health Health_Disconnected) a) of
        (Inl err, a) \<Rightarrow> actor_stop (Some err) a
      | (Inr _, a) \<Rightarrow>
          a\<lparr>consecutive_failures := (if session_progress a then 0 else saturating_succ (consecutive_failures a)), act_mode := Mode_Wait\<rparr>)"

fun wait_to_reconnect :: "relay_input \<Rightarrow> relay_actor \<Rightarrow> relay_actor" where
  "wait_to_reconnect In_Delay a = actor_connect a"
| "wait_to_reconnect (In_Command (Some cmd)) a =
     (if cmd = Cmd_Shutdown then actor_stop None a else actor_connect (reject_command cmd RE_Disconnected a))"
| "wait_to_reconnect (In_Command None) a = actor_stop None a"
| "wait_to_reconnect _ a = a"

fun connect_input :: "json_crate \<Rightarrow> relay_world \<Rightarrow> relay_config \<Rightarrow> relay_input \<Rightarrow> relay_actor \<Rightarrow> relay_actor" where
  "connect_input jc e cfg In_Connected a = session_start jc e cfg a"
| "connect_input jc e cfg In_ConnectFailed a =
     (logged (L_Health Health_Disconnected) a)\<lparr>consecutive_failures := saturating_succ (consecutive_failures a), act_mode := Mode_Wait\<rparr>"
| "connect_input jc e cfg _ a = a"

definition actor_step ::
  "crates \<Rightarrow> json_crate \<Rightarrow> relay_world \<Rightarrow> relay_config \<Rightarrow> relay_input \<Rightarrow> relay_actor \<Rightarrow> relay_actor" where
  "actor_step c jc e cfg input a =
     (case act_mode a of
        Mode_Connect \<Rightarrow> connect_input jc e cfg input a
      | Mode_Session \<Rightarrow>
          (case session_input c jc e cfg input a of
             (Stay, a) \<Rightarrow> a
           | (Leave disconnect, a) \<Rightarrow> if disconnect then session_end e a else actor_stop None a)
      | Mode_Wait \<Rightarrow> wait_to_reconnect input a
      | Mode_Stopped _ \<Rightarrow> a)"

definition run_actor ::
  "crates \<Rightarrow> json_crate \<Rightarrow> relay_world \<Rightarrow> relay_config \<Rightarrow> relay_input list \<Rightarrow> relay_actor" where
  "run_actor c jc e cfg inputs = fold (actor_step c jc e cfg) inputs actor_start"

section \<open>The authentication gate\<close>

text \<open>
  The gate is read from the log alone: it is shut by a connection that has to authenticate and by
  every challenge, an authentication event puts it on offer, and the relay's answer to that event
  opens or shuts it.
\<close>

datatype gate = Shut | Offered string | Admitted

fun gate_step :: "relay_config \<Rightarrow> relay_log \<Rightarrow> gate \<Rightarrow> gate" where
  "gate_step cfg (L_Health Health_Connected) g = (if authenticated_at_start cfg then Admitted else Shut)"
| "gate_step cfg (L_Received (RF_AuthChallenge _)) g = (if rc_auth cfg = None then g else Shut)"
| "gate_step cfg (L_Sent (CF_Auth event)) g = Offered (s_id event)"
| "gate_step cfg (L_Received (RF_Ok ident accepted _)) g =
     (if g = Offered ident then if accepted then Admitted else Shut else g)"
| "gate_step cfg _ g = g"

definition gate_of :: "relay_config \<Rightarrow> relay_log list \<Rightarrow> gate" where
  "gate_of cfg xs = fold (gate_step cfg) xs Shut"

fun needs_gate :: "relay_log \<Rightarrow> bool" where
  "needs_gate (L_Sent (CF_Auth _)) = False"
| "needs_gate (L_Sent _) = True"
| "needs_gate _ = False"

definition gated :: "relay_config \<Rightarrow> relay_log list \<Rightarrow> bool" where
  "gated cfg xs = (\<forall>ys x zs. xs = ys @ x # zs \<longrightarrow> needs_gate x \<longrightarrow> gate_of cfg ys = Admitted)"

lemma gate_of_snoc [simp]: "gate_of cfg (xs @ [x]) = gate_step cfg x (gate_of cfg xs)"
  by (simp add: gate_of_def)

lemma gated_Nil [simp]: "gated cfg []"
  by (simp add: gated_def)

lemma gated_snoc [simp]:
  "gated cfg (xs @ [x]) \<longleftrightarrow> gated cfg xs \<and> (needs_gate x \<longrightarrow> gate_of cfg xs = Admitted)"
proof
  assume all: "gated cfg (xs @ [x])"
  have "gate_of cfg ys = Admitted" if "xs = ys @ y # zs" "needs_gate y" for ys y zs
    using all that unfolding gated_def by (metis append.assoc append_Cons)
  moreover have "needs_gate x \<longrightarrow> gate_of cfg xs = Admitted"
    using all unfolding gated_def by blast
  ultimately show "gated cfg xs \<and> (needs_gate x \<longrightarrow> gate_of cfg xs = Admitted)"
    unfolding gated_def by blast
next
  assume left: "gated cfg xs \<and> (needs_gate x \<longrightarrow> gate_of cfg xs = Admitted)"
  show "gated cfg (xs @ [x])"
    unfolding gated_def
  proof (intro allI impI)
    fix ys y zs assume split: "xs @ [x] = ys @ y # zs" and need: "needs_gate y"
    show "gate_of cfg ys = Admitted"
    proof (cases zs rule: rev_cases)
      case Nil
      then show ?thesis using split need left by simp
    next
      case (snoc zs' z)
      then show ?thesis using split need left unfolding gated_def by (metis append_eq_appendI append_Cons append1_eq_conv)
    qed
  qed
qed

lemma gate_acknowledged [simp]:
  "gate_of cfg (xs @ map (\<lambda>(k, t). L_Acknowledged t r) ys) = gate_of cfg xs"
  "gated cfg (xs @ map (\<lambda>(k, t). L_Acknowledged t r) ys) = gated cfg xs"
proof (induction ys rule: rev_induct)
  case (snoc y ys)
  { case 1 show ?case using snoc by (cases y) (simp flip: append_assoc) }
  { case 2 show ?case using snoc by (cases y) (simp flip: append_assoc) }
qed simp_all

text \<open>What holds in a session: its flags never claim more than the gate grants.\<close>

definition flags_ok :: "relay_config \<Rightarrow> relay_actor \<Rightarrow> bool" where
  "flags_ok cfg a =
     (act_mode a = Mode_Session \<and> gated cfg (actor_log a)
      \<and> (session_authenticated a \<longrightarrow> gate_of cfg (actor_log a) = Admitted)
      \<and> (\<forall>p. pending_auth a = Some p \<longrightarrow> gate_of cfg (actor_log a) = Offered (pa_event_id p)))"

definition actor_ok :: "relay_config \<Rightarrow> relay_actor \<Rightarrow> bool" where
  "actor_ok cfg a =
     (case act_mode a of
        Mode_Session \<Rightarrow> flags_ok cfg a
      | Mode_Stopped _ \<Rightarrow> gated cfg (actor_log a)
      | _ \<Rightarrow> gated cfg (actor_log a) \<and> pending_auth a = None)"

lemmas actor_defs = logged_def notify_def fail_pending_def acknowledge_def actor_stop_def actor_connect_def

lemma logged_log: "actor_log (logged x a) = actor_log a @ [x]"
  by (simp add: logged_def)

lemma logged_gate [simp]:
  "gate_of cfg (actor_log (logged x a)) = gate_step cfg x (gate_of cfg (actor_log a))"
  "gated cfg (actor_log (logged x a)) \<longleftrightarrow>
     gated cfg (actor_log a) \<and> (needs_gate x \<longrightarrow> gate_of cfg (actor_log a) = Admitted)"
  by (simp_all add: logged_log)

lemma logged_rest [simp]:
  "session_authenticated (logged x a) = session_authenticated a" "pending_auth (logged x a) = pending_auth a"
  "awaiting (logged x a) = awaiting a" "subscriptions (logged x a) = subscriptions a"
  "act_mode (logged x a) = act_mode a"
  by (simp_all add: logged_def)

lemma fail_pending_gate [simp]:
  "gate_of cfg (actor_log (fail_pending err a)) = gate_of cfg (actor_log a)"
  "gated cfg (actor_log (fail_pending err a)) = gated cfg (actor_log a)"
  by (simp_all add: fail_pending_def)

lemma notify_gate [simp]: "gate_of cfg (actor_log (snd (notify e n a))) = gate_of cfg (actor_log a)"
  "gated cfg (actor_log (snd (notify e n a))) = gated cfg (actor_log a)"
  "session_authenticated (snd (notify e n a)) = session_authenticated a"
  "pending_auth (snd (notify e n a)) = pending_auth a"
  "act_mode (snd (notify e n a)) = act_mode a"
  by (auto simp: notify_def logged_def split: option.splits)

lemma send_frame_cases:
  assumes "send_frame jc e limits frame a = (r, b)"
  obtains (Sent) "r = Inr ()" "b = logged (L_Sent frame) a" | (Failed) err where "r = Inl err" "b = a"
  using assms by (auto simp: send_frame_def then_st_def split: sum.splits if_splits)

lemma send_requests_gate:
  assumes "send_requests jc e limits subs a = (r, b)"
    and "gate_of cfg (actor_log a) = Admitted" "gated cfg (actor_log a)"
  shows "gate_of cfg (actor_log b) = Admitted \<and> gated cfg (actor_log b)
    \<and> session_authenticated b = session_authenticated a \<and> pending_auth b = pending_auth a
    \<and> act_mode b = act_mode a"
  using assms
proof (induction subs arbitrary: a)
  case (Cons sub subs)
  obtain x filters where sub: "sub = (x, filters)" by (cases sub)
  obtain r1 a1 where sent: "send_frame jc e limits (CF_Request x filters) a = (r1, a1)" by (metis surj_pair)
  show ?case
    using sent
  proof (cases rule: send_frame_cases)
    case Sent
    then show ?thesis
      using Cons.IH [of a1] Cons.prems sent by (simp add: sub then_st_def)
  next
    case (Failed err)
    then show ?thesis using Cons.prems sent by (auto simp: sub then_st_def)
  qed
qed simp

text \<open>After a relay frame the log is gated; if the session goes on, its flags are right again.\<close>

lemma finish_authentication_ok:
  assumes "finish_authentication jc e cfg auth accepted msg a = (r, b)" "gated cfg (actor_log a)" "act_mode a = Mode_Session"
    and "accepted \<Longrightarrow> gate_of cfg (actor_log a) = Admitted"
  shows "gated cfg (actor_log b) \<and> (r = Inr () \<longrightarrow> flags_ok cfg b)"
proof (cases accepted)
  case True
  define a1 where "a1 = a\<lparr>pending_auth := None, session_authenticated := True\<rparr>"
  obtain r1 b1 where replay: "send_requests jc e (rc_frame_limits cfg) (subscriptions a1) a1 = (r1, b1)"
    by (metis surj_pair)
  have kept: "gate_of cfg (actor_log b1) = Admitted" "gated cfg (actor_log b1)" "pending_auth b1 = None"
    "act_mode b1 = Mode_Session"
    using send_requests_gate [OF replay, of cfg] assms(2-4) True by (simp_all add: a1_def)
  have fin: "then_st (r1, b1) (\<lambda>_. notify e (N_Authenticated (pa_public_key auth))) = (r, b)"
    using assms(1) replay True by (simp add: finish_authentication_def replay_subscriptions_def a1_def)
  show ?thesis
  proof (cases r1)
    case (Inl err)
    then show ?thesis using fin kept by (auto simp: then_st_def)
  next
    case (Inr u)
    then have "notify e (N_Authenticated (pa_public_key auth)) b1 = (r, b)" using fin by (simp add: then_st_def)
    then have "b = snd (notify e (N_Authenticated (pa_public_key auth)) b1)" by simp
    then show ?thesis using kept by (simp add: flags_ok_def)
  qed
next
  case False
  then have "b = snd (notify e (N_AuthenticationRejected (pa_public_key auth) msg)
      (a\<lparr>pending_auth := None, session_authenticated := False\<rparr>))"
    using assms(1) by (simp add: finish_authentication_def)
  then show ?thesis using assms(2,3) by (simp add: flags_ok_def)
qed

lemma answer_challenge_ok:
  assumes "answer_challenge c jc e cfg now aux challenge a = (r, b)" "gated cfg (actor_log a)" "act_mode a = Mode_Session"
    and "rc_auth cfg = None \<Longrightarrow> flags_ok cfg a"
  shows "gated cfg (actor_log b) \<and> (r = Inr () \<longrightarrow> flags_ok cfg b)"
proof -
  obtain r1 a1 where told: "notify e (N_AuthChallenge challenge) a = (r1, a1)" by (metis surj_pair)
  have same: "gate_of cfg (actor_log a1) = gate_of cfg (actor_log a)" "gated cfg (actor_log a1)"
    "session_authenticated a1 = session_authenticated a" "pending_auth a1 = pending_auth a"
    "act_mode a1 = Mode_Session"
    using notify_gate [where e = e and n = "N_AuthChallenge challenge" and a = a] told assms(2,3) by simp_all
  show ?thesis
  proof (cases "\<exists>u signer. r1 = Inr u \<and> rc_auth cfg = Some signer")
    case False
    then show ?thesis
      using assms same told
      by (auto simp: answer_challenge_def then_st_def flags_ok_def split: sum.splits option.splits)
  next
    case True
    then obtain signer where r1: "r1 = Inr ()" and signer: "rc_auth cfg = Some signer" by auto
    show ?thesis
    proof (cases "sign_challenge c jc aux signer (rc_url cfg) challenge now (rc_event_limits cfg)")
      case (Inl err)
      then show ?thesis
        using assms(1) same told r1 signer by (auto simp: answer_challenge_def then_st_def map_err_def)
    next
      case (Inr event)
      obtain r2 a2 where sent:
        "send_frame jc e (rc_frame_limits cfg) (CF_Auth event) (a1\<lparr>session_authenticated := False\<rparr>) = (r2, a2)"
        by (metis surj_pair)
      show ?thesis
        using sent
      proof (cases rule: send_frame_cases)
        case Sent
        then show ?thesis
          using assms(1) same told r1 signer Inr sent
          by (auto simp: answer_challenge_def then_st_def map_err_def flags_ok_def)
      next
        case (Failed err)
        then show ?thesis
          using assms(1) same told r1 signer Inr sent
          by (auto simp: answer_challenge_def then_st_def map_err_def)
      qed
    qed
  qed
qed

lemma acknowledge_flags [simp]:
  "gate_of cfg (actor_log (acknowledge ident accepted msg a)) = gate_of cfg (actor_log a)"
  "gated cfg (actor_log (acknowledge ident accepted msg a)) = gated cfg (actor_log a)"
  "session_authenticated (acknowledge ident accepted msg a) = session_authenticated a"
  "pending_auth (acknowledge ident accepted msg a) = pending_auth a"
  "act_mode (acknowledge ident accepted msg a) = act_mode a"
  by (auto simp: acknowledge_def split: option.splits)

lemma notify_flags:
  assumes "notify e n a = (r, b)" "gated cfg (actor_log a)" "flags_ok cfg a"
  shows "gated cfg (actor_log b) \<and> (r = Inr () \<longrightarrow> flags_ok cfg b)"
proof -
  have "b = snd (notify e n a)" using assms(1) by simp
  then show ?thesis using assms(2,3) by (simp add: flags_ok_def)
qed

lemma on_frame_ok:
  assumes "on_frame c jc e cfg now aux frame (logged (L_Received frame) a) = (r, b)" "flags_ok cfg a"
  shows "gated cfg (actor_log b) \<and> (r = Inr () \<longrightarrow> flags_ok cfg b)"
proof -
  let ?a = "logged (L_Received frame) a"
  have gated: "gated cfg (actor_log ?a)" and serving: "act_mode ?a = Mode_Session"
    using assms(2) by (cases frame; simp add: flags_ok_def)+
  have plain: "flags_ok cfg ?a" if "gate_step cfg (L_Received frame) (gate_of cfg (actor_log a)) = gate_of cfg (actor_log a)"
    using assms(2) that gated by (auto simp: flags_ok_def)
  show ?thesis
  proof (cases frame)
    case (RF_Ok ident accepted msg)
    show ?thesis
    proof (cases "\<exists>p. pending_auth a = Some p \<and> pa_event_id p = ident")
      case True
      then obtain p where p: "pending_auth a = Some p" "pa_event_id p = ident" by blast
      then have "gate_of cfg (actor_log a) = Offered ident" using assms(2) by (auto simp: flags_ok_def)
      then have "accepted \<Longrightarrow> gate_of cfg (actor_log ?a) = Admitted" by (simp add: RF_Ok)
      then show ?thesis
        using finish_authentication_ok [of jc e cfg p accepted msg ?a r b] assms(1) gated serving p
        by (simp add: RF_Ok)
    next
      case False
      then have b: "r = Inr ()" "b = acknowledge ident accepted msg ?a"
        using assms(1) by (auto simp: RF_Ok split: option.splits if_splits)
      have "flags_ok cfg ?a"
      proof (cases "gate_of cfg (actor_log a) = Offered ident")
        case True
        then have "\<not> session_authenticated a" "pending_auth a = None"
          using False assms(2) by (auto simp: flags_ok_def)
        then show ?thesis using gated serving by (simp add: flags_ok_def)
      next
        case False
        then show ?thesis using plain by (simp add: RF_Ok)
      qed
      then show ?thesis using b by (simp add: flags_ok_def)
    qed
  next
    case (RF_AuthChallenge challenge)
    then show ?thesis
      using answer_challenge_ok [of c jc e cfg now aux challenge ?a r b] assms(1) gated serving plain by simp
  qed (use assms(1) notify_flags [OF _ gated] plain in \<open>auto\<close>)
qed

lemma handle_relay_frame_ok:
  assumes "handle_relay_frame c jc e cfg bs now sign_now aux a = (r, b)" "flags_ok cfg a"
  shows "gated cfg (actor_log b) \<and> (r = Inr () \<longrightarrow> flags_ok cfg b)"
  using assms on_frame_ok [of c jc e cfg sign_now aux _ a r b]
  by (auto simp: handle_relay_frame_def then_st_def map_err_def flags_ok_def split: sum.splits)

lemma session_input_ok:
  assumes "session_input c jc e cfg input a = (x, b)" "flags_ok cfg a"
  shows "gated cfg (actor_log b) \<and> (x = Stay \<longrightarrow> flags_ok cfg b)"
proof (cases input)
  case (In_Command cmd)
  show ?thesis
  proof (cases cmd)
    case None
    then show ?thesis using assms by (auto simp: In_Command flags_ok_def)
  next
    case (Some y)
    then show ?thesis
      using assms
      by (cases y)
        (auto simp: In_Command session_publish_def session_subscribe_def session_close_def flags_ok_def Let_def
          split: if_splits prod.splits sum.splits option.splits elim!: send_frame_cases)
  qed
next
  case (In_Text bs now sign_now aux)
  obtain r b1 where handled: "handle_relay_frame c jc e cfg bs now sign_now aux (a\<lparr>session_progress := True\<rparr>) = (r, b1)"
    by (metis surj_pair)
  have "flags_ok cfg (a\<lparr>session_progress := True\<rparr>)" using assms(2) by (simp add: flags_ok_def)
  then show ?thesis
    using handle_relay_frame_ok [OF handled] assms(1) handled by (auto simp: In_Text split: sum.splits)
qed (use assms in \<open>auto simp: flags_ok_def split: if_splits\<close>)

text \<open>Every step keeps the log gated.\<close>

lemma stop_gated [simp]: "gated cfg (actor_log (actor_stop err a)) = gated cfg (actor_log a)"
  by (simp add: actor_stop_def fail_pending_def)

lemma stop_ok [simp]: "actor_ok cfg (actor_stop err a) = gated cfg (actor_log a)"
  by (simp add: actor_ok_def) (simp add: actor_stop_def)

lemma session_end_ok: "gated cfg (actor_log a) \<Longrightarrow> actor_ok cfg (session_end e a)"
  by (auto simp: session_end_def notify_def Let_def actor_ok_def
      actor_stop_def split: option.splits)

lemma session_start_ok:
  assumes "gated cfg (actor_log a)" "pending_auth a = None"
  shows "actor_ok cfg (session_start jc e cfg a)"
proof -
  define a1 where "a1 = logged (L_Health Health_Connected) a"
  obtain r1 a2 where told: "notify e N_Connected a1 = (r1, a2)" by (metis surj_pair)
  define a3 where "a3 = a2\<lparr>session_authenticated := authenticated_at_start cfg, session_progress := False\<rparr>"
  have a3: "gated cfg (actor_log a3)" "pending_auth a3 = None"
    "authenticated_at_start cfg \<Longrightarrow> gate_of cfg (actor_log a3) = Admitted"
    using notify_gate [where e = e and n = N_Connected and a = a1] told [unfolded a1_def] assms by (simp_all add: a3_def a1_def)
  obtain r2 a4 where replay: "replay_subscriptions jc e cfg a3 = (r2, a4)" by (metis surj_pair)
  have a4: "gated cfg (actor_log a4)" "pending_auth a4 = None" "gate_of cfg (actor_log a4) = Admitted"
    if "authenticated_at_start cfg"
    using send_requests_gate [OF replay [unfolded replay_subscriptions_def], of cfg] a3 that by simp_all
  show ?thesis
  proof (cases r1)
    case (Inl err)
    then show ?thesis using told a3(1) by (simp add: session_start_def a3_def flip: a1_def)
  next
    case (Inr u)
    show ?thesis
    proof (cases "authenticated_at_start cfg")
      case True
      have "session_start jc e cfg a = (case replay_subscriptions jc e cfg a3 of
              (Inl err, a) \<Rightarrow> actor_stop (Some err) a | (Inr _, a) \<Rightarrow> a\<lparr>act_mode := Mode_Session\<rparr>)"
        using told Inr True by (simp add: session_start_def a3_def flip: a1_def)
      then show ?thesis
        using a4 [OF True] by (simp add: replay actor_ok_def flags_ok_def split: sum.splits) (auto simp: actor_stop_def)
    next
      case False
      have "session_start jc e cfg a = a3\<lparr>act_mode := Mode_Session\<rparr>"
        using told Inr False by (simp add: session_start_def a3_def flip: a1_def)
      then show ?thesis using a3 False by (simp add: actor_ok_def flags_ok_def) (simp add: a3_def)
    qed
  qed
qed

lemma wait_ok:
  assumes "gated cfg (actor_log a)" "pending_auth a = None" "act_mode a = Mode_Wait"
  shows "actor_ok cfg (wait_to_reconnect input a)"
proof (cases input)
  case (In_Command cmd)
  show ?thesis
  proof (cases cmd)
    case (Some y)
    then show ?thesis
      using assms by (cases y) (auto simp: In_Command actor_ok_def actor_connect_def actor_stop_def fail_pending_def)
  qed (use assms In_Command in simp)
qed (use assms in \<open>auto simp: actor_ok_def actor_connect_def\<close>)

lemma connect_ok:
  assumes "gated cfg (actor_log a)" "pending_auth a = None" "act_mode a = Mode_Connect"
  shows "actor_ok cfg (connect_input jc e cfg input a)"
  using assms by (cases input) (auto simp: session_start_ok actor_ok_def [of _ a] actor_ok_def [of _ "act_mode_update _ _"])

lemma actor_step_ok:
  assumes "actor_ok cfg a"
  shows "actor_ok cfg (actor_step c jc e cfg input a)"
proof (cases "act_mode a")
  case Mode_Session
  obtain x b where input: "session_input c jc e cfg input a = (x, b)" by (metis surj_pair)
  have ok: "gated cfg (actor_log b)" "x = Stay \<Longrightarrow> flags_ok cfg b"
    using session_input_ok [OF input] assms Mode_Session by (simp_all add: actor_ok_def)
  show ?thesis
  proof (cases x)
    case Stay
    then show ?thesis using ok input Mode_Session by (simp add: actor_step_def actor_ok_def) (simp add: flags_ok_def)
  next
    case (Leave disconnect)
    then show ?thesis using ok input Mode_Session by (simp add: actor_step_def session_end_ok)
  qed
next
  case Mode_Connect
  then show ?thesis using assms connect_ok [of cfg a] by (simp add: actor_step_def actor_ok_def [of _ a])
next
  case Mode_Wait
  then show ?thesis using assms wait_ok [of cfg a] by (simp add: actor_step_def actor_ok_def [of _ a])
qed (use assms in \<open>simp add: actor_step_def\<close>)

interpretation relay: step_invariant "actor_ok cfg" "actor_step c jc e cfg"
  for cfg :: relay_config and c :: crates and jc :: json_crate and e :: relay_world
  by unfold_locales (rule actor_step_ok)

lemma run_gated: "actor_ok cfg (run_actor c jc e cfg inputs)"
proof -
  have "actor_ok cfg actor_start" by (simp add: actor_start_def actor_ok_def actor_connect_def)
  then show ?thesis unfolding run_actor_def by (rule relay.run_inv)
qed

lemma run_log_gated: "gated cfg (actor_log (run_actor c jc e cfg inputs))"
  using run_gated [of cfg c jc e inputs]
  by (auto simp: actor_ok_def flags_ok_def split: actor_mode.splits)

text \<open>What an open or offered gate says about the log.\<close>

definition renews :: "relay_log \<Rightarrow> bool" where
  "renews x = (x = L_Health Health_Connected \<or> (\<exists>challenge. x = L_Received (RF_AuthChallenge challenge)))"

lemma gate_step_offered:
  "gate_step cfg x g = Offered ident \<Longrightarrow>
     (\<exists>event. x = L_Sent (CF_Auth event) \<and> s_id event = ident)
     \<or> g = Offered ident \<and> (rc_auth cfg \<noteq> None \<longrightarrow> \<not> renews x)"
  by (cases "(cfg, x, g)" rule: gate_step.cases) (auto simp: renews_def split: if_splits)

lemma gate_step_admitted:
  "gate_step cfg x g = Admitted \<Longrightarrow> \<not> authenticated_at_start cfg \<Longrightarrow>
     (\<exists>ident msg. x = L_Received (RF_Ok ident True msg) \<and> g = Offered ident)
     \<or> g = Admitted \<and> \<not> renews x"
  by (cases "(cfg, x, g)" rule: gate_step.cases)
    (auto simp: renews_def authenticated_at_start_def split: if_splits)

lemma offered_in_log:
  assumes "gate_of cfg xs = Offered ident" "rc_auth cfg \<noteq> None"
  shows "\<exists>us event vs. xs = us @ L_Sent (CF_Auth event) # vs \<and> s_id event = ident \<and> list_all (\<lambda>x. \<not> renews x) vs"
  using assms
proof (induction xs rule: rev_induct)
  case Nil
  then show ?case by (simp add: gate_of_def)
next
  case (snoc x xs)
  consider event where "x = L_Sent (CF_Auth event)" "s_id event = ident"
    | "gate_of cfg xs = Offered ident" "\<not> renews x"
    using gate_step_offered [of cfg x "gate_of cfg xs" ident] snoc.prems by auto
  then show ?case
  proof cases
    case (1 event)
    then show ?thesis by (intro exI [of _ xs] exI [of _ event] exI [of _ "[]"]) simp
  next
    case 2
    then obtain us event vs where "xs = us @ L_Sent (CF_Auth event) # vs" "s_id event = ident"
      "list_all (\<lambda>x. \<not> renews x) vs"
      using snoc by blast
    then show ?thesis using 2 by (intro exI [of _ us] exI [of _ event] exI [of _ "vs @ [x]"]) simp
  qed
qed

lemma admitted_in_log:
  assumes "gate_of cfg xs = Admitted" "\<not> authenticated_at_start cfg"
  shows "\<exists>us event vs msg ws. xs = us @ L_Sent (CF_Auth event) # vs @ L_Received (RF_Ok (s_id event) True msg) # ws
    \<and> list_all (\<lambda>x. \<not> renews x) (vs @ ws)"
  using assms
proof (induction xs rule: rev_induct)
  case Nil
  then show ?case by (simp add: gate_of_def)
next
  case (snoc x xs)
  consider ident msg where "x = L_Received (RF_Ok ident True msg)" "gate_of cfg xs = Offered ident"
    | "gate_of cfg xs = Admitted" "\<not> renews x"
    using gate_step_admitted [of cfg x "gate_of cfg xs"] snoc.prems by auto
  then show ?case
  proof cases
    case (1 ident msg)
    then obtain us event vs where "xs = us @ L_Sent (CF_Auth event) # vs" "s_id event = ident"
      "list_all (\<lambda>x. \<not> renews x) vs"
      using offered_in_log snoc.prems(2) unfolding authenticated_at_start_def by blast
    then show ?thesis
      using 1 by (intro exI [of _ us] exI [of _ event] exI [of _ vs] exI [of _ msg] exI [of _ "[]"]) simp
  next
    case 2
    then obtain us event vs msg ws where
      "xs = us @ L_Sent (CF_Auth event) # vs @ L_Received (RF_Ok (s_id event) True msg) # ws"
      "list_all (\<lambda>x. \<not> renews x) (vs @ ws)"
      using snoc by blast
    then show ?thesis
      using 2 by (intro exI [of _ us] exI [of _ event] exI [of _ vs] exI [of _ msg] exI [of _ "ws @ [x]"]) simp
  qed
qed

section \<open>Properties\<close>

text \<open>
  C31. A relay connection that has to authenticate fails closed. Whatever the relay, the callers
  and the network do, if the actor sent an event, a subscription or a close, then before that, in
  the same connection and after the relay's latest challenge, it sent an authentication event and
  the relay accepted exactly that event.
\<close>

theorem relay_auth_gate:
  assumes "rc_auth cfg = Some signer" "rc_policy cfg = RequireWhenConfigured"
    and "actor_log (run_actor c jc e cfg inputs) = earlier @ L_Sent frame # later"
    and "\<nexists>event. frame = CF_Auth event"
  shows "\<exists>us event vs msg ws.
    earlier = us @ L_Sent (CF_Auth event) # vs @ L_Received (RF_Ok (s_id event) True msg) # ws
    \<and> list_all (\<lambda>x. \<not> renews x) (vs @ ws)"
proof (rule admitted_in_log)
  have "needs_gate (L_Sent frame)" using assms(4) by (cases frame) simp_all
  then show "gate_of cfg earlier = Admitted"
    using run_log_gated [of cfg c jc e inputs] assms(3) unfolding gated_def by blast
  show "\<not> authenticated_at_start cfg" using assms(1,2) by (simp add: authenticated_at_start_def)
qed

text \<open>A session that authenticates and then closes a subscription.\<close>

definition demo_world :: relay_world where
  "demo_world = \<lparr>socket_takes = (\<lambda>_. True), queue_answer = (\<lambda>_. None), abandoned = (\<lambda>_ _. False)\<rparr>"

definition demo_relay :: "nat \<Rightarrow> relay_config" where
  "demo_relay n = (RelayConfig_new ''wss://r.example'' Direct)
    \<lparr>rc_auth := Some \<lparr>auth_secret_key = demo_key, auth_public_key = demo_key\<rparr>,
     rc_frame_limits := FrameLimits_default\<lparr>max_frame_bytes := n\<rparr>\<rparr>"

lemma demo_challenge_signed:
  obtains event where "sign_challenge reference_crates reference_json (Some [])
      \<lparr>auth_secret_key = demo_key, auth_public_key = demo_key\<rparr> ''wss://r.example'' ''c'' 5 EventLimits_default = Inr event"
    "signed_utf8 event" "length (s_id event) = 64" "list_all is_lower_hexdigit (s_id event)"
proof -
  let ?e = "\<lparr>u_pubkey = hex_string demo_key, u_created_at = 5, u_kind = NIP42_AUTH_KIND,
    u_tags = [[''relay'', ''wss://r.example''], [''challenge'', ''c'']], u_content = []\<rparr>"
  have utf8: "unsigned_utf8 ?e" by (simp add: unsigned_utf8_def is_utf8_hex is_utf8_ascii)
  have "decode_hex_32 reference_crates (hex_string demo_key) = Inr demo_key"
    by (simp add: decode_hex_defs decode_hex_Inr demo_key_def reference_crates_def hex_parse_string
        length_hex_string hex_string_lower)
  then have valid: "event_validate reference_crates EventLimits_default ?e = Inr ()"
    by (simp add: event_validate_def event_default_defs)
  obtain s bs where s: "sign_with_aux reference_crates reference_json demo_key [] EventLimits_default ?e = Inr s"
    "event_unsigned s = ?e" "length (s_id s) = 64"
    using reference_signs [OF utf8 _ _ valid, of demo_key "[]"] by (auto simp: demo_key_def)
  have "list_all is_lower_hexdigit (s_id s)" "is_utf8 (s_id s)" "is_utf8 (s_sig s)"
    using s(1) by (auto simp: sign_with_aux_def reference_crates_def hex_string_lower is_utf8_hex split: if_splits)
  moreover have "hex_encode reference_crates demo_key = hex_string demo_key" by (simp add: reference_crates_def)
  ultimately show ?thesis
    using that [of s] s utf8 valid by (simp add: sign_challenge_def UnsignedEvent_new_def signed_utf8_def)
qed

lemma reference_read:
  assumes "frame_utf8 f" "frame_ok reference_crates reference_json now el fl f"
  obtains bs where "\<And>n. length bs \<le> n \<Longrightarrow>
    RelayFrame_from_json reference_crates reference_json bs now el (fl\<lparr>max_frame_bytes := n\<rparr>) = Inr f"
proof -
  obtain bs where bs: "json_from_slice reference_json bs = Some (relay_frame_json f)"
    using json_laws_obtain [OF reference_json_laws relay_frame_json_exact [OF assms(1)]] by blast
  have "RelayFrame_check reference_crates reference_json now el (fl\<lparr>max_frame_bytes := n\<rparr>) f = Inr f" for n
    using assms(2) by (simp add: RelayFrame_check_ok frame_ok_def split: option.splits)
  with bs have "RelayFrame_from_json reference_crates reference_json bs now el (fl\<lparr>max_frame_bytes := n\<rparr>) = Inr f"
    if "length bs \<le> n" for n
    using that by (simp add: RelayFrame_from_json_def validate_frame_size_def visit_relay_frame del: and_then_Inr)
  then show ?thesis by (rule that)
qed

lemma reference_write:
  assumes "json_exact 127 j"
  obtains m bs where "is_utf8 (text_of bs)"
    "\<And>n. m \<le> n \<Longrightarrow> to_frame_bytes reference_json (fl\<lparr>max_frame_bytes := n\<rparr>) j = Inr bs"
proof -
  obtain bs where "json_to_vec reference_json j = Some bs" "is_utf8 (text_of bs)"
    using json_laws_obtain [OF reference_json_laws assms] by blast
  then show ?thesis
    using that [of bs "length bs"] by (simp add: to_frame_bytes_def validate_frame_size_def del: and_then_Inr)
qed

theorem relay_auth_gate_witness:
  "\<exists>n inputs event.
     actor_log (run_actor reference_crates reference_json demo_world (demo_relay n) inputs) =
       [L_Health Health_Connecting, L_Health Health_Connected, L_Notify N_Connected,
        L_Received (RF_AuthChallenge ''c''), L_Notify (N_AuthChallenge ''c''), L_Sent (CF_Auth event),
        L_Received (RF_Ok (s_id event) True []), L_Notify (N_Authenticated (s_pubkey event)),
        L_Sent (CF_Close ''s''), L_Answered 0 (Inr ())]
     \<and> (\<exists>us ev vs msg ws.
       [L_Health Health_Connecting, L_Health Health_Connected, L_Notify N_Connected,
        L_Received (RF_AuthChallenge ''c''), L_Notify (N_AuthChallenge ''c''), L_Sent (CF_Auth event),
        L_Received (RF_Ok (s_id event) True []), L_Notify (N_Authenticated (s_pubkey event))]
         = us @ L_Sent (CF_Auth ev) # vs @ L_Received (RF_Ok (s_id ev) True msg) # ws
       \<and> list_all (\<lambda>x. \<not> renews x) (vs @ ws))"
proof -
  let ?r = "RelayFrame_from_json reference_crates reference_json"
  obtain event where signed: "sign_challenge reference_crates reference_json (Some [])
      \<lparr>auth_secret_key = demo_key, auth_public_key = demo_key\<rparr> ''wss://r.example'' ''c'' 5 EventLimits_default = Inr event"
    "signed_utf8 event" "length (s_id event) = 64" "list_all is_lower_hexdigit (s_id event)"
    by (rule demo_challenge_signed)
  have fine: "frame_utf8 (RF_AuthChallenge ''c'')" "frame_utf8 (RF_Ok (s_id event) True [])"
    "frame_ok reference_crates reference_json 5 EventLimits_default FrameLimits_default (RF_AuthChallenge ''c'')"
    "frame_ok reference_crates reference_json 5 EventLimits_default FrameLimits_default (RF_Ok (s_id event) True [])"
    using signed(2-4) by (simp_all add: frame_ok_def frame_default_defs is_utf8_ascii signed_utf8_def)
  have exact: "json_exact 127 (JArr [JStr ''AUTH'', signed_event_json event])"
    "json_exact 127 (JArr [JStr ''CLOSE'', JStr ''s''])"
    by (simp_all add: json_exact_array is_utf8_ascii signed_event_json_nested signed(2))
  obtain cb where cb: "\<And>n. length cb \<le> n \<Longrightarrow>
      ?r cb 5 EventLimits_default (FrameLimits_default\<lparr>max_frame_bytes := n\<rparr>) = Inr (RF_AuthChallenge ''c'')"
    by (rule reference_read [OF fine(1,3)]) blast
  obtain ob where ob: "\<And>n. length ob \<le> n \<Longrightarrow>
      ?r ob 5 EventLimits_default (FrameLimits_default\<lparr>max_frame_bytes := n\<rparr>) = Inr (RF_Ok (s_id event) True [])"
    by (rule reference_read [OF fine(2,4)]) blast
  obtain m1 eb where eb: "is_utf8 (text_of eb)" "\<And>n. m1 \<le> n \<Longrightarrow>
      to_frame_bytes reference_json (FrameLimits_default\<lparr>max_frame_bytes := n\<rparr>) (JArr [JStr ''AUTH'', signed_event_json event]) = Inr eb"
    by (rule reference_write [OF exact(1), where fl = FrameLimits_default]) blast
  obtain m2 sb where sb: "is_utf8 (text_of sb)" "\<And>n. m2 \<le> n \<Longrightarrow>
      to_frame_bytes reference_json (FrameLimits_default\<lparr>max_frame_bytes := n\<rparr>) (JArr [JStr ''CLOSE'', JStr ''s'']) = Inr sb"
    by (rule reference_write [OF exact(2), where fl = FrameLimits_default]) blast
  define n where "n = length cb + length ob + m1 + m2"
  have n: "length cb \<le> n" "length ob \<le> n" "m1 \<le> n" "m2 \<le> n" by (simp_all add: n_def)
  have sub: "validate_subscription_id ''s'' (FrameLimits_default\<lparr>max_frame_bytes := n\<rparr>) = Inr ()"
    by (simp add: validate_subscription_id_def frame_default_defs) code_simp
  let ?inputs = "[In_Connected, In_Text cb 5 5 (Some []), In_Text ob 5 5 None, In_Command (Some (Cmd_Close ''s'' 0))]"
  let ?earlier = "[L_Health Health_Connecting, L_Health Health_Connected, L_Notify N_Connected,
        L_Received (RF_AuthChallenge ''c''), L_Notify (N_AuthChallenge ''c''), L_Sent (CF_Auth event),
        L_Received (RF_Ok (s_id event) True []), L_Notify (N_Authenticated (s_pubkey event))]"
  have log: "actor_log (run_actor reference_crates reference_json demo_world (demo_relay n) ?inputs) =
      ?earlier @ L_Sent (CF_Close ''s'') # [L_Answered 0 (Inr ())]"
    using signed(1) cb [OF n(1)] ob [OF n(2)] eb(1) eb(2) [OF n(3)] sb(1) sb(2) [OF n(4)] sub
    by (simp add: run_actor_def actor_start_def actor_step_def session_start_def handle_relay_frame_def
        answer_challenge_def finish_authentication_def replay_subscriptions_def session_close_def
        demo_relay_def demo_world_def RelayConfig_new_def authenticated_at_start_def
        send_frame_def actor_defs then_st_def map_err_def Let_def del: and_then_Inr)
  have cfg: "rc_auth (demo_relay n) = Some \<lparr>auth_secret_key = demo_key, auth_public_key = demo_key\<rparr>"
    "rc_policy (demo_relay n) = RequireWhenConfigured" "\<nexists>event. CF_Close ''s'' = CF_Auth event"
    by (simp_all add: demo_relay_def RelayConfig_new_def)
  note proved = relay_auth_gate [OF cfg(1,2) log cfg(3)]
  show ?thesis
    by (rule exI [of _ n], rule exI [of _ ?inputs], rule exI [of _ event], rule conjI [OF _ proved]) (simp add: log)
qed

lemma reconnect_delay_bounds:
  assumes "10 ^ 6 \<le> rc_reconnect_max_delay cfg" "rc_reconnect_max_delay cfg < 2 ^ 64 * 10 ^ 6"
  shows "10 ^ 6 \<le> reconnect_delay hash cfg n \<and> reconnect_delay hash cfg n \<le> rc_reconnect_max_delay cfg"
proof -
  define m where "m = as_millis (rc_reconnect_max_delay cfg)"
  have m: "1 \<le> m" "m < 2 ^ 64" "m * 10 ^ 6 \<le> rc_reconnect_max_delay cfg"
    using assms by (auto simp: m_def as_millis_def less_mult_imp_div_less)
  define j where "j = (\<lambda>x. min (max x 1) m)"
  have j: "1 \<le> j x" "j x \<le> m" for x using m(1) by (auto simp: j_def)
  obtain x where "reconnect_delay hash cfg n = (if j x < 2 ^ 64 then j x else 2 ^ 64 - 1) * 10 ^ 6"
    unfolding reconnect_delay_def Let_def j_def m_def by blast
  then have "reconnect_delay hash cfg n = j x * 10 ^ 6"
    using j(2) [of x] m(2) by simp
  then show ?thesis
    using j [of x] m(3) by (metis le_trans mult_le_mono1 nat_mult_1)
qed

end
