(* ===== verification/Relay_Pool.thy ===== *)
theory Relay_Pool
  imports Relay_Actor Dedup
begin

text \<open>
  Several relay connections used as one (\<open>omachat-nostr/src/pool.rs\<close>). What a connection answers to
  a call is an argument: \<open>healths\<close> is the health each connection reports when the call starts,
  and the functions from relay indices to results are the outcomes of the joined calls. Shown: a
  publication succeeds exactly when enough of the healthy, selected relays acknowledged it and
  never counts any other relay; the synchronisation sets only hold current subscriptions; and an
  event that was delivered is delivered again only after its time to live or after as many other
  events as the cache holds.
\<close>

section \<open>Types\<close>

record relay_pool_config =
  acknowledgement_threshold :: nat
  pool_dedup_capacity :: nat
  pool_dedup_ttl :: duration

definition RelayPoolConfig_default :: relay_pool_config where
  "RelayPoolConfig_default =
    \<lparr>acknowledgement_threshold = 1, pool_dedup_capacity = 10000, pool_dedup_ttl = from_secs (5 * 60)\<rparr>"

record relay_publish_outcome =
  outcome_relay :: nat
  outcome_result :: "relay_error + publish_acknowledgement"

record pool_publish_result =
  accepted_count :: nat
  attempted_count :: nat
  publish_outcomes :: "relay_publish_outcome list"

record pool_notification =
  note_relay :: nat
  note_content :: relay_notification

datatype relay_pool_error =
    Pool_InvalidConfig string
  | Pool_Connection relay_error
  | AcknowledgementThreshold nat nat nat

text \<open>Instants are nanoseconds of the monotonic clock.\<close>

record relay_pool =
  pool_connections :: "relay_config list"
  pool_config :: relay_pool_config
  pool_subscriptions :: "(string \<times> json list) list"
  subscription_sync :: "string set list"
  pool_seen :: "string set"
  pool_seen_order :: "(nat \<times> string) list"
  closed_notifications :: "nat set"

section \<open>Construction\<close>

fun validate_all :: "url_crate \<Rightarrow> relay_config list \<Rightarrow> relay_error + unit" where
  "validate_all urls [] = Inr ()"
| "validate_all urls (cfg # cfgs) = and_then (RelayConfig_validate urls cfg) (\<lambda>_. validate_all urls cfgs)"

definition RelayPool_spawn :: "url_crate \<Rightarrow> relay_config list \<Rightarrow> relay_pool_config \<Rightarrow> relay_pool_error + relay_pool" where
  "RelayPool_spawn urls cfgs config =
     (if cfgs = [] then Inl (Pool_InvalidConfig ''at least one relay is required'')
      else if acknowledgement_threshold config = 0 \<or> length cfgs < acknowledgement_threshold config
      then Inl (Pool_InvalidConfig ''acknowledgement threshold must fit the relay count'')
      else if pool_dedup_capacity config = 0 \<or> pool_dedup_ttl config = 0
      then Inl (Pool_InvalidConfig ''dedup capacity and TTL must be non-zero'')
      else
        and_then (map_err Pool_Connection (validate_all urls cfgs)) (\<lambda>_.
        Inr \<lparr>pool_connections = cfgs, pool_config = config, pool_subscriptions = [],
             subscription_sync = map (\<lambda>_. {}) cfgs, pool_seen = {}, pool_seen_order = [],
             closed_notifications = {}\<rparr>))"

section \<open>Publishing\<close>

definition join_publish ::
  "(nat \<Rightarrow> bool) \<Rightarrow> relay_health list \<Rightarrow> (nat \<Rightarrow> relay_error + publish_acknowledgement) \<Rightarrow> relay_publish_outcome list" where
  "join_publish selected healths answer =
     map (\<lambda>(i, _). \<lparr>outcome_relay = i, outcome_result = answer i\<rparr>)
       (filter (\<lambda>(i, h). selected i \<and> h = Health_Connected) (enumerate 0 healths))"

definition count_acknowledged :: "nat \<Rightarrow> relay_publish_outcome list \<Rightarrow> relay_pool_error + pool_publish_result" where
  "count_acknowledged threshold outcomes =
     (let attempted = length outcomes;
          accepted = length (filter (\<lambda>x. \<not> isl (outcome_result x)) outcomes) in
      if accepted < threshold then Inl (AcknowledgementThreshold accepted threshold attempted)
      else Inr \<lparr>accepted_count = accepted, attempted_count = attempted, publish_outcomes = outcomes\<rparr>)"

definition pool_publish ::
  "relay_health list \<Rightarrow> (nat \<Rightarrow> relay_error + publish_acknowledgement) \<Rightarrow> relay_pool
     \<Rightarrow> relay_pool_error + pool_publish_result" where
  "pool_publish healths answer p =
     count_acknowledged (acknowledgement_threshold (pool_config p)) (join_publish (\<lambda>_. True) healths answer)"

definition publish_to_indices ::
  "relay_health list \<Rightarrow> (nat \<Rightarrow> relay_error + publish_acknowledgement) \<Rightarrow> nat set \<Rightarrow> nat \<Rightarrow> relay_pool
     \<Rightarrow> relay_pool_error + pool_publish_result" where
  "publish_to_indices healths answer indices threshold p =
     (if indices = {} \<or> threshold = 0 \<or> card indices < threshold
         \<or> (\<exists>i \<in> indices. length (pool_connections p) \<le> i)
      then Inl (Pool_InvalidConfig ''selected relay indices and threshold must fit the pool'')
      else count_acknowledged threshold (join_publish (\<lambda>i. i \<in> indices) healths answer))"

section \<open>Subscriptions\<close>

definition mark_synced :: "string \<Rightarrow> (relay_error + unit) list \<Rightarrow> string set list \<Rightarrow> string set list" where
  "mark_synced sub results syncs =
     map2 (\<lambda>r s. if isl r then s else insert sub s) results syncs"

definition pool_subscribe ::
  "(nat \<Rightarrow> relay_error + unit) \<Rightarrow> string \<Rightarrow> json list \<Rightarrow> relay_pool \<Rightarrow> (relay_error + unit) list \<times> relay_pool" where
  "pool_subscribe answer sub filters p =
     (if map_of (pool_subscriptions p) sub = Some filters \<and> list_all (\<lambda>s. sub \<in> s) (subscription_sync p)
      then ([], p)
      else
        let cleared = map (\<lambda>s. s - {sub}) (subscription_sync p);
            results = map answer [0..<length (pool_connections p)] in
        (results,
         p\<lparr>pool_subscriptions := AList.update sub filters (pool_subscriptions p),
           subscription_sync := mark_synced sub results cleared\<rparr>))"

definition pool_close_subscription ::
  "(nat \<Rightarrow> relay_error + unit) \<Rightarrow> string \<Rightarrow> relay_pool \<Rightarrow> (relay_error + unit) list \<times> relay_pool" where
  "pool_close_subscription answer sub p =
     (map answer [0..<length (pool_connections p)],
      p\<lparr>pool_subscriptions := AList.delete sub (pool_subscriptions p),
        subscription_sync := map (\<lambda>s. s - {sub}) (subscription_sync p)\<rparr>)"

section \<open>Notifications\<close>

definition pool_expired :: "duration \<Rightarrow> nat \<Rightarrow> nat \<Rightarrow> bool" where
  "pool_expired ttl now seen_at = (\<not> now - seen_at < ttl)"

definition remember_event :: "nat \<Rightarrow> string \<Rightarrow> relay_pool \<Rightarrow> bool \<times> relay_pool" where
  "remember_event now ident p =
     (case window_remember (pool_expired (pool_dedup_ttl (pool_config p)) now) (pool_dedup_capacity (pool_config p))
        now ident (pool_seen p, pool_seen_order p) of
        (new, (seen, order)) \<Rightarrow> (new, p\<lparr>pool_seen := seen, pool_seen_order := order\<rparr>))"

text \<open>A relay that connected is sent the subscriptions it does not have yet.\<close>

fun subscribe_missing ::
  "(string \<Rightarrow> relay_error + unit) \<Rightarrow> nat \<Rightarrow> (string \<times> json list) list \<Rightarrow> string set list \<Rightarrow> string set list" where
  "subscribe_missing answer i [] syncs = syncs"
| "subscribe_missing answer i ((sub, _) # subs) syncs =
     subscribe_missing answer i subs
       (if isl (answer sub) then syncs else syncs[i := insert sub (syncs ! i)])"

definition resubscribe :: "(string \<Rightarrow> relay_error + unit) \<Rightarrow> nat \<Rightarrow> relay_pool \<Rightarrow> relay_pool" where
  "resubscribe answer i p =
     p\<lparr>closed_notifications := closed_notifications p - {i},
       subscription_sync := subscribe_missing answer i
         (filter (\<lambda>(sub, _). sub \<notin> subscription_sync p ! i) (pool_subscriptions p)) (subscription_sync p)\<rparr>"

text \<open>
  What the connections deliver: the relay, its notification (\<open>None\<close> when the stream ended), the
  answers to subscriptions sent then, and the time. \<open>Pool_Waiting\<close>: no notification has arrived yet.
\<close>

record arrival =
  arr_relay :: nat
  arr_notification :: "relay_notification option"
  arr_answer :: "string \<Rightarrow> relay_error + unit"
  arr_now :: nat

datatype pool_next = Pool_Waiting | Pool_Ended | Pool_Delivered pool_notification

fun on_arrival :: "arrival \<Rightarrow> relay_pool \<Rightarrow> pool_next option \<times> relay_pool" where
  "on_arrival x p =
     (case arr_notification x of
        None \<Rightarrow>
          let closed = insert (arr_relay x) (closed_notifications p) in
          (if card closed = length (pool_connections p) then Some Pool_Ended else None,
           p\<lparr>closed_notifications := closed\<rparr>)
      | Some n \<Rightarrow>
          let p = (if n = N_Connected then resubscribe (arr_answer x) (arr_relay x) p else p);
              delivered = Some (Pool_Delivered \<lparr>note_relay = arr_relay x, note_content = n\<rparr>) in
          case n of
            N_Event _ event \<Rightarrow>
              (case remember_event (arr_now x) (s_id event) p of
                 (False, p) \<Rightarrow> (None, p)
               | (True, p) \<Rightarrow> (delivered, p))
          | _ \<Rightarrow> (delivered, p))"

text \<open>Only connections whose stream has not ended are waited for; with none left there is nothing to await.\<close>

fun next_notification :: "arrival list \<Rightarrow> relay_pool \<Rightarrow> pool_next \<times> arrival list \<times> relay_pool" where
  "next_notification xs p =
     (if {..<length (pool_connections p)} \<subseteq> closed_notifications p then (Pool_Ended, xs, p)
      else case xs of
        [] \<Rightarrow> (Pool_Waiting, [], p)
      | x # xs \<Rightarrow>
          if arr_relay x \<in> closed_notifications p then next_notification xs p
          else case on_arrival x p of
            (Some r, p) \<Rightarrow> (r, xs, p)
          | (None, p) \<Rightarrow> next_notification xs p)"

declare next_notification.simps [simp del]

section \<open>Publications count the selected healthy relays\<close>

lemma join_publish_relays:
  "map outcome_relay (join_publish selected healths answer)
     = filter (\<lambda>i. selected i \<and> healths ! i = Health_Connected) [0..<length healths]"
proof -
  have "filter (\<lambda>(i, h). selected i \<and> h = Health_Connected) (enumerate 0 healths)
      = map (\<lambda>i. (i, healths ! i)) (filter (\<lambda>i. selected i \<and> healths ! i = Health_Connected) [0..<length healths])"
  proof -
    have "enumerate 0 healths = map (\<lambda>i. (i, healths ! i)) [0..<length healths]"
      by (rule nth_equalityI) (simp_all add: nth_enumerate_eq)
    then show ?thesis by (simp add: filter_map comp_def)
  qed
  then show ?thesis by (simp add: join_publish_def comp_def)
qed

lemma join_publish_results:
  "x \<in> set (join_publish selected healths answer) \<Longrightarrow> outcome_result x = answer (outcome_relay x)"
  by (auto simp: join_publish_def)

lemma count_join:
  "length (filter (\<lambda>x. \<not> isl (outcome_result x)) (join_publish selected healths answer))
     = card {i. i < length healths \<and> selected i \<and> healths ! i = Health_Connected \<and> \<not> isl (answer i)}"
proof -
  let ?xs = "join_publish selected healths answer"
  have "filter (\<lambda>x. \<not> isl (outcome_result x)) ?xs = filter ((\<lambda>i. \<not> isl (answer i)) \<circ> outcome_relay) ?xs"
    by (rule filter_cong) (simp_all add: join_publish_results)
  then have "length (filter (\<lambda>x. \<not> isl (outcome_result x)) ?xs) = length (filter (\<lambda>i. \<not> isl (answer i)) (map outcome_relay ?xs))"
    by (simp add: filter_map)
  also have "\<dots> = card (set (filter (\<lambda>i. \<not> isl (answer i)) (map outcome_relay ?xs)))"
    by (rule distinct_card [symmetric]) (simp add: join_publish_relays)
  also have "set (filter (\<lambda>i. \<not> isl (answer i)) (map outcome_relay ?xs))
      = {i. i < length healths \<and> selected i \<and> healths ! i = Health_Connected \<and> \<not> isl (answer i)}"
    by (auto simp: join_publish_relays)
  finally show ?thesis .
qed

lemma publish_to_indices_ok:
  assumes "publish_to_indices healths answer indices threshold p = Inr r"
  shows "threshold \<le> accepted_count r"
    and "accepted_count r = card {i \<in> indices. i < length healths \<and> healths ! i = Health_Connected \<and> \<not> isl (answer i)}"
    and "outcome_relay ` set (publish_outcomes r) \<subseteq> indices"
proof -
  have r: "count_acknowledged threshold (join_publish (\<lambda>i. i \<in> indices) healths answer) = Inr r"
    using assms by (auto simp: publish_to_indices_def split: if_splits)
  then show "threshold \<le> accepted_count r"
    by (auto simp: count_acknowledged_def Let_def split: if_splits)
  from r show "accepted_count r = card {i \<in> indices. i < length healths \<and> healths ! i = Health_Connected \<and> \<not> isl (answer i)}"
    by (auto simp: count_acknowledged_def Let_def count_join conj_ac split: if_splits)
  have "publish_outcomes r = join_publish (\<lambda>i. i \<in> indices) healths answer"
    using r by (auto simp: count_acknowledged_def Let_def split: if_splits)
  then have "outcome_relay ` set (publish_outcomes r) = set (map outcome_relay (join_publish (\<lambda>i. i \<in> indices) healths answer))"
    by simp
  also have "\<dots> \<subseteq> indices" unfolding join_publish_relays by auto
  finally show "outcome_relay ` set (publish_outcomes r) \<subseteq> indices" .
qed

section \<open>Subscriptions in sync\<close>

text \<open>One set per connection, and each holds only current subscriptions.\<close>

definition sync_inv :: "relay_pool \<Rightarrow> bool" where
  "sync_inv p \<longleftrightarrow> length (subscription_sync p) = length (pool_connections p)
     \<and> (\<forall>s \<in> set (subscription_sync p). s \<subseteq> dom (map_of (pool_subscriptions p)))"

lemma spawn_sync: "RelayPool_spawn urls cfgs config = Inr p \<Longrightarrow> sync_inv p"
  by (auto simp: RelayPool_spawn_def sync_inv_def split: if_splits)

lemma mark_synced_subset:
  assumes "s \<in> set (mark_synced sub rs syncs)" "\<forall>s \<in> set syncs. s \<subseteq> D"
  shows "s \<subseteq> insert sub D"
proof -
  obtain r t where "(r, t) \<in> set (zip rs syncs)" "s = (if isl r then t else insert sub t)"
    using assms(1) by (auto simp: mark_synced_def)
  moreover from this(1) have "t \<in> set syncs" by (rule set_zip_rightD)
  ultimately show ?thesis using assms(2) by (auto split: if_splits)
qed

lemma subscribe_sync:
  assumes "sync_inv p"
  shows "sync_inv (snd (pool_subscribe answer sub filters p))"
proof -
  let ?subs = "pool_subscriptions p"
  have cleared: "\<forall>s \<in> set (map (\<lambda>s. s - {sub}) (subscription_sync p)). s \<subseteq> dom (map_of ?subs)"
    using assms by (auto simp: sync_inv_def)
  have "dom (map_of (AList.update sub filters ?subs)) = insert sub (dom (map_of ?subs))"
    by (simp add: update_conv')
  then show ?thesis
    using assms mark_synced_subset [OF _ cleared]
    by (simp add: pool_subscribe_def sync_inv_def Let_def) (simp add: mark_synced_def)
qed

lemma close_sync: "sync_inv p \<Longrightarrow> sync_inv (snd (pool_close_subscription answer sub p))"
  by (fastforce simp: pool_close_subscription_def sync_inv_def delete_conv' split: if_splits)

lemma subscribe_missing_sync:
  assumes "\<forall>s \<in> set syncs. s \<subseteq> D" "fst ` set subs \<subseteq> D"
  shows "length (subscribe_missing answer i subs syncs) = length syncs
    \<and> (\<forall>s \<in> set (subscribe_missing answer i subs syncs). s \<subseteq> D)"
  using assms
proof (induction answer i subs syncs rule: subscribe_missing.induct)
  case (2 answer i sub filters subs syncs)
  let ?syncs = "if isl (answer sub) then syncs else syncs[i := insert sub (syncs ! i)]"
  have "\<forall>s \<in> set ?syncs. s \<subseteq> D"
  proof (cases "i < length syncs")
    case True
    then have "insert sub (syncs ! i) \<subseteq> D" using 2(2,3) by simp
    then show ?thesis using 2(2) set_update_subset_insert [of syncs i "insert sub (syncs ! i)"] by auto
  qed (use 2(2) in \<open>auto simp: list_update_beyond\<close>)
  then show ?case using 2(1) 2(3) by (simp split: if_splits)
qed simp

lemma resubscribe_sync:
  assumes "sync_inv p"
  shows "sync_inv (resubscribe answer i p)"
proof -
  let ?subs = "filter (\<lambda>(sub, _). sub \<notin> subscription_sync p ! i) (pool_subscriptions p)"
  have "fst ` set ?subs \<subseteq> dom (map_of (pool_subscriptions p))" by (auto simp: dom_map_of_conv_image_fst)
  then show ?thesis
    using subscribe_missing_sync [of "subscription_sync p" "dom (map_of (pool_subscriptions p))" ?subs answer i] assms
    by (simp add: resubscribe_def sync_inv_def)
qed

lemma remember_event_frame:
  "remember_event now ident p = (new, q) \<Longrightarrow>
     subscription_sync q = subscription_sync p \<and> pool_subscriptions q = pool_subscriptions p
     \<and> pool_connections q = pool_connections p \<and> pool_config q = pool_config p"
  by (auto simp: remember_event_def split: prod.splits)

lemma arrival_sync:
  assumes "sync_inv p"
  shows "sync_inv (snd (on_arrival x p))"
proof (cases "arr_notification x")
  case None
  then show ?thesis using assms by (simp add: Let_def sync_inv_def)
next
  case (Some n)
  have kept: "sync_inv (if n = N_Connected then resubscribe (arr_answer x) (arr_relay x) p else p)"
    using assms resubscribe_sync by simp
  have seen: "sync_inv q" if "remember_event now ident p = (new, q)" for now ident new q
    using remember_event_frame [OF that] assms by (simp add: sync_inv_def)
  show ?thesis
    using Some kept seen by (cases n) (auto simp: Let_def split: prod.splits bool.splits)
qed

section \<open>No event twice\<close>

definition pool_window :: "relay_pool \<Rightarrow> nat window" where
  "pool_window p = (pool_seen p, pool_seen_order p)"

lemma resubscribe_window [simp]:
  "pool_window (resubscribe answer i p) = pool_window p" "pool_config (resubscribe answer i p) = pool_config p"
  by (simp_all add: resubscribe_def pool_window_def)

text \<open>The identifiers an arrival asks about, and whether it was delivered.\<close>

fun arrival_event :: "arrival \<Rightarrow> (string \<times> nat) option" where
  "arrival_event x = (case arr_notification x of Some (N_Event _ event) \<Rightarrow> Some (s_id event, arr_now x) | _ \<Rightarrow> None)"

lemma arrival_window:
  assumes "on_arrival x p = (r, q)"
  shows "pool_config q = pool_config p \<and>
    (case arrival_event x of
       None \<Rightarrow> pool_window q = pool_window p
     | Some (ident, now) \<Rightarrow>
         window_remember (pool_expired (pool_dedup_ttl (pool_config p)) now) (pool_dedup_capacity (pool_config p))
           now ident (pool_window p) = (r \<noteq> None, pool_window q))"
  using assms
  by (auto simp: remember_event_def pool_window_def resubscribe_def Let_def split: option.splits relay_notification.splits
      prod.splits bool.splits if_splits)

fun pool_arrivals :: "arrival list \<Rightarrow> relay_pool \<Rightarrow> relay_pool" where
  "pool_arrivals [] p = p"
| "pool_arrivals (x # xs) p = pool_arrivals xs (snd (on_arrival x p))"

lemma arrivals_window:
  "\<exists>n. window_run (pool_expired (pool_dedup_ttl (pool_config p))) (pool_dedup_capacity (pool_config p))
       (List.map_filter arrival_event xs) (pool_window p) = (n, pool_window (pool_arrivals xs p))
     \<and> n \<le> length xs \<and> pool_config (pool_arrivals xs p) = pool_config p"
proof (induction xs arbitrary: p)
  case (Cons x xs)
  obtain r q where q: "on_arrival x p = (r, q)" by (metis surj_pair)
  note w = arrival_window [OF q]
  obtain n where "window_run (pool_expired (pool_dedup_ttl (pool_config q))) (pool_dedup_capacity (pool_config q))
       (List.map_filter arrival_event xs) (pool_window q) = (n, pool_window (pool_arrivals xs q))"
     "n \<le> length xs" "pool_config (pool_arrivals xs q) = pool_config q"
    using Cons by blast
  then show ?case
    using w q by (auto simp del: arrival_event.simps split: option.splits prod.splits)
qed simp

lemma pool_no_redelivery:
  assumes inv: "window_inv (pool_dedup_capacity (pool_config p)) (pool_window p)"
    and first: "on_arrival x p = (Some r, q)" "arrival_event x = Some (ident, now)"
    and again: "on_arrival y (pool_arrivals xs q) = (Some r', p')" "arrival_event y = Some (ident, now')"
  shows "list_ex (\<lambda>(_, t). pool_expired (pool_dedup_ttl (pool_config p)) t now)
      (List.map_filter arrival_event xs @ [(ident, now')])
    \<or> pool_dedup_capacity (pool_config p) \<le> length xs"
proof -
  let ?e = "pool_expired (pool_dedup_ttl (pool_config p))" and ?c = "pool_dedup_capacity (pool_config p)"
  have w1: "window_remember (?e now) ?c now ident (pool_window p) = (True, pool_window q)" "pool_config q = pool_config p"
    using arrival_window [OF first(1)] first(2) by simp_all
  obtain n where n: "window_run ?e ?c (List.map_filter arrival_event xs) (pool_window q) = (n, pool_window (pool_arrivals xs q))"
    "n \<le> length xs" "pool_config (pool_arrivals xs q) = pool_config p"
    using arrivals_window [of q xs] w1(2) by auto
  have w2: "window_remember (?e now') ?c now' ident (pool_window (pool_arrivals xs q)) = (True, pool_window p')"
    using arrival_window [OF again(1)] again(2) n(3) by simp
  from window_no_repeat [OF inv w1(1) n(1) w2] n(2) show ?thesis by auto
qed

end
