(* ===== verification/Config.thy ===== *)
theory Config
  imports Json Urls Sealed_Store
begin

text \<open>
  The daemon's configuration (\<open>omachatd/src/config.rs\<close>): reading the JSON file with its defaults and
  unknown fields denied, and validating it. Whether an Ed25519 key is weak is a parameter. Shown:
  an accepted configuration names at most four distinct relays, each reached over TLS or on this
  machine, and a hosted server with a usable pinned key.
\<close>

section \<open>Types\<close>

datatype storage_provider_config = Provider_Auto | Provider_SecretService | Provider_File

fun RequestedProvider_from :: "storage_provider_config \<Rightarrow> requested_provider" where
  "RequestedProvider_from Provider_Auto = Auto"
| "RequestedProvider_from Provider_SecretService = RequestSecretService"
| "RequestedProvider_from Provider_File = RequestFile"

record hosted_config =
  hc_url :: string
  hc_pinned_server_public_key :: string
  hc_display_name :: "string option"

record daemon_config =
  storage_provider :: storage_provider_config
  hosted_server :: "hosted_config option"
  dm_relays :: "string list"

definition DaemonConfig_default :: daemon_config where
  "DaemonConfig_default = \<lparr>storage_provider = Provider_Auto, hosted_server = None, dm_relays = []\<rparr>"

text \<open>The values of \<open>CoreError\<close> that configuration code returns.\<close>

datatype config_error = InvalidConfig | Config_Io io_error

section \<open>Reading\<close>

definition de_storage_provider :: "json \<Rightarrow> storage_provider_config option" where
  "de_storage_provider j =
     (case variant_name j of
        None \<Rightarrow> None
      | Some s \<Rightarrow>
          if s = ''auto'' then Some Provider_Auto
          else if s = ''secret-service'' then Some Provider_SecretService
          else if s = ''file'' then Some Provider_File
          else None)"

definition de_hosted_config :: "json \<Rightarrow> hosted_config option" where
  "de_hosted_config j =
     Option.bind (de_partial [''url'', ''pinned_server_public_key'', ''display_name''] j) (\<lambda>m.
     Option.bind (Option.bind (m ''url'') de_string) (\<lambda>u.
     Option.bind (Option.bind (m ''pinned_server_public_key'') de_string) (\<lambda>k.
     Option.bind (de_default None (de_option de_string) (m ''display_name'')) (\<lambda>n.
     Some \<lparr>hc_url = u, hc_pinned_server_public_key = k, hc_display_name = n\<rparr>))))"

definition de_daemon_config :: "json \<Rightarrow> daemon_config option" where
  "de_daemon_config j =
     Option.bind (de_partial [''storage_provider'', ''hosted'', ''dm_relays''] j) (\<lambda>m.
     Option.bind (de_default (storage_provider DaemonConfig_default) de_storage_provider (m ''storage_provider'')) (\<lambda>p.
     Option.bind (de_default None (de_option de_hosted_config) (m ''hosted'')) (\<lambda>h.
     Option.bind (de_default [] (de_vec de_string) (m ''dm_relays'')) (\<lambda>rs.
     Some \<lparr>storage_provider = p, hosted_server = h, dm_relays = rs\<rparr>))))"

section \<open>Validation\<close>

definition canonical_publication_url :: "url_crate \<Rightarrow> string \<Rightarrow> config_error + string" where
  "canonical_publication_url urls raw =
     and_then (ok_or InvalidConfig (urls raw)) (\<lambda>u.
     let secure = (url_scheme u = ''wss'');
         numeric_loopback = (url_scheme u = ''ws'' \<and>
           (case url_address u of Some h \<Rightarrow> host_is_loopback h | None \<Rightarrow> False)) in
     if \<not> secure \<and> \<not> numeric_loopback \<or> url_host u = None \<or> url_port u = None \<or> url_username u \<noteq> []
        \<or> url_password u \<noteq> None \<or> url_query u \<noteq> None \<or> url_fragment u \<noteq> None
     then Inl InvalidConfig else Inr (url_text u))"

definition pinned_server_public_key_bytes ::
  "crates \<Rightarrow> (bytes \<Rightarrow> bool) \<Rightarrow> hosted_config \<Rightarrow> config_error + bytes" where
  "pinned_server_public_key_bytes c weak h =
     and_then (ok_or InvalidConfig (hex_decode c (hc_pinned_server_public_key h))) (\<lambda>public_key.
     if length public_key \<noteq> 32 \<or> \<not> ed_key_ok c public_key \<or> weak public_key
     then Inl InvalidConfig else Inr public_key)"

definition HostedConfig_validate ::
  "crates \<Rightarrow> url_crate \<Rightarrow> (bytes \<Rightarrow> bool) \<Rightarrow> hosted_config \<Rightarrow> config_error + unit" where
  "HostedConfig_validate c urls weak h =
     and_then (canonical_publication_url urls (hc_url h)) (\<lambda>_.
     and_then (pinned_server_public_key_bytes c weak h) (\<lambda>_.
     case hc_display_name h of
       None \<Rightarrow> Inr ()
     | Some name \<Rightarrow> and_then (map_err (\<lambda>_. InvalidConfig) (validate_name name)) (\<lambda>_. Inr ())))"

fun distinct_relays :: "url_crate \<Rightarrow> string list \<Rightarrow> string list \<Rightarrow> config_error + unit" where
  "distinct_relays urls [] seen = Inr ()"
| "distinct_relays urls (relay # relays) seen =
     and_then (canonical_publication_url urls relay) (\<lambda>canonical.
     if canonical \<in> set seen then Inl InvalidConfig else distinct_relays urls relays (seen @ [canonical]))"

definition DaemonConfig_validate ::
  "crates \<Rightarrow> url_crate \<Rightarrow> (bytes \<Rightarrow> bool) \<Rightarrow> daemon_config \<Rightarrow> config_error + unit" where
  "DaemonConfig_validate c urls weak cfg =
     and_then (case hosted_server cfg of None \<Rightarrow> Inr () | Some h \<Rightarrow> HostedConfig_validate c urls weak h) (\<lambda>_.
     if 4 < length (dm_relays cfg) then Inl InvalidConfig else distinct_relays urls (dm_relays cfg) [])"

definition DaemonConfig_load ::
  "crates \<Rightarrow> json_crate \<Rightarrow> url_crate \<Rightarrow> (bytes \<Rightarrow> bool) \<Rightarrow> os \<Rightarrow> path \<Rightarrow> disk
     \<Rightarrow> (config_error + daemon_config) \<times> disk" where
  "DaemonConfig_load c jc urls weak e p d =
     then_st (err_st Config_Io (fs_read e p d)) (\<lambda>bs d.
     (and_then (ok_or InvalidConfig (Option.bind (json_from_slice jc bs) de_daemon_config)) (\<lambda>cfg.
      and_then (DaemonConfig_validate c urls weak cfg) (\<lambda>_. Inr cfg)), d))"

section \<open>What an accepted configuration guarantees\<close>

definition reachable_privately :: "url \<Rightarrow> bool" where
  "reachable_privately u \<longleftrightarrow>
     url_scheme u = ''wss'' \<or> url_scheme u = ''ws'' \<and> (\<exists>h. url_address u = Some h \<and> host_is_loopback h)"

lemma canonical_publication_url_Inr:
  assumes "canonical_publication_url urls raw = Inr y"
  shows "\<exists>u. urls raw = Some u \<and> y = url_text u \<and> reachable_privately u \<and> url_username u = [] \<and> url_password u = None"
  using assms by (auto simp: canonical_publication_url_def Let_def reachable_privately_def split: if_splits option.splits)

lemma distinct_relays_Inr:
  assumes "distinct_relays urls relays seen = Inr ()"
  shows "\<exists>us. map urls relays = map Some us \<and> list_all reachable_privately us
    \<and> (distinct seen \<longrightarrow> distinct (seen @ map url_text us))"
  using assms
proof (induction urls relays seen rule: distinct_relays.induct)
  case (2 urls relay relays seen)
  then obtain y where y: "canonical_publication_url urls relay = Inr y" "y \<notin> set seen"
    "distinct_relays urls relays (seen @ [y]) = Inr ()"
    by (auto split: if_splits)
  obtain u where u: "urls relay = Some u" "y = url_text u" "reachable_privately u"
    using canonical_publication_url_Inr [OF y(1)] by blast
  obtain us where "map urls relays = map Some us" "list_all reachable_privately us"
    "distinct (seen @ [y]) \<longrightarrow> distinct ((seen @ [y]) @ map url_text us)"
    using 2(1) [OF y(2,3)] by blast
  then show ?case using u y(2) by (intro exI [of _ "u # us"]) auto
qed simp

lemma config_load_sound:
  assumes "DaemonConfig_load c jc urls weak e p d = (Inr cfg, d')"
  shows "length (dm_relays cfg) \<le> 4"
    and "\<exists>us. map urls (dm_relays cfg) = map Some us \<and> list_all reachable_privately us \<and> distinct (map url_text us)"
    and "hosted_server cfg = Some h \<Longrightarrow> \<exists>u k. urls (hc_url h) = Some u \<and> reachable_privately u
      \<and> hex_decode c (hc_pinned_server_public_key h) = Some k \<and> length k = 32 \<and> ed_key_ok c k \<and> \<not> weak k"
proof -
  have v: "DaemonConfig_validate c urls weak cfg = Inr ()"
    using assms by (auto simp: DaemonConfig_load_def elim!: then_st_cases)
  then have d: "length (dm_relays cfg) \<le> 4" "distinct_relays urls (dm_relays cfg) [] = Inr ()"
    by (auto simp: DaemonConfig_validate_def split: if_splits)
  then show "length (dm_relays cfg) \<le> 4" by simp
  show "\<exists>us. map urls (dm_relays cfg) = map Some us \<and> list_all reachable_privately us \<and> distinct (map url_text us)"
    using distinct_relays_Inr [OF d(2)] by simp
  show "\<exists>u k. urls (hc_url h) = Some u \<and> reachable_privately u
      \<and> hex_decode c (hc_pinned_server_public_key h) = Some k \<and> length k = 32 \<and> ed_key_ok c k \<and> \<not> weak k"
    if "hosted_server cfg = Some h"
  proof -
    have h: "HostedConfig_validate c urls weak h = Inr ()"
      using v that by (auto simp: DaemonConfig_validate_def)
    then obtain y k where "canonical_publication_url urls (hc_url h) = Inr y" "pinned_server_public_key_bytes c weak h = Inr k"
      by (auto simp: HostedConfig_validate_def)
    then show ?thesis
      using canonical_publication_url_Inr by (fastforce simp: pinned_server_public_key_bytes_def split: if_splits)
  qed
qed

end
