(* ===== verification/Vaults.thy ===== *)
theory Vaults
  imports Sealed_Examples
begin

text \<open>
  The vaults on top of the sealed store (\<open>omachat-store/src/identity.rs\<close> and \<open>nostr.rs\<close>), the device
  identity they hold (\<open>omachat-crypto/src/identity.rs\<close>), and the properties of erasure. The JSON
  encodings of the two records are parameters.
\<close>

section \<open>Device identity\<close>

record identity_secrets =
  signing_seed :: bytes

record public_identity =
  signing_public_key :: bytes
  fingerprint_hex :: string

definition IdentitySecrets_generate :: "store_env \<Rightarrow> disk \<Rightarrow> (unit + identity_secrets) \<times> disk" where
  "IdentitySecrets_generate e d =
     then_st (getrandom_fill (sys e) 32 d) (\<lambda>seed d. (Inr \<lparr>signing_seed = seed\<rparr>, d))"

definition IdentitySecrets_public_identity :: "crates \<Rightarrow> identity_secrets \<Rightarrow> public_identity" where
  "IdentitySecrets_public_identity c i =
     (let key = ed_public c (signing_seed i) in
      \<lparr>signing_public_key = key, fingerprint_hex = hex_encode c (sha256 c key)\<rparr>)"

definition IdentitySecrets_sign :: "crates \<Rightarrow> identity_secrets \<Rightarrow> bytes \<Rightarrow> bytes" where
  "IdentitySecrets_sign c i msg = ed_sign c (signing_seed i) msg"

section \<open>Vaults\<close>

record vault_codec =
  identity_to_vec :: "identity_secrets \<Rightarrow> bytes option"
  identity_from_slice :: "bytes \<Rightarrow> identity_secrets option"
  nostr_to_vec :: "bytes \<Rightarrow> bytes option"
  nostr_from_slice :: "bytes \<Rightarrow> bytes option"

text \<open>What was written is read back.\<close>

definition codec_laws :: "vault_codec \<Rightarrow> bool" where
  "codec_laws v \<longleftrightarrow>
     (\<forall>i bs. identity_to_vec v i = Some bs \<longrightarrow> identity_from_slice v bs = Some i)
     \<and> (\<forall>k bs. nostr_to_vec v k = Some bs \<longrightarrow> nostr_from_slice v bs = Some k)"

definition IDENTITY_RECORD :: string where "IDENTITY_RECORD = ''identity-v1''"
definition NOSTR_RECORD :: string where "NOSTR_RECORD = ''nostr-identity-v1''"

datatype identity_store_error = IS_Store store_error | IS_Identity | IS_Encoding

datatype nostr_store_error =
    NS_Store store_error | NS_Identity nostr_identity_error | NS_Encoding | AlreadyPresent

definition IdentityVault_load_or_create ::
  "crates \<Rightarrow> vault_codec \<Rightarrow> store_env \<Rightarrow> sealed_store \<Rightarrow> disk \<Rightarrow> (identity_store_error + identity_secrets) \<times> disk" where
  "IdentityVault_load_or_create c v e s d =
     (case store_read c e s IDENTITY_RECORD d of
        (Inr bs, d) \<Rightarrow> (ok_or IS_Encoding (identity_from_slice v bs), d)
      | (Inl err, d) \<Rightarrow>
          if err = RecordNotFound then
            then_st (err_st (\<lambda>_. IS_Identity) (IdentitySecrets_generate e d)) (\<lambda>identity d.
            then_st (ok_or IS_Encoding (identity_to_vec v identity), d) (\<lambda>encoded d.
            then_st (err_st IS_Store (store_write c e s IDENTITY_RECORD encoded d)) (\<lambda>_ d.
              (Inr identity, d))))
          else (Inl (IS_Store err), d))"

definition NostrVault_load ::
  "crates \<Rightarrow> vault_codec \<Rightarrow> store_env \<Rightarrow> sealed_store \<Rightarrow> disk \<Rightarrow> (nostr_store_error + nostr_secret option) \<times> disk" where
  "NostrVault_load c v e s d =
     (case store_read c e s NOSTR_RECORD d of
        (Inr bs, d) \<Rightarrow>
          (and_then (ok_or NS_Encoding (nostr_from_slice v bs)) (\<lambda>stored.
             and_then (map_err NS_Identity (NostrSecret_from_bytes c stored)) (\<lambda>sk. Inr (Some sk))), d)
      | (Inl err, d) \<Rightarrow> (if err = RecordNotFound then Inr None else Inl (NS_Store err), d))"

definition NostrVault_save_new ::
  "crates \<Rightarrow> vault_codec \<Rightarrow> store_env \<Rightarrow> sealed_store \<Rightarrow> nostr_secret \<Rightarrow> disk \<Rightarrow> (nostr_store_error + unit) \<times> disk" where
  "NostrVault_save_new c v e s sk d =
     (case store_read c e s NOSTR_RECORD d of
        (Inr _, d) \<Rightarrow> (Inl AlreadyPresent, d)
      | (Inl _, d) \<Rightarrow>
          then_st (ok_or NS_Encoding (nostr_to_vec v (secret sk)), d) (\<lambda>encoded d.
            err_st NS_Store (store_write c e s NOSTR_RECORD encoded d)))"

section \<open>Reading\<close>

lemma open_envelope_errors: "open_envelope c key name bs = Inl err \<Longrightarrow> err \<noteq> RecordNotFound"
  by (auto simp: open_envelope_def Let_def ok_or_def split: if_splits option.splits)

lemma store_read_cases:
  assumes "store_read c e s name d = (r, d')"
  obtains (refused) "d' = d" "r = Inl InvalidRecordName \<or> r = Inl Erased"
    | (failed) err where "tree d' = tree d" "fs_read (sys e) (records_directory s @ [name]) d = (Inl err, d')"
        "r = Inl (if err = Io_NotFound then RecordNotFound else Io err)"
    | (content) bs key where "tree d' = tree d" "map_of (tree d) (records_directory s @ [name]) \<noteq> None"
        "r = open_envelope c key name bs"
proof -
  from assms have "then_st (validate_record_name name, d) (\<lambda>_ d.
     then_st (KeyState_key (key_state s), d) (\<lambda>key d.
     then_st (err_st (\<lambda>err. if err = Io_NotFound then RecordNotFound else Io err)
               (fs_read (sys e) (records_directory s @ [name]) d)) (\<lambda>content d.
       (open_envelope c key name (take (MAX_RECORD_BYTES + NONCE_BYTES + TAG_BYTES + 10) content), d)))) = (r, d')"
    by (simp add: store_read_def)
  then show ?thesis
  proof (cases rule: then_st_cases)
    case (error x)
    with refused show ?thesis by (auto simp: validate_record_name_def split: if_splits)
  next
    case (ok u d1)
    then have "d1 = d" by simp
    from ok(2) show ?thesis
    proof (cases rule: then_st_cases)
      case (error x)
      with refused \<open>d1 = d\<close> show ?thesis by (auto simp: KeyState_key_def split: if_splits)
    next
      case (ok key d2)
      then have "d2 = d" using \<open>d1 = d\<close> by simp
      from ok(2) show ?thesis
      proof (cases rule: then_st_cases)
        case (error x)
        then obtain err where "fs_read (sys e) (records_directory s @ [name]) d = (Inl err, d')"
          "x = (if err = Io_NotFound then RecordNotFound else Io err)"
          using \<open>d2 = d\<close> by (auto elim!: err_st_cases)
        with error(2) failed reading_calls(2) show ?thesis by blast
      next
        case (ok bs d3)
        then have rd: "fs_read (sys e) (records_directory s @ [name]) d = (Inr bs, d')"
          and r: "r = open_envelope c key name (take (MAX_RECORD_BYTES + NONCE_BYTES + TAG_BYTES + 10) bs)"
          using \<open>d2 = d\<close> by auto
        from rd have "t_read (records_directory s @ [name]) (tree d) = Inr bs"
          unfolding fs_read_def by (auto dest!: syscall_step(3))
        then have "map_of (tree d) (records_directory s @ [name]) \<noteq> None" by (auto simp: t_read_def split: option.splits)
        with r content reading_calls(2) [OF rd] show ?thesis by blast
      qed
    qed
  qed
qed

lemma store_read_tree: "store_read c e s name d = (r, d') \<Longrightarrow> tree d' = tree d"
  by (erule store_read_cases) simp_all

lemma store_read_not_found:
  assumes "store_read c e s name d = (Inl RecordNotFound, d')"
  shows "map_of (tree d) (records_directory s @ [name]) = None"
  using assms
proof (cases rule: store_read_cases)
  case (failed err)
  then have "err = Io_NotFound" by (auto split: if_splits)
  with failed(2) have "t_read (records_directory s @ [name]) (tree d) = Inl Io_NotFound"
    unfolding fs_read_def by (auto dest!: syscall_step(3))
  then show ?thesis by (auto simp: t_read_def split: option.splits node.splits)
qed (auto dest: open_envelope_errors [OF sym])

lemma store_write_observed:
  assumes "aead_laws c" and "store_write c e s name plaintext d = (Inr (), d')"
  shows "observed c e' s name (tree d') = Inr plaintext"
  using assms(2)
proof (cases rule: store_write_cases)
  case (sealed nonce key ct d4)
  then have "map_of (tree d') (records_directory s @ [name]) =
      Some (Regular (RECORD_MAGIC @ [RECORD_VERSION] @ nonce @ ct) 384)"
    by (intro atomic_write_Inr) simp
  with sealed record_envelope_roundtrip [OF assms(1) sealed(3,2,5)] show ?thesis
    by (simp add: observed_def2 t_read_def)
qed simp

section \<open>Properties of the vaults\<close>

text \<open>
  C15. The device identity is never regenerated over existing state. When the identity record
  exists in any form (readable, corrupt or failing to be read), \<open>load_or_create\<close> writes nothing; and
  when it does create an identity, the next load returns that identity.
\<close>

theorem identity_created_once:
  assumes "aead_laws c" and "codec_laws v" and "IdentityVault_load_or_create c v e s d = (r, d')"
  shows "(map_of (tree d) (records_directory s @ [IDENTITY_RECORD]) \<noteq> None \<longrightarrow> tree d' = tree d)
    \<and> (r = Inr i \<longrightarrow> calm e' \<longrightarrow> map_of (tree d) (records_directory s @ [IDENTITY_RECORD]) = None \<longrightarrow>
         fst (IdentityVault_load_or_create c v e' s (restart (tree d'))) = Inr i)"
proof -
  obtain r1 d1 where rd: "store_read c e s IDENTITY_RECORD d = (r1, d1)" by fastforce
  have t1: "tree d1 = tree d" by (rule store_read_tree [OF rd])
  show ?thesis
  proof (cases "r1 = Inl RecordNotFound")
    case False
    then have "tree d' = tree d" using assms(3) rd t1
      by (auto simp: IdentityVault_load_or_create_def split: sum.splits if_splits)
    moreover have "r \<noteq> Inr i" if "map_of (tree d) (records_directory s @ [IDENTITY_RECORD]) = None"
      using rd
    proof (cases rule: store_read_cases)
      case (content bs key)
      with that show ?thesis by simp
    qed (use False assms(3) rd in \<open>auto simp: IdentityVault_load_or_create_def split: if_splits\<close>)
    ultimately show ?thesis by auto
  next
    case True
    note none = store_read_not_found [OF rd [unfolded True]]
    have "fst (IdentityVault_load_or_create c v e' s (restart (tree d'))) = Inr i" if ri: "r = Inr i" and ce: "calm e'"
    proof -
      obtain encoded d3 where enc: "identity_to_vec v i = Some encoded"
        and w: "store_write c e s IDENTITY_RECORD encoded d3 = (Inr (), d')"
        using assms(3) rd True ri
        by (auto simp: IdentityVault_load_or_create_def elim!: then_st_cases)
      have "observed c e' s IDENTITY_RECORD (tree d') = Inr encoded"
        by (rule store_write_observed [OF assms(1) w])
      then have "fst (store_read c e' s IDENTITY_RECORD (restart (tree d'))) = Inr encoded"
        using ce by (simp add: observed_def2 store_read_calm calm_def)
      then show ?thesis
        using assms(2) enc by (auto simp: IdentityVault_load_or_create_def codec_laws_def split: prod.splits)
    qed
    with none show ?thesis by blast
  qed
qed

definition demo_codec :: vault_codec where
  "demo_codec = \<lparr>identity_to_vec = (\<lambda>i. Some (signing_seed i)), identity_from_slice = (\<lambda>bs. Some \<lparr>signing_seed = bs\<rparr>),
     nostr_to_vec = Some, nostr_from_slice = Some\<rparr>"

lemma demo_codec_laws: "codec_laws demo_codec"
  by (simp add: codec_laws_def demo_codec_def)

lemma valid_records: "validate_record_name IDENTITY_RECORD = Inr ()" "validate_record_name NOSTR_RECORD = Inr ()"
  by (simp_all add: validate_record_name_def IDENTITY_RECORD_def NOSTR_RECORD_def ascii_defs)

theorem identity_created_once_witness:
  "\<exists>i d'. IdentityVault_load_or_create reference_crates demo_codec demo_store_env demo_store (restart demo_tree) = (Inr i, d')
     \<and> fst (IdentityVault_load_or_create reference_crates demo_codec demo_store_env demo_store (restart (tree d'))) = Inr i"
proof -
  have none: "map_of demo_tree (records_directory demo_store @ [IDENTITY_RECORD]) = None"
    by (simp add: demo_tree_def demo_store_def)
  obtain r d1 where rd: "store_read reference_crates demo_store_env demo_store IDENTITY_RECORD (restart demo_tree) = (r, d1)"
    by fastforce
  have "r = fst (store_read reference_crates demo_store_env demo_store IDENTITY_RECORD (restart demo_tree))"
    using rd by simp
  also have "\<dots> = Inl RecordNotFound"
    using none by (simp add: store_read_calm demo_calm valid_records KeyState_key_def t_read_def)
      (simp add: demo_store_def)
  finally have "r = Inl RecordNotFound" .
  let ?d = "d1\<lparr>syscalls := syscalls d1 + 1\<rparr>"
  have "tree ?d = demo_tree" using store_read_tree [OF rd] by simp
  then obtain d' where "store_write reference_crates demo_store_env demo_store IDENTITY_RECORD (replicate 32 0) ?d = (Inr (), d')"
    using demo_write [OF demo_calm(3), where d = ?d and n = IDENTITY_RECORD and bs = "[]" and name = IDENTITY_RECORD
        and plaintext = "replicate 32 0"] valid_records
    by (auto simp: MAX_RECORD_BYTES_def)
  then have load: "IdentityVault_load_or_create reference_crates demo_codec demo_store_env demo_store (restart demo_tree)
      = (Inr \<lparr>signing_seed = replicate 32 0\<rparr>, d')"
    using rd \<open>r = Inl RecordNotFound\<close>
    by (simp add: IdentityVault_load_or_create_def IdentitySecrets_generate_def getrandom_fill_def demo_codec_def
        demo_store_env_def map_replicate_const)
  from identity_created_once [OF reference_aead_laws demo_codec_laws load] none demo_calm(1) load show ?thesis
    by (auto simp: restart_def)
qed

text \<open>A concrete store that holds a Nostr key.\<close>

definition demo_envelope :: "bytes \<Rightarrow> bytes" where
  "demo_envelope k = RECORD_MAGIC @ [RECORD_VERSION] @ replicate 24 0 @ k @ take 16 (replicate 32 7 @ replicate 16 0)"

lemma demo_envelope_observed:
  assumes "length k = 32"
  shows "observed reference_crates e demo_store NOSTR_RECORD (demo_tree_with NOSTR_RECORD (demo_envelope k)) = Inr k"
proof -
  have "xchacha_encrypt reference_crates (replicate 32 7) (replicate 24 0) (record_aad NOSTR_RECORD) k
      = Some (k @ take 16 (replicate 32 7 @ replicate 16 0))"
    by (simp add: reference_crates_def)
  from record_envelope_roundtrip [OF reference_aead_laws _ _ this] assms show ?thesis
    by (simp add: observed_def2 valid_records KeyState_key_def t_read_def demo_store_def demo_tree_with_def
        demo_tree_def demo_envelope_def NONCE_BYTES_def MAX_RECORD_BYTES_def)
qed

lemma demo_envelope_loads:
  assumes "length k = 32" and "faults e = (\<lambda>_. None)"
  shows "fst (NostrVault_load reference_crates demo_codec e demo_store (restart (demo_tree_with NOSTR_RECORD (demo_envelope k))))
      = and_then (map_err NS_Identity (NostrSecret_from_bytes reference_crates k)) (\<lambda>sk. Inr (Some sk))"
proof -
  have "fst (store_read reference_crates e demo_store NOSTR_RECORD (restart (demo_tree_with NOSTR_RECORD (demo_envelope k)))) = Inr k"
    using demo_envelope_observed [OF assms(1), of e] assms(2) [symmetric] by (simp add: observed_def)
  then show ?thesis
    by (auto simp: NostrVault_load_def demo_codec_def split: prod.splits sum.splits)
qed

text \<open>
  C16. Importing a key refuses only what it can read. \<open>save_new\<close> reads the record once. When the read
  succeeds, it refuses and changes nothing. When the read fails, for whatever reason and whatever
  key is stored, it goes on to write: if the write succeeds so does \<open>save_new\<close>, and from then on the
  new key is the one that loads. It never succeeds otherwise. So a stored key that fails to be read
  for a transient reason is replaced instead of being refused.
\<close>

theorem save_new_replaces_key:
  assumes "aead_laws c" and "codec_laws v" and "nostr_to_vec v (secret new) = Some encoded"
    and "store_read c e s NOSTR_RECORD d = (q, d1)" and "calm e'"
  shows "(\<forall>old. q = Inr old \<longrightarrow> NostrVault_save_new c v e s new d = (Inl AlreadyPresent, d1) \<and> tree d1 = tree d)
    \<and> (\<forall>err d'. q = Inl err \<longrightarrow> store_write c e s NOSTR_RECORD encoded d1 = (Inr (), d') \<longrightarrow>
         NostrVault_save_new c v e s new d = (Inr (), d')
         \<and> fst (NostrVault_load c v e' s (restart (tree d'))) =
             and_then (map_err NS_Identity (NostrSecret_from_bytes c (secret new))) (\<lambda>sk. Inr (Some sk)))
    \<and> (\<forall>d'. NostrVault_save_new c v e s new d = (Inr (), d') \<longrightarrow>
         (\<exists>err. q = Inl err) \<and> store_write c e s NOSTR_RECORD encoded d1 = (Inr (), d'))"
proof (intro conjI allI impI)
  fix old assume "q = Inr old"
  then show "NostrVault_save_new c v e s new d = (Inl AlreadyPresent, d1)" "tree d1 = tree d"
    using assms(4) store_read_tree [OF assms(4)] by (simp_all add: NostrVault_save_new_def)
next
  fix err d' assume q: "q = Inl err" and w: "store_write c e s NOSTR_RECORD encoded d1 = (Inr (), d')"
  show "NostrVault_save_new c v e s new d = (Inr (), d')"
    using assms(3,4) q w by (simp add: NostrVault_save_new_def)
  have "fst (store_read c e' s NOSTR_RECORD (restart (tree d'))) = Inr encoded"
    using store_write_observed [OF assms(1) w, of e'] assms(5) by (simp add: observed_def2 store_read_calm calm_def)
  moreover have "nostr_from_slice v encoded = Some (secret new)"
    using assms(2,3) by (simp add: codec_laws_def)
  ultimately show "fst (NostrVault_load c v e' s (restart (tree d'))) =
      and_then (map_err NS_Identity (NostrSecret_from_bytes c (secret new))) (\<lambda>sk. Inr (Some sk))"
    by (auto simp: NostrVault_load_def split: prod.splits)
next
  fix d' assume "NostrVault_save_new c v e s new d = (Inr (), d')"
  then show "\<exists>err. q = Inl err" "store_write c e s NOSTR_RECORD encoded d1 = (Inr (), d')"
    using assms(3,4) by (cases q; simp add: NostrVault_save_new_def)+
qed

theorem save_new_replaces_key_witness:
  "\<exists>e d d' new.
     observed reference_crates e demo_store NOSTR_RECORD (tree d) = Inr (replicate 32 1) \<and> secret new = replicate 32 2
     \<and> NostrVault_save_new reference_crates demo_codec e demo_store new d = (Inr (), d')
     \<and> fst (NostrVault_load reference_crates demo_codec demo_store_env demo_store (restart (tree d'))) =
         and_then (map_err NS_Identity (NostrSecret_from_bytes reference_crates (replicate 32 2))) (\<lambda>sk. Inr (Some sk))"
proof -
  let ?c = reference_crates and ?s = demo_store
  let ?e = "demo_store_env\<lparr>faults := \<lambda>k. if k = 0 then Some \<lparr>written = 0, kept = \<lambda>_. True\<rparr> else None\<rparr>"
  define old :: bytes where "old = replicate 32 1"
  let ?t = "demo_tree_with NOSTR_RECORD (demo_envelope old)"
  let ?new = "\<lparr>secret = replicate 32 2\<rparr> :: nostr_secret"
  have seen: "observed ?c ?e ?s NOSTR_RECORD ?t = Inr old"
    by (rule demo_envelope_observed) (simp add: old_def)
  obtain err d1 where rd: "store_read ?c ?e ?s NOSTR_RECORD (restart ?t) = (Inl err, d1)" and d1: "tree d1 = ?t" "syscalls d1 = 1"
    by (simp add: store_read_def valid_records KeyState_key_def demo_store_def fs_read_def syscall_def restart_def)
  have q: "quiet_from ?e d1" using d1(2) by (simp add: quiet_from_def)
  obtain d' where w: "store_write ?c ?e ?s NOSTR_RECORD (replicate 32 2) d1 = (Inr (), d')"
    using demo_write [OF q, where n = NOSTR_RECORD and bs = "demo_envelope old" and name = NOSTR_RECORD and plaintext = "replicate 32 2"] d1(1) valid_records
    by (auto simp: MAX_RECORD_BYTES_def)
  have "nostr_to_vec demo_codec (secret ?new) = Some (replicate 32 2)" by (simp add: demo_codec_def)
  from save_new_replaces_key [OF reference_aead_laws demo_codec_laws this rd demo_calm(1)] w seen show ?thesis
    by (metis nostr_secret.select_convs(1) old_def tree_restart)
qed

end
