(* ===== verification/Ipc.thy ===== *)
theory Ipc
  imports Hosted_Proto
begin

text \<open>
  The daemon's local protocol (\<open>omachat-proto/src/ipc.rs\<close>): requests, responses and events as
  newline-delimited JSON. The requests are read through a strict wire form; the incremental
  \<open>RequestDecoder\<close> is compared with a reference decoder that sees the whole stream at once.

  The decoder works for any way of reading and writing single messages, the parameter \<open>serde\<close> below;
  \<open>Ipc_Wire\<close> defines the one of the program.
\<close>

section \<open>Messages\<close>

definition VERSION :: u16 where "VERSION = 4"
definition MAX_LINE_BYTES :: nat where "MAX_LINE_BYTES = 64 * 1024"
definition MAX_CORRELATION_ID_BYTES :: nat where "MAX_CORRELATION_ID_BYTES = 128"

lemmas ipc_consts = VERSION_def MAX_LINE_BYTES_def MAX_CORRELATION_ID_BYTES_def

datatype topic = Topic_Status | Topic_Conversations | Topic_Messages | Topic_Presence | Topic_Delivery

datatype command =
    Hello u16 u16
  | Status
  | Fingerprint
  | IdentityShow
  | IdentityExport
  | IdentityGenerate
  | IdentityImport string
  | RequestPanicConfirmation
  | Panic string
  | Subscribe "topic list"
  | HostedClaimHandle string
  | HostedResolveHandle string
  | HostedBindNostr
  | HostedUnbindNostr
  | ChatPrepare
  | ContactsAdd string
  | ContactsRemove string
  | ContactsList
  | RelaysShow
  | RelaysSet "string list"
  | Send string string
  | Messages

record request =
  version :: u16
  request_id :: string
  request_command :: command

datatype ipc_error_code =
    Ipc_InvalidRequest
  | Ipc_VersionMismatch
  | Ipc_NotFound
  | Ipc_Conflict
  | Ipc_Unavailable
  | Ipc_Internal

record error_body =
  error_code :: ipc_error_code
  error_message :: string

datatype response_outcome = Outcome_Ok json | Outcome_Error error_body

record response =
  response_version :: u16
  response_id :: string
  outcome :: response_outcome

record ipc_event =
  event_version :: u16
  event_sequence :: u64
  event_topic :: topic
  event_payload :: json

datatype ipc_error =
    LineTooLarge nat
  | MalformedJson
  | TruncatedLine
  | Encoding
  | InvalidCorrelationId
  | UnsupportedVersion u16
  | VersionMismatch u16 u16 u16

section \<open>The strict wire form\<close>

record hello_params =
  minimum_version :: u16
  maximum_version :: u16

record handle_params =
  handle_param :: string

record identity_import_params =
  nsec_param :: string

record confirmation_params =
  confirmation_param :: string

record subscribe_params =
  topics_param :: "topic list"

record peer_params =
  peer_param :: string

record npub_params =
  npub_param :: string

record relays_params =
  relays_param :: "string list"

record send_params =
  send_peer :: string
  send_text_param :: string

datatype strict_request_wire =
    Wire_Hello u16 string hello_params
  | Wire_Status u16 string
  | Wire_Fingerprint u16 string
  | Wire_IdentityShow u16 string
  | Wire_IdentityExport u16 string
  | Wire_IdentityGenerate u16 string
  | Wire_IdentityImport u16 string identity_import_params
  | Wire_RequestPanicConfirmation u16 string
  | Wire_Panic u16 string confirmation_params
  | Wire_Subscribe u16 string subscribe_params
  | Wire_HostedClaimHandle u16 string handle_params
  | Wire_HostedResolveHandle u16 string handle_params
  | Wire_HostedBindNostr u16 string
  | Wire_HostedUnbindNostr u16 string
  | Wire_ChatPrepare u16 string
  | Wire_ContactsAdd u16 string peer_params
  | Wire_ContactsRemove u16 string npub_params
  | Wire_ContactsList u16 string
  | Wire_RelaysShow u16 string
  | Wire_RelaysSet u16 string relays_params
  | Wire_Send u16 string send_params
  | Wire_Messages u16 string

definition make_request :: "u16 \<Rightarrow> string \<Rightarrow> command \<Rightarrow> request" where
  "make_request v i c = \<lparr>version = v, request_id = i, request_command = c\<rparr>"

fun Request_from :: "strict_request_wire \<Rightarrow> request" where
  "Request_from (Wire_Hello v i p) = make_request v i (Hello (minimum_version p) (maximum_version p))"
| "Request_from (Wire_Status v i) = make_request v i Status"
| "Request_from (Wire_Fingerprint v i) = make_request v i Fingerprint"
| "Request_from (Wire_IdentityShow v i) = make_request v i IdentityShow"
| "Request_from (Wire_IdentityExport v i) = make_request v i IdentityExport"
| "Request_from (Wire_IdentityGenerate v i) = make_request v i IdentityGenerate"
| "Request_from (Wire_IdentityImport v i p) = make_request v i (IdentityImport (nsec_param p))"
| "Request_from (Wire_RequestPanicConfirmation v i) = make_request v i RequestPanicConfirmation"
| "Request_from (Wire_Panic v i p) = make_request v i (Panic (confirmation_param p))"
| "Request_from (Wire_Subscribe v i p) = make_request v i (Subscribe (topics_param p))"
| "Request_from (Wire_HostedClaimHandle v i p) = make_request v i (HostedClaimHandle (handle_param p))"
| "Request_from (Wire_HostedResolveHandle v i p) = make_request v i (HostedResolveHandle (handle_param p))"
| "Request_from (Wire_HostedBindNostr v i) = make_request v i HostedBindNostr"
| "Request_from (Wire_HostedUnbindNostr v i) = make_request v i HostedUnbindNostr"
| "Request_from (Wire_ChatPrepare v i) = make_request v i ChatPrepare"
| "Request_from (Wire_ContactsAdd v i p) = make_request v i (ContactsAdd (peer_param p))"
| "Request_from (Wire_ContactsRemove v i p) = make_request v i (ContactsRemove (npub_param p))"
| "Request_from (Wire_ContactsList v i) = make_request v i ContactsList"
| "Request_from (Wire_RelaysShow v i) = make_request v i RelaysShow"
| "Request_from (Wire_RelaysSet v i p) = make_request v i (RelaysSet (relays_param p))"
| "Request_from (Wire_Send v i p) = make_request v i (Send (send_peer p) (send_text_param p))"
| "Request_from (Wire_Messages v i) = make_request v i Messages"

datatype strict_response_wire =
    Wire_Ok u16 string json
  | Wire_Error u16 string error_body

fun Response_from :: "strict_response_wire \<Rightarrow> response" where
  "Response_from (Wire_Ok v i r) = \<lparr>response_version = v, response_id = i, outcome = Outcome_Ok r\<rparr>"
| "Response_from (Wire_Error v i e) = \<lparr>response_version = v, response_id = i, outcome = Outcome_Error e\<rparr>"

text \<open>
  The JSON layer: \<open>wire_from_slice\<close> reads the bytes of one line into the strict wire form (with the
  derived deserializer), \<open>request_to_vec\<close>, \<open>response_to_vec\<close> and \<open>event_to_vec\<close> are
  \<open>serde_json::to_vec\<close> of the serialized messages.
\<close>

record serde =
  wire_from_slice :: "bytes \<Rightarrow> strict_request_wire option"
  request_to_vec :: "request \<Rightarrow> bytes option"
  response_to_vec :: "response \<Rightarrow> bytes option"
  event_to_vec :: "ipc_event \<Rightarrow> bytes option"

definition Request_deserialize :: "serde \<Rightarrow> bytes \<Rightarrow> request option" where
  "Request_deserialize js line = map_option Request_from (wire_from_slice js line)"

section \<open>Operations\<close>

definition negotiate :: "u16 \<Rightarrow> u16 \<Rightarrow> ipc_error + u16" where
  "negotiate lo hi =
     (if lo \<le> VERSION \<and> VERSION \<le> hi then Inr VERSION
      else Inl (VersionMismatch lo hi VERSION))"

definition validate_request :: "request \<Rightarrow> ipc_error + unit" where
  "validate_request r =
     (if version r \<noteq> VERSION then Inl (UnsupportedVersion (version r))
      else if request_id r = [] \<or> MAX_CORRELATION_ID_BYTES < length (request_id r)
              \<or> (\<exists>c \<in> set (chars (request_id r)). char_is_control c)
      then Inl InvalidCorrelationId
      else Inr ())"

definition encode_line :: "('m \<Rightarrow> bytes option) \<Rightarrow> 'm \<Rightarrow> ipc_error + bytes" where
  "encode_line to_vec msg =
     (case to_vec msg of
        None \<Rightarrow> Inl Encoding
      | Some encoded \<Rightarrow>
          if MAX_LINE_BYTES < length encoded then Inl (LineTooLarge MAX_LINE_BYTES)
          else Inr (encoded @ [10]))"

record request_decoder =
  buffer :: bytes
  maximum :: nat

definition decoder_new :: "nat \<Rightarrow> request_decoder" where
  "decoder_new m = \<lparr>buffer = [], maximum = m\<rparr>"

definition decoder_default :: request_decoder where
  "decoder_default = decoder_new MAX_LINE_BYTES"

definition position :: "('a \<Rightarrow> bool) \<Rightarrow> 'a list \<Rightarrow> nat option" where
  "position P xs = (if \<exists>x \<in> set xs. P x then Some (length (takeWhile (\<lambda>x. \<not> P x) xs)) else None)"

definition strip_cr :: "bytes \<Rightarrow> bytes" where
  "strip_cr line = (if line \<noteq> [] \<and> last line = 13 then butlast line else line)"

text \<open>One complete line: the request it holds, if it can be read and is valid.\<close>

definition read_line :: "serde \<Rightarrow> bytes \<Rightarrow> ipc_error + request" where
  "read_line js line =
     (case Request_deserialize js (strip_cr line) of
        None \<Rightarrow> Inl MalformedJson
      | Some request \<Rightarrow> and_then (validate_request request) (\<lambda>_. Inr request))"

lemma position_Some:
  "position P xs = Some n \<Longrightarrow> n < length xs \<and> P (xs ! n) \<and> (\<forall>i < n. \<not> P (xs ! i))"
proof -
  assume "position P xs = Some n"
  then have "\<exists>x \<in> set xs. P x" and n: "n = length (takeWhile (\<lambda>x. \<not> P x) xs)"
    by (auto simp: position_def split: if_splits)
  then obtain ys x zs where "xs = ys @ x # zs" "P x" "\<forall>y \<in> set ys. \<not> P y"
    using split_list_first_prop [of xs P] by blast
  moreover from this n have "n = length ys" by (simp add: takeWhile_tail)
  ultimately show ?thesis by (auto simp: nth_append)
qed

function push_lines :: "serde \<Rightarrow> nat \<Rightarrow> bytes \<Rightarrow> request list \<Rightarrow> (ipc_error + request list) \<times> bytes" where
  "push_lines js m buf decoded =
     (case position (\<lambda>b. b = 10) buf of
        None \<Rightarrow> (Inr decoded, buf)
      | Some newline \<Rightarrow>
          if m < newline then (Inl (LineTooLarge m), drop (newline + 1) buf)
          else
            case read_line js (take newline buf) of
              Inl e \<Rightarrow> (Inl e, drop (newline + 1) buf)
            | Inr request \<Rightarrow> push_lines js m (drop (newline + 1) buf) (decoded @ [request]))"
  by auto
termination
  by (relation "measure (\<lambda>(_, _, buf, _). length buf)") (auto dest: position_Some)

declare push_lines.simps [simp del]

definition push :: "serde \<Rightarrow> bytes \<Rightarrow> request_decoder \<Rightarrow> (ipc_error + request list) \<times> request_decoder" where
  "push js bs d =
     (let len = length (buffer d) in
      if maximum d < min (len + length bs) (2 ^ 64 - 1)
         \<and> \<not> (\<exists>b \<in> set (take (maximum d - len + 1) bs). b = 10)
      then (Inl (LineTooLarge (maximum d)), d\<lparr>buffer := []\<rparr>)
      else
        case push_lines js (maximum d) (buffer d @ bs) [] of
          (Inl e, buf) \<Rightarrow> (Inl e, d\<lparr>buffer := buf\<rparr>)
        | (Inr decoded, buf) \<Rightarrow>
            if maximum d < length buf
            then (Inl (LineTooLarge (maximum d)), d\<lparr>buffer := []\<rparr>)
            else (Inr decoded, d\<lparr>buffer := buf\<rparr>))"

definition finish :: "request_decoder \<Rightarrow> ipc_error + unit" where
  "finish d = (if buffer d = [] then Inr () else Inl TruncatedLine)"

section \<open>The reference decoder\<close>

text \<open>All complete lines of a byte stream, and the unfinished last one.\<close>

fun split_lines :: "bytes \<Rightarrow> bytes list \<times> bytes" where
  "split_lines [] = ([], [])"
| "split_lines (b # bs) =
     (case split_lines bs of (ls, rest) \<Rightarrow>
        if b = 10 then ([] # ls, rest)
        else case ls of [] \<Rightarrow> ([], b # rest) | l # ls \<Rightarrow> ((b # l) # ls, rest))"

definition line_ok :: "serde \<Rightarrow> nat \<Rightarrow> bytes \<Rightarrow> bool" where
  "line_ok js m line \<longleftrightarrow> length line \<le> m \<and> \<not> isl (read_line js line)"

definition decode_stream :: "serde \<Rightarrow> nat \<Rightarrow> bytes \<Rightarrow> (request list \<times> bytes) option" where
  "decode_stream js m bs =
     (case split_lines bs of (ls, rest) \<Rightarrow>
        if list_all (line_ok js m) ls \<and> length rest \<le> m
        then Some (map (\<lambda>l. projr (read_line js l)) ls, rest) else None)"

text \<open>What a connection does with the decoder: push chunk after chunk until the first error.\<close>

fun feed :: "serde \<Rightarrow> request_decoder \<Rightarrow> bytes list \<Rightarrow> ipc_error + request list \<times> request_decoder" where
  "feed js d [] = Inr ([], d)"
| "feed js d (c # cs) =
     (case push js c d of
        (Inl e, _) \<Rightarrow> Inl e
      | (Inr rs, d) \<Rightarrow> and_then (feed js d cs) (\<lambda>(rs', d). Inr (rs @ rs', d)))"

lemma split_lines_append:
  "split_lines (xs @ ys) =
     (case split_lines xs of (ls, rest) \<Rightarrow>
        case split_lines (rest @ ys) of (ls', rest') \<Rightarrow> (ls @ ls', rest'))"
  by (induction xs) (auto split: prod.splits list.splits)

lemma split_lines_plain: "10 \<notin> set xs \<Longrightarrow> split_lines xs = ([], xs)"
  by (induction xs) auto

lemma split_lines_line: "10 \<notin> set l \<Longrightarrow> split_lines (l @ 10 # r) = (l # fst (split_lines r), snd (split_lines r))"
  by (induction l) (auto split: prod.splits)

lemma split_lines_rest: "10 \<notin> set (snd (split_lines xs))"
  by (induction xs) (auto split: prod.splits list.splits if_splits)

lemma position_None: "position P xs = None \<longleftrightarrow> (\<forall>x \<in> set xs. \<not> P x)"
  by (auto simp: position_def)

lemma split_lines_position:
  assumes "position (\<lambda>b. b = 10) xs = Some n"
  shows "split_lines xs = (take n xs # fst (split_lines (drop (n + 1) xs)), snd (split_lines (drop (n + 1) xs)))"
proof -
  from position_Some [OF assms] have n: "n < length xs" "xs ! n = 10" "\<forall>i < n. xs ! i \<noteq> 10" by auto
  then have "10 \<notin> set (take n xs)" by (auto simp: in_set_conv_nth)
  from split_lines_line [OF this, of "drop (n + 1) xs"] show ?thesis
    using id_take_nth_drop [OF n(1)] n(2) by simp
qed

lemma push_lines_Inr:
  "push_lines js m buf acc = (Inr out, rest) \<longleftrightarrow>
     list_all (line_ok js m) (fst (split_lines buf)) \<and> rest = snd (split_lines buf)
     \<and> out = acc @ map (\<lambda>l. projr (read_line js l)) (fst (split_lines buf))"
proof (induction js m buf acc rule: push_lines.induct)
  case (1 js m buf acc)
  show ?case
  proof (cases "position (\<lambda>b. b = 10) buf")
    case None
    then have "split_lines buf = ([], buf)" by (auto simp: position_None intro: split_lines_plain)
    with None show ?thesis by (auto simp: push_lines.simps [of js m buf])
  next
    case (Some n)
    note split = split_lines_position [OF Some]
    have len: "length (take n buf) = n" using position_Some [OF Some] by simp
    show ?thesis
    proof (cases "m < n")
      case True
      with Some split len show ?thesis by (simp add: push_lines.simps [of js m buf] line_ok_def)
    next
      case False
      show ?thesis
      proof (cases "read_line js (take n buf)")
        case (Inl e)
        with Some False split show ?thesis by (simp add: push_lines.simps [of js m buf] line_ok_def)
      next
        case (Inr r)
        from "1.IH" [OF Some False Inr] Some False Inr split len show ?thesis
          by (auto simp: push_lines.simps [of js m buf] line_ok_def)
      qed
    qed
  qed
qed

lemma long_line:
  assumes "m < length xs" and "10 \<notin> set (take (m + 1) xs)"
  shows "decode_stream js m xs = None"
proof (cases "10 \<in> set xs")
  case False
  with assms(1) show ?thesis by (simp add: decode_stream_def split_lines_plain)
next
  case True
  then obtain l r where xs: "xs = l @ 10 # r" "10 \<notin> set l" by (meson split_list_first)
  have "m < length l"
  proof (rule ccontr)
    assume "\<not> m < length l"
    then have "10 \<in> set (take (m + 1) xs)" by (simp add: xs take_Cons' )
    with assms(2) show False by simp
  qed
  with split_lines_line [OF xs(2), of r] show ?thesis by (simp add: decode_stream_def xs(1) line_ok_def)
qed

definition decoder_inv :: "request_decoder \<Rightarrow> bool" where
  "decoder_inv d \<longleftrightarrow> 10 \<notin> set (buffer d) \<and> length (buffer d) \<le> maximum d"

lemma push_Inr:
  assumes "decoder_inv d"
  shows "push js bs d = (Inr rs, d') \<longleftrightarrow>
    decode_stream js (maximum d) (buffer d @ bs) = Some (rs, buffer d') \<and> maximum d' = maximum d"
proof -
  let ?xs = "buffer d @ bs"
  have d': "d' = d\<lparr>buffer := buffer d'\<rparr> \<longleftrightarrow> maximum d' = maximum d"
    by (cases d, cases d') auto
  show ?thesis
  proof (cases "maximum d < min (length ?xs) (2 ^ 64 - 1) \<and> 10 \<notin> set (take (maximum d - length (buffer d) + 1) bs)")
    case True
    with assms have "10 \<notin> set (take (maximum d + 1) ?xs)"
      by (auto simp: decoder_inv_def take_append Suc_diff_le dest: in_set_takeD)
    with True have "decode_stream js (maximum d) ?xs = None" by (intro long_line) auto
    with True show ?thesis by (auto simp: push_def Let_def)
  next
    case False
    obtain r buf where pl: "push_lines js (maximum d) ?xs [] = (r, buf)" by fastforce
    show ?thesis
    proof (cases r)
      case (Inl e)
      then have "\<not> list_all (line_ok js (maximum d)) (fst (split_lines ?xs))"
        using push_lines_Inr [of js "maximum d" ?xs "[]"] pl by fastforce
      with False pl Inl show ?thesis by (auto simp: push_def Let_def decode_stream_def split: prod.splits)
    next
      case (Inr out)
      with push_lines_Inr [of js "maximum d" ?xs "[]" out buf] pl
      have ok: "list_all (line_ok js (maximum d)) (fst (split_lines ?xs))" "buf = snd (split_lines ?xs)"
        "out = map (\<lambda>l. projr (read_line js l)) (fst (split_lines ?xs))" by auto
      with False pl Inr d' show ?thesis
        by (auto simp: push_def Let_def decode_stream_def split: prod.splits)
    qed
  qed
qed

lemma decode_stream_rest:
  "decode_stream js m xs = Some (rs, rest) \<Longrightarrow> 10 \<notin> set rest \<and> length rest \<le> m"
  using split_lines_rest [of xs] by (auto simp: decode_stream_def split: prod.splits if_splits)

lemma push_inv: "decoder_inv d \<Longrightarrow> push js bs d = (Inr rs, d') \<Longrightarrow> decoder_inv d'"
  by (auto simp: push_Inr decoder_inv_def dest: decode_stream_rest)

lemma rest_prefix:
  assumes "list_all (line_ok js m) (fst (split_lines (rest @ ys)))" and "10 \<notin> set rest"
    and "length (snd (split_lines (rest @ ys))) \<le> m"
  shows "length rest \<le> m"
proof (cases "10 \<in> set ys")
  case True
  then obtain l r where ys: "ys = l @ 10 # r" "10 \<notin> set l" by (meson split_list_first)
  with assms(2) have "10 \<notin> set (rest @ l)" by simp
  from split_lines_line [OF this, of r] assms(1) ys(1) show ?thesis by (simp add: line_ok_def)
next
  case False
  with assms show ?thesis by (simp add: split_lines_plain)
qed

lemma decode_stream_append:
  "decode_stream js m (xs @ ys) = Some (rs, rest) \<longleftrightarrow>
     (\<exists>r1 mid r2. decode_stream js m xs = Some (r1, mid) \<and> decode_stream js m (mid @ ys) = Some (r2, rest)
        \<and> rs = r1 @ r2)"
  using rest_prefix [of js m "snd (split_lines xs)" ys] split_lines_rest [of xs]
  by (auto simp: decode_stream_def split_lines_append [of xs] split: prod.splits if_splits)

lemma decode_stream_nil: "10 \<notin> set b \<Longrightarrow> length b \<le> m \<Longrightarrow> decode_stream js m b = Some ([], b)"
  by (simp add: decode_stream_def split_lines_plain)

lemma feed_Inr:
  "decoder_inv d \<Longrightarrow> feed js d cs = Inr (rs, d') \<longleftrightarrow>
     decode_stream js (maximum d) (buffer d @ concat cs) = Some (rs, buffer d') \<and> maximum d' = maximum d"
proof (induction cs arbitrary: d rs)
  case Nil
  then have "decode_stream js (maximum d) (buffer d) = Some ([], buffer d)"
    by (auto simp: decoder_inv_def intro: decode_stream_nil)
  then show ?case by (cases d; cases d') auto
next
  case (Cons c cs)
  have step: "feed js d (c # cs) = Inr (rs, d') \<longleftrightarrow>
      (\<exists>r1 d1 r2. (push js c d = (Inr r1, d1) \<and> feed js d1 cs = Inr (r2, d')) \<and> rs = r1 @ r2)"
    by (auto split: prod.splits sum.splits)
  have "push js c d = (Inr r1, d1) \<and> feed js d1 cs = Inr (r2, d') \<longleftrightarrow>
      decode_stream js (maximum d) (buffer d @ c) = Some (r1, buffer d1) \<and> maximum d1 = maximum d
      \<and> decode_stream js (maximum d) (buffer d1 @ concat cs) = Some (r2, buffer d') \<and> maximum d' = maximum d"
    for r1 d1 r2
    using Cons.IH [OF push_inv [OF Cons.prems, of js c r1 d1], of r2] push_Inr [OF Cons.prems, of js c r1 d1]
    by auto
  then have "feed js d (c # cs) = Inr (rs, d') \<longleftrightarrow>
      (\<exists>r1 (d1 :: request_decoder) r2. decode_stream js (maximum d) (buffer d @ c) = Some (r1, buffer d1) \<and> maximum d1 = maximum d
      \<and> decode_stream js (maximum d) (buffer d1 @ concat cs) = Some (r2, buffer d') \<and> maximum d' = maximum d
      \<and> rs = r1 @ r2)"
    unfolding step by (simp only: conj_assoc)
  also have "\<dots> \<longleftrightarrow> (\<exists>r1 mid r2. decode_stream js (maximum d) (buffer d @ c) = Some (r1, mid)
      \<and> decode_stream js (maximum d) (mid @ concat cs) = Some (r2, buffer d') \<and> maximum d' = maximum d
      \<and> rs = r1 @ r2)"
    by (metis request_decoder.select_convs)
  also have "\<dots> \<longleftrightarrow> decode_stream js (maximum d) (buffer d @ concat (c # cs)) = Some (rs, buffer d')
      \<and> maximum d' = maximum d"
    using decode_stream_append [of js "maximum d" "buffer d @ c" "concat cs" rs "buffer d'"] by auto
  finally show ?case .
qed

section \<open>Properties\<close>

text \<open>
  C20. How the bytes of a connection are cut into reads does not matter. Pushing any chunks into
  a new decoder yields a list of requests and a retained partial line exactly when the reference
  decoder, which sees the whole stream at once, reads that list (every complete line within the
  maximum, well-formed and valid) and is left with that partial line, itself within the maximum.
\<close>

theorem chunking_irrelevant:
  "feed js (decoder_new m) cs = Inr (rs, d) \<longleftrightarrow>
     decode_stream js m (concat cs) = Some (rs, buffer d) \<and> maximum d = m"
proof -
  have "decoder_inv (decoder_new m)" by (simp add: decoder_inv_def decoder_new_def)
  from feed_Inr [OF this, of js cs rs d] show ?thesis by (simp add: decoder_new_def)
qed

text \<open>A small instance, for examples.\<close>

definition reference_serde :: serde where
  "reference_serde =
     \<lparr>wire_from_slice = (\<lambda>bs. if bs = [115] then Some (Wire_Status 4 ''1'')
                             else if bs = [109] then Some (Wire_Messages 4 ''2'') else None),
      request_to_vec = (\<lambda>r. if r = make_request 4 ''1'' Status then Some [115]
                            else if r = make_request 4 ''2'' Messages then Some [109] else None),
      response_to_vec = (\<lambda>_. None), event_to_vec = (\<lambda>_. None)\<rparr>"

end
