(* ===== verification/Ipc_Server.thy ===== *)
theory Ipc_Server
  imports Ipc Files Primitives
begin

text \<open>
  The daemon's socket server (\<open>omachatd/src/ipc_server.rs\<close>): the event hub that fans events out over
  bounded channels, the request loop of one client, the accept loop and the private publication of
  the socket. The handler of requests is a parameter with its own state; the socket and the
  shutdown flag are given by what each read delivers.
\<close>

section \<open>Event hub\<close>

definition EVENT_QUEUE_CAPACITY :: nat where "EVENT_QUEUE_CAPACITY = 64"

text \<open>A bounded channel: its queue, whether the receiver still exists, and what it has received.\<close>

record channel =
  ch_queue :: "ipc_event list"
  ch_open :: bool
  ch_taken :: "ipc_event list"

record event_hub =
  subscribers :: "nat list"
  channels :: "channel list"

definition subscribe :: "event_hub \<Rightarrow> nat \<times> event_hub" where
  "subscribe h =
     (let i = length (channels h) in
      (i, h\<lparr>subscribers := subscribers h @ [i],
            channels := channels h @ [\<lparr>ch_queue = [], ch_open = True, ch_taken = []\<rparr>]\<rparr>))"

fun retain_senders :: "ipc_event \<Rightarrow> nat list \<Rightarrow> channel list \<Rightarrow> nat list \<times> channel list" where
  "retain_senders ev [] cs = ([], cs)"
| "retain_senders ev (i # is) cs =
     (let c = cs ! i in
      if \<not> ch_open c \<or> EVENT_QUEUE_CAPACITY \<le> length (ch_queue c) then retain_senders ev is cs
      else
        let (live, cs) = retain_senders ev is (cs[i := c\<lparr>ch_queue := ch_queue c @ [ev]\<rparr>]) in
        (i # live, cs))"

definition publish :: "ipc_event \<Rightarrow> event_hub \<Rightarrow> event_hub" where
  "publish ev h =
     (let (live, cs) = retain_senders ev (subscribers h) (channels h) in
      h\<lparr>subscribers := live, channels := cs\<rparr>)"

definition subscriber_count :: "event_hub \<Rightarrow> nat" where
  "subscriber_count h = length (subscribers h)"

text \<open>
  \<open>recv\<close> of a channel: \<open>None\<close> while it would wait, \<open>Some None\<close> when the queue is empty and the sender
  is gone.
\<close>

definition hub_recv :: "nat \<Rightarrow> event_hub \<Rightarrow> (ipc_event option \<times> event_hub) option" where
  "hub_recv i h =
     (case ch_queue (channels h ! i) of
        ev # rest \<Rightarrow>
          Some (Some ev, h\<lparr>channels := (channels h)[i := (channels h ! i)
            \<lparr>ch_queue := rest, ch_taken := ch_taken (channels h ! i) @ [ev]\<rparr>]\<rparr>)
      | [] \<Rightarrow> if i \<in> set (subscribers h) then None else Some (None, h))"

definition hub_close :: "nat \<Rightarrow> event_hub \<Rightarrow> event_hub" where
  "hub_close i h = h\<lparr>channels := (channels h)[i := (channels h ! i)\<lparr>ch_open := False\<rparr>]\<rparr>"

datatype hub_op = Hub_Subscribe | Hub_Publish ipc_event | Hub_Recv nat | Hub_Close nat

fun hub_step :: "hub_op \<Rightarrow> event_hub \<Rightarrow> event_hub" where
  "hub_step Hub_Subscribe h = snd (subscribe h)"
| "hub_step (Hub_Publish ev) h = publish ev h"
| "hub_step (Hub_Recv i) h = (case hub_recv i h of Some (_, h) \<Rightarrow> h | None \<Rightarrow> h)"
| "hub_step (Hub_Close i) h = hub_close i h"

section \<open>One client\<close>

datatype ipc_server_error = Srv_Io | Srv_Protocol ipc_error | OccupiedPath | AlreadyRunning

fun IpcError_display :: "ipc_error \<Rightarrow> string" where
  "IpcError_display (LineTooLarge m) = ''IPC line exceeds '' @ decimal m @ '' bytes''"
| "IpcError_display MalformedJson = ''IPC line is malformed JSON''"
| "IpcError_display TruncatedLine = ''IPC stream ended inside a line''"
| "IpcError_display Encoding = ''IPC message encoding failed''"
| "IpcError_display InvalidCorrelationId = ''IPC correlation ID is invalid''"
| "IpcError_display (UnsupportedVersion v) = ''unsupported IPC version '' @ decimal (unat v)"
| "IpcError_display (VersionMismatch lo hi s) =
     ''IPC versions '' @ decimal (unat lo) @ ''..='' @ decimal (unat hi)
     @ '' do not include supported version '' @ decimal (unat s)"

definition protocol_error :: "ipc_error_code \<Rightarrow> ipc_error \<Rightarrow> response_outcome" where
  "protocol_error kind err = Outcome_Error \<lparr>error_code = kind, error_message = IpcError_display err\<rparr>"

text \<open>
  The environment of a client: the JSON layer, the request handler on its own state and the hub,
  the \<open>k\<close>-th value read from the shutdown flag, and whether the \<open>k\<close>-th write succeeds. The state
  keeps the requests taken and the requests handed to the handler, in order.
\<close>

record 'h client_env =
  cl_serde :: serde
  cl_handle :: "request \<Rightarrow> 'h \<times> event_hub \<Rightarrow> response_outcome \<times> 'h \<times> event_hub"
  cl_flag :: "nat \<Rightarrow> bool"
  cl_write_ok :: "nat \<Rightarrow> bool"

record 'h client =
  cl_decoder :: request_decoder
  cl_negotiated :: bool
  cl_topics :: "topic list"
  cl_receiver :: "nat option"
  cl_hub :: event_hub
  cl_state :: 'h
  cl_written :: "bytes list"
  cl_reads :: nat
  cl_taken :: "request list"
  cl_handled :: "request list"

definition client_new :: "event_hub \<Rightarrow> 'h \<Rightarrow> 'h client" where
  "client_new hub h =
     \<lparr>cl_decoder = decoder_default, cl_negotiated = False, cl_topics = [], cl_receiver = None,
      cl_hub = hub, cl_state = h, cl_written = [], cl_reads = 0, cl_taken = [], cl_handled = []\<rparr>"

definition run_handler :: "'h client_env \<Rightarrow> request \<Rightarrow> 'h client \<Rightarrow> response_outcome \<times> 'h client" where
  "run_handler env r cl =
     (let (out, h, hub) = cl_handle env r (cl_state cl, cl_hub cl) in
      (out, cl\<lparr>cl_state := h, cl_hub := hub, cl_handled := cl_handled cl @ [r]\<rparr>))"

text \<open>A new subscription replaces the receiver, and with it closes the old channel.\<close>

definition client_subscribe :: "topic list \<Rightarrow> 'h client \<Rightarrow> 'h client" where
  "client_subscribe requested cl =
     (let (i, hub) = subscribe (cl_hub cl);
          hub = (case cl_receiver cl of None \<Rightarrow> hub | Some old \<Rightarrow> hub_close old hub) in
      cl\<lparr>cl_topics := requested, cl_receiver := Some i, cl_hub := hub\<rparr>)"

definition client_outcome :: "'h client_env \<Rightarrow> request \<Rightarrow> 'h client \<Rightarrow> response_outcome \<times> 'h client" where
  "client_outcome env r cl =
     (case request_command r of
        Hello lo hi \<Rightarrow>
          (case negotiate lo hi of
             Inr v \<Rightarrow> (Outcome_Ok (JObj [(''version'', JInt (uint v))]), cl\<lparr>cl_negotiated := True\<rparr>)
           | Inl err \<Rightarrow> (protocol_error Ipc_VersionMismatch err, cl))
      | Subscribe requested \<Rightarrow>
          if \<not> cl_negotiated cl then (protocol_error Ipc_VersionMismatch (VersionMismatch 0 0 VERSION), cl)
          else run_handler env r (client_subscribe requested cl)
      | _ \<Rightarrow>
          if \<not> cl_negotiated cl then (protocol_error Ipc_VersionMismatch (VersionMismatch 0 0 VERSION), cl)
          else run_handler env r cl)"

text \<open>The requests of one read; \<open>None\<close> means that the loop goes on.\<close>

fun serve_requests ::
  "'h client_env \<Rightarrow> request list \<Rightarrow> 'h client \<Rightarrow> (ipc_server_error + unit) option \<times> 'h client" where
  "serve_requests env [] cl = (None, cl)"
| "serve_requests env (r # rs) cl =
     (let (out, cl) = client_outcome env r (cl\<lparr>cl_taken := cl_taken cl @ [r]\<rparr>) in
      case encode_line (response_to_vec (cl_serde env))
             \<lparr>response_version = VERSION, response_id = request_id r, outcome = out\<rparr> of
        Inl err \<Rightarrow> (Some (Inl (Srv_Protocol err)), cl)
      | Inr line \<Rightarrow>
          if \<not> cl_write_ok env (length (cl_written cl)) then (Some (Inl Srv_Io), cl)
          else
            let cl = cl\<lparr>cl_written := cl_written cl @ [line]\<rparr> in
            if \<not> cl_negotiated cl then (Some (Inr ()), cl)
            else
              let stop = cl_flag env (cl_reads cl); cl = cl\<lparr>cl_reads := cl_reads cl + 1\<rparr> in
              if stop then (Some (Inr ()), cl) else serve_requests env rs cl)"

text \<open>
  What the loop can be given: a change of the shutdown flag (and whether to stop), the bytes of a
  read (none on failure, empty at the end of the stream), readiness of the event channel together
  with a shutdown change that may win against the write, or a hub operation of another task.
\<close>

datatype client_input =
    In_Shutdown bool
  | In_Read "bytes option"
  | In_Event "bool option"
  | In_Hub hub_op

definition forward_event ::
  "'h client_env \<Rightarrow> bool option \<Rightarrow> 'h client \<Rightarrow> (ipc_server_error + unit) option \<times> 'h client" where
  "forward_event env race cl =
     (case cl_receiver cl of
        None \<Rightarrow> (None, cl)
      | Some i \<Rightarrow>
          (case hub_recv i (cl_hub cl) of
             None \<Rightarrow> (None, cl)
           | Some (None, hub) \<Rightarrow> (Some (Inr ()), cl\<lparr>cl_hub := hub\<rparr>)
           | Some (Some ev, hub) \<Rightarrow>
               let cl = cl\<lparr>cl_hub := hub\<rparr> in
               if event_topic ev \<notin> set (cl_topics cl) then (None, cl)
               else
                 case encode_line (event_to_vec (cl_serde env)) ev of
                   Inl err \<Rightarrow> (Some (Inl (Srv_Protocol err)), cl)
                 | Inr line \<Rightarrow>
                     (case race of
                        Some stop \<Rightarrow> if stop then (Some (Inr ()), cl) else (None, cl)
                      | None \<Rightarrow>
                          if cl_write_ok env (length (cl_written cl))
                          then (None, cl\<lparr>cl_written := cl_written cl @ [line]\<rparr>)
                          else (Some (Inl Srv_Io), cl))))"

definition serve_input ::
  "'h client_env \<Rightarrow> client_input \<Rightarrow> 'h client \<Rightarrow> (ipc_server_error + unit) option \<times> 'h client" where
  "serve_input env inp cl =
     (case inp of
        In_Shutdown stop \<Rightarrow> (if stop then Some (Inr ()) else None, cl)
      | In_Read None \<Rightarrow> (Some (Inl Srv_Io), cl)
      | In_Read (Some bs) \<Rightarrow>
          if bs = [] then (Some (map_err Srv_Protocol (finish (cl_decoder cl))), cl)
          else
            (case push (cl_serde env) bs (cl_decoder cl) of
               (Inl err, dec) \<Rightarrow> (Some (Inl (Srv_Protocol err)), cl\<lparr>cl_decoder := dec\<rparr>)
             | (Inr rs, dec) \<Rightarrow> serve_requests env rs (cl\<lparr>cl_decoder := dec\<rparr>))
      | In_Event race \<Rightarrow> forward_event env race cl
      | In_Hub op \<Rightarrow> (None, cl\<lparr>cl_hub := hub_step op (cl_hub cl)\<rparr>))"

fun serve_client ::
  "'h client_env \<Rightarrow> client_input list \<Rightarrow> 'h client \<Rightarrow> (ipc_server_error + unit) option \<times> 'h client" where
  "serve_client env [] cl = (None, cl)"
| "serve_client env (inp # inps) cl =
     (let checks = (case inp of In_Hub _ \<Rightarrow> False | _ \<Rightarrow> True);
          stop = checks \<and> cl_flag env (cl_reads cl);
          cl = (if checks then cl\<lparr>cl_reads := cl_reads cl + 1\<rparr> else cl) in
      if stop then (Some (Inr ()), cl)
      else
        case serve_input env inp cl of
          (Some r, cl) \<Rightarrow> (Some r, cl)
        | (None, cl) \<Rightarrow> serve_client env inps cl)"

section \<open>The server\<close>

definition same_euid :: "u32 \<Rightarrow> u32 \<Rightarrow> bool" where
  "same_euid peer_uid daemon_euid \<longleftrightarrow> peer_uid = daemon_euid"

text \<open>
  The accept loop: a change of the shutdown flag, an accepted connection with the credentials the
  kernel reports, a failed accept, or the end of a client. It returns the connections it serves
  and the terminal error.
\<close>

datatype accept_input =
    Acc_Shutdown bool
  | Acc_Connection nat "u32 option"
  | Acc_Failed
  | Acc_Completed

fun server_run :: "(nat \<Rightarrow> bool) \<Rightarrow> u32 \<Rightarrow> accept_input list \<Rightarrow> nat list \<times> ipc_server_error option" where
  "server_run flag euid [] = ([], None)"
| "server_run flag euid (inp # inps) =
     (if flag (length inps) then ([], None)
      else case inp of
        Acc_Shutdown stop \<Rightarrow> if stop then ([], None) else server_run flag euid inps
      | Acc_Failed \<Rightarrow> ([], Some Srv_Io)
      | Acc_Completed \<Rightarrow> server_run flag euid inps
      | Acc_Connection stream cred \<Rightarrow>
          (case cred of
             Some uid \<Rightarrow>
               if same_euid uid euid
               then let (served, err) = server_run flag euid inps in (stream # served, err)
               else server_run flag euid inps
           | None \<Rightarrow> server_run flag euid inps))"

definition publish_socket :: "os \<Rightarrow> path \<Rightarrow> path \<Rightarrow> disk \<Rightarrow> (ipc_server_error + unit) \<times> disk" where
  "publish_socket e staging socket_path d =
     (let staged = staging @ [''socket''] in
      then_st (err_st (\<lambda>_. Srv_Io) (fs_mkdir e 448 staging d)) (\<lambda>_ d.
      then_st (err_st (\<lambda>_. Srv_Io) (fs_set_permissions e staging 448 d)) (\<lambda>_ d.
      let (published, d) =
            then_st (fs_bind e staged d) (\<lambda>_ d.
            then_st (fs_set_permissions e staged 384 d) (\<lambda>_ d.
              fs_rename e staged socket_path d));
          d = snd (fs_remove_file e staged d);
          d = snd (fs_remove_dir e staging d) in
      err_st (\<lambda>_. Srv_Io) (published, d))))"

definition bind_private_socket ::
  "crates \<Rightarrow> os \<Rightarrow> path \<Rightarrow> disk \<Rightarrow> (ipc_server_error + unit) \<times> disk" where
  "bind_private_socket c e socket_path d =
     (case path_file_name socket_path of
        None \<Rightarrow> (Inl OccupiedPath, d)
      | Some file_name \<Rightarrow>
          let parent = butlast socket_path in
          then_st (err_st (\<lambda>_. Srv_Io) (getrandom_fill e 16 d)) (\<lambda>nonce d.
          publish_socket e (parent @ [''.'' @ file_name @ ''.'' @ hex_encode c nonce]) socket_path d))"

text \<open>
  \<open>try_lock\<close> is the answer of the file lock: granted, held by another process, or an error. What is
  returned is the listener of the private socket.
\<close>

datatype lock_answer = Lock_Granted | Lock_WouldBlock | Lock_Error

definition lock_path :: "path \<Rightarrow> path" where
  "lock_path p = butlast p @ [(let name = last p; stem = rev (dropWhile (\<lambda>x. x \<noteq> CHR ''.'') (rev name)) in
      (if length stem \<le> 1 then name else butlast stem) @ ''.lock'')]"

definition server_bind ::
  "crates \<Rightarrow> os \<Rightarrow> lock_answer \<Rightarrow> path \<Rightarrow> disk \<Rightarrow> (ipc_server_error + unit) \<times> disk" where
  "server_bind c e lock socket_path d =
     (let lock_file = lock_path socket_path in
      then_st (err_st (\<lambda>_. Srv_Io) (fs_open_create e 384 lock_file d)) (\<lambda>_ d.
      case lock of
        Lock_WouldBlock \<Rightarrow> (Inl AlreadyRunning, d)
      | Lock_Error \<Rightarrow> (Inl Srv_Io, d)
      | Lock_Granted \<Rightarrow>
          then_st (err_st (\<lambda>_. Srv_Io) (fs_set_permissions e lock_file 384 d)) (\<lambda>_ d.
          let (present, d) = fs_exists e socket_path d in
          then_st (if \<not> present then (Inr (), d)
                   else
                     then_st (err_st (\<lambda>_. Srv_Io) (fs_metadata e socket_path d)) (\<lambda>metadata d.
                       case metadata of
                         Socket _ \<Rightarrow> err_st (\<lambda>_. Srv_Io) (fs_remove_file e socket_path d)
                       | _ \<Rightarrow> (Inl OccupiedPath, d))) (\<lambda>_ d.
          bind_private_socket c e socket_path d))))"

section \<open>Events are delivered without gaps\<close>

definition hub_inv :: "event_hub \<Rightarrow> bool" where
  "hub_inv h \<longleftrightarrow>
     distinct (subscribers h) \<and> (\<forall>i \<in> set (subscribers h). i < length (channels h))
     \<and> (\<forall>j < length (channels h). length (ch_queue (channels h ! j)) \<le> EVENT_QUEUE_CAPACITY)"

definition published :: "hub_op list \<Rightarrow> ipc_event list" where
  "published ops = List.map_filter (\<lambda>op. case op of Hub_Publish ev \<Rightarrow> Some ev | _ \<Rightarrow> None) ops"

lemma retain_senders_result:
  assumes "retain_senders ev is cs = (live, cs')" and "distinct is" and "\<forall>i \<in> set is. i < length cs"
  shows "length cs' = length cs \<and> set live \<subseteq> set is \<and> distinct live
    \<and> (\<forall>j. (j \<in> set live \<longrightarrow> cs' ! j = (cs ! j)\<lparr>ch_queue := ch_queue (cs ! j) @ [ev]\<rparr>
                \<and> length (ch_queue (cs ! j)) < EVENT_QUEUE_CAPACITY)
          \<and> (j \<notin> set live \<longrightarrow> cs' ! j = cs ! j))"
  using assms
proof (induction "is" arbitrary: cs live cs')
  case (Cons i "is")
  show ?case
  proof (cases "\<not> ch_open (cs ! i) \<or> EVENT_QUEUE_CAPACITY \<le> length (ch_queue (cs ! i))")
    case True
    with Cons.prems(1) have "retain_senders ev is cs = (live, cs')" by simp
    from Cons.IH [OF this] Cons.prems show ?thesis by (simp add: subset_insertI2)
  next
    case False
    let ?cs = "cs[i := (cs ! i)\<lparr>ch_queue := ch_queue (cs ! i) @ [ev]\<rparr>]"
    obtain k where rest: "retain_senders ev is ?cs = (k, cs')" and live: "live = i # k"
      using Cons.prems(1) False by (auto simp: Let_def split: prod.splits)
    have i: "i < length cs" "i \<notin> set is" using Cons.prems by auto
    have "distinct is" "\<forall>j \<in> set is. j < length ?cs" using Cons.prems by auto
    note IH = Cons.IH [OF rest this]
    then have "i \<notin> set k" using i(2) by auto
    have "(j \<in> set live \<longrightarrow> cs' ! j = (cs ! j)\<lparr>ch_queue := ch_queue (cs ! j) @ [ev]\<rparr>
              \<and> length (ch_queue (cs ! j)) < EVENT_QUEUE_CAPACITY)
        \<and> (j \<notin> set live \<longrightarrow> cs' ! j = cs ! j)" for j
    proof (cases "j = i")
      case True
      have "cs' ! i = ?cs ! i" using IH \<open>i \<notin> set k\<close> by blast
      with True False i(1) live show ?thesis by simp
    next
      case ne: False
      then have "?cs ! j = cs ! j" by simp
      moreover note spec [OF IH [THEN conjunct2, THEN conjunct2, THEN conjunct2], of j]
      ultimately show ?thesis using ne live by simp
    qed
    with IH live \<open>i \<notin> set k\<close> show ?thesis by auto
  qed
qed simp

lemma publish_result:
  assumes "hub_inv h"
  shows "length (channels (publish ev h)) = length (channels h)"
    and "set (subscribers (publish ev h)) \<subseteq> set (subscribers h)" and "distinct (subscribers (publish ev h))"
    and "j \<in> set (subscribers (publish ev h)) \<Longrightarrow> channels (publish ev h) ! j =
        (channels h ! j)\<lparr>ch_queue := ch_queue (channels h ! j) @ [ev]\<rparr>
      \<and> length (ch_queue (channels h ! j)) < EVENT_QUEUE_CAPACITY"
    and "j \<notin> set (subscribers (publish ev h)) \<Longrightarrow> channels (publish ev h) ! j = channels h ! j"
proof -
  obtain live cs where r: "retain_senders ev (subscribers h) (channels h) = (live, cs)" by fastforce
  then have p: "publish ev h = h\<lparr>subscribers := live, channels := cs\<rparr>" by (simp add: publish_def)
  have "distinct (subscribers h)" "\<forall>i \<in> set (subscribers h). i < length (channels h)"
    using assms by (auto simp: hub_inv_def)
  note R = retain_senders_result [OF r this]
  show "length (channels (publish ev h)) = length (channels h)"
    "set (subscribers (publish ev h)) \<subseteq> set (subscribers h)" "distinct (subscribers (publish ev h))"
    using R p by simp_all
  show "j \<in> set (subscribers (publish ev h)) \<Longrightarrow> channels (publish ev h) ! j =
        (channels h ! j)\<lparr>ch_queue := ch_queue (channels h ! j) @ [ev]\<rparr>
      \<and> length (ch_queue (channels h ! j)) < EVENT_QUEUE_CAPACITY"
    "j \<notin> set (subscribers (publish ev h)) \<Longrightarrow> channels (publish ev h) ! j = channels h ! j"
    using R p by simp_all
qed

lemma hub_recv_shape:
  assumes "hub_recv i h = Some (x, h')"
  shows "h' = h \<or> (\<exists>ev rest. ch_queue (channels h ! i) = ev # rest \<and>
    h' = h\<lparr>channels := (channels h)[i := (channels h ! i)
            \<lparr>ch_queue := rest, ch_taken := ch_taken (channels h ! i) @ [ev]\<rparr>]\<rparr>)"
  using assms by (auto simp: hub_recv_def split: list.splits if_splits)

lemma hub_inv_step:
  assumes inv: "hub_inv h"
  shows "hub_inv (hub_step op h)"
proof (cases op)
  case Hub_Subscribe
  have "length (channels h) \<notin> set (subscribers h)" using inv by (auto simp: hub_inv_def)
  with inv Hub_Subscribe show ?thesis
    by (simp add: hub_inv_def subscribe_def Let_def nth_append less_Suc_eq)
next
  case (Hub_Publish ev)
  note p = publish_result [OF inv, where ev = ev]
  have "length (ch_queue (channels (publish ev h) ! j)) \<le> EVENT_QUEUE_CAPACITY" if "j < length (channels h)" for j
  proof -
    have "length (ch_queue (channels h ! j)) \<le> EVENT_QUEUE_CAPACITY" using inv that by (simp add: hub_inv_def)
    then show ?thesis
      using p(4) [of j] p(5) [of j] by (cases "j \<in> set (subscribers (publish ev h))") simp_all
  qed
  moreover have "\<forall>i \<in> set (subscribers (publish ev h)). i < length (channels h)"
    using inv p(2) by (auto simp: hub_inv_def)
  ultimately show ?thesis using p(1,3) Hub_Publish by (simp add: hub_inv_def)
next
  case (Hub_Recv i)
  have "hub_inv h'" if "hub_recv i h = Some (x, h')" for x h'
    using hub_recv_shape [OF that]
  proof (elim disjE exE conjE)
    fix ev rest
    assume q: "ch_queue (channels h ! i) = ev # rest" and
      h': "h' = h\<lparr>channels := (channels h)[i := (channels h ! i)
            \<lparr>ch_queue := rest, ch_taken := ch_taken (channels h ! i) @ [ev]\<rparr>]\<rparr>"
    have "length rest \<le> EVENT_QUEUE_CAPACITY" if "i < length (channels h)"
    proof -
      have "length (ch_queue (channels h ! i)) \<le> EVENT_QUEUE_CAPACITY" using inv that by (simp add: hub_inv_def)
      with q show ?thesis by simp
    qed
    with inv h' show ?thesis
      by (cases "i < length (channels h)") (auto simp: hub_inv_def nth_list_update list_update_beyond)
  qed (use inv in simp)
  with inv Hub_Recv show ?thesis by (auto split: option.splits)
next
  case (Hub_Close i)
  with inv show ?thesis
    by (cases "i < length (channels h)")
      (auto simp: hub_inv_def hub_close_def nth_list_update list_update_beyond)
qed

interpretation hub: step_invariant hub_inv hub_step
  by unfold_locales (rule hub_inv_step)

abbreviation received :: "event_hub \<Rightarrow> nat \<Rightarrow> ipc_event list" where
  "received h i \<equiv> ch_taken (channels h ! i) @ ch_queue (channels h ! i)"

text \<open>What one operation does to one existing channel.\<close>

lemma hub_step_channel:
  assumes "hub_inv h" and "i < length (channels h)"
  shows "i < length (channels (hub_step op h))"
    and "i \<in> set (subscribers (hub_step op h)) \<Longrightarrow> i \<in> set (subscribers h)
      \<and> received (hub_step op h) i = received h i @ published [op]"
    and "i \<notin> set (subscribers (hub_step op h)) \<Longrightarrow> received (hub_step op h) i = received h i"
proof -
  have "i < length (channels (hub_step op h))
    \<and> (i \<in> set (subscribers (hub_step op h)) \<longrightarrow> i \<in> set (subscribers h)
        \<and> received (hub_step op h) i = received h i @ published [op])
    \<and> (i \<notin> set (subscribers (hub_step op h)) \<longrightarrow> received (hub_step op h) i = received h i)"
  proof (cases op)
    case Hub_Subscribe
    with assms(2) show ?thesis by (simp add: subscribe_def Let_def nth_append published_def)
  next
    case (Hub_Publish ev)
    note p = publish_result [OF assms(1), where ev = ev]
    show ?thesis
      using p(1,2) p(4) [of i] p(5) [of i] assms(2) Hub_Publish by (auto simp: published_def)
  next
    case (Hub_Recv j)
    show ?thesis
    proof (cases "hub_recv j h")
      case None
      with assms(2) Hub_Recv show ?thesis by (simp add: published_def)
    next
      case (Some xh)
      obtain x h' where xh: "xh = (x, h')" by fastforce
      have "length (channels h') = length (channels h) \<and> subscribers h' = subscribers h \<and> received h' i = received h i"
        using hub_recv_shape [OF Some [unfolded xh]] assms(2)
        by (elim disjE exE conjE; cases "i = j") auto
      with Some xh assms(2) Hub_Recv show ?thesis by (simp add: published_def)
    qed
  next
    case (Hub_Close j)
    with assms(2) show ?thesis by (cases "i = j") (simp_all add: hub_close_def published_def)
  qed
  then show "i < length (channels (hub_step op h))"
    and "i \<in> set (subscribers (hub_step op h)) \<Longrightarrow> i \<in> set (subscribers h)
      \<and> received (hub_step op h) i = received h i @ published [op]"
    and "i \<notin> set (subscribers (hub_step op h)) \<Longrightarrow> received (hub_step op h) i = received h i"
    by blast+
qed

lemma published_snoc: "published (ops @ [op]) = published ops @ published [op]"
  by (simp add: published_def)

lemma hub_run:
  assumes "hub_inv h" and "i < length (channels h)"
  shows "i < length (channels (fold hub_step ops h))
    \<and> (\<exists>k \<le> length (published ops). received (fold hub_step ops h) i = received h i @ take k (published ops)
         \<and> (i \<in> set (subscribers (fold hub_step ops h)) \<longrightarrow> k = length (published ops)))"
proof (induction ops rule: rev_induct)
  case Nil
  show ?case using assms by (simp add: published_def)
next
  case (snoc op ops)
  let ?h = "fold hub_step ops h"
  from snoc obtain k where len: "i < length (channels ?h)" and k: "k \<le> length (published ops)"
    "received ?h i = received h i @ take k (published ops)"
    "i \<in> set (subscribers ?h) \<longrightarrow> k = length (published ops)" by blast
  note step = hub_step_channel [OF hub.run_inv [OF assms(1), of ops] len, of op]
  show ?case
  proof (cases "i \<in> set (subscribers (hub_step op ?h))")
    case True
    with step(1,2) k show ?thesis
      by (intro conjI exI [of _ "length (published (ops @ [op]))"]) (simp_all add: published_snoc)
  next
    case False
    with step(1,3) k show ?thesis
      by (intro conjI exI [of _ k]) (simp_all add: published_snoc)
  qed
qed

text \<open>
  C23. A subscriber never misses an event silently. Through any publications, subscriptions,
  receptions and disconnections, what a subscription has received or still has queued is a
  gapless prefix of the events published since; it is all of them as long as the subscription
  stands (a subscriber that falls 64 events behind is dropped instead); and no queue
  exceeds its capacity.
\<close>

theorem events_without_gaps:
  assumes "hub_inv h" and "i \<in> set (subscribers h)"
  shows "\<exists>k. received (fold hub_step ops h) i = received h i @ take k (published ops)
    \<and> (i \<in> set (subscribers (fold hub_step ops h)) \<longrightarrow> k = length (published ops))
    \<and> length (ch_queue (channels (fold hub_step ops h) ! i)) \<le> EVENT_QUEUE_CAPACITY"
proof -
  have "i < length (channels h)" using assms by (simp add: hub_inv_def)
  from hub_run [OF assms(1) this, of ops] hub.run_inv [OF assms(1), of ops] show ?thesis
    by (auto simp: hub_inv_def)
qed

definition demo_event :: ipc_event where
  "demo_event = \<lparr>event_version = 4, event_sequence = 1, event_topic = Topic_Status, event_payload = JNull\<rparr>"

theorem events_without_gaps_witness:
  "\<exists>k. received (fold hub_step [Hub_Publish demo_event, Hub_Recv 0, Hub_Publish demo_event]
        (snd (subscribe \<lparr>subscribers = [], channels = []\<rparr>))) 0 = take k [demo_event, demo_event]"
proof -
  have "hub_inv (snd (subscribe \<lparr>subscribers = [], channels = []\<rparr>))"
    "0 \<in> set (subscribers (snd (subscribe \<lparr>subscribers = [], channels = []\<rparr>)))"
    by (simp_all add: hub_inv_def subscribe_def)
  from events_without_gaps [OF this, of "[Hub_Publish demo_event, Hub_Recv 0, Hub_Publish demo_event]"]
  show ?thesis by (auto simp: published_def subscribe_def)
qed

section \<open>Negotiation comes first\<close>

definition accepted_hello :: "request \<Rightarrow> bool" where
  "accepted_hello r = (case request_command r of Hello lo hi \<Rightarrow> lo \<le> VERSION \<and> VERSION \<le> hi | _ \<Rightarrow> False)"

definition is_hello :: "request \<Rightarrow> bool" where
  "is_hello r = (case request_command r of Hello _ _ \<Rightarrow> True | _ \<Rightarrow> False)"

text \<open>
  Before negotiation nothing was handled; after it, the first request was an acceptable hello and
  the handler got every other request once, in order.
\<close>

definition client_inv :: "'h client \<Rightarrow> bool" where
  "client_inv cl \<longleftrightarrow>
     (if cl_negotiated cl
      then cl_taken cl \<noteq> [] \<and> accepted_hello (hd (cl_taken cl))
           \<and> cl_handled cl = filter (\<lambda>r. \<not> is_hello r) (cl_taken cl)
      else cl_handled cl = [])"

lemma run_handler_log:
  "run_handler env r cl = (out, cl') \<Longrightarrow>
     cl_negotiated cl' = cl_negotiated cl \<and> cl_taken cl' = cl_taken cl \<and> cl_handled cl' = cl_handled cl @ [r]"
  by (auto simp: run_handler_def split: prod.splits)

lemma client_subscribe_log [simp]:
  "cl_negotiated (client_subscribe ts cl) = cl_negotiated cl" "cl_taken (client_subscribe ts cl) = cl_taken cl"
  "cl_handled (client_subscribe ts cl) = cl_handled cl"
  by (simp_all add: client_subscribe_def subscribe_def Let_def)

text \<open>The three ways a request is answered.\<close>

lemma client_outcome_cases:
  assumes "client_outcome env r cl = (out, cl')"
  obtains (hello) "accepted_hello r" "is_hello r" "cl' = cl\<lparr>cl_negotiated := True\<rparr>"
    | (refused) "cl' = cl" "\<not> cl_negotiated cl \<or> is_hello r" "\<not> accepted_hello r"
    | (handled) "cl_negotiated cl" "\<not> is_hello r" "cl_negotiated cl'" "cl_taken cl' = cl_taken cl"
        "cl_handled cl' = cl_handled cl @ [r]"
proof (cases "request_command r")
  case (Hello lo hi)
  then show ?thesis
    using assms hello refused
    by (auto simp: client_outcome_def negotiate_def accepted_hello_def is_hello_def split: if_splits)
next
  case (Subscribe ts)
  then show ?thesis
    using assms refused handled run_handler_log [of env r "client_subscribe ts cl" out cl']
    by (auto simp: client_outcome_def accepted_hello_def is_hello_def split: if_splits)
qed (use assms refused handled run_handler_log [of env r cl out cl'] in
    \<open>auto simp: client_outcome_def accepted_hello_def is_hello_def split: if_splits\<close>)

lemma client_outcome_inv:
  assumes "client_inv cl" and "\<not> cl_negotiated cl \<longrightarrow> cl_taken cl = []"
    and "client_outcome env r (cl\<lparr>cl_taken := cl_taken cl @ [r]\<rparr>) = (out, cl')"
  shows "client_inv cl'"
  using assms(3)
proof (cases rule: client_outcome_cases)
  case hello
  with assms(1,2) show ?thesis by (cases "cl_negotiated cl") (auto simp: client_inv_def)
next
  case refused
  then show ?thesis using assms(1) by (cases "cl_negotiated cl") (auto simp: client_inv_def)
next
  case handled
  with assms(1) show ?thesis by (auto simp: client_inv_def)
qed

lemma serve_requests_inv:
  "client_inv cl \<Longrightarrow> (\<not> cl_negotiated cl \<longrightarrow> cl_taken cl = []) \<Longrightarrow> serve_requests env rs cl = (res, cl') \<Longrightarrow>
     client_inv cl' \<and> (res = None \<longrightarrow> \<not> cl_negotiated cl' \<longrightarrow> cl_taken cl' = [])"
proof (induction rs arbitrary: cl)
  case (Cons r rs)
  obtain out cl1 where o: "client_outcome env r (cl\<lparr>cl_taken := cl_taken cl @ [r]\<rparr>) = (out, cl1)" by fastforce
  note inv1 = client_outcome_inv [OF Cons.prems(1,2) o]
  have inv2: "client_inv (cl1\<lparr>cl_written := w\<rparr>)" "client_inv (cl1\<lparr>cl_written := w, cl_reads := k\<rparr>)" for w k
    using inv1 by (simp_all add: client_inv_def)
  let ?resp = "\<lparr>response_version = VERSION, response_id = request_id r, outcome = out\<rparr>"
  show ?case
  proof (cases "encode_line (response_to_vec (cl_serde env)) ?resp")
    case (Inl err)
    with Cons.prems(3) o inv1 show ?thesis by auto
  next
    case (Inr line)
    let ?cl2 = "cl1\<lparr>cl_written := cl_written cl1 @ [line], cl_reads := cl_reads cl1 + 1\<rparr>"
    consider "cl_write_ok env (length (cl_written cl1))" "cl_negotiated cl1" "\<not> cl_flag env (cl_reads cl1)"
      | "res \<noteq> None" "client_inv cl'"
      using Cons.prems(3) o Inr inv1 inv2 by (fastforce simp: Let_def split: if_splits)
    then show ?thesis
    proof cases
      case 1
      then have "serve_requests env rs ?cl2 = (res, cl')" using Cons.prems(3) o Inr by (simp add: Let_def)
      with Cons.IH [of ?cl2] inv2(2) 1(2) show ?thesis by simp
    qed auto
  qed
qed simp

lemma forward_event_log:
  "forward_event env race cl = (res, cl') \<Longrightarrow> cl_negotiated cl' = cl_negotiated cl
     \<and> cl_taken cl' = cl_taken cl \<and> cl_handled cl' = cl_handled cl"
  by (auto simp: forward_event_def Let_def split: option.splits prod.splits if_splits sum.splits)

lemma serve_input_inv:
  assumes "client_inv cl" and "\<not> cl_negotiated cl \<longrightarrow> cl_taken cl = []" and "serve_input env inp cl = (res, cl')"
  shows "client_inv cl' \<and> (res = None \<longrightarrow> \<not> cl_negotiated cl' \<longrightarrow> cl_taken cl' = [])"
proof (cases inp)
  case (In_Read x)
  show ?thesis
  proof (cases x)
    case None
    with assms In_Read show ?thesis by (simp add: serve_input_def)
  next
    case (Some bs)
    obtain p dec where p: "push (cl_serde env) bs (cl_decoder cl) = (p, dec)" by fastforce
    have inv: "client_inv (cl\<lparr>cl_decoder := dec\<rparr>)" using assms(1) by (simp add: client_inv_def)
    show ?thesis
    proof (cases "bs = []")
      case True
      with assms In_Read Some show ?thesis by (simp add: serve_input_def)
    next
      case False
      show ?thesis
      proof (cases p)
        case (Inl err)
        with assms In_Read Some False p inv show ?thesis by (auto simp: serve_input_def)
      next
        case (Inr rs)
        then have "serve_requests env rs (cl\<lparr>cl_decoder := dec\<rparr>) = (res, cl')"
          using assms(3) In_Read Some False p by (simp add: serve_input_def)
        with serve_requests_inv [OF inv _ this] assms(2) show ?thesis by simp
      qed
    qed
  qed
next
  case (In_Event race)
  then have "forward_event env race cl = (res, cl')" using assms(3) by (simp add: serve_input_def)
  from forward_event_log [OF this] assms(1,2) show ?thesis by (simp add: client_inv_def)
qed (use assms in \<open>auto simp: serve_input_def client_inv_def split: if_splits\<close>)

lemma serve_client_inv:
  "client_inv cl \<Longrightarrow> (\<not> cl_negotiated cl \<longrightarrow> cl_taken cl = []) \<Longrightarrow> serve_client env inps cl = (res, cl') \<Longrightarrow>
     client_inv cl'"
proof (induction inps arbitrary: cl)
  case (Cons inp inps)
  define checks where "checks = (case inp of In_Hub _ \<Rightarrow> False | _ \<Rightarrow> True)"
  define cl1 where "cl1 = (if checks then cl\<lparr>cl_reads := cl_reads cl + 1\<rparr> else cl)"
  have inv1: "client_inv cl1" "\<not> cl_negotiated cl1 \<longrightarrow> cl_taken cl1 = []"
    using Cons.prems(1,2) by (simp_all add: cl1_def client_inv_def)
  obtain r cl2 where i: "serve_input env inp cl1 = (r, cl2)" by fastforce
  note inv2 = serve_input_inv [OF inv1 i]
  have "serve_client env (inp # inps) cl =
      (if checks \<and> cl_flag env (cl_reads cl) then (Some (Inr ()), cl1)
       else case r of Some x \<Rightarrow> (Some x, cl2) | None \<Rightarrow> serve_client env inps cl2)"
    using i by (simp add: checks_def cl1_def Let_def split: option.splits)
  with Cons.prems(3) inv1(1) inv2 Cons.IH [of cl2] show ?case
    by (auto split: if_splits option.splits)
qed simp

text \<open>
  C24. No request is served before the protocol version is agreed. Whatever a client sends and
  whatever happens around it, the handler is called only after the very first request was a hello
  whose range includes the supported version, and then it gets every later request other
  than a hello exactly once and in order.
\<close>

theorem negotiation_first:
  assumes "serve_client env inps (client_new hub h) = (res, cl)"
  shows "cl_handled cl = [] \<and> \<not> cl_negotiated cl
    \<or> cl_taken cl \<noteq> [] \<and> accepted_hello (hd (cl_taken cl))
       \<and> cl_handled cl = filter (\<lambda>r. \<not> is_hello r) (cl_taken cl)"
proof -
  have "client_inv (client_new hub h)" "\<not> cl_negotiated (client_new hub h) \<longrightarrow> cl_taken (client_new hub h) = []"
    by (simp_all add: client_inv_def client_new_def)
  from serve_client_inv [OF this assms] show ?thesis by (auto simp: client_inv_def split: if_splits)
qed

theorem negotiation_first_witness:
  "\<exists>res cl. serve_client
      \<lparr>cl_serde = reference_serde, cl_handle = (\<lambda>r (h, hub). (Outcome_Ok JNull, h + (1 :: nat), hub)),
       cl_flag = (\<lambda>_. False), cl_write_ok = (\<lambda>_. True)\<rparr> [In_Read (Some [115, 10])]
      (client_new \<lparr>subscribers = [], channels = []\<rparr> 0) = (res, cl) \<and> cl_handled cl = []"
proof -
  let ?env = "\<lparr>cl_serde = reference_serde, cl_handle = (\<lambda>r (h, hub). (Outcome_Ok JNull, h + (1 :: nat), hub)),
       cl_flag = (\<lambda>_. False), cl_write_ok = (\<lambda>_. True)\<rparr>"
  obtain res cl where s: "serve_client ?env [In_Read (Some [115, 10])] (client_new \<lparr>subscribers = [], channels = []\<rparr> 0) = (res, cl)"
    by fastforce
  have "decode_stream reference_serde MAX_LINE_BYTES [115, 10] = Some ([make_request 4 ''1'' Status], [])"
    by (simp add: decode_stream_def line_ok_def read_line_def strip_cr_def Request_deserialize_def reference_serde_def
        make_request_def validate_request_def ipc_consts chars_ascii char_is_control_def)
  then have "push reference_serde [115, 10] decoder_default = (Inr [make_request 4 ''1'' Status], decoder_default)"
    by (subst push_Inr) (simp_all add: decoder_inv_def decoder_default_def decoder_new_def)
  then have "cl_taken cl = [make_request 4 ''1'' Status]"
    using s by (auto simp: serve_input_def client_new_def client_outcome_def make_request_def encode_line_def
        reference_serde_def)
  with negotiation_first [OF s] s show ?thesis
    by (auto simp: accepted_hello_def make_request_def)
qed

section \<open>The socket is private from the start\<close>

lemma socket_calls:
  "fs_mkdir e m p d = (r, d') \<Longrightarrow> same_but p (tree d) (tree d') \<and> trail d' = trail d @ [tree d']"
  "fs_bind e p d = (r, d') \<Longrightarrow> same_but p (tree d) (tree d') \<and> trail d' = trail d @ [tree d']"
  "fs_remove_dir e p d = (r, d') \<Longrightarrow> same_but p (tree d) (tree d') \<and> trail d' = trail d @ [tree d']"
proof -
  have t: "same_but p t (snd (t_mkdir m p t))" "same_but p t (snd (t_bind m p t))" "same_but p t (snd (t_remove_dir p t))" for m t
    by (auto simp: same_but_def t_mkdir_def t_bind_def t_remove_dir_def split: option.splits node.splits)
  show "fs_mkdir e m p d = (r, d') \<Longrightarrow> same_but p (tree d) (tree d') \<and> trail d' = trail d @ [tree d']"
    "fs_bind e p d = (r, d') \<Longrightarrow> same_but p (tree d) (tree d') \<and> trail d' = trail d @ [tree d']"
    "fs_remove_dir e p d = (r, d') \<Longrightarrow> same_but p (tree d) (tree d') \<and> trail d' = trail d @ [tree d']"
    unfolding fs_mkdir_def fs_bind_def fs_remove_dir_def
    by (rule conjI, erule syscall_keeps, rule t, simp, erule syscall_step(1))+
qed

definition quiet_socket :: "path \<Rightarrow> tree \<Rightarrow> tree \<Rightarrow> bool" where
  "quiet_socket p t0 t \<longleftrightarrow> map_of t p = map_of t0 p \<or> map_of t p = Some (Socket 384)"

lemma quiet_socket_other:
  "quiet_socket p t0 t \<Longrightarrow> same_but q t t' \<Longrightarrow> q \<noteq> p \<Longrightarrow> quiet_socket p t0 t'"
  by (auto simp: quiet_socket_def same_but_def)

text \<open>Binding the staged socket, making it private and moving it to its place.\<close>

lemma publish_staged:
  assumes "then_st (fs_bind e q d) (\<lambda>_ d. then_st (fs_set_permissions e q 384 d) (\<lambda>_ d. fs_rename e q p d)) = (r, d')"
    and "\<not> prefix q p" and "\<not> prefix p q" and "quiet_socket p t0 (tree d)"
  shows "passes (quiet_socket p t0) d d' \<and> quiet_socket p t0 (tree d')
    \<and> (r = Inr () \<longrightarrow> map_of (tree d') p = Some (Socket 384))"
proof -
  have ne: "q \<noteq> p" using assms(2) by auto
  obtain x d1 where b: "fs_bind e q d = (x, d1)" by fastforce
  have 1: "quiet_socket p t0 (tree d1)" "passes (quiet_socket p t0) d d1"
    using socket_calls(2) [OF b] quiet_socket_other [OF assms(4) _ ne] by (auto simp: passes_def)
  show ?thesis
  proof (cases x)
    case (Inl err)
    with assms(1) b 1 show ?thesis by auto
  next
    case (Inr u)
    have s1: "map_of (tree d1) q = Some (Socket (511 AND NOT (umask e)))"
      using b Inr unfolding fs_bind_def by (auto dest!: syscall_step(3) simp: t_bind_def split: if_splits)
    obtain y d2 where m: "fs_set_permissions e q 384 d1 = (y, d2)" by fastforce
    have 2: "quiet_socket p t0 (tree d2)" "passes (quiet_socket p t0) d d2"
      using one_path_calls(4) [OF m] call_trail(4) [OF m] 1 quiet_socket_other [OF 1(1) _ ne]
      by (auto simp: passes_def)
    show ?thesis
    proof (cases y)
      case (Inl err)
      with assms(1) b m Inr 2 show ?thesis by auto
    next
      case (Inr v)
      have s2: "map_of (tree d2) q = Some (Socket 384)"
        using call_results(2) [of e q 384 d1 v d2] m Inr s1 by (simp add: chmod_def)
      have rn: "fs_rename e q p d2 = (r, d')" using assms(1) b m \<open>x = Inr u\<close> Inr by simp
      have "(r, tree d') = t_rename q p (tree d2) \<or> isl r \<and> tree d' = tree d2"
        using rn unfolding fs_rename_def by (auto dest!: syscall_step(3))
      then have "isl r \<and> tree d' = tree d2 \<or> r = Inr () \<and> map_of (tree d') p = Some (Socket 384)"
        using assms(2) s2 map_of_moved(1) [OF assms(2,3), of "tree d2" "[]"]
        by (auto simp: t_rename_def split: option.splits if_splits)
      with 2 call_trail(5) [OF rn] show ?thesis by (auto simp: passes_def quiet_socket_def)
    qed
  qed
qed

lemma getrandom_fill_same:
  "getrandom_fill e n d = (x, d1) \<Longrightarrow> tree d1 = tree d" "getrandom_fill e n d = (x, d1) \<Longrightarrow> trail d1 = trail d"
  using getrandom_fill_disk [of e n d] by auto

lemma publish_socket_private:
  assumes "publish_socket e st p d = (r, d')" and "st \<noteq> p" and "\<not> prefix (st @ [''socket'']) p"
    and "\<not> prefix p (st @ [''socket''])"
  shows "passes (quiet_socket p (tree d)) d d' \<and> (r = Inr () \<longrightarrow> map_of (tree d') p = Some (Socket 384))"
proof -
  let ?q = "st @ [''socket'']" and ?Q = "quiet_socket p (tree d)"
  have qne: "?q \<noteq> p" using assms(3) by auto
  have keep: "?Q (tree d2) \<and> passes ?Q d d2"
    if "same_but k (tree d1) (tree d2)" "trail d2 = trail d1 @ [tree d2]" "k \<noteq> p" "?Q (tree d1) \<and> passes ?Q d d1" for k d1 d2
    using quiet_socket_other [of p "tree d" "tree d1" k "tree d2"] that by (auto intro: passes_step)
  have 0: "?Q (tree d) \<and> passes ?Q d d" by (simp add: quiet_socket_def)
  obtain x d1 where mk: "fs_mkdir e 448 st d = (x, d1)" by fastforce
  have 1: "?Q (tree d1) \<and> passes ?Q d d1" using socket_calls(1) [OF mk] keep assms(2) 0 by blast
  obtain y d2 where ch: "fs_set_permissions e st 448 d1 = (y, d2)" by fastforce
  have 2: "?Q (tree d2) \<and> passes ?Q d d2"
    using one_path_calls(4) [OF ch] call_trail(4) [OF ch] keep assms(2) 1 by blast
  obtain z d3 where pub: "then_st (fs_bind e ?q d2) (\<lambda>_ d. then_st (fs_set_permissions e ?q 384 d) (\<lambda>_ d. fs_rename e ?q p d)) = (z, d3)"
    by fastforce
  have 3: "?Q (tree d3) \<and> passes ?Q d d3" "z = Inr () \<longrightarrow> map_of (tree d3) p = Some (Socket 384)"
    using publish_staged [OF pub assms(3,4)] 2 by (auto intro: passes_trans)
  obtain u d4 where rf: "fs_remove_file e ?q d3 = (u, d4)" by fastforce
  have 4: "?Q (tree d4) \<and> passes ?Q d d4"
    using one_path_calls(3) [OF rf] call_trail(3) [OF rf] keep qne 3(1) by blast
  obtain v d5 where rd: "fs_remove_dir e st d4 = (v, d5)" by fastforce
  have 5: "?Q (tree d5) \<and> passes ?Q d d5" using socket_calls(3) [OF rd] keep assms(2) 4 by blast
  have at5: "map_of (tree d5) p = map_of (tree d3) p"
    using one_path_calls(3) [OF rf] socket_calls(3) [OF rd] qne assms(2) by (simp add: same_but_def)
  have "d' = d1 \<and> isl r \<or> d' = d2 \<and> isl r \<or> d' = d5 \<and> r = map_err (\<lambda>_. Srv_Io) z"
    using assms(1) mk ch pub rf rd
    by (cases x; cases y) (auto simp: publish_socket_def Let_def err_st_def)
  with 1 2 5 3(2) at5 show ?thesis by auto
qed

text \<open>
  C25. The socket is private the moment it appears. Whatever calls fail while the socket is bound,
  every state of the directory shows the socket path as it was before or as a socket with mode
  0600, and on success it is such a socket.
\<close>

theorem socket_private:
  assumes "bind_private_socket c e p d = (r, d')"
  shows "list_all (\<lambda>t. map_of t p = map_of (tree d) p \<or> map_of t p = Some (Socket 384))
      (drop (length (trail d)) (trail d'))
    \<and> (r = Inr () \<longrightarrow> map_of (tree d') p = Some (Socket 384))"
proof -
  consider "isl r" "trail d' = trail d"
    | bs d0 where "p \<noteq> []" "tree d0 = tree d" "trail d0 = trail d"
      "publish_socket e (butlast p @ [''.'' @ last p @ ''.'' @ hex_encode c bs]) p d0 = (r, d')"
    using assms
    by (auto simp: bind_private_socket_def path_file_name_def split: if_splits elim!: then_st_cases err_st_cases
        dest: getrandom_fill_same)
  then have "passes (quiet_socket p (tree d)) d d' \<and> (r = Inr () \<longrightarrow> map_of (tree d') p = Some (Socket 384))"
  proof cases
    case 1
    then show ?thesis by (auto simp: passes_def)
  next
    case (2 bs d0)
    let ?name = "''.'' @ last p @ ''.'' @ hex_encode c bs"
    have p: "butlast p @ [last p] = p" using 2(1) by simp
    have ne: "?name \<noteq> last p" by (auto dest!: arg_cong [of _ _ length])
    have "butlast p @ [?name] \<noteq> butlast p @ [last p]" using ne by simp
    then have stne: "butlast p @ [?name] \<noteq> p" using p by simp
    have "\<not> prefix ((butlast p @ [?name]) @ [''socket'']) (butlast p @ [last p])"
      "\<not> prefix (butlast p @ [last p]) ((butlast p @ [?name]) @ [''socket''])" using ne by simp_all
    then have "\<not> prefix ((butlast p @ [?name]) @ [''socket'']) p" "\<not> prefix p ((butlast p @ [?name]) @ [''socket''])"
      using p by simp_all
    from publish_socket_private [OF 2(4) stne this] 2(2,3) show ?thesis by (simp add: passes_def)
  qed
  then show ?thesis by (auto simp: passes_def quiet_socket_def list_all_iff)
qed

theorem socket_private_witness:
  "\<exists>d'. bind_private_socket reference_crates demo_os [''s''] demo_disk = (Inr (), d')
     \<and> map_of (tree d') [''s''] = Some (Socket 384)"
proof -
  obtain r d' where b: "bind_private_socket reference_crates demo_os [''s''] demo_disk = (r, d')" by fastforce
  have "r = Inr ()"
    using b
    by (simp add: bind_private_socket_def publish_socket_def path_file_name_def getrandom_fill_def demo_os_def demo_disk_def
        fs_mkdir_def fs_set_permissions_def fs_bind_def fs_rename_def syscall_works t_mkdir_def t_chmod_def chmod_def
        t_bind_def t_rename_def parent_is_dir_def is_dir_def has_children_def err_st_def Let_def split_beta)
  with socket_private [OF b] b show ?thesis by blast
qed

end
