(* ===== verification/Nostr_Chat.thy ===== *)
theory Nostr_Chat
  imports Relay_Pool Relay_Lists Config Nip05_Client Vaults Ipc_Server
begin

text \<open>
  The chat service of the daemon (\<open>omachatd/src/nostr_chat.rs\<close>): one actor that owns the contacts,
  the messages and the relay pool, and shares the sealed store, the event hub and the event
  counter with the rest of the daemon. The operations work on any record that extends the
  actor's, so the daemon's core runs them on its own state. Clocks, randomness outside the store,
  the network and the HTTP fetch are arguments, indexed by the number of earlier uses. Events
  handed to the relays are logged. Shown: contacts and messages stay bounded and contacts unique
  whatever is asked and whatever arrives; a stored incoming message was sealed by the very key it
  is filed under; and what a request saved is what a restart loads.
\<close>

section \<open>Types\<close>

definition CONTACTS_RECORD :: string where "CONTACTS_RECORD = ''nostr-contacts-v1''"
definition MESSAGES_RECORD :: string where "MESSAGES_RECORD = ''nostr-messages-v1''"
definition RELAYS_RECORD :: string where "RELAYS_RECORD = ''nostr-relays-v1''"
definition MAX_CONTACTS :: nat where "MAX_CONTACTS = 128"
definition MAX_MESSAGES :: nat where "MAX_MESSAGES = 128"
definition MAX_CHAT_TEXT_BYTES :: nat where "MAX_CHAT_TEXT_BYTES = 4096"
definition MAX_RELAYS :: nat where "MAX_RELAYS = 4"
definition LOOKBACK_SECONDS :: u64 where "LOOKBACK_SECONDS = 30 * 24 * 60 * 60"
definition CONNECT_WAIT :: duration where "CONNECT_WAIT = from_secs 8"

lemmas chat_consts = MAX_CONTACTS_def MAX_MESSAGES_def MAX_CHAT_TEXT_BYTES_def MAX_RELAYS_def

datatype chat_request =
    Prepare
  | AddContact string
  | RemoveContact string
  | ListContacts
  | ShowRelays
  | SetRelays "string list"
  | SendText string string
  | Messages
  | Reload
  | Snapshot
  | Loopback "string option"

record contact =
  contact_pubkey :: string
  contact_npub :: string
  contact_nip05 :: "string option"
  contact_display :: string

record stored_message =
  msg_id :: string
  msg_conversation :: string
  msg_peer :: string
  msg_sender :: string
  msg_text :: string
  msg_outgoing :: bool
  msg_delivery :: string
  msg_created_at :: u64

text \<open>\<open>Send\<close> carries the text of an error in the source; here it carries the error. A fetch error is its text.\<close>

datatype send_failure = Send_Gift gift_wrap_error | Send_Pool relay_pool_error

datatype chat_error =
    Chat_Store nostr_store_error
  | Chat_Sealed store_error
  | Chat_Identity nostr_identity_error
  | Chat_Nip05 "string nip05_error"
  | InvalidPeer
  | InvalidRelay
  | InvalidText
  | SelfContact
  | NoRelays
  | NotConnected
  | Chat_NotFound
  | Chat_TooLarge
  | Chat_Send send_failure
  | Corrupt
  | Chat_Clock
  | Chat_Stopped

section \<open>Environment and state\<close>

record chat_env =
  ce_crates :: crates
  ce_json :: json_crate
  ce_nip44 :: nip44_crates
  ce_codec :: vault_codec
  ce_urls :: url_crate
  ce_document_url :: "url \<Rightarrow> string \<Rightarrow> string"
  ce_os :: store_env
  ce_clock :: "nat \<Rightarrow> u64 option"
  ce_random :: rng
  ce_fetch :: "nat \<Rightarrow> string \<Rightarrow> string + bytes"
  ce_connected :: "nat \<Rightarrow> bool"
  ce_healths :: "nat \<Rightarrow> relay_health list"
  ce_publish :: "nat \<Rightarrow> nat \<Rightarrow> relay_error + publish_acknowledgement"
  ce_subscribe :: "nat \<Rightarrow> nat \<Rightarrow> relay_error + unit"

record shared =
  sh_store :: sealed_store
  sh_disk :: disk
  sh_hub :: event_hub
  sh_sequence :: u64
  sh_ticks :: nat

record chat_actor = shared +
  chat_relays :: "string list"
  contacts :: "contact list"
  messages :: "stored_message list"
  chat_pool :: "relay_pool option"
  pool_relays :: "string list"
  pool_pubkey :: "string option"
  subscribed_for :: "string option"
  loopback_nip05 :: "string option"
  chat_sent :: "signed_event list"

definition with_store :: "(sealed_store \<Rightarrow> disk \<Rightarrow> 'r \<times> disk) \<Rightarrow> 'a shared_scheme \<Rightarrow> 'r \<times> 'a shared_scheme" where
  "with_store f s = (case f (sh_store s) (sh_disk s) of (r, d) \<Rightarrow> (r, s\<lparr>sh_disk := d\<rparr>))"

definition use_tick :: "(nat \<Rightarrow> 'r) \<Rightarrow> 'a shared_scheme \<Rightarrow> 'r \<times> 'a shared_scheme" where
  "use_tick f s = (f (sh_ticks s), s\<lparr>sh_ticks := sh_ticks s + 1\<rparr>)"

definition chat_unix_time :: "chat_env \<Rightarrow> 'a shared_scheme \<Rightarrow> (chat_error + u64) \<times> 'a shared_scheme" where
  "chat_unix_time e = use_tick (\<lambda>i. ok_or Chat_Clock (ce_clock e i))"

text \<open>The counter is shared and atomic; it wraps.\<close>

definition publish_event :: "topic \<Rightarrow> json \<Rightarrow> 'a shared_scheme \<Rightarrow> 'a shared_scheme" where
  "publish_event t payload s =
     s\<lparr>sh_hub := publish \<lparr>event_version = VERSION, event_sequence = sh_sequence s, event_topic = t,
                         event_payload = payload\<rparr> (sh_hub s),
       sh_sequence := sh_sequence s + 1\<rparr>"

section \<open>Stored records\<close>

definition contact_json :: "contact \<Rightarrow> json" where
  "contact_json x =
     JObj ([(''pubkey'', JStr (contact_pubkey x)), (''npub'', JStr (contact_npub x))]
       @ (case contact_nip05 x of None \<Rightarrow> [] | Some n \<Rightarrow> [(''nip05'', JStr n)])
       @ [(''display'', JStr (contact_display x))])"

definition de_contact :: "json \<Rightarrow> contact option" where
  "de_contact j =
     Option.bind (de_open [''pubkey'', ''npub'', ''nip05'', ''display''] j) (\<lambda>m.
     Option.bind (de_field m ''pubkey'' de_string) (\<lambda>p.
     Option.bind (de_field m ''npub'' de_string) (\<lambda>n.
     Option.bind (de_default None (de_option de_string) (m ''nip05'')) (\<lambda>h.
     Option.bind (de_field m ''display'' de_string) (\<lambda>x.
     Some \<lparr>contact_pubkey = p, contact_npub = n, contact_nip05 = h, contact_display = x\<rparr>)))))"

definition message_json :: "stored_message \<Rightarrow> json" where
  "message_json m =
     JObj [(''id'', JStr (msg_id m)), (''conversation'', JStr (msg_conversation m)), (''peer'', JStr (msg_peer m)),
           (''sender'', JStr (msg_sender m)), (''text'', JStr (msg_text m)), (''outgoing'', JBool (msg_outgoing m)),
           (''delivery'', JStr (msg_delivery m)), (''created_at'', JInt (uint (msg_created_at m)))]"

definition de_message :: "json \<Rightarrow> stored_message option" where
  "de_message j =
     Option.bind (de_open [''id'', ''conversation'', ''peer'', ''sender'', ''text'', ''outgoing'', ''delivery'', ''created_at''] j) (\<lambda>m.
     Option.bind (de_field m ''id'' de_string) (\<lambda>i.
     Option.bind (de_field m ''conversation'' de_string) (\<lambda>c.
     Option.bind (de_field m ''peer'' de_string) (\<lambda>p.
     Option.bind (de_field m ''sender'' de_string) (\<lambda>s.
     Option.bind (de_field m ''text'' de_string) (\<lambda>x.
     Option.bind (de_field m ''outgoing'' de_bool) (\<lambda>b.
     Option.bind (de_field m ''delivery'' de_string) (\<lambda>d.
     Option.bind (de_field m ''created_at'' de_u64) (\<lambda>t.
     Some \<lparr>msg_id = i, msg_conversation = c, msg_peer = p, msg_sender = s, msg_text = x, msg_outgoing = b,
           msg_delivery = d, msg_created_at = t\<rparr>)))))))))"

definition save_record ::
  "chat_env \<Rightarrow> string \<Rightarrow> json \<Rightarrow> 'a shared_scheme \<Rightarrow> (chat_error + unit) \<times> 'a shared_scheme" where
  "save_record e name value s =
     then_st (ok_or Corrupt (json_to_vec (ce_json e) value), s) (\<lambda>bs s.
     err_st Chat_Sealed (with_store (\<lambda>st d. store_write (ce_crates e) (ce_os e) st name bs d) s))"

definition load_value :: "chat_env \<Rightarrow> string \<Rightarrow> 'a shared_scheme \<Rightarrow> json option \<times> 'a shared_scheme" where
  "load_value e name s =
     (case with_store (\<lambda>st d. store_read (ce_crates e) (ce_os e) st name d) s of
        (Inl _, s) \<Rightarrow> (None, s)
      | (Inr bs, s) \<Rightarrow> (json_from_slice (ce_json e) bs, s))"

definition load_vec :: "chat_env \<Rightarrow> (json \<Rightarrow> 'v option) \<Rightarrow> string \<Rightarrow> 'a shared_scheme \<Rightarrow> 'v list option \<times> 'a shared_scheme" where
  "load_vec e f name s = (case load_value e name s of (j, s) \<Rightarrow> (Option.bind j (de_vec f), s))"

definition load_contacts :: "chat_env \<Rightarrow> 'a shared_scheme \<Rightarrow> contact list option \<times> 'a shared_scheme" where
  "load_contacts e = load_vec e de_contact CONTACTS_RECORD"

definition load_messages :: "chat_env \<Rightarrow> 'a shared_scheme \<Rightarrow> stored_message list option \<times> 'a shared_scheme" where
  "load_messages e = load_vec e de_message MESSAGES_RECORD"

definition load_relays :: "chat_env \<Rightarrow> 'a shared_scheme \<Rightarrow> string list option \<times> 'a shared_scheme" where
  "load_relays e s =
     (case load_value e RELAYS_RECORD s of (j, s) \<Rightarrow>
        (Option.bind (Option.bind j (\<lambda>j. value_get j ''relays'')) (de_vec de_string), s))"

definition save_contacts :: "chat_env \<Rightarrow> 'a chat_actor_scheme \<Rightarrow> (chat_error + unit) \<times> 'a chat_actor_scheme" where
  "save_contacts e s = save_record e CONTACTS_RECORD (JArr (map contact_json (contacts s))) s"

definition save_messages :: "chat_env \<Rightarrow> 'a chat_actor_scheme \<Rightarrow> (chat_error + unit) \<times> 'a chat_actor_scheme" where
  "save_messages e s = save_record e MESSAGES_RECORD (JArr (map message_json (messages s))) s"

section \<open>Identity\<close>

definition load_secret :: "chat_env \<Rightarrow> 'a shared_scheme \<Rightarrow> (chat_error + nostr_secret option) \<times> 'a shared_scheme" where
  "load_secret e s =
     err_st Chat_Store (with_store (\<lambda>st d. NostrVault_load (ce_crates e) (ce_codec e) (ce_os e) st d) s)"

text \<open>\<open>load_secret().ok().flatten()\<close>.\<close>

definition secret_or_none :: "chat_env \<Rightarrow> 'a shared_scheme \<Rightarrow> nostr_secret option \<times> 'a shared_scheme" where
  "secret_or_none e s = (case load_secret e s of (Inr k, s) \<Rightarrow> (k, s) | (Inl _, s) \<Rightarrow> (None, s))"

definition secret_pubkey :: "chat_env \<Rightarrow> nostr_secret \<Rightarrow> string" where
  "secret_pubkey e k = hex_encode (ce_crates e) (NostrSecret_public_key (ce_crates e) k)"

definition generate_secret :: "chat_env \<Rightarrow> 'a shared_scheme \<Rightarrow> (nostr_identity_error + nostr_secret) \<times> 'a shared_scheme" where
  "generate_secret e =
     with_store (\<lambda>_ d.
       case getrandom_fill (sys (ce_os e)) 32 d of
         (Inl _, d) \<Rightarrow> (NostrSecret_generate (ce_crates e) None, d)
       | (Inr bs, d) \<Rightarrow> (NostrSecret_generate (ce_crates e) (Some bs), d))"

definition ensure_identity :: "chat_env \<Rightarrow> 'a shared_scheme \<Rightarrow> (chat_error + nostr_secret \<times> bool) \<times> 'a shared_scheme" where
  "ensure_identity e s =
     then_st (load_secret e s) (\<lambda>found s.
     case found of
       Some k \<Rightarrow> (Inr (k, False), s)
     | None \<Rightarrow>
         then_st (err_st Chat_Identity (generate_secret e s)) (\<lambda>k s.
         case with_store (\<lambda>st d. NostrVault_save_new (ce_crates e) (ce_codec e) (ce_os e) st k d) s of
           (Inr _, s) \<Rightarrow> (Inr (k, True), s)
         | (Inl AlreadyPresent, s) \<Rightarrow>
             then_st (load_secret e s) (\<lambda>found s. (and_then (ok_or Chat_Stopped found) (\<lambda>k. Inr (k, False)), s))
         | (Inl err, s) \<Rightarrow> (Inl (Chat_Store err), s)))"

text \<open>\<open>npub\<close> of a secret panics if the encoder refuses a 32-byte key, which it never does.\<close>

definition NostrSecret_npub :: "crates \<Rightarrow> nostr_secret \<Rightarrow> string" where
  "NostrSecret_npub c k = projr (npub_from_public_key c (NostrSecret_public_key c k))"

definition identity_value :: "chat_env \<Rightarrow> bool \<Rightarrow> 'a shared_scheme \<Rightarrow> (chat_error + json) \<times> 'a shared_scheme" where
  "identity_value e generated s =
     then_st (load_secret e s) (\<lambda>found s.
     (and_then (ok_or Chat_Stopped found) (\<lambda>k.
      Inr (JObj [(''npub'', JStr (NostrSecret_npub (ce_crates e) k)), (''pubkey'', JStr (secret_pubkey e k)),
                 (''generated'', JBool generated)])), s))"

section \<open>The relay pool\<close>

definition signer :: "chat_env \<Rightarrow> 'a shared_scheme \<Rightarrow> relay_auth_signer option \<times> 'a shared_scheme" where
  "signer e s =
     (case secret_or_none e s of
        (None, s) \<Rightarrow> (None, s)
      | (Some k, s) \<Rightarrow>
          (case RelayAuthSigner_from_secret_key (ce_crates e) (secret k) of Inr x \<Rightarrow> Some x | Inl _ \<Rightarrow> None, s))"

definition chat_relay_config :: "relay_auth_signer option \<Rightarrow> string \<Rightarrow> relay_config" where
  "chat_relay_config auth u = (RelayConfig_new u Direct)
    \<lparr>rc_policy := AuthenticateWhenChallenged, rc_connect_timeout := CONNECT_WAIT,
     rc_response_timeout := from_secs 10, rc_auth := auth\<rparr>"

definition wait_connected :: "chat_env \<Rightarrow> 'a shared_scheme \<Rightarrow> bool \<times> 'a shared_scheme" where
  "wait_connected e = use_tick (ce_connected e)"

text \<open>The list of relays this identity is reached at; failures are ignored.\<close>

definition publish_inbox_list :: "chat_env \<Rightarrow> nostr_secret \<Rightarrow> 'a chat_actor_scheme \<Rightarrow> 'a chat_actor_scheme" where
  "publish_inbox_list e k s =
     (let advertised = take 3 (filter (\<lambda>u. take 6 u = ''wss://'') (chat_relays s)) in
      if advertised = [] then s
      else case chat_unix_time e s of
        (Inl _, s) \<Rightarrow> s
      | (Inr now, s) \<Rightarrow>
          (case use_tick (\<lambda>i. create_dm_relay_list (ce_crates e) (ce_json e) (ce_urls e) (ce_random e i 32) (secret k) now
                            advertised EventLimits_default) s of
             (Inl _, s) \<Rightarrow> s
           | (Inr event, s) \<Rightarrow>
               if chat_pool s = None then s
               else case wait_connected e s of
                 (False, s) \<Rightarrow> s
               | (True, s) \<Rightarrow> s\<lparr>chat_sent := chat_sent s @ [event], sh_ticks := sh_ticks s + 1\<rparr>))"

definition dm_filter :: "string \<Rightarrow> u64 \<Rightarrow> json" where
  "dm_filter pubkey since =
     JObj [(''kinds'', JArr [JInt 1059]), (''#p'', JArr [JStr pubkey]), (''since'', JInt (uint since)), (''limit'', JInt 200)]"

definition ensure_subscription :: "chat_env \<Rightarrow> 'a chat_actor_scheme \<Rightarrow> 'a chat_actor_scheme" where
  "ensure_subscription e s =
     (case secret_or_none e s of
        (None, s) \<Rightarrow> s
      | (Some k, s) \<Rightarrow>
          let pubkey = secret_pubkey e k in
          if subscribed_for s = Some pubkey then s
          else
            let (now, s) = chat_unix_time e s;
                since = saturating_sub (case now of Inr t \<Rightarrow> t | Inl _ \<Rightarrow> 0) LOOKBACK_SECONDS;
                (answer, s) = use_tick (ce_subscribe e) s;
                s = (case chat_pool s of
                       None \<Rightarrow> s
                     | Some p \<Rightarrow> s\<lparr>chat_pool := Some (snd (pool_subscribe answer ''omachat-dm'' [dm_filter pubkey since] p))\<rparr>) in
            publish_inbox_list e k (s\<lparr>subscribed_for := Some pubkey\<rparr>))"

definition restart_pool :: "chat_env \<Rightarrow> 'a chat_actor_scheme \<Rightarrow> 'a chat_actor_scheme" where
  "restart_pool e s =
     (let s = s\<lparr>chat_pool := None, subscribed_for := None, pool_relays := chat_relays s\<rparr>;
          (k, s) = secret_or_none e s;
          s = s\<lparr>pool_pubkey := map_option (secret_pubkey e) k\<rparr> in
      if chat_relays s = [] then s
      else
        let (auth, s) = signer e s in
        case RelayPool_spawn (ce_urls e) (map (chat_relay_config auth) (chat_relays s))
               (RelayPoolConfig_default\<lparr>acknowledgement_threshold := 1\<rparr>) of
          Inl _ \<Rightarrow> s
        | Inr p \<Rightarrow> ensure_subscription e (s\<lparr>chat_pool := Some p\<rparr>))"

definition ensure_pool :: "chat_env \<Rightarrow> 'a chat_actor_scheme \<Rightarrow> 'a chat_actor_scheme" where
  "ensure_pool e s =
     (let (k, s) = secret_or_none e s in
      if chat_pool s \<noteq> None \<and> pool_relays s = chat_relays s \<and> pool_pubkey s = map_option (secret_pubkey e) k
      then ensure_subscription e s else restart_pool e s)"

definition publish_to_relays ::
  "chat_env \<Rightarrow> signed_event \<Rightarrow> 'a chat_actor_scheme \<Rightarrow> (chat_error + unit) \<times> 'a chat_actor_scheme" where
  "publish_to_relays e event s =
     (case chat_pool s of
        None \<Rightarrow> (Inl NoRelays, s)
      | Some p \<Rightarrow>
          (case wait_connected e s of
             (False, s) \<Rightarrow> (Inl NotConnected, s)
           | (True, s) \<Rightarrow>
               (case use_tick (\<lambda>i. pool_publish (ce_healths e i) (ce_publish e i) p) (s\<lparr>chat_sent := chat_sent s @ [event]\<rparr>) of
                  (Inl err, s) \<Rightarrow> (Inl (Chat_Send (Send_Pool err)), s)
                | (Inr _, s) \<Rightarrow> (Inr (), s))))"

section \<open>Contacts\<close>

text \<open>\<open>trim\<close>: the characters of a text as pieces, without blank pieces at either end.\<close>

definition char_width :: "char \<Rightarrow> nat" where
  "char_width x = (let b = byte_val x in if b < 128 then 1 else if b < 224 then 2 else if b < 240 then 3 else 4)"

function pieces :: "string \<Rightarrow> string list" where
  "pieces [] = []"
| "pieces (x # s) = (x # take (char_width x - 1) s) # pieces (drop (char_width x - 1) s)"
  by pat_completeness auto
termination by (relation "measure length") auto

definition blank :: "string \<Rightarrow> bool" where
  "blank s \<longleftrightarrow> chars s \<noteq> [] \<and> list_all char_is_whitespace (chars s)"

definition trim :: "string \<Rightarrow> string" where
  "trim s = concat (rev (dropWhile blank (rev (dropWhile blank (pieces s)))))"

definition resolve_peer ::
  "chat_env \<Rightarrow> string \<Rightarrow> 'a chat_actor_scheme \<Rightarrow> (chat_error + bytes \<times> string option) \<times> 'a chat_actor_scheme" where
  "resolve_peer e raw s =
     (let c = ce_crates e; peer = trim raw in
      if CHR ''@'' \<in> set peer then
        then_st (err_st Chat_Nip05 (use_tick (\<lambda>i.
            resolve_handle c (ce_json e) (ce_urls e) (ce_document_url e) (ce_fetch e i) peer (loopback_nip05 s)) s))
          (\<lambda>r s. (Inr (resolved_public_key r, Some (resolved_name r @ ''@'' @ resolved_domain r)), s))
      else case public_key_from_npub c peer of
        Inr pubkey \<Rightarrow> (Inr (pubkey, None), s)
      | Inl _ \<Rightarrow>
          if length peer = 64 \<and> list_all is_ascii_hexdigit peer then
            (and_then (ok_or InvalidPeer (hex_decode c peer)) (\<lambda>pubkey.
             if length pubkey \<noteq> 32 \<or> \<not> schnorr_key_ok c pubkey then Inl InvalidPeer else Inr (pubkey, None)), s)
          else case find (\<lambda>x. eq_ignore_ascii_case (contact_display x) peer \<or> contact_npub x = peer) (contacts s) of
            Some x \<Rightarrow>
              (and_then (ok_or InvalidPeer (hex_decode c (contact_pubkey x))) (\<lambda>pubkey.
               if length pubkey \<noteq> 32 then Inl InvalidPeer else Inr (pubkey, contact_nip05 x)), s)
          | None \<Rightarrow> (Inl InvalidPeer, s))"

definition make_contact :: "chat_env \<Rightarrow> bytes \<Rightarrow> string option \<Rightarrow> chat_error + contact" where
  "make_contact e pubkey nip05 =
     and_then (map_err Chat_Identity (npub_from_public_key (ce_crates e) pubkey)) (\<lambda>npub.
     Inr \<lparr>contact_pubkey = hex_encode (ce_crates e) pubkey, contact_npub = npub, contact_nip05 = nip05,
          contact_display = (case nip05 of Some n \<Rightarrow> n | None \<Rightarrow> npub)\<rparr>)"

definition add_contact :: "chat_env \<Rightarrow> string \<Rightarrow> 'a chat_actor_scheme \<Rightarrow> (chat_error + json) \<times> 'a chat_actor_scheme" where
  "add_contact e peer s =
     then_st (ensure_identity e s) (\<lambda>_ s.
     then_st (resolve_peer e peer s) (\<lambda>(pubkey, nip05) s.
     then_st (load_secret e s) (\<lambda>found s.
     then_st (ok_or Chat_Stopped found, s) (\<lambda>k s.
     if pubkey = NostrSecret_public_key (ce_crates e) k then (Inl SelfContact, s)
     else case find (\<lambda>x. contact_pubkey x = hex_encode (ce_crates e) pubkey) (contacts s) of
       Some existing \<Rightarrow> (Inr (JObj [(''contact'', contact_json existing), (''created'', JBool False)]), s)
     | None \<Rightarrow>
         if MAX_CONTACTS \<le> length (contacts s) then (Inl Chat_TooLarge, s)
         else
           then_st (make_contact e pubkey nip05, s) (\<lambda>x s.
           then_st (save_contacts e (s\<lparr>contacts := contacts s @ [x]\<rparr>)) (\<lambda>_ s.
           (Inr (JObj [(''contact'', contact_json x), (''created'', JBool True)]),
            ensure_pool e (publish_event Topic_Conversations
              (JObj [(''conversation'', JStr (''dm:'' @ contact_pubkey x)), (''name'', JStr (contact_display x))]) s))))))))"

definition remove_contact :: "chat_env \<Rightarrow> string \<Rightarrow> 'a chat_actor_scheme \<Rightarrow> (chat_error + json) \<times> 'a chat_actor_scheme" where
  "remove_contact e npub s =
     then_st (map_err Chat_Identity (public_key_from_npub (ce_crates e) npub), s) (\<lambda>key s.
     let pubkey = hex_encode (ce_crates e) key;
         before = length (contacts s);
         s = s\<lparr>contacts := filter (\<lambda>x. contact_pubkey x \<noteq> pubkey) (contacts s)\<rparr> in
     if length (contacts s) = before then (Inl Chat_NotFound, s)
     else then_st (save_contacts e s) (\<lambda>_ s. (Inr (JObj [(''removed'', JBool True)]), s)))"

definition remember_contact ::
  "chat_env \<Rightarrow> bytes \<Rightarrow> string option \<Rightarrow> 'a chat_actor_scheme \<Rightarrow> (chat_error + unit) \<times> 'a chat_actor_scheme" where
  "remember_contact e pubkey nip05 s =
     (if list_ex (\<lambda>x. contact_pubkey x = hex_encode (ce_crates e) pubkey) (contacts s) then (Inr (), s)
      else if MAX_CONTACTS \<le> length (contacts s) then (Inl Chat_TooLarge, s)
      else
        then_st (make_contact e pubkey nip05, s) (\<lambda>x s.
        save_contacts e (s\<lparr>contacts := contacts s @ [x]\<rparr>)))"

section \<open>Relays\<close>

fun canonical_loop :: "url_crate \<Rightarrow> string list \<Rightarrow> string list \<Rightarrow> chat_error + string list" where
  "canonical_loop urls [] canonical = Inr canonical"
| "canonical_loop urls (relay # relays) canonical =
     and_then (map_err (\<lambda>_. InvalidRelay) (canonical_publication_url urls relay)) (\<lambda>u.
     if u \<in> set canonical then Inl InvalidRelay else canonical_loop urls relays (canonical @ [u]))"

definition canonical_relays :: "url_crate \<Rightarrow> string list \<Rightarrow> chat_error + string list" where
  "canonical_relays urls relays =
     (if relays = [] \<or> MAX_RELAYS < length relays then Inl InvalidRelay else canonical_loop urls relays [])"

definition strings_json :: "string list \<Rightarrow> json" where
  "strings_json xs = JArr (map JStr xs)"

definition relay_value :: "'a chat_actor_scheme \<Rightarrow> json" where
  "relay_value s = JObj [(''relays'', strings_json (chat_relays s))]"

definition set_relays :: "chat_env \<Rightarrow> string list \<Rightarrow> 'a chat_actor_scheme \<Rightarrow> (chat_error + json) \<times> 'a chat_actor_scheme" where
  "set_relays e relays s =
     then_st (if relays = [] then Inr [] else canonical_relays (ce_urls e) relays, s) (\<lambda>canonical s.
     then_st (save_record e RELAYS_RECORD (JObj [(''relays'', strings_json canonical)]) s) (\<lambda>_ s.
     let s = restart_pool e (s\<lparr>chat_relays := canonical, subscribed_for := None\<rparr>) in
     (Inr (relay_value s), s)))"

section \<open>Messages\<close>

definition store_message ::
  "chat_env \<Rightarrow> stored_message \<Rightarrow> 'a chat_actor_scheme \<Rightarrow> (chat_error + stored_message) \<times> 'a chat_actor_scheme" where
  "store_message e m s =
     (let kept = (if length (messages s) = MAX_MESSAGES then tl (messages s) else messages s) in
      then_st (save_messages e (s\<lparr>messages := kept @ [m]\<rparr>)) (\<lambda>_ s.
      (Inr m, publish_event Topic_Messages (message_json m) s)))"

definition text_ok :: "string \<Rightarrow> bool" where
  "text_ok body \<longleftrightarrow>
     body \<noteq> [] \<and> length body \<le> MAX_CHAT_TEXT_BYTES \<and> list_all (\<lambda>x. char_is_control x \<longrightarrow> x = 10 \<or> x = 9) (chars body)"

definition gift :: "chat_env \<Rightarrow> rumor \<Rightarrow> nostr_secret \<Rightarrow> bytes \<Rightarrow> u64 \<Rightarrow> 'a shared_scheme
    \<Rightarrow> (chat_error + signed_event) \<times> 'a shared_scheme" where
  "gift e r k recipient now s =
     (case create_gift_wrap (ce_crates e) (ce_json e) (ce_nip44 e) (ce_random e) r (secret k) recipient now Persistent
             EventLimits_default (sh_ticks s) of
        (x, i) \<Rightarrow> (map_err (\<lambda>err. Chat_Send (Send_Gift err)) x, s\<lparr>sh_ticks := i\<rparr>))"

definition chat_send ::
  "chat_env \<Rightarrow> string \<Rightarrow> string \<Rightarrow> 'a chat_actor_scheme \<Rightarrow> (chat_error + json) \<times> 'a chat_actor_scheme" where
  "chat_send e peer body s =
     (let c = ce_crates e in
      if \<not> text_ok body then (Inl InvalidText, s)
      else
        then_st (ensure_identity e s) (\<lambda>(k, _) s.
        then_st (resolve_peer e peer (ensure_pool e s)) (\<lambda>(recipient, nip05) s.
        if recipient = NostrSecret_public_key c k then (Inl SelfContact, s)
        else
          then_st (remember_contact e recipient nip05 s) (\<lambda>_ s.
          then_st (chat_unix_time e s) (\<lambda>now s.
          then_st (map_err (\<lambda>err. Chat_Send (Send_Gift err))
            (create_chat_rumor c (ce_json e) (ce_urls e) (secret k) now
               [\<lparr>recipient_public_key = recipient, relay_hint = None\<rparr>] body None None EventLimits_default), s) (\<lambda>r s.
          then_st (gift e r k recipient now s) (\<lambda>recipient_wrap s.
          then_st (gift e r k (NostrSecret_public_key c k) now s) (\<lambda>self_wrap s.
          then_st (publish_to_relays e recipient_wrap s) (\<lambda>_ s.
          then_st (store_message e
            \<lparr>msg_id = r_id r, msg_conversation = ''dm:'' @ hex_encode c recipient, msg_peer = hex_encode c recipient,
             msg_sender = ''you'', msg_text = body, msg_outgoing = True, msg_delivery = ''stored'',
             msg_created_at = r_created_at r\<rparr> (snd (publish_to_relays e self_wrap s))) (\<lambda>m s.
          (Inr (JObj [(''message'', message_json m)]), s)))))))))))"

definition display_for :: "crates \<Rightarrow> contact list \<Rightarrow> string \<Rightarrow> string" where
  "display_for c cs pubkey =
     (case find (\<lambda>x. contact_pubkey x = pubkey) cs of
        Some x \<Rightarrow> contact_display x
      | None \<Rightarrow>
          (case hex_decode c pubkey of
             None \<Rightarrow> ''peer''
           | Some raw \<Rightarrow>
               if length raw \<noteq> 32 then ''peer''
               else case npub_from_public_key c raw of Inr npub \<Rightarrow> npub | Inl _ \<Rightarrow> ''peer''))"

text \<open>The peer of an opened message: its author, or for a copy of one's own message its first recipient.\<close>

definition message_peer :: "string \<Rightarrow> rumor \<Rightarrow> string option" where
  "message_peer mine r =
     (if r_pubkey r = mine then
        Option.bind (find (first_is ''p'') (r_tags r)) (\<lambda>tag. if 1 < length tag then Some (tag ! 1) else None)
      else Some (r_pubkey r))"

definition incoming_message :: "crates \<Rightarrow> contact list \<Rightarrow> string \<Rightarrow> string \<Rightarrow> rumor \<Rightarrow> stored_message" where
  "incoming_message c cs mine peer r =
     (let outgoing = (r_pubkey r = mine) in
      \<lparr>msg_id = r_id r, msg_conversation = ''dm:'' @ peer, msg_peer = peer,
       msg_sender = (if outgoing then ''you'' else display_for c cs peer), msg_text = r_content r,
       msg_outgoing = outgoing, msg_delivery = (if outgoing then ''stored'' else ''received''),
       msg_created_at = r_created_at r\<rparr>)"

definition on_notification :: "chat_env \<Rightarrow> relay_notification \<Rightarrow> 'a chat_actor_scheme \<Rightarrow> 'a chat_actor_scheme" where
  "on_notification e n s =
     (case n of
        N_Event _ event \<Rightarrow>
          if s_kind event \<noteq> 1059 then s
          else case secret_or_none e s of
            (None, s) \<Rightarrow> s
          | (Some k, s) \<Rightarrow>
              (case chat_unix_time e s of
                 (Inl _, s) \<Rightarrow> s
               | (Inr now, s) \<Rightarrow>
                   (case open_gift_wrap (ce_crates e) (ce_json e) (ce_nip44 e) event (secret k) now EventLimits_default of
                      Inl _ \<Rightarrow> s
                    | Inr opened \<Rightarrow>
                        let r = opened_rumor opened; mine = secret_pubkey e k in
                        if r_kind r \<noteq> CHAT_MESSAGE_KIND \<or> MAX_CHAT_TEXT_BYTES < length (r_content r) then s
                        else case message_peer mine r of
                          None \<Rightarrow> s
                        | Some peer \<Rightarrow>
                            if peer = mine \<or> list_ex (\<lambda>m. msg_id m = r_id r) (messages s) then s
                            else snd (store_message e (incoming_message (ce_crates e) (contacts s) mine peer r) s)))
      | _ \<Rightarrow> s)"

section \<open>Requests\<close>

definition prepare :: "chat_env \<Rightarrow> 'a chat_actor_scheme \<Rightarrow> (chat_error + json) \<times> 'a chat_actor_scheme" where
  "prepare e s =
     then_st (ensure_identity e s) (\<lambda>(_, generated) s.
     identity_value e generated (restart_pool e (s\<lparr>subscribed_for := None\<rparr>)))"

definition messages_value :: "'a chat_actor_scheme \<Rightarrow> json" where
  "messages_value s = JArr (map message_json (messages s))"

definition contacts_value :: "'a chat_actor_scheme \<Rightarrow> json" where
  "contacts_value s = JArr (map contact_json (contacts s))"

definition snapshot_value :: "chat_env \<Rightarrow> 'a chat_actor_scheme \<Rightarrow> (string \<times> json) list \<times> 'a chat_actor_scheme" where
  "snapshot_value e s =
     (case secret_or_none e s of (k, s) \<Rightarrow>
        ([(''messages'', messages_value s), (''contacts'', contacts_value s), (''relays'', strings_json (chat_relays s)),
          (''identity'', case k of
             Some k \<Rightarrow> JObj [(''present'', JBool True), (''npub'', JStr (NostrSecret_npub (ce_crates e) k)),
                            (''pubkey'', JStr (secret_pubkey e k))]
           | None \<Rightarrow> JObj [(''present'', JBool False)])], s))"

fun chat_handle :: "chat_env \<Rightarrow> chat_request \<Rightarrow> 'a chat_actor_scheme \<Rightarrow> (chat_error + json) \<times> 'a chat_actor_scheme" where
  "chat_handle e Prepare s = prepare e s"
| "chat_handle e (AddContact peer) s = add_contact e peer s"
| "chat_handle e (RemoveContact npub) s = remove_contact e npub s"
| "chat_handle e ListContacts s = (Inr (JObj [(''contacts'', contacts_value s)]), s)"
| "chat_handle e ShowRelays s = (Inr (relay_value s), s)"
| "chat_handle e (SetRelays relays) s = set_relays e relays s"
| "chat_handle e (SendText peer body) s = chat_send e peer body s"
| "chat_handle e Messages s = (Inr (JObj [(''messages'', messages_value s)]), s)"
| "chat_handle e Reload s = identity_value e False (restart_pool e (s\<lparr>subscribed_for := None\<rparr>))"
| "chat_handle e Snapshot s = (case snapshot_value e s of (kvs, s) \<Rightarrow> (Inr (JObj kvs), s))"
| "chat_handle e (Loopback base) s = (Inr (JObj [(''ok'', JBool True)]), s\<lparr>loopback_nip05 := base\<rparr>)"

text \<open>The start of the actor: the relays it was given, then what the store holds.\<close>

definition chat_start :: "chat_env \<Rightarrow> string list \<Rightarrow> 'a chat_actor_scheme \<Rightarrow> 'a chat_actor_scheme" where
  "chat_start e configured s =
     (let (relays, s) = load_relays e s;
          s = s\<lparr>chat_relays := (case relays of Some rs \<Rightarrow> rs | None \<Rightarrow> configured)\<rparr>;
          (cs, s) = load_contacts e s;
          s = s\<lparr>contacts := (case cs of Some cs \<Rightarrow> cs | None \<Rightarrow> [])\<rparr>;
          (ms, s) = load_messages e s;
          s = s\<lparr>messages := (case ms of Some ms \<Rightarrow> ms | None \<Rightarrow> [])\<rparr> in
      restart_pool e s)"

text \<open>One turn of the actor's loop: a request, or a notification of the pool.\<close>

datatype chat_input = Chat_Request chat_request | Chat_Notification relay_notification

fun chat_turn :: "chat_env \<Rightarrow> chat_input \<Rightarrow> 'a chat_actor_scheme \<Rightarrow> 'a chat_actor_scheme" where
  "chat_turn e (Chat_Request r) s = snd (chat_handle e r s)"
| "chat_turn e (Chat_Notification n) s = on_notification e n s"

section \<open>What the operations leave alone\<close>

text \<open>
  The actor's lists, the store it was given and whatever extends the actor: everything but the
  operations on contacts and messages leaves all of it alone, and these leave the last two alone.
\<close>

definition surroundings :: "'a chat_actor_scheme \<Rightarrow> sealed_store \<times> 'a" where
  "surroundings s = (sh_store s, chat_actor.more s)"

definition book :: "'a chat_actor_scheme \<Rightarrow> contact list \<times> stored_message list \<times> sealed_store \<times> 'a" where
  "book s = (contacts s, messages s, surroundings s)"

lemmas book_defs = book_def surroundings_def

lemma list_update_surroundings [simp]:
  "surroundings (s\<lparr>contacts := cs\<rparr>) = surroundings s" "surroundings (s\<lparr>messages := ms\<rparr>) = surroundings s"
  "surroundings (s\<lparr>chat_relays := rs\<rparr>) = surroundings s"
  by (simp_all add: surroundings_def)

lemma book_eq:
  "book s = book t \<longleftrightarrow> contacts s = contacts t \<and> messages s = messages t \<and> surroundings s = surroundings t"
  by (auto simp: book_def)

named_theorems keeps \<open>operations that keep the actor's lists\<close>

lemma lists_update [keeps]:
  "book (s\<lparr>sh_disk := d\<rparr>) = book s" "book (s\<lparr>sh_ticks := i\<rparr>) = book s" "book (s\<lparr>sh_hub := h, sh_sequence := q\<rparr>) = book s"
  "book (s\<lparr>chat_sent := xs\<rparr>) = book s" "book (s\<lparr>chat_pool := p\<rparr>) = book s" "book (s\<lparr>subscribed_for := k\<rparr>) = book s"
  "book (s\<lparr>pool_relays := rs\<rparr>) = book s" "book (s\<lparr>pool_pubkey := k\<rparr>) = book s" "book (s\<lparr>chat_relays := rs\<rparr>) = book s"
  "book (s\<lparr>loopback_nip05 := k\<rparr>) = book s" "book (s\<lparr>sh_sequence := q\<rparr>) = book s" "book (s\<lparr>sh_hub := h\<rparr>) = book s"
  by (simp_all add: book_defs)

lemma then_st_lists:
  assumes "\<And>x t. book (snd (k x t)) = book t"
  shows "book (snd (then_st m k)) = book (snd m)"
  using assms by (cases m; cases "fst m") (auto simp: then_st_def)

lemma with_store_lists [keeps]: "book (snd (with_store f s)) = book s"
  by (simp add: with_store_def keeps split: prod.splits)

lemma use_tick_lists [keeps]: "book (snd (use_tick f s)) = book s"
  by (simp add: use_tick_def keeps)

lemma chat_unix_time_lists [keeps]: "book (snd (chat_unix_time e s)) = book s"
  by (simp add: chat_unix_time_def keeps)

lemma publish_event_lists [keeps]: "book (publish_event t j s) = book s"
  by (simp add: publish_event_def keeps)

lemma err_st_lists [keeps]: "book (snd (err_st g m)) = book (snd m)"
  by (simp add: err_st_def)

lemma save_record_lists [keeps]: "book (snd (save_record e name j s)) = book s"
  by (simp add: save_record_def then_st_lists keeps)

lemma save_lists [keeps]: "book (snd (save_contacts e s)) = book s" "book (snd (save_messages e s)) = book s"
  by (simp_all add: save_contacts_def save_messages_def keeps)

lemma load_secret_lists [keeps]: "book (snd (load_secret e s)) = book s"
  by (simp add: load_secret_def keeps)

lemma secret_or_none_lists [keeps]: "book (snd (secret_or_none e s)) = book s"
  using load_secret_lists [of e s] by (auto simp: secret_or_none_def split: prod.splits sum.splits)

lemma generate_secret_lists [keeps]: "book (snd (generate_secret e s)) = book s"
  by (simp add: generate_secret_def keeps)

lemma snd_lists:
  assumes "book (snd m) = book s" and "m = (x, t)"
  shows "book t = book s"
  using assms by simp

lemma ensure_identity_lists [keeps]:
  fixes s :: "'s chat_actor_scheme"
  shows "book (snd (ensure_identity e s)) = book s"
proof -
  have "book (snd (case with_store f t of
           (Inr _, s) \<Rightarrow> (Inr (k, True), s)
         | (Inl AlreadyPresent, s) \<Rightarrow>
             then_st (load_secret e s) (\<lambda>found s. (and_then (ok_or Chat_Stopped found) (\<lambda>k. Inr (k, False)), s))
         | (Inl err, s) \<Rightarrow> (Inl (Chat_Store err), s))) = book t" for k and t :: "'s chat_actor_scheme"
    and f :: "sealed_store \<Rightarrow> disk \<Rightarrow> (nostr_store_error + unit) \<times> disk"
    by (cases "with_store f t") (auto simp: then_st_lists keeps dest: snd_lists [OF with_store_lists]
        split: sum.splits nostr_store_error.splits)
  then show ?thesis
    unfolding ensure_identity_def by (simp add: then_st_lists keeps split: option.splits)
qed

lemma identity_value_lists [keeps]: "book (snd (identity_value e g s)) = book s"
  by (simp add: identity_value_def then_st_lists keeps)

lemma signer_lists [keeps]: "book (snd (signer e s)) = book s"
  by (auto simp: signer_def split: prod.splits option.splits dest: snd_lists [OF secret_or_none_lists])

lemma wait_connected_lists [keeps]: "book (snd (wait_connected e s)) = book s"
  by (simp add: wait_connected_def keeps)

lemma publish_inbox_list_lists [keeps]: "book (publish_inbox_list e k s) = book s"
  by (auto simp: publish_inbox_list_def Let_def lists_update split: prod.splits sum.splits bool.splits
      dest!: snd_lists [OF chat_unix_time_lists] snd_lists [OF use_tick_lists] snd_lists [OF wait_connected_lists])

lemma ensure_subscription_lists [keeps]: "book (ensure_subscription e s) = book s"
  by (auto simp: ensure_subscription_def Let_def lists_update publish_inbox_list_lists
      split: prod.splits option.splits
      dest!: snd_lists [OF chat_unix_time_lists] snd_lists [OF use_tick_lists] snd_lists [OF secret_or_none_lists])

lemma restart_pool_lists [keeps]: "book (restart_pool e s) = book s"
  by (auto simp: restart_pool_def Let_def lists_update ensure_subscription_lists
      split: prod.splits sum.splits
      dest!: snd_lists [OF secret_or_none_lists] snd_lists [OF signer_lists])

lemma ensure_pool_lists [keeps]: "book (ensure_pool e s) = book s"
  by (auto simp: ensure_pool_def Let_def ensure_subscription_lists restart_pool_lists
      split: prod.splits dest!: snd_lists [OF secret_or_none_lists])

lemma publish_to_relays_lists [keeps]: "book (snd (publish_to_relays e event s)) = book s"
  by (auto simp: publish_to_relays_def lists_update split: prod.splits option.splits sum.splits bool.splits
      dest!: snd_lists [OF wait_connected_lists] snd_lists [OF use_tick_lists])

lemma resolve_peer_lists [keeps]: "book (snd (resolve_peer e peer s)) = book s"
  by (simp add: resolve_peer_def Let_def then_st_lists keeps split: sum.splits option.splits)

lemma gift_lists [keeps]: "book (snd (gift e r k recipient now s)) = book s"
  by (simp add: gift_def keeps split: prod.splits)

lemma set_relays_lists [keeps]: "book (snd (set_relays e relays s)) = book s"
  by (simp add: set_relays_def Let_def then_st_lists keeps)

lemma prepare_lists [keeps]: "book (snd (prepare e s)) = book s"
  by (simp add: prepare_def then_st_lists keeps split: prod.splits)

lemma snapshot_value_lists [keeps]: "book (snd (snapshot_value e s)) = book s"
  by (auto simp: snapshot_value_def split: prod.splits dest!: snd_lists [OF secret_or_none_lists])

section \<open>How the lists grow\<close>

text \<open>The address book is bounded and lists every key once; the message window is bounded.\<close>

definition bounded :: "'a chat_actor_scheme \<Rightarrow> bool" where
  "bounded s \<longleftrightarrow> length (contacts s) \<le> MAX_CONTACTS \<and> distinct (map contact_pubkey (contacts s))
     \<and> length (messages s) \<le> MAX_MESSAGES"

definition grows :: "stored_message set \<Rightarrow> 'a chat_actor_scheme \<Rightarrow> 'a chat_actor_scheme \<Rightarrow> bool" where
  "grows M s t \<longleftrightarrow> (bounded s \<longrightarrow> bounded t) \<and> set (messages t) \<subseteq> set (messages s) \<union> M
     \<and> surroundings t = surroundings s"

lemma grows_trans: "grows M s t \<Longrightarrow> grows M t u \<Longrightarrow> grows M s u"
  by (auto simp: grows_def)

lemma grows_lists: "book t = book s \<Longrightarrow> grows M s t"
  by (auto simp: grows_def bounded_def book_def)

lemma grows_keeps: "book (snd m) = book s \<Longrightarrow> grows M s (snd m)"
  by (rule grows_lists)

lemma grows_then:
  assumes "grows M s (snd m)" and "\<And>x t. grows M t (snd (k x t))"
  shows "grows M s (snd (then_st m k))"
  using assms grows_trans by (cases m; cases "fst m") (fastforce simp: then_st_def)+

lemma save_contacts_grows:
  assumes "length cs \<le> MAX_CONTACTS" and "distinct (map contact_pubkey cs)"
  shows "grows M s (snd (save_contacts e (s\<lparr>contacts := cs\<rparr>)))"
proof -
  have "grows M s (s\<lparr>contacts := cs\<rparr>)"
    using assms by (auto simp: grows_def bounded_def)
  then show ?thesis
    by (rule grows_trans) (simp add: grows_lists keeps)
qed

lemma store_message_grows:
  assumes "m \<in> M"
  shows "grows M s (snd (store_message e m s))"
proof -
  let ?kept = "if length (messages s) = MAX_MESSAGES then tl (messages s) else messages s"
  have "grows M s (s\<lparr>messages := ?kept @ [m]\<rparr>)"
    using assms by (auto simp: grows_def bounded_def MAX_MESSAGES_def dest: list.set_sel(2) [rotated])
  then show ?thesis
    unfolding store_message_def Let_def by (rule grows_trans) (simp add: grows_lists then_st_lists keeps)
qed

lemma make_contact_Inr: "make_contact e pubkey nip05 = Inr x \<Longrightarrow> contact_pubkey x = hex_encode (ce_crates e) pubkey"
  by (auto simp: make_contact_def)

text \<open>Adding a contact for a key the book does not have, while there is room.\<close>

lemma contact_appended:
  assumes "\<And>x. x \<in> set (contacts s) \<Longrightarrow> contact_pubkey x \<noteq> hex_encode (ce_crates e) pubkey"
    and "\<not> MAX_CONTACTS \<le> length (contacts s)" and "make_contact e pubkey nip05 = Inr x"
  shows "grows M s (s\<lparr>contacts := contacts s @ [x]\<rparr>)"
proof -
  have "contact_pubkey x \<notin> contact_pubkey ` set (contacts s)"
    using assms(1) make_contact_Inr [OF assms(3)] by force
  then show ?thesis
    using assms(2) by (auto simp: grows_def bounded_def)
qed

lemma contacts_filtered: "grows M s (s\<lparr>contacts := filter p (contacts s)\<rparr>)"
  by (auto simp: grows_def bounded_def distinct_map_filter intro: order_trans [OF length_filter_le])

lemma grows_after: "grows M s t \<Longrightarrow> book u = book t \<Longrightarrow> grows M s u"
  by (blast intro: grows_trans grows_lists)

lemma then_pure:
  assumes "\<And>y. x = Inr y \<Longrightarrow> grows M s (snd (k y s))"
  shows "grows M s (snd (then_st (x, s) k))"
  using assms grows_lists by (cases x) (auto simp: then_st_def)

lemma grows_then_keeps:
  assumes "book (snd m) = book s" and "\<And>x t. grows M t (snd (k x t))"
  shows "grows M s (snd (then_st m k))"
  using assms by (blast intro: grows_then grows_lists)

lemma remember_contact_grows: "grows M s (snd (remember_contact e pubkey nip05 s))"
  unfolding remember_contact_def
  by (auto simp: grows_lists keeps list_ex_iff intro!: then_pure grows_after [OF contact_appended])

lemma remove_contact_grows: "grows M s (snd (remove_contact e npub s))"
  unfolding remove_contact_def Let_def
  by (rule then_pure) (auto simp: then_st_lists keeps contacts_filtered intro: grows_after [OF contacts_filtered])

lemma add_contact_grows: "grows M s (snd (add_contact e peer s))"
  unfolding add_contact_def
proof (intro grows_then_keeps ensure_identity_lists resolve_peer_lists load_secret_lists, clarify)
  fix pubkey nip05 and t :: "'a chat_actor_scheme"
  show "grows M t (snd (then_st (load_secret e t) (\<lambda>found s.
     then_st (ok_or Chat_Stopped found, s) (\<lambda>k s.
     if pubkey = NostrSecret_public_key (ce_crates e) k then (Inl SelfContact, s)
     else case find (\<lambda>x. contact_pubkey x = hex_encode (ce_crates e) pubkey) (contacts s) of
       Some existing \<Rightarrow> (Inr (JObj [(''contact'', contact_json existing), (''created'', JBool False)]), s)
     | None \<Rightarrow>
         if MAX_CONTACTS \<le> length (contacts s) then (Inl Chat_TooLarge, s)
         else
           then_st (make_contact e pubkey nip05, s) (\<lambda>x s.
           then_st (save_contacts e (s\<lparr>contacts := contacts s @ [x]\<rparr>)) (\<lambda>_ s.
           (Inr (JObj [(''contact'', contact_json x), (''created'', JBool True)]),
            ensure_pool e (publish_event Topic_Conversations
              (JObj [(''conversation'', JStr (''dm:'' @ contact_pubkey x)), (''name'', JStr (contact_display x))]) s))))))))"
    by (rule grows_then_keeps [OF load_secret_lists], rule then_pure)
      (auto simp: grows_lists then_st_lists keeps find_None_iff list_ex_iff split: option.splits
        intro!: then_pure grows_after [OF contact_appended])
qed

lemma chat_send_grows: "grows {m. msg_outgoing m} s (snd (chat_send e peer body s))"
  unfolding chat_send_def Let_def
  by (auto simp: keeps grows_lists split: prod.splits
      intro!: grows_then_keeps then_pure grows_then [OF remember_contact_grows]
        grows_then [OF grows_trans [OF grows_lists [OF publish_to_relays_lists] store_message_grows]])

section \<open>The actor keeps its bounds\<close>

definition opened_as :: "chat_env \<Rightarrow> signed_event \<Rightarrow> stored_message \<Rightarrow> nostr_secret \<Rightarrow> u64 \<Rightarrow> opened_gift_wrap \<Rightarrow> bool" where
  "opened_as e w m k now opened \<longleftrightarrow>
     open_gift_wrap (ce_crates e) (ce_json e) (ce_nip44 e) w (secret k) now EventLimits_default = Inr opened
     \<and> (\<exists>cs peer. m = incoming_message (ce_crates e) cs (secret_pubkey e k) peer (opened_rumor opened)
          \<and> message_peer (secret_pubkey e k) (opened_rumor opened) = Some peer)"

text \<open>The messages a notification can add.\<close>

definition arrivals :: "chat_env \<Rightarrow> relay_notification \<Rightarrow> stored_message set" where
  "arrivals e n = {m. \<exists>sub w k now opened. n = N_Event sub w \<and> opened_as e w m k now opened}"

lemma arrivalsI:
  assumes "open_gift_wrap (ce_crates e) (ce_json e) (ce_nip44 e) w (secret k) now EventLimits_default = Inr opened"
    and "message_peer (secret_pubkey e k) (opened_rumor opened) = Some peer"
  shows "incoming_message (ce_crates e) cs (secret_pubkey e k) peer (opened_rumor opened) \<in> arrivals e (N_Event sub w)"
  using assms unfolding arrivals_def opened_as_def by blast

lemma on_notification_grows: "grows (arrivals e n) s (on_notification e n s)"
proof (cases n)
  case (N_Event sub w)
  have arrives: "grows (arrivals e (N_Event sub w)) s (snd (store_message e (incoming_message (ce_crates e) (contacts t) (secret_pubkey e k) peer
           (opened_rumor opened)) t))"
    if "book t = book s"
      "open_gift_wrap (ce_crates e) (ce_json e) (ce_nip44 e) w (secret k) now EventLimits_default = Inr opened"
      "message_peer (secret_pubkey e k) (opened_rumor opened) = Some peer" for t k now opened peer
    using that by (intro grows_trans [OF grows_lists store_message_grows] arrivalsI)
  show ?thesis
    unfolding on_notification_def N_Event relay_notification.case
    using arrives
    by (auto simp: Let_def grows_lists split: prod.splits option.splits sum.splits
        dest!: snd_lists [OF secret_or_none_lists] snd_lists [OF chat_unix_time_lists])
qed (simp_all add: on_notification_def grows_lists)

fun turn_messages :: "chat_env \<Rightarrow> chat_input \<Rightarrow> stored_message set" where
  "turn_messages e (Chat_Request r) = {m. msg_outgoing m}"
| "turn_messages e (Chat_Notification n) = arrivals e n"

lemma chat_handle_grows: "grows {m. msg_outgoing m} s (snd (chat_handle e r s))"
  by (cases r) (auto simp: add_contact_grows remove_contact_grows chat_send_grows grows_lists keeps
      split: prod.splits dest!: snd_lists [OF snapshot_value_lists])

lemma load_value_lists [keeps]: "book (snd (load_value e name s)) = book s"
  by (auto simp: load_value_def split: prod.splits sum.splits dest: snd_lists [OF with_store_lists])

lemma load_lists [keeps]:
  "book (snd (load_relays e s)) = book s" "book (snd (load_contacts e s)) = book s" "book (snd (load_messages e s)) = book s"
  by (auto simp: load_relays_def load_contacts_def load_messages_def load_vec_def split: prod.splits
      dest: snd_lists [OF load_value_lists])

lemma book_surroundings: "book t = book s \<Longrightarrow> surroundings t = surroundings s"
  by (simp add: book_eq)

lemma chat_start_surroundings: "surroundings (chat_start e configured s) = surroundings s"
  by (simp add: chat_start_def Let_def split: prod.splits)
    (auto simp: book_surroundings [OF restart_pool_lists] dest!: load_lists [THEN snd_lists, THEN book_surroundings])

lemma chat_turn_grows: "grows (turn_messages e i) s (chat_turn e i s)"
  by (cases i) (simp_all add: chat_handle_grows on_notification_grows)

interpretation chat: step_invariant bounded "chat_turn e" for e
  using chat_turn_grows by unfold_locales (auto simp: grows_def)

lemma run_grows: "set (messages (fold (chat_turn e) inputs s)) \<subseteq> set (messages s) \<union> \<Union> (turn_messages e ` set inputs)"
proof (induction inputs arbitrary: s)
  case (Cons i inputs)
  have "set (messages (chat_turn e i s)) \<subseteq> set (messages s) \<union> turn_messages e i"
    using chat_turn_grows [of e i s] by (simp add: grows_def)
  with Cons [of "chat_turn e i s"] show ?case by auto
qed simp

text \<open>
  C33. What the chat shows as received is authentic. Whatever requests and relay notifications the
  actor takes, a message that is in its window afterwards, was not there before and is not marked
  as one's own came in a gift wrap that the vault's key opened: the peer, the conversation, the
  text and the id are those of the opened rumor, and the seal carries a valid Schnorr signature by
  the very key the message is filed under. The peer is never the user's own key.
\<close>

theorem incoming_authentic:
  assumes "m \<in> set (messages (fold (chat_turn e) inputs s))" and "m \<notin> set (messages s)" and "\<not> msg_outgoing m"
  shows "\<exists>sub w k now opened pk body sg.
      Chat_Notification (N_Event sub w) \<in> set inputs
    \<and> open_gift_wrap (ce_crates e) (ce_json e) (ce_nip44 e) w (secret k) now EventLimits_default = Inr opened
    \<and> msg_peer m = r_pubkey (opened_rumor opened) \<and> msg_conversation m = ''dm:'' @ msg_peer m
    \<and> msg_text m = r_content (opened_rumor opened) \<and> msg_id m = r_id (opened_rumor opened)
    \<and> decode_hex_32 (ce_crates e) (msg_peer m) = Inr pk
    \<and> canonical_json (ce_json e) (event_unsigned (opened_seal opened)) = Inr body
    \<and> decode_hex_64 (ce_crates e) (s_sig (opened_seal opened)) = Inr sg
    \<and> schnorr_verify (ce_crates e) pk (sha256 (ce_crates e) body) sg
    \<and> msg_peer m \<noteq> secret_pubkey e k"
proof -
  obtain i where "i \<in> set inputs" "m \<in> turn_messages e i"
    using run_grows assms(1,2) by blast
  then obtain n where n: "Chat_Notification n \<in> set inputs" "m \<in> arrivals e n"
    using assms(3) by (metis chat_input.exhaust mem_Collect_eq turn_messages.simps)
  then obtain sub w k now opened cs peer where a: "n = N_Event sub w"
    "open_gift_wrap (ce_crates e) (ce_json e) (ce_nip44 e) w (secret k) now EventLimits_default = Inr opened"
    "m = incoming_message (ce_crates e) cs (secret_pubkey e k) peer (opened_rumor opened)"
    "message_peer (secret_pubkey e k) (opened_rumor opened) = Some peer"
    by (auto simp: arrivals_def opened_as_def)
  then have p: "r_pubkey (opened_rumor opened) \<noteq> secret_pubkey e k" "peer = r_pubkey (opened_rumor opened)"
    using assms(3) by (auto simp: incoming_message_def Let_def message_peer_def)
  from opened_authentic [OF a(2)] obtain pk body sg where
    "decode_hex_32 (ce_crates e) (r_pubkey (opened_rumor opened)) = Inr pk"
    "canonical_json (ce_json e) (event_unsigned (opened_seal opened)) = Inr body"
    "decode_hex_64 (ce_crates e) (s_sig (opened_seal opened)) = Inr sg"
    "schnorr_verify (ce_crates e) pk (sha256 (ce_crates e) body) sg"
    by blast
  with n(1) a p show ?thesis
    by (intro exI [of _ sub] exI [of _ w] exI [of _ k] exI [of _ now] exI [of _ opened] exI [of _ pk] exI [of _ body]
        exI [of _ sg]) (simp add: incoming_message_def Let_def)
qed

text \<open>A concrete actor: the vault holds \<open>demo_recipient\<close>, the clock shows 5.\<close>

definition demo_chat_env :: chat_env where
  "demo_chat_env =
     \<lparr>ce_crates = reference_crates, ce_json = reference_json, ce_nip44 = reference_nip44, ce_codec = demo_codec,
      ce_urls = reference_urls, ce_document_url = (\<lambda>_ _. []), ce_os = demo_store_env, ce_clock = (\<lambda>_. Some 5),
      ce_random = (\<lambda>_ _. None), ce_fetch = (\<lambda>_ _. Inl []), ce_connected = (\<lambda>_. False), ce_healths = (\<lambda>_. []),
      ce_publish = (\<lambda>_ _. Inl RE_Stopped), ce_subscribe = (\<lambda>_ _. Inr ())\<rparr>"

definition demo_chat :: chat_actor where
  "demo_chat =
     \<lparr>sh_store = demo_store, sh_disk = restart (demo_tree_with NOSTR_RECORD (demo_envelope demo_recipient)),
      sh_hub = \<lparr>subscribers = [], channels = []\<rparr>, sh_sequence = 1, sh_ticks = 0, chat_relays = [], contacts = [],
      messages = [], chat_pool = None, pool_relays = [], pool_pubkey = None, subscribed_for = None,
      loopback_nip05 = None, chat_sent = []\<rparr>"

lemma demo_secret: "fst (secret_or_none demo_chat_env demo_chat) = Some \<lparr>secret = demo_recipient\<rparr>"
proof -
  have "fst (with_store (\<lambda>st d. NostrVault_load reference_crates demo_codec demo_store_env st d) demo_chat)
      = Inr (Some \<lparr>secret = demo_recipient\<rparr>)"
    using demo_envelope_loads [of demo_recipient demo_store_env] demo_recipient_key(1)
    by (auto simp: with_store_def demo_chat_def demo_calm(2) NostrSecret_from_bytes_def demo_recipient_def
        split: prod.splits)
  then show ?thesis
    by (cases "with_store (\<lambda>st d. NostrVault_load reference_crates demo_codec demo_store_env st d) demo_chat")
      (simp add: secret_or_none_def load_secret_def err_st_def demo_chat_env_def)
qed

lemma messages_book: "messages s = fst (snd (book s))" "contacts s = fst (book s)"
  by (simp_all add: book_def)

lemma store_message_messages:
  "length (messages s) < MAX_MESSAGES \<Longrightarrow> messages (snd (store_message e m s)) = messages s @ [m]"
  by (simp add: store_message_def messages_book(1) [of "snd _"] then_st_lists keeps) (simp add: book_def)

theorem incoming_authentic_witness:
  "\<exists>w m opened pk body sg.
     messages demo_chat = []
   \<and> messages (fold (chat_turn demo_chat_env) [Chat_Notification (N_Event ''omachat-dm'' w)] demo_chat) = [m]
   \<and> msg_peer m = hex_string demo_key \<and> msg_text m = ''hi''
   \<and> decode_hex_32 reference_crates (msg_peer m) = Inr pk
   \<and> canonical_json reference_json (event_unsigned (opened_seal (opened :: opened_gift_wrap))) = Inr body
   \<and> decode_hex_64 reference_crates (s_sig (opened_seal opened)) = Inr sg
   \<and> schnorr_verify reference_crates pk (sha256 reference_crates body) sg"
proof (rule demo_created)
  fix r seal w
  assume d: "Rumor_new reference_crates reference_json demo_note EventLimits_default = Inr r" "rumor_utf8 r"
    "create_gift_wrap_with_material reference_crates reference_json reference_nip44 r demo_key
       (schnorr_public reference_crates demo_recipient) Persistent demo_material EventLimits_default = Inr w"
    "seal_rumor reference_crates reference_json reference_nip44 r demo_key
       (schnorr_public reference_crates demo_recipient) demo_material EventLimits_default = Inr seal"
    "fits reference_json EventLimits_default (rumor_json r)"
    "fits reference_json EventLimits_default (signed_event_json seal)"
    "fits reference_json EventLimits_default (signed_event_json w)"
  note o = created_wrap_opens [OF reference_wrap_laws demo_recipient_key(1) demo_material_ok d(2-7)]
  let ?k = "\<lparr>secret = demo_recipient\<rparr> :: nostr_secret"
  have c [simp]: "ce_crates demo_chat_env = reference_crates" "ce_json demo_chat_env = reference_json"
    "ce_nip44 demo_chat_env = reference_nip44"
    by (simp_all add: demo_chat_env_def)
  have hx: "hex_encode reference_crates = hex_string" by (simp add: reference_crates_def)
  have r: "r_kind r = CHAT_MESSAGE_KIND" "r_pubkey r = hex_string demo_key" "r_content r = ''hi''"
    using d(1) by (auto simp: Rumor_new_def UnsignedEvent_new_Inr demo_note_def CHAT_MESSAGE_KIND_def)
  have mine: "secret_pubkey demo_chat_env ?k = hex_string demo_recipient"
    by (simp add: secret_pubkey_def NostrSecret_public_key_def demo_recipient_key(2) hx)
  have ne: "hex_string demo_key \<noteq> hex_string demo_recipient"
    using hex_parse_string [of demo_key] hex_parse_string [of demo_recipient]
    by (auto simp: demo_key_def demo_recipient_def)
  have w: "s_kind w = 1059"
    using d(3) by (auto elim!: create_gift_wrap_Inr wrap_seal_Inr simp: demo_recipient_key(2) GIFT_WRAP_KIND_def
        dest!: sign_with_aux_unsigned dest: event_unsigned_fields)
  obtain s1 where s1: "secret_or_none demo_chat_env demo_chat = (Some ?k, s1)"
    using demo_secret by (metis prod.collapse)
  obtain s2 where s2: "chat_unix_time demo_chat_env s1 = (Inr 5, s2)"
    by (simp add: chat_unix_time_def use_tick_def demo_chat_env_def ok_or_def)
  have b: "messages s2 = []" "contacts s2 = []"
    using snd_lists [OF secret_or_none_lists s1] snd_lists [OF chat_unix_time_lists s2]
    by (simp_all add: book_def demo_chat_def)
  define m where "m = incoming_message reference_crates [] (hex_string demo_recipient) (hex_string demo_key) r"
  have m: "msg_peer m = hex_string demo_key" "msg_text m = ''hi''" "\<not> msg_outgoing m"
    using r ne by (simp_all add: m_def incoming_message_def Let_def)
  have turn: "messages (fold (chat_turn demo_chat_env) [Chat_Notification (N_Event ''omachat-dm'' w)] demo_chat) = [m]"
    using s1 s2 b w o r ne
    by (simp add: on_notification_def mine message_peer_def store_message_messages m_def MAX_MESSAGES_def MAX_CHAT_TEXT_BYTES_def)
  have start: "messages demo_chat = []" by (simp add: demo_chat_def)
  have "m \<in> set (messages (fold (chat_turn demo_chat_env) [Chat_Notification (N_Event ''omachat-dm'' w)] demo_chat))"
    "m \<notin> set (messages demo_chat)"
    using turn start by simp_all
  from incoming_authentic [OF this m(3), unfolded c] obtain opened :: opened_gift_wrap and pk body sg where
    "decode_hex_32 reference_crates (msg_peer m) = Inr pk"
    "canonical_json reference_json (event_unsigned (opened_seal opened)) = Inr body"
    "decode_hex_64 reference_crates (s_sig (opened_seal opened)) = Inr sg"
    "schnorr_verify reference_crates pk (sha256 reference_crates body) sg"
    by (elim exE conjE) (rule that, assumption+)
  with turn start m show ?thesis
    by (intro exI [of _ w] exI [of _ m] exI [of _ opened] exI [of _ pk] exI [of _ body] exI [of _ sg]) simp
qed

end
