(* ===== verification/Hosted_Client.thy ===== *)
theory Hosted_Client
  imports Keys Json Urls Files "HOL-Library.AList"
begin

text \<open>
  The daemon's side of the hosted protocol (\<open>omachatd/src/hosted_service.rs\<close>). The handshake is a
  function of the messages the socket delivers; the transport, a loop of connecting, serving a
  session and backing off, is a function of its inputs that keeps a log of what it does. Shown:
  the device key signs nothing but the authentication transcript of the pinned server, and only
  after that server signed the hello; an answer reaches the request whose identifier it carries,
  and no request is answered twice.
\<close>

section \<open>Configuration and state\<close>

definition STABLE_SESSION :: duration where "STABLE_SESSION = from_secs 30"

record hosted_timeouts =
  ht_connect :: duration
  ht_request :: duration
  ht_send :: duration
  ht_initial_backoff :: duration
  ht_max_backoff :: duration
  ht_keepalive :: duration

definition HostedTimeouts_default :: hosted_timeouts where
  "HostedTimeouts_default =
    \<lparr>ht_connect = from_secs 20, ht_request = from_secs 20, ht_send = from_secs 25,
     ht_initial_backoff = from_secs 1, ht_max_backoff = from_secs 30, ht_keepalive = from_secs 60\<rparr>"

record hosted_service_config =
  hs_url :: string
  hs_pinned_server_public_key :: bytes
  hs_device_public_key :: bytes
  hs_display_name :: "string option"
  hs_timeouts :: hosted_timeouts

record hosted_account =
  ha_account_id :: string
  ha_handle :: "string option"
  ha_display_name :: "string option"
  ha_new_account :: bool

datatype hosted_state =
    HS_Connecting
  | HS_Connected hosted_account
  | HS_Disconnected string
  | HS_Stopped

fun HostedState_label :: "hosted_state \<Rightarrow> string" where
  "HostedState_label HS_Connecting = ''connecting''"
| "HostedState_label (HS_Connected _) = ''connected''"
| "HostedState_label (HS_Disconnected _) = ''disconnected''"
| "HostedState_label HS_Stopped = ''stopped''"

fun HostedState_account :: "hosted_state \<Rightarrow> hosted_account option" where
  "HostedState_account (HS_Connected account) = Some account"
| "HostedState_account _ = None"

datatype hosted_error =
    HE_Disconnected
  | HE_Timeout
  | HE_Stopped
  | HE_Server server_error
  | HE_Protocol string

text \<open>The text of an error.\<close>

fun hosted_error_text :: "hosted_error \<Rightarrow> string" where
  "hosted_error_text HE_Disconnected = ''hosted server connection dropped''"
| "hosted_error_text HE_Timeout = ''hosted server did not answer in time''"
| "hosted_error_text HE_Stopped = ''hosted transport is stopped''"
| "hosted_error_text (HE_Server error) = ''hosted server refused: '' @ message error"
| "hosted_error_text (HE_Protocol why) = ''hosted server protocol failure: '' @ why"

text \<open>\<open>HostedService::spawn\<close> refuses a URL that is neither encrypted nor a numeric loopback address.\<close>

definition spawn_url_ok :: "url_crate \<Rightarrow> string \<Rightarrow> bool" where
  "spawn_url_ok urls raw =
     (case urls raw of
        None \<Rightarrow> False
      | Some u \<Rightarrow>
          url_scheme u = ''wss''
          \<or> url_scheme u = ''ws'' \<and> (case url_address u of Some h \<Rightarrow> host_is_loopback h | None \<Rightarrow> False))"

section \<open>Responses\<close>

definition json_as_str :: "json \<Rightarrow> string option" where
  "json_as_str = de_string"

definition json_as_bool :: "json \<Rightarrow> bool option" where
  "json_as_bool = de_bool"

definition de_error_code :: "json \<Rightarrow> error_code option" where
  "de_error_code j =
     Option.bind (variant_name j) (\<lambda>name.
     find (\<lambda>c. error_code_name c = name)
       [UnsupportedVersion, InvalidRequest, NotAuthenticated, AlreadyAuthenticated, InvalidSignature, InvalidHandle,
        HandleTaken, HandleAlreadySet, InvalidName, NostrPubkeyTaken, ReplayedProof, NotFound, TooLarge, RateLimited,
        Storage, Internal])"

text \<open>The error is taken out of a value, so its keys are ordered and unique.\<close>

definition de_server_error :: "json \<Rightarrow> server_error option" where
  "de_server_error j =
     (case j of
        JObj _ \<Rightarrow>
          Option.bind (Option.bind (value_get j ''code'') de_error_code) (\<lambda>c.
          Option.bind (Option.bind (value_get j ''message'') de_string) (\<lambda>m. Some (server_err c m)))
      | JArr [c, m] \<Rightarrow>
          Option.bind (de_error_code c) (\<lambda>c. Option.bind (de_string m) (\<lambda>m. Some (server_err c m)))
      | _ \<Rightarrow> None)"

definition response_outcome_of :: "json \<Rightarrow> hosted_error + json" where
  "response_outcome_of value =
     (case Option.bind (value_get value ''ok'') json_as_bool of
        Some True \<Rightarrow> Inr (case value_get value ''result'' of Some r \<Rightarrow> r | None \<Rightarrow> JNull)
      | Some False \<Rightarrow>
          (case de_server_error (case value_get value ''error'' of Some r \<Rightarrow> r | None \<Rightarrow> JNull) of
             Some error \<Rightarrow> Inl (HE_Server error)
           | None \<Rightarrow> Inl (HE_Protocol ''server sent a malformed error''))
      | None \<Rightarrow> Inl (HE_Protocol ''server response lacks an ok field''))"

definition decode_fixed :: "crates \<Rightarrow> nat \<Rightarrow> json \<Rightarrow> string \<Rightarrow> hosted_error + bytes" where
  "decode_fixed c n value field =
     and_then (ok_or (HE_Protocol (''hello reply lacks '' @ field))
       (Option.bind (value_get value field) json_as_str)) (\<lambda>encoded.
     and_then (ok_or (HE_Protocol (''hello reply field '' @ field @ '' is not hex'')) (hex_decode c encoded)) (\<lambda>bs.
     if length bs = n then Inr bs
     else Inl (HE_Protocol (''hello reply field '' @ field @ '' has the wrong length''))))"

section \<open>The socket\<close>

datatype socket_message =
    Msg_Text string
  | Msg_Ping bytes
  | Msg_Pong
  | Msg_Close
  | Msg_Binary
  | Msg_Error string

datatype client_message = Out_Text json | Out_Pong bytes | Out_Ping | Out_Close

text \<open>What the socket will deliver, what was sent, and which sends succeed.\<close>

record client_socket =
  incoming :: "socket_message list"
  outgoing :: "client_message list"
  socket_accepts :: "nat \<Rightarrow> bool"

definition client_send :: "client_message \<Rightarrow> client_socket \<Rightarrow> (hosted_error + unit) \<times> client_socket" where
  "client_send m s =
     (if socket_accepts s (length (outgoing s)) then (Inr (), s\<lparr>outgoing := outgoing s @ [m]\<rparr>)
      else (Inl HE_Disconnected, s))"

definition client_send_frame :: "json \<Rightarrow> client_socket \<Rightarrow> (hosted_error + unit) \<times> client_socket" where
  "client_send_frame frame = client_send (Out_Text frame)"

fun expect_loop ::
  "json_crate \<Rightarrow> string \<Rightarrow> socket_message list \<Rightarrow> client_socket \<Rightarrow> (hosted_error + json) \<times> client_socket" where
  "expect_loop jc i [] s = (Inl HE_Disconnected, s\<lparr>incoming := []\<rparr>)"
| "expect_loop jc i (Msg_Close # ms) s = (Inl HE_Disconnected, s\<lparr>incoming := ms\<rparr>)"
| "expect_loop jc i (Msg_Error _ # ms) s = (Inl HE_Disconnected, s\<lparr>incoming := ms\<rparr>)"
| "expect_loop jc i (Msg_Text txt # ms) s =
     ((case json_from_slice jc (as_bytes txt) of
         None \<Rightarrow> Inl (HE_Protocol ''server sent malformed JSON'')
       | Some value \<Rightarrow>
           if Option.bind (value_get value ''id'') json_as_str = Some i then response_outcome_of value
           else Inl (HE_Protocol ''server answered out of order during the handshake'')),
      s\<lparr>incoming := ms\<rparr>)"
| "expect_loop jc i (Msg_Ping payload # ms) s =
     (case client_send (Out_Pong payload) s of
        (Inl err, s) \<Rightarrow> (Inl err, s\<lparr>incoming := ms\<rparr>)
      | (Inr _, s) \<Rightarrow> expect_loop jc i ms s)"
| "expect_loop jc i (Msg_Pong # ms) s = expect_loop jc i ms s"
| "expect_loop jc i (Msg_Binary # ms) s = (Inl (HE_Protocol ''server sent a binary frame''), s\<lparr>incoming := ms\<rparr>)"

definition expect_response :: "json_crate \<Rightarrow> string \<Rightarrow> client_socket \<Rightarrow> (hosted_error + json) \<times> client_socket" where
  "expect_response jc i s = expect_loop jc i (incoming s) s"

section \<open>The handshake\<close>

definition client_hello :: "crates \<Rightarrow> hosted_service_config \<Rightarrow> json" where
  "client_hello c cfg =
     JObj [(''version'', JInt (uint PROTOCOL_VERSION)), (''id'', JStr ''hello''), (''method'', JStr ''hello''),
           (''params'', JObj [(''minimum_version'', JInt (uint PROTOCOL_VERSION)),
                              (''maximum_version'', JInt (uint PROTOCOL_VERSION)),
                              (''device_public_key'', JStr (hex_encode c (hs_device_public_key cfg)))])]"

definition client_authenticate :: "crates \<Rightarrow> hosted_service_config \<Rightarrow> bytes \<Rightarrow> json" where
  "client_authenticate c cfg signature =
     JObj [(''version'', JInt (uint PROTOCOL_VERSION)), (''id'', JStr ''authenticate''), (''method'', JStr ''authenticate''),
           (''params'', JObj [(''signature'', JStr (hex_encode c signature)),
                              (''display_name'', case hs_display_name cfg of None \<Rightarrow> JNull | Some n \<Rightarrow> JStr n)])]"

text \<open>The challenge of a hello that the pinned server signed for this device.\<close>

definition check_hello :: "crates \<Rightarrow> hosted_service_config \<Rightarrow> json \<Rightarrow> hosted_error + bytes" where
  "check_hello c cfg hello =
     and_then (decode_fixed c KEY_BYTES hello ''challenge'') (\<lambda>challenge.
     and_then (decode_fixed c KEY_BYTES hello ''server_public_key'') (\<lambda>server_public_key.
     if server_public_key \<noteq> hs_pinned_server_public_key cfg
     then Inl (HE_Protocol ''server public key does not match the pinned key'')
     else
       and_then (decode_fixed c SIGNATURE_BYTES hello ''server_signature'') (\<lambda>server_signature.
       if \<not> ed_key_ok c server_public_key then Inl (HE_Protocol ''pinned key is not a valid Ed25519 key'')
       else if \<not> ed_verify_strict c server_public_key (hello_transcript challenge (hs_device_public_key cfg)) server_signature
       then Inl (HE_Protocol ''server hello signature did not verify'')
       else Inr challenge)))"

definition registered_account :: "json \<Rightarrow> hosted_error + hosted_account" where
  "registered_account registered =
     and_then (ok_or (HE_Protocol ''authenticate reply lacks account_id'')
       (Option.bind (value_get registered ''account_id'') json_as_str)) (\<lambda>account_id.
     Inr \<lparr>ha_account_id = account_id, ha_handle = Option.bind (value_get registered ''handle'') json_as_str,
          ha_display_name = Option.bind (value_get registered ''display_name'') json_as_str,
          ha_new_account = (Option.bind (value_get registered ''new_account'') json_as_bool = Some True)\<rparr>)"

text \<open>The signer answers nothing once the identity is gone. The connection itself is made before.\<close>

definition hosted_handshake ::
  "crates \<Rightarrow> json_crate \<Rightarrow> hosted_service_config \<Rightarrow> (bytes \<Rightarrow> bytes option) \<Rightarrow> client_socket
     \<Rightarrow> (hosted_error + hosted_account) \<times> client_socket" where
  "hosted_handshake c jc cfg signer s =
     then_st (client_send_frame (client_hello c cfg) s) (\<lambda>_ s.
     then_st (expect_response jc ''hello'' s) (\<lambda>hello s.
     then_st (check_hello c cfg hello, s) (\<lambda>challenge s.
     then_st (ok_or HE_Stopped (signer (auth_transcript (hs_pinned_server_public_key cfg) challenge
                (hs_device_public_key cfg))), s) (\<lambda>signature s.
     then_st (client_send_frame (client_authenticate c cfg signature) s) (\<lambda>_ s.
     then_st (expect_response jc ''authenticate'' s) (\<lambda>registered s.
     (registered_account registered, s)))))))"

section \<open>The transport\<close>

text \<open>
  The log of the transport: states it published, requests it sent with the ticket of the caller
  and the identifier, answers it gave, frames it received, server events it passed on.
\<close>

datatype hosted_log =
    HL_State hosted_state
  | HL_Sent nat string json
  | HL_Received json
  | HL_Answer nat "hosted_error + json"
  | HL_Server string json
  | HL_Ping
  | HL_Pong bytes
  | HL_Close

datatype transport_mode = HM_Connect | HM_Session | HM_Backoff | HM_Stopped

record hosted_transport =
  tr_mode :: transport_mode
  tr_backoff :: duration
  tr_pending :: "(string \<times> nat) list"
  tr_next_id :: u64
  tr_log :: "hosted_log list"

record hosted_world =
  hw_takes :: "nat \<Rightarrow> bool"
  hw_consumes :: "nat \<Rightarrow> bool"
  hw_elapsed :: "nat \<Rightarrow> duration"

definition tr_logged :: "hosted_log \<Rightarrow> hosted_transport \<Rightarrow> hosted_transport" where
  "tr_logged x t = t\<lparr>tr_log := tr_log t @ [x]\<rparr>"

definition publish_state :: "hosted_state \<Rightarrow> hosted_transport \<Rightarrow> hosted_transport" where
  "publish_state v = tr_logged (HL_State v)"

text \<open>A new session counts its requests from one and waits for nothing.\<close>

definition tr_connect :: "hosted_transport \<Rightarrow> hosted_transport" where
  "tr_connect t = (publish_state HS_Connecting t)\<lparr>tr_mode := HM_Connect\<rparr>"

definition tr_stop :: "hosted_transport \<Rightarrow> hosted_transport" where
  "tr_stop t = (publish_state HS_Stopped t)\<lparr>tr_mode := HM_Stopped\<rparr>"

definition tr_back_off :: "hosted_service_config \<Rightarrow> hosted_transport \<Rightarrow> hosted_transport" where
  "tr_back_off cfg t =
     t\<lparr>tr_mode := HM_Backoff, tr_backoff := min (tr_backoff t * 2) (ht_max_backoff (hs_timeouts cfg))\<rparr>"

text \<open>Dropping the map of waiting callers lets every one of them see a lost connection.\<close>

definition drop_pending :: "hosted_transport \<Rightarrow> hosted_transport" where
  "drop_pending t =
     t\<lparr>tr_log := tr_log t @ map (\<lambda>(_, ticket). HL_Answer ticket (Inl HE_Disconnected)) (tr_pending t), tr_pending := []\<rparr>"

definition tr_start :: "hosted_service_config \<Rightarrow> hosted_transport" where
  "tr_start cfg = tr_connect
    \<lparr>tr_mode = HM_Connect, tr_backoff = ht_initial_backoff (hs_timeouts cfg), tr_pending = [], tr_next_id = 1, tr_log = []\<rparr>"

text \<open>The session is over; \<open>stopping\<close> is the flag read after it.\<close>

definition session_over ::
  "hosted_world \<Rightarrow> hosted_service_config \<Rightarrow> bool \<Rightarrow> string \<Rightarrow> hosted_transport \<Rightarrow> hosted_transport" where
  "session_over e cfg stopping why t =
     (let t = drop_pending t in
      if stopping then tr_stop t
      else
        let t = publish_state (HS_Disconnected why) t;
            t = (if STABLE_SESSION \<le> hw_elapsed e (length (tr_log t))
                 then t\<lparr>tr_backoff := ht_initial_backoff (hs_timeouts cfg)\<rparr> else t) in
        tr_back_off cfg t)"

definition session_request ::
  "hosted_world \<Rightarrow> hosted_service_config \<Rightarrow> nat \<Rightarrow> string \<Rightarrow> json \<Rightarrow> hosted_transport \<Rightarrow> hosted_transport" where
  "session_request e cfg ticket m params t =
     (let i = decimal (unat (tr_next_id t));
          frame = JObj ([(''version'', JInt (uint PROTOCOL_VERSION)), (''id'', JStr i), (''method'', JStr m)]
                        @ (if params = JNull then [] else [(''params'', params)]));
          t = t\<lparr>tr_next_id := tr_next_id t + 1\<rparr> in
      if hw_takes e (length (tr_log t))
      then (tr_logged (HL_Sent ticket i frame) t)\<lparr>tr_pending := AList.update i ticket (tr_pending t)\<rparr>
      else session_over e cfg False ''send failed'' (tr_logged (HL_Answer ticket (Inl HE_Disconnected)) t))"

definition session_frame ::
  "json_crate \<Rightarrow> hosted_world \<Rightarrow> hosted_service_config \<Rightarrow> string \<Rightarrow> hosted_transport \<Rightarrow> hosted_transport" where
  "session_frame jc e cfg txt t =
     (case json_from_slice jc (as_bytes txt) of
        None \<Rightarrow> session_over e cfg False ''server sent malformed JSON'' t
      | Some value \<Rightarrow>
          let t = tr_logged (HL_Received value) t in
          case Option.bind (value_get value ''event'') json_as_str of
            Some kind \<Rightarrow>
              if hw_consumes e (length (tr_log t))
              then tr_logged (HL_Server kind (case value_get value ''data'' of Some v \<Rightarrow> v | None \<Rightarrow> JNull)) t
              else session_over e cfg False ''daemon stopped consuming events'' t
          | None \<Rightarrow>
              (case Option.bind (value_get value ''id'') json_as_str of
                 None \<Rightarrow> session_over e cfg False ''server sent an uncorrelated frame'' t
               | Some i \<Rightarrow>
                   (case map_of (tr_pending t) i of
                      None \<Rightarrow> t
                    | Some ticket \<Rightarrow>
                        tr_logged (HL_Answer ticket (response_outcome_of value))
                          (t\<lparr>tr_pending := AList.delete i (tr_pending t)\<rparr>))))"

text \<open>
  What the loops wait for: the result of connecting, the stop flag (\<open>False\<close> when its sender is gone),
  a request with the caller's ticket (\<open>None\<close> when all senders are gone), a message of the socket
  (\<open>None\<close> at its end), the keepalive tick and the end of the backoff. An input that the current
  loop does not wait for stays in its queue.
\<close>

datatype hosted_input =
    HI_Connected "hosted_error + hosted_account"
  | HI_Stop bool
  | HI_Request "(nat \<times> string \<times> json) option"
  | HI_Message "socket_message option"
  | HI_Tick
  | HI_Wake

fun hosted_session ::
  "json_crate \<Rightarrow> hosted_world \<Rightarrow> hosted_service_config \<Rightarrow> hosted_input \<Rightarrow> hosted_transport \<Rightarrow> hosted_transport" where
  "hosted_session jc e cfg (HI_Stop b) t = session_over e cfg b ''stopped'' (tr_logged HL_Close t)"
| "hosted_session jc e cfg (HI_Request None) t = session_over e cfg False ''daemon closed the transport'' t"
| "hosted_session jc e cfg (HI_Request (Some (ticket, m, params))) t = session_request e cfg ticket m params t"
| "hosted_session jc e cfg (HI_Message None) t = session_over e cfg False ''server closed the connection'' t"
| "hosted_session jc e cfg (HI_Message (Some Msg_Close)) t = session_over e cfg False ''server closed the connection'' t"
| "hosted_session jc e cfg (HI_Message (Some (Msg_Error err))) t = session_over e cfg False (''connection failed: '' @ err) t"
| "hosted_session jc e cfg (HI_Message (Some (Msg_Text txt))) t = session_frame jc e cfg txt t"
| "hosted_session jc e cfg (HI_Message (Some (Msg_Ping payload))) t =
     (if hw_takes e (length (tr_log t)) then tr_logged (HL_Pong payload) t else session_over e cfg False ''pong failed'' t)"
| "hosted_session jc e cfg (HI_Message (Some Msg_Pong)) t = t"
| "hosted_session jc e cfg (HI_Message (Some Msg_Binary)) t = session_over e cfg False ''server sent a binary frame'' t"
| "hosted_session jc e cfg HI_Tick t =
     (if hw_takes e (length (tr_log t)) then tr_logged HL_Ping t else session_over e cfg False ''keepalive failed'' t)"
| "hosted_session jc e cfg _ t = t"

fun hosted_connect :: "hosted_service_config \<Rightarrow> hosted_input \<Rightarrow> hosted_transport \<Rightarrow> hosted_transport" where
  "hosted_connect cfg (HI_Stop _) t = tr_stop t"
| "hosted_connect cfg (HI_Connected (Inr account)) t =
     (publish_state (HS_Connected account) t)\<lparr>tr_mode := HM_Session, tr_pending := [], tr_next_id := 1\<rparr>"
| "hosted_connect cfg (HI_Connected (Inl err)) t =
     (if err = HE_Stopped then tr_stop t
      else tr_back_off cfg (publish_state (HS_Disconnected (hosted_error_text err)) t))"
| "hosted_connect cfg _ t = t"

fun hosted_backoff :: "hosted_input \<Rightarrow> hosted_transport \<Rightarrow> hosted_transport" where
  "hosted_backoff (HI_Stop _) t = tr_stop t"
| "hosted_backoff HI_Wake t = tr_connect t"
| "hosted_backoff (HI_Request (Some (ticket, _))) t = tr_logged (HL_Answer ticket (Inl HE_Disconnected)) t"
| "hosted_backoff (HI_Request None) t = tr_stop t"
| "hosted_backoff _ t = t"

fun hosted_stopped :: "hosted_input \<Rightarrow> hosted_transport \<Rightarrow> hosted_transport" where
  "hosted_stopped (HI_Request (Some (ticket, _))) t = tr_logged (HL_Answer ticket (Inl HE_Stopped)) t"
| "hosted_stopped _ t = t"

definition hosted_step ::
  "json_crate \<Rightarrow> hosted_world \<Rightarrow> hosted_service_config \<Rightarrow> hosted_input \<Rightarrow> hosted_transport \<Rightarrow> hosted_transport" where
  "hosted_step jc e cfg input t =
     (case tr_mode t of
        HM_Connect \<Rightarrow> hosted_connect cfg input t
      | HM_Session \<Rightarrow> hosted_session jc e cfg input t
      | HM_Backoff \<Rightarrow> hosted_backoff input t
      | HM_Stopped \<Rightarrow> hosted_stopped input t)"

definition hosted_run ::
  "json_crate \<Rightarrow> hosted_world \<Rightarrow> hosted_service_config \<Rightarrow> hosted_input list \<Rightarrow> hosted_transport" where
  "hosted_run jc e cfg inputs = fold (hosted_step jc e cfg) inputs (tr_start cfg)"

section \<open>The use of the device key\<close>

lemma check_hello_Inr:
  "check_hello c cfg hello = Inr challenge \<longleftrightarrow>
     decode_fixed c KEY_BYTES hello ''challenge'' = Inr challenge
     \<and> decode_fixed c KEY_BYTES hello ''server_public_key'' = Inr (hs_pinned_server_public_key cfg)
     \<and> ed_key_ok c (hs_pinned_server_public_key cfg)
     \<and> (\<exists>sg. decode_fixed c SIGNATURE_BYTES hello ''server_signature'' = Inr sg
          \<and> ed_verify_strict c (hs_pinned_server_public_key cfg) (hello_transcript challenge (hs_device_public_key cfg)) sg)"
  by (auto simp: check_hello_def)

text \<open>A challenge that the pinned server signed for this device.\<close>

definition vouched :: "crates \<Rightarrow> hosted_service_config \<Rightarrow> bytes \<Rightarrow> bool" where
  "vouched c cfg challenge \<longleftrightarrow> length challenge = KEY_BYTES \<and>
     (\<exists>sg. ed_verify_strict c (hs_pinned_server_public_key cfg) (hello_transcript challenge (hs_device_public_key cfg)) sg)"

lemma check_hello_vouched: "check_hello c cfg hello = Inr challenge \<Longrightarrow> vouched c cfg challenge"
  by (auto simp: check_hello_Inr vouched_def decode_fixed_def split: if_splits)

lemma then_st_cong_fst:
  assumes "\<And>x t. m = (Inr x, t) \<Longrightarrow> k x t = k' x t"
  shows "then_st m k = then_st m k'"
  using assms by (cases m; cases "fst m") (auto simp: then_st_def)

lemma hosted_handshake_Inr:
  assumes "hosted_handshake c jc cfg signer s = (Inr account, s')"
  obtains s1 hello s2 challenge signature s3 registered where
    "client_send_frame (client_hello c cfg) s = (Inr (), s1)" "expect_response jc ''hello'' s1 = (Inr hello, s2)"
    "check_hello c cfg hello = Inr challenge"
    "signer (auth_transcript (hs_pinned_server_public_key cfg) challenge (hs_device_public_key cfg)) = Some signature"
    "client_send_frame (client_authenticate c cfg signature) s2 = (Inr (), s3)"
    "expect_response jc ''authenticate'' s3 = (Inr registered, s')" "registered_account registered = Inr account"
proof -
  from assms obtain s1 hello s2 challenge signature s3 registered where
    "client_send_frame (client_hello c cfg) s = (Inr (), s1)" "expect_response jc ''hello'' s1 = (Inr hello, s2)"
    "check_hello c cfg hello = Inr challenge"
    "ok_or HE_Stopped (signer (auth_transcript (hs_pinned_server_public_key cfg) challenge (hs_device_public_key cfg)))
      = Inr signature"
    "client_send_frame (client_authenticate c cfg signature) s2 = (Inr (), s3)"
    "expect_response jc ''authenticate'' s3 = (Inr registered, s')" "registered_account registered = Inr account"
    by (auto simp: hosted_handshake_def then_st_Inr)
  then show ?thesis
    by (intro that) auto
qed

text \<open>Everything the client sends is kept.\<close>

lemma client_send_prefix: "client_send m s = (r, s') \<Longrightarrow> prefix (outgoing s) (outgoing s')"
  by (auto simp: client_send_def split: if_splits)

lemma expect_loop_prefix: "expect_loop jc i ms s = (r, s') \<Longrightarrow> prefix (outgoing s) (outgoing s')"
  by (induction jc i ms s rule: expect_loop.induct)
    (auto split: prod.splits sum.splits dest!: client_send_prefix intro: prefix_order.trans)


section \<open>Answers\<close>

text \<open>
  An answer is in order when its caller's request was sent under an identifier and a frame with
  that identifier came back later with this outcome, or when it reports the loss of the connection.
\<close>

definition answer_in_order :: "hosted_log list \<Rightarrow> nat \<Rightarrow> hosted_error + json \<Rightarrow> bool" where
  "answer_in_order xs ticket r \<longleftrightarrow>
     r = Inl HE_Disconnected \<or> r = Inl HE_Stopped
     \<or> (\<exists>i frame value us vs. xs = us @ HL_Received value # vs \<and> HL_Sent ticket i frame \<in> set us
          \<and> Option.bind (value_get value ''id'') json_as_str = Some i \<and> r = response_outcome_of value)"

definition answers_ok :: "hosted_log list \<Rightarrow> bool" where
  "answers_ok xs \<longleftrightarrow> (\<forall>us ticket r vs. xs = us @ HL_Answer ticket r # vs \<longrightarrow> answer_in_order us ticket r)"

definition transport_ok :: "hosted_transport \<Rightarrow> bool" where
  "transport_ok t \<longleftrightarrow> answers_ok (tr_log t)
     \<and> (\<forall>i ticket. (i, ticket) \<in> set (tr_pending t) \<longrightarrow> (\<exists>frame. HL_Sent ticket i frame \<in> set (tr_log t)))
     \<and> (tr_mode t \<noteq> HM_Session \<longrightarrow> tr_pending t = [])"

lemma answers_snoc:
  "answers_ok (xs @ [x]) \<longleftrightarrow> answers_ok xs \<and> (\<forall>ticket r. x = HL_Answer ticket r \<longrightarrow> answer_in_order xs ticket r)"
proof -
  have *: "xs @ [x] = us @ y # vs \<longleftrightarrow> (vs = [] \<and> us = xs \<and> y = x) \<or> (\<exists>ws. vs = ws @ [x] \<and> xs = us @ y # ws)" for us y vs
    by (cases vs rule: rev_cases) auto
  show ?thesis unfolding answers_ok_def * by blast
qed

lemma answers_snoc2:
  "answers_ok (xs @ [x, y]) \<longleftrightarrow>
     answers_ok (xs @ [x]) \<and> (\<forall>ticket r. y = HL_Answer ticket r \<longrightarrow> answer_in_order (xs @ [x]) ticket r)"
  using answers_snoc [of "xs @ [x]" y] by simp

lemma answers_lost:
  "answers_ok xs \<Longrightarrow> answers_ok (xs @ map (\<lambda>(_, ticket). HL_Answer ticket (Inl HE_Disconnected)) ys)"
proof (induction ys rule: rev_induct)
  case (snoc y ys)
  then show ?case by (cases y) (simp add: answers_snoc answer_in_order_def flip: append_assoc)
qed simp

named_theorems transport \<open>the transport's primitive steps\<close>

lemma logged_parts [transport]:
  "tr_log (tr_logged x t) = tr_log t @ [x]" "tr_pending (tr_logged x t) = tr_pending t" "tr_mode (tr_logged x t) = tr_mode t"
  "tr_log (publish_state v t) = tr_log t @ [HL_State v]" "tr_pending (publish_state v t) = tr_pending t"
  "tr_log (drop_pending t) = tr_log t @ map (\<lambda>(_, ticket). HL_Answer ticket (Inl HE_Disconnected)) (tr_pending t)"
  "tr_pending (drop_pending t) = []"
  by (simp_all add: tr_logged_def publish_state_def drop_pending_def)

lemma session_over_ok: "answers_ok (tr_log t) \<Longrightarrow> transport_ok (session_over e cfg b why t)"
  by (simp add: session_over_def Let_def tr_stop_def tr_back_off_def transport_ok_def transport answers_snoc answers_lost
      flip: append_assoc)

lemma set_update: "(j, k) \<in> set (AList.update i v ps) \<Longrightarrow> j = i \<and> k = v \<or> (j, k) \<in> set ps"
  by (induction ps) (auto split: if_splits)

lemma set_delete: "(j, k) \<in> set (AList.delete i ps) \<longleftrightarrow> (j, k) \<in> set ps \<and> j \<noteq> i"
  by (auto simp: AList.delete_eq)

lemma session_request_ok:
  assumes "transport_ok t" and "tr_mode t = HM_Session"
  shows "transport_ok (session_request e cfg ticket m params t)"
proof (cases "hw_takes e (length (tr_log t))")
  case True
  then show ?thesis
    using assms
    by (auto simp: session_request_def Let_def transport_ok_def transport answers_snoc dest!: set_update)
next
  case False
  then show ?thesis
    using assms
    by (auto simp: session_request_def Let_def transport_ok_def [of t] transport answers_snoc answer_in_order_def
        intro!: session_over_ok)
qed

lemma session_frame_ok:
  assumes t: "transport_ok t" and m: "tr_mode t = HM_Session"
  shows "transport_ok (session_frame jc e cfg txt t)"
proof -
  have received: "transport_ok (tr_logged (HL_Received v) t)" for v
    using t m by (auto simp: transport_ok_def transport answers_snoc)
  have answered: "transport_ok (tr_logged (HL_Answer ticket (response_outcome_of v))
      ((tr_logged (HL_Received v) t)\<lparr>tr_pending := AList.delete i (tr_pending t)\<rparr>))"
    if i: "Option.bind (value_get v ''id'') json_as_str = Some i" and p: "map_of (tr_pending t) i = Some ticket"
    for v i ticket
  proof -
    obtain frame where "HL_Sent ticket i frame \<in> set (tr_log t)"
      using t map_of_SomeD [OF p] by (auto simp: transport_ok_def)
    then have "answer_in_order (tr_log t @ [HL_Received v]) ticket (response_outcome_of v)"
      unfolding answer_in_order_def using i by blast
    then show ?thesis
      using t m by (auto simp: transport_ok_def transport answers_snoc answers_snoc2 set_delete)
  qed
  have over: "transport_ok (session_over e cfg False why t)" "transport_ok (session_over e cfg False why (tr_logged (HL_Received v) t))"
    for why v
    using received [of v] t by (simp_all add: transport_ok_def [of t] transport_ok_def [of "tr_logged _ _"] session_over_ok)
  have event: "transport_ok (tr_logged (HL_Server kind data) (tr_logged (HL_Received v) t))" for kind data v
    using received [of v] m unfolding transport_ok_def by (simp add: transport answers_snoc answers_snoc2)
  show ?thesis
    using received answered over event
    by (simp add: session_frame_def Let_def transport split: option.splits)
qed

lemma hosted_session_ok:
  assumes "transport_ok t" and "tr_mode t = HM_Session"
  shows "transport_ok (hosted_session jc e cfg input t)"
proof -
  have a: "answers_ok (tr_log t)" using assms(1) by (simp add: transport_ok_def)
  have l: "transport_ok (tr_logged x t)" if "\<And>ticket r. x \<noteq> HL_Answer ticket r" for x
    using assms that unfolding transport_ok_def by (simp add: transport answers_snoc) blast
  show ?thesis
    using assms a
    by (cases "(jc, e, cfg, input, t)" rule: hosted_session.cases)
      (auto simp: session_request_ok session_frame_ok transport answers_snoc intro!: session_over_ok l)
qed

interpretation hosted: step_invariant transport_ok "hosted_step jc e cfg" for jc e cfg
proof
  fix t input
  assume t: "transport_ok t"
  show "transport_ok (hosted_step jc e cfg input t)"
  proof (cases "tr_mode t")
    case HM_Session
    with t show ?thesis by (simp add: hosted_step_def hosted_session_ok)
  next
    case HM_Connect
    with t show ?thesis
      by (cases "(cfg, input, t)" rule: hosted_connect.cases)
        (auto simp: hosted_step_def transport_ok_def tr_stop_def tr_back_off_def transport answers_snoc)
  next
    case HM_Backoff
    with t show ?thesis
      by (cases "(input, t)" rule: hosted_backoff.cases)
        (auto simp: hosted_step_def transport_ok_def tr_stop_def tr_connect_def transport answers_snoc answer_in_order_def)
  next
    case HM_Stopped
    with t show ?thesis
      by (cases "(input, t)" rule: hosted_stopped.cases)
        (auto simp: hosted_step_def transport_ok_def transport answers_snoc answer_in_order_def)
  qed
qed

section \<open>One answer per request\<close>

definition answered :: "hosted_log list \<Rightarrow> nat list" where
  "answered xs = concat (map (\<lambda>x. case x of HL_Answer ticket _ \<Rightarrow> [ticket] | _ \<Rightarrow> []) xs)"

fun input_ticket :: "hosted_input \<Rightarrow> nat list" where
  "input_ticket (HI_Request (Some (ticket, _))) = [ticket]"
| "input_ticket _ = []"

text \<open>The tickets that are answered or waiting.\<close>

definition taken :: "hosted_transport \<Rightarrow> nat list" where
  "taken t = answered (tr_log t) @ map snd (tr_pending t)"

lemma answered_append [simp]: "answered (xs @ ys) = answered xs @ answered ys"
  by (simp add: answered_def)

lemma answered_single [simp]:
  "answered [HL_Answer ticket r] = [ticket]" "answered [HL_State v] = []" "answered [HL_Sent ticket i f] = []"
  "answered [HL_Received value] = []" "answered [HL_Server k data] = []" "answered [HL_Ping] = []" "answered [HL_Pong p] = []"
  "answered [HL_Close] = []"
  by (simp_all add: answered_def)

lemma answered_lost [simp]:
  "answered (map (\<lambda>(_, ticket). HL_Answer ticket (Inl HE_Disconnected)) ps) = map snd ps"
  by (induction ps) (auto simp: answered_def)

lemma taken_session_over [simp]: "taken (session_over e cfg b why t) = taken t"
  by (simp add: taken_def session_over_def Let_def tr_stop_def tr_back_off_def transport)

lemma taken_logged [simp]:
  "taken (tr_logged (HL_Answer k r) t) = answered (tr_log t) @ k # map snd (tr_pending t)"
  "taken (tr_logged (HL_Received v) t) = taken t" "taken (tr_logged (HL_Server kind v) t) = taken t"
  "taken (tr_logged (HL_Pong p) t) = taken t" "taken (tr_logged HL_Ping t) = taken t" "taken (tr_logged HL_Close t) = taken t"
  "taken (publish_state s t) = taken t" "taken (t\<lparr>tr_mode := m\<rparr>) = taken t" "taken (t\<lparr>tr_next_id := n\<rparr>) = taken t"
  "taken (t\<lparr>tr_backoff := d\<rparr>) = taken t"
  by (simp_all add: taken_def transport)

lemma taken_simple [simp]: "taken (tr_stop t) = taken t" "taken (tr_connect t) = taken t" "taken (tr_back_off cfg t) = taken t"
  by (simp_all add: tr_stop_def tr_connect_def tr_back_off_def)

lemma update_values:
  "set (map snd (AList.update i v ps)) \<subseteq> insert v (set (map snd ps))"
  "distinct (map snd ps) \<Longrightarrow> v \<notin> set (map snd ps) \<Longrightarrow> distinct (map snd (AList.update i v ps))"
  by (induction ps) (auto split: if_splits)

lemma delete_values:
  assumes "distinct (map snd ps)" and "map_of ps i = Some v"
  shows "v \<notin> set (map snd (AList.delete i ps))" and "set (map snd (AList.delete i ps)) \<subseteq> set (map snd ps)"
    and "distinct (map snd (AList.delete i ps))" and "v \<in> set (map snd ps)"
proof -
  have v: "(i, v) \<in> set ps" using assms(2) by (rule map_of_SomeD)
  show "v \<notin> set (map snd (AList.delete i ps))"
    using v assms(1) by (fastforce simp: set_delete distinct_map inj_on_def)
  show "set (map snd (AList.delete i ps)) \<subseteq> set (map snd ps)" "v \<in> set (map snd ps)"
    using v by (force simp: set_delete)+
  show "distinct (map snd (AList.delete i ps))"
    using assms(1) by (simp add: AList.delete_eq distinct_map_filter)
qed

definition fresh_step :: "nat list \<Rightarrow> hosted_transport \<Rightarrow> hosted_transport \<Rightarrow> bool" where
  "fresh_step ks t t' \<longleftrightarrow> (distinct (taken t @ ks) \<longrightarrow> distinct (taken t') \<and> set (taken t') \<subseteq> set (taken t) \<union> set ks)"

lemma fresh_same: "taken t' = taken t \<Longrightarrow> fresh_step ks t t'"
  by (auto simp: fresh_step_def)

lemma session_request_fresh: "fresh_step [ticket] t (session_request e cfg ticket m params t)"
proof (cases "hw_takes e (length (tr_log t))")
  case True
  let ?i = "decimal (unat (tr_next_id t))"
  show ?thesis
    using True update_values [where i = ?i and v = ticket and ps = "tr_pending t"]
    by (auto simp: fresh_step_def session_request_def Let_def taken_def transport)
next
  case False
  then show ?thesis
    by (simp add: fresh_step_def session_request_def Let_def) (auto simp: taken_def)
qed

lemma session_frame_fresh: "fresh_step ks t (session_frame jc e cfg txt t)"
proof -
  have "fresh_step ks t (tr_logged (HL_Answer ticket r) ((tr_logged (HL_Received v) t)\<lparr>tr_pending := AList.delete i (tr_pending t)\<rparr>))"
    if "map_of (tr_pending t) i = Some ticket" for ticket r i v
    using delete_values [OF _ that] by (simp add: fresh_step_def transport) (auto simp: taken_def)
  then show ?thesis
    by (auto simp: session_frame_def Let_def transport intro!: fresh_same split: option.splits)
qed

lemma fresh_answer: "fresh_step [k] t (tr_logged (HL_Answer k r) t)"
  by (auto simp: fresh_step_def taken_def transport)

lemma hosted_step_fresh:
  assumes "transport_ok t"
  shows "fresh_step (input_ticket input) t (hosted_step jc e cfg input t)"
proof (cases "tr_mode t")
  case HM_Session
  then show ?thesis
    by (cases "(jc, e, cfg, input, t)" rule: hosted_session.cases)
      (auto simp: hosted_step_def session_request_fresh session_frame_fresh intro!: fresh_same)
next
  case HM_Connect
  then have "tr_pending t = []" using assms by (simp add: transport_ok_def)
  with HM_Connect show ?thesis
    by (cases "(cfg, input, t)" rule: hosted_connect.cases)
      (auto simp: hosted_step_def intro!: fresh_same, simp add: taken_def transport)
next
  case HM_Backoff
  then show ?thesis
    by (cases "(input, t)" rule: hosted_backoff.cases) (auto simp: hosted_step_def intro!: fresh_same fresh_answer)
next
  case HM_Stopped
  then show ?thesis
    by (cases "(input, t)" rule: hosted_stopped.cases) (auto simp: hosted_step_def intro!: fresh_same fresh_answer)
qed

lemma run_fresh:
  assumes "transport_ok t" and "distinct (taken t @ concat (map input_ticket inputs))"
  shows "distinct (taken (fold (hosted_step jc e cfg) inputs t))"
  using assms
proof (induction inputs arbitrary: t)
  case (Cons input inputs)
  let ?t = "hosted_step jc e cfg input t"
  have "distinct (taken ?t) \<and> set (taken ?t) \<subseteq> set (taken t) \<union> set (input_ticket input)"
    using hosted_step_fresh [OF Cons.prems(1), of input jc e cfg] Cons.prems(2)
    unfolding fresh_step_def by (simp add: Int_Un_distrib)
  then have "distinct (taken ?t @ concat (map input_ticket inputs))"
    using Cons.prems(2) by auto
  with Cons.IH [OF hosted.inv_step [OF Cons.prems(1)]] show ?case by simp
qed simp

text \<open>
  C34. Every answer is the server's answer to that request, and there is at most one. Whatever the
  transport is fed, as long as every request has a ticket of its own, no ticket is answered twice,
  and an answer other than the loss or end of the transport is the outcome of a frame that arrived
  after the request was sent and carries the identifier the request was sent under.
\<close>

theorem answers_correlated:
  assumes "distinct (concat (map input_ticket inputs))"
  shows "distinct (answered (tr_log (hosted_run jc e cfg inputs)))
    \<and> answers_ok (tr_log (hosted_run jc e cfg inputs))"
proof
  have start: "transport_ok (tr_start cfg)" "taken (tr_start cfg) = []"
    by (simp_all add: tr_start_def tr_connect_def transport_ok_def transport answers_ok_def taken_def Cons_eq_append_conv)
  show "distinct (answered (tr_log (hosted_run jc e cfg inputs)))"
    using run_fresh [OF start(1), of inputs jc e cfg] assms start(2) by (simp add: hosted_run_def taken_def)
  show "answers_ok (tr_log (hosted_run jc e cfg inputs))"
    using hosted.run_inv [OF start(1)] by (simp add: hosted_run_def transport_ok_def)
qed

theorem answers_correlated_witness:
  "\<exists>account body inputs e cfg.
     inputs = [HI_Connected (Inr account), HI_Request (Some (7, ''status'', JNull)), HI_Message (Some (Msg_Text body))]
     \<and> HL_Answer 7 (Inr (JInt 5)) \<in> set (tr_log (hosted_run reference_json e cfg inputs))
     \<and> distinct (answered (tr_log (hosted_run reference_json e cfg inputs)))"
proof -
  let ?j = "JObj [(''id'', JStr ''1''), (''ok'', JBool True), (''result'', JInt 5)]"
  have "json_exact 127 ?j" by (simp add: json_exact_object is_utf8_ascii)
  then obtain body where body: "json_from_slice reference_json (as_bytes body) = Some ?j"
    using json_laws_obtain [OF reference_json_laws] by (metis as_bytes_text_of)
  define account where "account = \<lparr>ha_account_id = ''a1'', ha_handle = None, ha_display_name = None, ha_new_account = True\<rparr>"
  define e where "e = \<lparr>hw_takes = \<lambda>_. True, hw_consumes = \<lambda>_. True, hw_elapsed = \<lambda>_. 0\<rparr>"
  define cfg where "cfg = \<lparr>hs_url = [], hs_pinned_server_public_key = [], hs_device_public_key = [], hs_display_name = None,
    hs_timeouts = HostedTimeouts_default\<rparr>"
  define inputs where "inputs = [HI_Connected (Inr account), HI_Request (Some (7, ''status'', JNull)), HI_Message (Some (Msg_Text body))]"
  have "decimal 1 = ''1''" by code_simp
  with body have "HL_Answer 7 (Inr (JInt 5)) \<in> set (tr_log (hosted_run reference_json e cfg inputs))"
    by (simp add: inputs_def hosted_run_def hosted_step_def tr_start_def tr_connect_def publish_state_def tr_logged_def
        session_request_def session_frame_def Let_def e_def value_get_distinct json_as_str_def json_as_bool_def response_outcome_of_def)
  moreover have "distinct (concat (map input_ticket inputs))" by (simp add: inputs_def)
  ultimately show ?thesis
    using answers_correlated [of inputs reference_json e cfg] inputs_def by blast
qed

end
