(* ===== verification/Hosted_Link.thy ===== *)
theory Hosted_Link
  imports Hosted_Client Server_Session
begin

text \<open>
  The two ends of the hosted protocol together: the daemon's handshake (\<open>Hosted_Client\<close>) against the
  server's (\<open>Server_Session\<close>). The texts they exchange are read as the values the other end wrote.
\<close>

section \<open>The wire between them\<close>

text \<open>The server's derived reader finds the fields of the daemon's two frames.\<close>

lemma reads_hello:
  "de_hosted_request (client_hello c cfg) = Some \<lparr>req_version = PROTOCOL_VERSION, req_id = ''hello'',
     req_command = Command_Hello PROTOCOL_VERSION PROTOCOL_VERSION (hex_encode c (hs_device_public_key cfg))\<rparr>"
  by (simp add: de_hosted_request_def client_hello_def de_fields_object de_field_def de_command_def content_variant_def)

lemma reads_authenticate:
  "de_hosted_request (client_authenticate c cfg signature) = Some \<lparr>req_version = PROTOCOL_VERSION, req_id = ''authenticate'',
     req_command = Command_Authenticate (hex_encode c signature) (hs_display_name cfg)\<rparr>"
  by (cases "hs_display_name cfg")
    (simp_all add: de_hosted_request_def client_authenticate_def de_fields_object de_field_def de_command_def content_variant_def
      de_default_def de_option_def)

section \<open>Reading replies\<close>

lemma success_outcome:
  "response_outcome_of (success_frame i result) = Inr result"
  "Option.bind (value_get (success_frame i result) ''id'') json_as_str = Some i"
  by (simp_all add: response_outcome_of_def success_frame_def value_get_distinct json_as_str_def json_as_bool_def)

lemma expect_success:
  assumes "json_from_slice jc (as_bytes u) = Some (success_frame i result)" and "incoming s = Msg_Text u # ms"
  shows "expect_response jc i s = (Inr result, s\<lparr>incoming := ms\<rparr>)"
  using assms by (simp add: expect_response_def success_outcome)

lemma registration_accepted:
  "registered_account (registration_json c acc dev new) =
     Inr \<lparr>ha_account_id = acc_id acc, ha_handle = acc_handle acc, ha_display_name = Some (acc_display_name acc),
          ha_new_account = new\<rparr>"
  by (cases "acc_handle acc")
    (simp_all add: registered_account_def registration_json_def value_get_distinct json_as_str_def json_as_bool_def json_opt_def)

lemma hello_accepted:
  assumes laws: "hex_laws (lib e)" "ed_laws (lib e)" and seed: "length (identity_seed e) = KEY_BYTES"
    and pinned: "hs_pinned_server_public_key cfg = ed_public (lib e) (identity_seed e)"
    and challenge: "length challenge = KEY_BYTES"
  shows "check_hello (lib e) cfg (hello_reply e challenge (hs_device_public_key cfg)) = Inr challenge"
proof -
  have ed: "length (ed_public (lib e) (identity_seed e)) = KEY_BYTES" "ed_key_ok (lib e) (ed_public (lib e) (identity_seed e))"
    "length (ed_sign (lib e) (identity_seed e) m) = SIGNATURE_BYTES"
    "ed_verify_strict (lib e) (ed_public (lib e) (identity_seed e)) m (ed_sign (lib e) (identity_seed e) m)" for m
    using laws(2) seed by (simp_all add: ed_laws_def)
  show ?thesis
    unfolding check_hello_Inr using ed challenge pinned
    by (simp add: decode_fixed_def hello_reply_def value_get_distinct json_as_str_def hex_laws_roundtrip [OF laws(1)] sign_hello_def)
qed

section \<open>The handshake completes\<close>

lemma register_json:
  assumes "fst (service_call e (Register dev name now) s) = Inr result"
  obtains acc new where "result = registration_json (lib e) acc dev new"
  using assms
  by (auto simp: service_call_def call_def handle_def register_def Let_def then_st_def
      split: prod.splits if_splits sum.splits option.splits)

lemma registration_account: "json_get (registration_json c acc dev new) ''account_id'' = Some (JStr (acc_id acc))"
  by (simp add: registration_json_def)

lemma service_call_elsewhere:
  "fst (service_call e r (s\<lparr>sent := xs, requests := n\<rparr>)) = fst (service_call e r s)"
  by (simp add: service_call_def Let_def split: prod.splits)

lemma service_call_sent: "sent (snd (service_call e r s)) = sent s"
  by (simp add: service_call_def Let_def split: prod.splits)

text \<open>
  What the two ends have in common: the daemon pinned this server's key and signs with the key it
  announces, and both ends read JSON with the same library.
\<close>

definition paired :: "session_env \<Rightarrow> json_crate \<Rightarrow> hosted_service_config \<Rightarrow> bytes \<Rightarrow> bytes \<Rightarrow> bool" where
  "paired e jc cfg device_seed challenge \<longleftrightarrow>
     hex_laws (lib e) \<and> ed_laws (lib e) \<and> json_lib e = jc
     \<and> length (identity_seed e) = KEY_BYTES \<and> length device_seed = KEY_BYTES \<and> length challenge = KEY_BYTES
     \<and> hs_pinned_server_public_key cfg = ed_public (lib e) (identity_seed e)
     \<and> hs_device_public_key cfg = ed_public (lib e) device_seed
     \<and> challenge_bytes e = Some challenge"

definition device_signer :: "crates \<Rightarrow> bytes \<Rightarrow> bytes \<Rightarrow> bytes option" where
  "device_signer c device_seed m = Some (ed_sign c device_seed m)"

definition login_signature :: "session_env \<Rightarrow> bytes \<Rightarrow> bytes \<Rightarrow> bytes" where
  "login_signature e device_seed challenge =
     sign_device_challenge (lib e) device_seed (ed_public (lib e) (identity_seed e)) challenge"

lemma server_side:
  assumes p: "paired e jc cfg device_seed challenge"
    and t1: "json_from_slice jc (as_bytes t1) = Some (client_hello (lib e) cfg)"
    and t2: "json_from_slice jc (as_bytes t2) = Some (client_authenticate (lib e) cfg (login_signature e device_seed challenge))"
    and sends: "frame_len e (success_frame ''hello'' (hello_reply e challenge (hs_device_public_key cfg))) \<le> MAX_FRAME_BYTES"
      "frame_len e (success_frame ''authenticate'' (registration_json (lib e) acc (hs_device_public_key cfg) new)) \<le> MAX_FRAME_BYTES"
      "\<And>n. send_ok e n"
    and reg: "fst (service_call e (Register (hs_device_public_key cfg) (hs_display_name cfg) (unix_now e (calls s))) s)
        = Inr (registration_json (lib e) acc (hs_device_public_key cfg) new)"
  shows "\<exists>s'. authenticate e [Delivered (Ws_Text t1), Delivered (Ws_Text t2)] s =
      ((Inr (Handshake_Authenticated \<lparr>peer_account = acc_id acc, peer_device = hs_device_public_key cfg\<rparr>), s'), [])
    \<and> sent s' = sent s @ [Sent_Text (success_frame ''hello'' (hello_reply e challenge (hs_device_public_key cfg))),
        Sent_Text (success_frame ''authenticate'' (registration_json (lib e) acc (hs_device_public_key cfg) new))]"
proof -
  let ?c = "lib e" and ?dev = "hs_device_public_key cfg"
  note p' = p [unfolded paired_def]
  have ed: "length (ed_public ?c device_seed) = KEY_BYTES" "ed_key_ok ?c (ed_public ?c device_seed)"
    "length (ed_sign ?c device_seed m) = SIGNATURE_BYTES"
    "ed_verify_strict ?c (ed_public ?c device_seed) m (ed_sign ?c device_seed m)" for m
    using p' by (simp_all add: ed_laws_def)
  have r1: "parse_request e t1 = Inr \<lparr>req_version = PROTOCOL_VERSION, req_id = ''hello'',
      req_command = Command_Hello PROTOCOL_VERSION PROTOCOL_VERSION (hex_encode ?c ?dev)\<rparr>"
    using p' t1 by (simp add: parse_request_def reads_hello MAX_REQUEST_ID_BYTES_def)
  have r2: "parse_request e t2 = Inr \<lparr>req_version = PROTOCOL_VERSION, req_id = ''authenticate'',
      req_command = Command_Authenticate (hex_encode ?c (login_signature e device_seed challenge)) (hs_display_name cfg)\<rparr>"
    using p' t2 by (simp add: parse_request_def reads_authenticate MAX_REQUEST_ID_BYTES_def)
  have key: "hello_key e (Command_Hello PROTOCOL_VERSION PROTOCOL_VERSION (hex_encode ?c ?dev)) = Inr ?dev"
    using p' ed(1) by (simp add: hello_key_def decode_key_encode)
  have sig: "decode_signature ?c (hex_encode ?c (login_signature e device_seed challenge)) = Inr (login_signature e device_seed challenge)"
    using p' ed(3) by (simp add: decode_signature_Inr hex_laws_roundtrip login_signature_def sign_device_challenge_def)
  have ver: "verify_device_signature ?c (ed_public ?c (identity_seed e)) challenge ?dev (login_signature e device_seed challenge) = Inr ()"
    using p' ed by (simp add: login_signature_def sign_device_challenge_def verify_device_signature_def)
  have ran: "random_challenge (challenge_bytes e) = Inr challenge"
    using p' by (simp add: random_challenge_def)
  let ?s = "s\<lparr>sent := sent s @ [Sent_Text (success_frame ''hello'' (hello_reply e challenge ?dev))],
      requests := requests s + 1 + 1\<rparr>"
  obtain s2 where s2: "service_call e (Register ?dev (hs_display_name cfg) (unix_now e (calls s))) ?s
      = (Inr (registration_json ?c acc ?dev new), s2)" "sent s2 = sent ?s"
    using reg service_call_elsewhere [where e = e and s = s] service_call_sent [where e = e and s = ?s]
    by (metis prod.collapse)
  show ?thesis
    using r1 r2 key sig ver ran s2 sends [folded not_less]
    by (simp add: authenticate_def finish_authenticate_def send_text_def json_str_def registration_account)
qed

lemma client_side:
  assumes p: "paired e jc cfg device_seed challenge"
    and u: "json_from_slice jc (as_bytes u1) = Some (success_frame ''hello'' (hello_reply e challenge (hs_device_public_key cfg)))"
      "json_from_slice jc (as_bytes u2) =
        Some (success_frame ''authenticate'' (registration_json (lib e) acc (hs_device_public_key cfg) new))"
    and sock: "incoming sock = [Msg_Text u1, Msg_Text u2]" "\<And>n. socket_accepts sock n"
  shows "\<exists>account sock'. hosted_handshake (lib e) jc cfg (device_signer (lib e) device_seed) sock = (Inr account, sock')
    \<and> ha_account_id account = acc_id acc \<and> ha_handle account = acc_handle acc
    \<and> outgoing sock' = outgoing sock @ [Out_Text (client_hello (lib e) cfg),
        Out_Text (client_authenticate (lib e) cfg (login_signature e device_seed challenge))]"
proof -
  note p' = p [unfolded paired_def]
  have hello: "check_hello (lib e) cfg (hello_reply e challenge (hs_device_public_key cfg)) = Inr challenge"
    using p' by (intro hello_accepted) auto
  have sig: "device_signer (lib e) device_seed (auth_transcript (hs_pinned_server_public_key cfg) challenge
      (hs_device_public_key cfg)) = Some (login_signature e device_seed challenge)"
    using p' by (simp add: device_signer_def login_signature_def sign_device_challenge_def)
  show ?thesis
    using sock hello sig
    by (simp add: hosted_handshake_def client_send_frame_def client_send_def expect_success [OF u(1)] expect_success [OF u(2)]
        registration_accepted)
qed

text \<open>
  C35. The device key serves one server. The handshake asks the signer for nothing but the
  authentication transcript of the pinned server key and this device over a challenge that the
  pinned server signed for this device: two signers that agree on those transcripts cannot be told
  apart. When the handshake succeeds, exactly such a signature was sent after the hello.
\<close>

theorem device_key_use:
  assumes "\<And>challenge. vouched c cfg challenge \<Longrightarrow>
      signer (auth_transcript (hs_pinned_server_public_key cfg) challenge (hs_device_public_key cfg))
      = signer' (auth_transcript (hs_pinned_server_public_key cfg) challenge (hs_device_public_key cfg))"
    and "hosted_handshake c jc cfg signer s = (r, s')"
  shows "hosted_handshake c jc cfg signer' s = (r, s')
    \<and> (\<forall>account. r = Inr account \<longrightarrow>
        (\<exists>challenge signature before after. vouched c cfg challenge
          \<and> signer (auth_transcript (hs_pinned_server_public_key cfg) challenge (hs_device_public_key cfg)) = Some signature
          \<and> outgoing s' = outgoing s @ Out_Text (client_hello c cfg) # before
              @ Out_Text (client_authenticate c cfg signature) # after))"
proof (intro conjI allI impI)
  have "hosted_handshake c jc cfg signer' s = hosted_handshake c jc cfg signer s"
    unfolding hosted_handshake_def
    using assms(1) by (intro then_st_cong_fst refl) (auto dest!: check_hello_vouched intro!: then_st_cong_fst)
  then show "hosted_handshake c jc cfg signer' s = (r, s')"
    using assms(2) by simp
next
  fix account
  assume "r = Inr account"
  then obtain s1 hello s2 challenge signature s3 registered where
    h: "client_send_frame (client_hello c cfg) s = (Inr (), s1)" "expect_response jc ''hello'' s1 = (Inr hello, s2)"
    "check_hello c cfg hello = Inr challenge"
    "signer (auth_transcript (hs_pinned_server_public_key cfg) challenge (hs_device_public_key cfg)) = Some signature"
    "client_send_frame (client_authenticate c cfg signature) s2 = (Inr (), s3)"
    "expect_response jc ''authenticate'' s3 = (Inr registered, s')"
    using assms(2) by (auto elim: hosted_handshake_Inr)
  have s1: "outgoing s1 = outgoing s @ [Out_Text (client_hello c cfg)]"
    and s3: "outgoing s3 = outgoing s2 @ [Out_Text (client_authenticate c cfg signature)]"
    using h(1,5) by (auto simp: client_send_frame_def client_send_def split: if_splits)
  obtain before after where "outgoing s2 = outgoing s1 @ before" "outgoing s' = outgoing s3 @ after"
    using h(2,6) by (auto simp: expect_response_def prefix_def dest!: expect_loop_prefix)
  with s1 s3 h(4) check_hello_vouched [OF h(3)]
  show "\<exists>challenge signature before after. vouched c cfg challenge
      \<and> signer (auth_transcript (hs_pinned_server_public_key cfg) challenge (hs_device_public_key cfg)) = Some signature
      \<and> outgoing s' = outgoing s @ Out_Text (client_hello c cfg) # before
          @ Out_Text (client_authenticate c cfg signature) # after"
    by (intro exI [of _ challenge] exI [of _ signature] exI [of _ before] exI [of _ after]) simp
qed

text \<open>
  C36. The two ends of the hosted protocol fit together. When the daemon pinned this server's key,
  the messages are delivered and the account service accepts the registration, the server's
  handshake on the daemon's two frames and the daemon's handshake on the server's two frames both
  succeed, exactly these frames are exchanged, and the two ends agree on the account and the
  device key.
\<close>

theorem handshake_completes:
  assumes p: "paired e jc cfg device_seed challenge"
    and wire: "json_from_slice jc (as_bytes t1) = Some (client_hello (lib e) cfg)"
      "json_from_slice jc (as_bytes t2) = Some (client_authenticate (lib e) cfg (login_signature e device_seed challenge))"
      "json_from_slice jc (as_bytes u1) = Some (success_frame ''hello'' (hello_reply e challenge (hs_device_public_key cfg)))"
      "json_from_slice jc (as_bytes u2) = Some (success_frame ''authenticate'' result)"
    and sends: "frame_len e (success_frame ''hello'' (hello_reply e challenge (hs_device_public_key cfg))) \<le> MAX_FRAME_BYTES"
      "frame_len e (success_frame ''authenticate'' result) \<le> MAX_FRAME_BYTES" "\<And>n. send_ok e n"
    and sock: "incoming sock = [Msg_Text u1, Msg_Text u2]" "\<And>n. socket_accepts sock n"
    and reg: "fst (service_call e (Register (hs_device_public_key cfg) (hs_display_name cfg) (unix_now e (calls s))) s)
        = Inr result"
  shows "\<exists>peer s' account sock'.
      authenticate e [Delivered (Ws_Text t1), Delivered (Ws_Text t2)] s = ((Inr (Handshake_Authenticated peer), s'), [])
    \<and> hosted_handshake (lib e) jc cfg (device_signer (lib e) device_seed) sock = (Inr account, sock')
    \<and> ha_account_id account = peer_account peer \<and> hs_device_public_key cfg = peer_device peer
    \<and> sent s' = sent s @ [Sent_Text (success_frame ''hello'' (hello_reply e challenge (hs_device_public_key cfg))),
        Sent_Text (success_frame ''authenticate'' result)]
    \<and> outgoing sock' = outgoing sock @ [Out_Text (client_hello (lib e) cfg),
        Out_Text (client_authenticate (lib e) cfg (login_signature e device_seed challenge))]"
proof -
  obtain acc new where r: "result = registration_json (lib e) acc (hs_device_public_key cfg) new"
    using reg by (rule register_json)
  from server_side [OF p wire(1,2) sends(1) sends(2) [unfolded r] sends(3) reg [unfolded r]] client_side [OF p wire(3) wire(4) [unfolded r] sock]
  show ?thesis unfolding r by fastforce
qed

section \<open>A concrete pair\<close>

text \<open>A server that reads the daemon's frames with the reference JSON reader.\<close>

definition link_env :: session_env where
  "link_env = demo_env\<lparr>json_lib := reference_json\<rparr>"

definition link_config :: hosted_service_config where
  "link_config = \<lparr>hs_url = [], hs_pinned_server_public_key = replicate 32 9, hs_device_public_key = replicate 32 3,
     hs_display_name = None, hs_timeouts = HostedTimeouts_default\<rparr>"

definition link_account :: account_record where
  "link_account = row_account (hd (accounts demo_db))"

lemma link_account_simps [simp]:
  "acc_id link_account = ''a1''" "acc_handle link_account = Some ''ada''" "acc_display_name link_account = ''Ada''"
  by (simp_all add: link_account_def demo_db_def row_account_def)

lemma link_env_simps [simp]:
  "lib link_env = reference_crates" "frame_len link_env f = 100" "send_ok link_env k" "identity_seed link_env = replicate 32 9"
  "challenge_bytes link_env = Some (replicate 32 8)" "unix_now link_env n = 7" "json_lib link_env = reference_json"
  by (simp_all add: link_env_def)

lemma link_paired: "paired link_env reference_json link_config (replicate 32 3) (replicate 32 8)"
  using reference_hex_laws reference_ed_laws
  by (simp add: paired_def link_config_def KEY_BYTES_def) (simp add: reference_crates_def)

lemma reference_text:
  assumes "json_exact 127 j"
  obtains t where "json_from_slice reference_json (as_bytes t) = Some j"
  using json_laws_obtain [OF reference_json_laws assms] by (metis as_bytes_text_of)

lemma link_exact:
  "json_exact 127 (client_hello reference_crates link_config)"
  "json_exact 127 (client_authenticate reference_crates link_config sig)"
  "json_exact 127 (success_frame ''hello'' (hello_reply link_env (replicate 32 8) (replicate 32 3)))"
  "json_exact 127 (success_frame ''authenticate'' (registration_json reference_crates
     link_account (replicate 32 3) False))"
proof -
  have hx: "is_utf8 (hex_encode reference_crates bs)" for bs
    by (simp add: reference_crates_def is_utf8_hex)
  show "json_exact 127 (client_hello reference_crates link_config)"
    by (simp add: client_hello_def json_exact_object hx is_utf8_ascii PROTOCOL_VERSION_def)
  show "json_exact 127 (client_authenticate reference_crates link_config sig)"
    by (simp add: client_authenticate_def json_exact_object hx is_utf8_ascii PROTOCOL_VERSION_def link_config_def)
  show "json_exact 127 (success_frame ''hello'' (hello_reply link_env (replicate 32 8) (replicate 32 3)))"
    by (simp add: success_frame_def hello_reply_def json_exact_object hx is_utf8_ascii PROTOCOL_VERSION_def)
  show "json_exact 127 (success_frame ''authenticate'' (registration_json reference_crates
     link_account (replicate 32 3) False))"
    by (simp add: success_frame_def registration_json_def json_exact_object hx is_utf8_ascii PROTOCOL_VERSION_def json_opt_def)
qed

lemma link_registers:
  "fst (service_call link_env (Register (hs_device_public_key link_config) (hs_display_name link_config)
       (unix_now link_env (calls demo_session))) demo_session)
   = Inr (registration_json reference_crates
       link_account (replicate 32 3) False)"
proof -
  have "account_for_device (\<lambda>_. True) (replicate 32 3) (storage demo_service) =
      Inr (Some link_account)"
    by (simp add: account_for_device_def demo_service_def demo_db_def query_row_def link_account_def)
  moreover have "fst (touch_device (\<lambda>_. True) (replicate 32 3) 7 (storage demo_service)) = Inr ()"
    by (simp add: touch_device_def)
  moreover have "\<not> stopped demo_service" by (simp add: demo_service_def fresh_service_def)
  ultimately show ?thesis
    by (auto simp: service_call_def link_env_def demo_session_def call_def handle_def register_def link_config_def then_st_def
        split: prod.splits sum.splits)
qed

theorem handshake_completes_witness:
  "\<exists>t1 t2 peer s' account sock sock'.
     authenticate link_env [Delivered (Ws_Text t1), Delivered (Ws_Text t2)] demo_session
       = ((Inr (Handshake_Authenticated peer), s'), [])
   \<and> hosted_handshake reference_crates reference_json link_config (device_signer reference_crates (replicate 32 3)) sock
       = (Inr account, sock')
   \<and> ha_account_id account = peer_account peer \<and> peer_device peer = replicate 32 3"
proof -
  obtain t1 t2 u1 u2 where
    "json_from_slice reference_json (as_bytes t1) = Some (client_hello (lib link_env) link_config)"
    "json_from_slice reference_json (as_bytes t2) = Some (client_authenticate (lib link_env) link_config
       (login_signature link_env (replicate 32 3) (replicate 32 8)))"
    "json_from_slice reference_json (as_bytes u1) = Some (success_frame ''hello''
       (hello_reply link_env (replicate 32 8) (hs_device_public_key link_config)))"
    "json_from_slice reference_json (as_bytes u2) = Some (success_frame ''authenticate''
       (registration_json reference_crates
         link_account (replicate 32 3) False))"
    using link_exact by (simp add: link_config_def) (metis reference_text)
  note w = this
  let ?sock = "\<lparr>incoming = [Msg_Text u1, Msg_Text u2], outgoing = [], socket_accepts = \<lambda>_. True\<rparr>"
  have "hs_device_public_key link_config = replicate 32 3" by (simp add: link_config_def)
  with handshake_completes [OF link_paired w _ _ _ _ _ link_registers, of ?sock] show ?thesis
    by (simp add: MAX_FRAME_BYTES_def) metis
qed

theorem device_key_use_witness:
  "\<exists>sock account sock' challenge signature before after.
     hosted_handshake reference_crates reference_json link_config (device_signer reference_crates (replicate 32 3)) sock
       = (Inr account, sock')
   \<and> hosted_handshake reference_crates reference_json link_config
       (\<lambda>m. if length m = length (auth_transcript (replicate 32 9) (replicate 32 8) (replicate 32 3))
            then device_signer reference_crates (replicate 32 3) m else None) sock = (Inr account, sock')
   \<and> vouched reference_crates link_config challenge
   \<and> outgoing sock' = outgoing sock @ Out_Text (client_hello reference_crates link_config) # before
       @ Out_Text (client_authenticate reference_crates link_config signature) # after"
proof -
  let ?g = "device_signer reference_crates (replicate 32 3)"
  let ?g' = "\<lambda>m. if length m = length (auth_transcript (replicate 32 9) (replicate 32 8) (replicate 32 3))
            then ?g m else None"
  obtain u1 u2 where u:
    "json_from_slice reference_json (as_bytes u1) = Some (success_frame ''hello''
       (hello_reply link_env (replicate 32 8) (hs_device_public_key link_config)))"
    "json_from_slice reference_json (as_bytes u2) = Some (success_frame ''authenticate''
       (registration_json (lib link_env) link_account (hs_device_public_key link_config) False))"
    using link_exact by (simp add: link_config_def) (metis reference_text)
  let ?sock = "\<lparr>incoming = [Msg_Text u1, Msg_Text u2], outgoing = [], socket_accepts = \<lambda>_. True\<rparr>"
  obtain account sock' where h: "hosted_handshake reference_crates reference_json link_config ?g ?sock = (Inr account, sock')"
    using client_side [OF link_paired u, of ?sock] by auto
  have "?g (auth_transcript (hs_pinned_server_public_key link_config) challenge (hs_device_public_key link_config))
      = ?g' (auth_transcript (hs_pinned_server_public_key link_config) challenge (hs_device_public_key link_config))"
    if "vouched reference_crates link_config challenge" for challenge
    using that by (simp add: vouched_def auth_transcript_def link_config_def KEY_BYTES_def)
  from device_key_use [OF this h] h show ?thesis
    by blast
qed

end
