(* ===== verification/Daemon_Core.thy ===== *)
theory Daemon_Core
  imports Nostr_Chat Hosted_Client Confirmation Sealed_Erase
begin

text \<open>
  The daemon's core (\<open>omachatd/src/core.rs\<close>, \<open>core_error.rs\<close>): the state behind the local socket,
  the commands it answers, the hosted transport's events, reloading the configuration and the
  panic erasure. The core's state extends the chat actor's, so chat commands run on it directly.
  Operations are whole here, one after the other; the locks that make them so are the subject of
  \<open>Core_Threads\<close>. The hosted transport is seen through its handle: the state it last published and
  the outcome of each call, both inputs. Shown: a well-formedness invariant of the core (identity,
  master key, transport and chat live and die together; the configuration in force is a valid one
  for the store that was opened), and that a panic erasure is final.
\<close>

section \<open>Errors\<close>

datatype core_error =
    CE_Clock
  | CE_ConfirmationExpired
  | CE_ConfirmationRequired
  | CE_Hosted server_error
  | CE_HostedService
  | CE_HostedUnavailable
  | CE_HostedUnconfigured
  | CE_Chat chat_error
  | CE_IdentityStore identity_store_error
  | CE_NostrMissing
  | CE_NostrStore nostr_store_error
  | CE_InvalidCommand
  | CE_InvalidConfig
  | CE_Io io_error
  | CE_PanicErase
  | CE_Panicked
  | CE_Random
  | CE_RestartRequired
  | CE_Store store_error

fun hosted_code :: "error_code \<Rightarrow> ipc_error_code" where
  "hosted_code InvalidRequest = Ipc_InvalidRequest"
| "hosted_code InvalidHandle = Ipc_InvalidRequest"
| "hosted_code InvalidName = Ipc_InvalidRequest"
| "hosted_code TooLarge = Ipc_InvalidRequest"
| "hosted_code error_code.UnsupportedVersion = Ipc_InvalidRequest"
| "hosted_code HandleTaken = Ipc_Conflict"
| "hosted_code HandleAlreadySet = Ipc_Conflict"
| "hosted_code NostrPubkeyTaken = Ipc_Conflict"
| "hosted_code ReplayedProof = Ipc_Conflict"
| "hosted_code AlreadyAuthenticated = Ipc_Conflict"
| "hosted_code NotFound = Ipc_NotFound"
| "hosted_code RateLimited = Ipc_Unavailable"
| "hosted_code Storage = Ipc_Unavailable"
| "hosted_code InvalidSignature = Ipc_Unavailable"
| "hosted_code error_code.NotAuthenticated = Ipc_Unavailable"
| "hosted_code Internal = Ipc_Internal"

definition chat_code :: "chat_error \<Rightarrow> ipc_error_code" where
  "chat_code err =
     (case err of
        InvalidPeer \<Rightarrow> Ipc_InvalidRequest | InvalidRelay \<Rightarrow> Ipc_InvalidRequest
      | InvalidText \<Rightarrow> Ipc_InvalidRequest | SelfContact \<Rightarrow> Ipc_InvalidRequest
      | Chat_NotFound \<Rightarrow> Ipc_NotFound
      | Chat_Nip05 Nip05_NotFound \<Rightarrow> Ipc_NotFound
      | NoRelays \<Rightarrow> Ipc_Unavailable | NotConnected \<Rightarrow> Ipc_Unavailable | Chat_Stopped \<Rightarrow> Ipc_Unavailable
      | Chat_TooLarge \<Rightarrow> Ipc_Conflict
      | _ \<Rightarrow> Ipc_Internal)"

definition CoreError_code :: "core_error \<Rightarrow> ipc_error_code" where
  "CoreError_code err =
     (case err of
        CE_Hosted e \<Rightarrow> hosted_code (code e)
      | CE_Chat e \<Rightarrow> chat_code e
      | CE_NostrMissing \<Rightarrow> Ipc_NotFound
      | CE_NostrStore AlreadyPresent \<Rightarrow> Ipc_Conflict
      | CE_InvalidConfig \<Rightarrow> Ipc_InvalidRequest | CE_InvalidCommand \<Rightarrow> Ipc_InvalidRequest
      | CE_HostedUnavailable \<Rightarrow> Ipc_Unavailable | CE_HostedUnconfigured \<Rightarrow> Ipc_Unavailable
      | CE_Panicked \<Rightarrow> Ipc_Unavailable
      | CE_ConfirmationRequired \<Rightarrow> Ipc_Conflict | CE_ConfirmationExpired \<Rightarrow> Ipc_Conflict
      | CE_RestartRequired \<Rightarrow> Ipc_Conflict
      | _ \<Rightarrow> Ipc_Internal)"

text \<open>The rendering of a wrapped error is an argument: its parts include texts of other crates.\<close>

definition CoreError_display :: "(core_error \<Rightarrow> string) \<Rightarrow> core_error \<Rightarrow> string" where
  "CoreError_display wrapped err =
     (case err of
        CE_Clock \<Rightarrow> ''system clock invalid''
      | CE_ConfirmationExpired \<Rightarrow> ''confirmation expired''
      | CE_ConfirmationRequired \<Rightarrow> ''confirmation required''
      | CE_Hosted _ \<Rightarrow> ''Hosted: '' @ wrapped err
      | CE_HostedService \<Rightarrow> ''HostedService: hosted server URL must be wss:// or a loopback ws://''
      | CE_HostedUnavailable \<Rightarrow>
          ''hosted server is unreachable; the request was not confirmed and may be repeated safely''
      | CE_HostedUnconfigured \<Rightarrow> ''hosted server is not configured''
      | CE_Chat _ \<Rightarrow> wrapped err
      | CE_IdentityStore _ \<Rightarrow> ''IdentityStore: '' @ wrapped err
      | CE_NostrMissing \<Rightarrow> ''no nostr identity is stored''
      | CE_NostrStore _ \<Rightarrow> ''NostrStore: '' @ wrapped err
      | CE_InvalidCommand \<Rightarrow> ''invalid command''
      | CE_InvalidConfig \<Rightarrow> ''invalid configuration; use storage_provider, hosted, and dm_relays settings only''
      | CE_Io _ \<Rightarrow> ''Io: '' @ wrapped err
      | CE_PanicErase \<Rightarrow> ''panic cleanup failed''
      | CE_Panicked \<Rightarrow> ''daemon is shutting down''
      | CE_Random \<Rightarrow> ''random generation failed''
      | CE_RestartRequired \<Rightarrow> ''configuration change requires restart''
      | CE_Store _ \<Rightarrow> ''Store: '' @ wrapped err)"

fun core_config_error :: "config_error \<Rightarrow> core_error" where
  "core_config_error InvalidConfig = CE_InvalidConfig"
| "core_config_error (Config_Io err) = CE_Io err"

fun core_issue_error :: "issue_error \<Rightarrow> core_error" where
  "core_issue_error Issue_Random = CE_Random"
| "core_issue_error (Issue_Io err) = CE_Io err"

fun core_hosted_error :: "hosted_error \<Rightarrow> core_error" where
  "core_hosted_error (HE_Server err) = CE_Hosted err"
| "core_hosted_error _ = CE_HostedUnavailable"

section \<open>State\<close>

datatype panic_state = Active | Erasing | CleanupComplete | CleanupFailed | Stopping

definition is_terminal :: "panic_state \<Rightarrow> bool" where
  "is_terminal p \<longleftrightarrow> p = CleanupComplete \<or> p = CleanupFailed"

record core = chat_actor +
  core_identity :: "identity_secrets option"
  core_panic :: panic_state
  core_hosted :: "hosted_state option"
  core_account :: "hosted_account option"
  core_config :: daemon_config
  core_confirmations :: confirmations
  core_chat_running :: bool

record core_env =
  co_chat :: chat_env
  co_weak :: "bytes \<Rightarrow> bool"
  co_service :: "nat \<Rightarrow> string \<Rightarrow> json \<Rightarrow> hosted_error + json"
  co_wrapped :: "core_error \<Rightarrow> string"

abbreviation co_crates :: "core_env \<Rightarrow> crates" where "co_crates e \<equiv> ce_crates (co_chat e)"
abbreviation co_os :: "core_env \<Rightarrow> store_env" where "co_os e \<equiv> ce_os (co_chat e)"

type_synonym 'v core_op = "core \<Rightarrow> (core_error + 'v) \<times> core"

definition is_active :: "core \<Rightarrow> bool" where "is_active s \<longleftrightarrow> core_panic s = Active"

definition ensure_active :: "unit core_op" where
  "ensure_active s = (if is_active s then Inr () else Inl CE_Panicked, s)"

definition with_active_transition :: "'v core_op \<Rightarrow> 'v core_op" where
  "with_active_transition transition s = then_st (ensure_active s) (\<lambda>_. transition)"

definition core_unix_time :: "core_env \<Rightarrow> u64 core_op" where
  "core_unix_time e = use_tick (\<lambda>i. ok_or CE_Clock (ce_clock (co_chat e) i))"

definition random_bytes :: "core_env \<Rightarrow> bytes core_op" where
  "random_bytes e s = err_st (\<lambda>_. CE_Random) (with_store (\<lambda>_ d. getrandom_fill (sys (co_os e)) 32 d) s)"

definition the_identity :: "identity_secrets core_op" where
  "the_identity s = (ok_or CE_Panicked (core_identity s), s)"

definition sign_with_device_key :: "core_env \<Rightarrow> bytes \<Rightarrow> core \<Rightarrow> bytes option" where
  "sign_with_device_key e msg s =
     map_option (\<lambda>i. IdentitySecrets_sign (co_crates e) i msg) (core_identity s)"

section \<open>Opening\<close>

text \<open>The fields of the core before its services run.\<close>

definition core_init :: "path \<Rightarrow> daemon_config \<Rightarrow> event_hub \<Rightarrow> sealed_store \<Rightarrow> identity_secrets \<Rightarrow> disk \<Rightarrow> core" where
  "core_init directory config hub store identity d =
     \<lparr>sh_store = store, sh_disk = d, sh_hub = hub, sh_sequence = 1, sh_ticks = 0,
      chat_relays = [], contacts = [], messages = [], chat_pool = None, pool_relays = [], pool_pubkey = None,
      subscribed_for = None, loopback_nip05 = None, chat_sent = [],
      core_identity = Some identity, core_panic = Active, core_hosted = None, core_account = None,
      core_config = config, core_confirmations = confirmations_new directory, core_chat_running = True\<rparr>"

definition core_open ::
  "core_env \<Rightarrow> path \<Rightarrow> daemon_config \<Rightarrow> event_hub \<Rightarrow> disk \<Rightarrow> (core_error + core) \<times> disk" where
  "core_open e directory config hub d =
     then_st (map_err core_config_error
                (DaemonConfig_validate (co_crates e) (ce_urls (co_chat e)) (co_weak e) config), d) (\<lambda>_ d.
     then_st (err_st CE_Store
                (SealedStore_open (co_os e) directory (RequestedProvider_from (storage_provider config)) d)) (\<lambda>store d.
     then_st (err_st CE_IdentityStore
                (IdentityVault_load_or_create (co_crates e) (ce_codec (co_chat e)) (co_os e) store d)) (\<lambda>identity d.
     let s = chat_start (co_chat e) (dm_relays config) (core_init directory config hub store identity d) in
     (Inr s, sh_disk s))))"

section \<open>Status\<close>

record hosted_status =
  st_state :: string
  st_url :: "string option"
  st_server_public_key :: "string option"
  st_account_id :: "string option"
  st_handle :: "string option"
  st_display_name :: "string option"
  st_reason :: "string option"

definition hosted_status_of :: "core \<Rightarrow> hosted_status" where
  "hosted_status_of s =
     (case hosted_server (core_config s) of
        None \<Rightarrow> \<lparr>st_state = ''disabled'', st_url = None, st_server_public_key = None, st_account_id = None,
                 st_handle = None, st_display_name = None, st_reason = None\<rparr>
      | Some hosted \<Rightarrow>
          (let (state, reason) =
             (case core_hosted s of
                None \<Rightarrow> (''starting'', None)
              | Some (HS_Disconnected reason) \<Rightarrow> (''disconnected'', Some reason)
              | Some other \<Rightarrow> (HostedState_label other, None)) in
           \<lparr>st_state = state, st_url = Some (hc_url hosted), st_server_public_key = Some (hc_pinned_server_public_key hosted),
            st_account_id = map_option ha_account_id (core_account s),
            st_handle = Option.bind (core_account s) ha_handle,
            st_display_name = Option.bind (core_account s) ha_display_name,
            st_reason = reason\<rparr>))"

definition opt_json :: "string option \<Rightarrow> json" where
  "opt_json x = (case x of None \<Rightarrow> JNull | Some y \<Rightarrow> JStr y)"

definition hosted_status_json :: "hosted_status \<Rightarrow> json" where
  "hosted_status_json h =
     JObj [(''state'', JStr (st_state h)), (''url'', opt_json (st_url h)),
           (''server_public_key'', opt_json (st_server_public_key h)), (''account_id'', opt_json (st_account_id h)),
           (''handle'', opt_json (st_handle h)), (''display_name'', opt_json (st_display_name h)),
           (''reason'', opt_json (st_reason h))]"

definition core_load_nostr :: "core_env \<Rightarrow> nostr_secret option core_op" where
  "core_load_nostr e s =
     err_st CE_NostrStore
       (with_store (\<lambda>st d. NostrVault_load (co_crates e) (ce_codec (co_chat e)) (co_os e) st d) s)"

definition public_nostr_fields :: "core_env \<Rightarrow> nostr_secret \<Rightarrow> (string \<times> json) list" where
  "public_nostr_fields e k =
     [(''npub'', JStr (NostrSecret_npub (co_crates e) k)), (''pubkey'', JStr (secret_pubkey (co_chat e) k))]"

definition public_nostr_json :: "core_env \<Rightarrow> nostr_secret \<Rightarrow> json" where
  "public_nostr_json e k = JObj (public_nostr_fields e k)"

definition status_value :: "core_env \<Rightarrow> json core_op" where
  "status_value e s =
     then_st (ensure_active s) (\<lambda>_ s.
     then_st (the_identity s) (\<lambda>identity s.
     let public = IdentitySecrets_public_identity (co_crates e) identity in
     then_st (core_load_nostr e s) (\<lambda>found s.
     let nostr = (case found of
                    Some k \<Rightarrow> JObj ((''present'', JBool True) # public_nostr_fields e k)
                  | None \<Rightarrow> JObj [(''present'', JBool False)]) in
     (Inr (JObj [(''storage_provider'', JStr (provider_name (provider (sh_store s)))),
                 (''fingerprint'', JStr (fingerprint_hex public)),
                 (''device_public_key'', JStr (hex_encode (co_crates e) (signing_public_key public))),
                 (''hosted'', hosted_status_json (hosted_status_of s)),
                 (''nostr'', nostr),
                 (''dm_relays'', strings_json (chat_relays s))]), s))))"

definition fingerprint_value :: "core_env \<Rightarrow> json core_op" where
  "fingerprint_value e s =
     then_st (the_identity s) (\<lambda>identity s.
     (Inr (JStr (fingerprint_hex (IdentitySecrets_public_identity (co_crates e) identity))), s))"

definition publish_status_event :: "core_env \<Rightarrow> core \<Rightarrow> core" where
  "publish_status_event e s =
     (case status_value e s of
        (Inr payload, s) \<Rightarrow> publish_event Topic_Status payload s
      | (Inl _, s) \<Rightarrow> s)"

section \<open>The Nostr identity\<close>

definition require_nostr :: "core_env \<Rightarrow> nostr_secret core_op" where
  "require_nostr e s = then_st (core_load_nostr e s) (\<lambda>found s. (ok_or CE_NostrMissing found, s))"

definition identity_show :: "core_env \<Rightarrow> json core_op" where
  "identity_show e s = then_st (require_nostr e s) (\<lambda>k s. (Inr (public_nostr_json e k), s))"

text \<open>Like \<open>npub\<close>, \<open>nsec\<close> expects the encoder to take 32 bytes.\<close>

definition identity_export :: "core_env \<Rightarrow> json core_op" where
  "identity_export e s =
     then_st (require_nostr e s) (\<lambda>k s. (Inr (JObj [(''nsec'', JStr (projr (NostrSecret_nsec (co_crates e) k)))]), s))"

definition nostr_identity :: "nostr_identity_error \<Rightarrow> core_error" where
  "nostr_identity err = CE_NostrStore (NS_Identity err)"

definition save_new_nostr :: "core_env \<Rightarrow> nostr_secret \<Rightarrow> json core_op" where
  "save_new_nostr e k s =
     then_st (err_st CE_NostrStore
        (with_store (\<lambda>st d. NostrVault_save_new (co_crates e) (ce_codec (co_chat e)) (co_os e) st k d) s)) (\<lambda>_ s.
     (Inr (public_nostr_json e k), s))"

definition identity_generate :: "core_env \<Rightarrow> json core_op" where
  "identity_generate e s =
     then_st (err_st nostr_identity (generate_secret (co_chat e) s)) (\<lambda>k. save_new_nostr e k)"

definition identity_import :: "core_env \<Rightarrow> string \<Rightarrow> json core_op" where
  "identity_import e nsec s =
     then_st (map_err nostr_identity (NostrSecret_from_nsec (co_crates e) nsec), s) (\<lambda>k. save_new_nostr e k)"

definition core_sign_nostr :: "core_env \<Rightarrow> nostr_secret \<Rightarrow> bytes \<Rightarrow> bytes core_op" where
  "core_sign_nostr e k msg s =
     err_st nostr_identity
       (if schnorr_secret_ok (co_crates e) (secret k)
        then with_store (\<lambda>_ d.
          case getrandom_fill (sys (co_os e)) 32 d of
            (Inl _, d) \<Rightarrow> (NostrSecret_sign (co_crates e) None k msg, d)
          | (Inr aux, d) \<Rightarrow> (NostrSecret_sign (co_crates e) (Some aux) k msg, d)) s
        else (NostrSecret_sign (co_crates e) None k msg, s))"

section \<open>The hosted server\<close>

definition hosted_call :: "core_env \<Rightarrow> string \<Rightarrow> json \<Rightarrow> json core_op" where
  "hosted_call e method params s =
     (if core_hosted s = None then (Inl CE_HostedUnconfigured, s)
      else err_st core_hosted_error (use_tick (\<lambda>i. co_service e i method params) s))"

definition decode_key32 :: "core_env \<Rightarrow> string \<Rightarrow> core_error + bytes" where
  "decode_key32 e encoded =
     (case hex_decode (co_crates e) encoded of
        Some bs \<Rightarrow> if length bs = 32 then Inr bs else Inl CE_InvalidConfig
      | None \<Rightarrow> Inl CE_InvalidConfig)"

definition hosted_binding_context :: "core_env \<Rightarrow> core \<Rightarrow> core_error + string \<times> string \<times> bytes" where
  "hosted_binding_context e s =
     (let status = hosted_status_of s in
      if st_state status \<noteq> ''connected'' then Inl CE_HostedUnavailable
      else
        and_then (ok_or CE_HostedUnavailable (st_account_id status)) (\<lambda>account_id.
        and_then (ok_or (CE_Hosted (server_err InvalidHandle ''claim a handle before binding a nostr key''))
                   (st_handle status)) (\<lambda>handle.
        and_then (ok_or CE_HostedUnavailable (st_server_public_key status)) (\<lambda>encoded.
        and_then (decode_key32 e encoded) (\<lambda>server_public_key.
        Inr (account_id, handle, server_public_key))))))"

definition hosted_bind_nostr :: "core_env \<Rightarrow> json core_op" where
  "hosted_bind_nostr e s =
     then_st (require_nostr e s) (\<lambda>k s.
     then_st (hosted_binding_context e s, s) (\<lambda>(account_id, handle, server_public_key) s.
     then_st (random_bytes e s) (\<lambda>nonce s.
     then_st (core_unix_time e s) (\<lambda>timestamp s.
     let public_key = NostrSecret_public_key (co_crates e) k;
         transcript = nostr_bind_transcript server_public_key account_id handle public_key nonce timestamp in
     then_st (ok_or CE_Panicked (sign_with_device_key e transcript s), s) (\<lambda>device_signature s.
     then_st (core_sign_nostr e k transcript s) (\<lambda>nostr_signature s.
     hosted_call e ''bind-nostr''
       (JObj [(''nostr_public_key'', JStr (hex_encode (co_crates e) public_key)),
              (''nonce'', JStr (hex_encode (co_crates e) nonce)), (''timestamp'', JInt (uint timestamp)),
              (''device_signature'', JStr (hex_encode (co_crates e) device_signature)),
              (''nostr_signature'', JStr (hex_encode (co_crates e) nostr_signature))]) s))))))"

definition hosted_unbind_nostr :: "core_env \<Rightarrow> json core_op" where
  "hosted_unbind_nostr e s =
     then_st (hosted_binding_context e s, s) (\<lambda>(account_id, handle, server_public_key) s.
     then_st (hosted_call e ''status'' JNull s) (\<lambda>status s.
     then_st (ok_or (CE_Hosted (server_err NotFound ''no nostr key is bound''))
                (Option.bind (value_get status ''nostr_public_key'') json_as_str), s) (\<lambda>bound s.
     then_st (decode_key32 e bound, s) (\<lambda>nostr_public_key s.
     then_st (random_bytes e s) (\<lambda>nonce s.
     then_st (core_unix_time e s) (\<lambda>timestamp s.
     let transcript = nostr_unbind_transcript server_public_key account_id handle nostr_public_key nonce timestamp in
     then_st (ok_or CE_Panicked (sign_with_device_key e transcript s), s) (\<lambda>device_signature s.
     hosted_call e ''unbind-nostr''
       (JObj [(''nonce'', JStr (hex_encode (co_crates e) nonce)), (''timestamp'', JInt (uint timestamp)),
              (''device_signature'', JStr (hex_encode (co_crates e) device_signature))]) s)))))))"

definition hosted_claim_handle :: "core_env \<Rightarrow> string \<Rightarrow> json core_op" where
  "hosted_claim_handle e handle s =
     then_st (hosted_call e ''claim-handle'' (JObj [(''handle'', JStr handle)]) s) (\<lambda>result s.
     let s = (case Option.bind (value_get result ''handle'') json_as_str of
                Some claimed \<Rightarrow> s\<lparr>core_account := map_option (\<lambda>a. a\<lparr>ha_handle := Some claimed\<rparr>) (core_account s)\<rparr>
              | None \<Rightarrow> s) in
     (Inr result, publish_status_event e s))"

definition start_hosted_with :: "core_env \<Rightarrow> hosted_timeouts \<Rightarrow> hosted_service_config option core_op" where
  "start_hosted_with e timeouts =
     with_active_transition (\<lambda>s.
     case hosted_server (core_config s) of
       None \<Rightarrow> (Inr None, s)
     | Some hosted \<Rightarrow>
         then_st (the_identity s) (\<lambda>identity s.
         then_st (map_err core_config_error (canonical_publication_url (ce_urls (co_chat e)) (hc_url hosted)), s) (\<lambda>url s.
         then_st (map_err core_config_error (pinned_server_public_key_bytes (co_crates e) (co_weak e) hosted), s) (\<lambda>pinned s.
         let config = \<lparr>hs_url = url, hs_pinned_server_public_key = pinned,
                       hs_device_public_key = signing_public_key (IdentitySecrets_public_identity (co_crates e) identity),
                       hs_display_name = Option.bind (hc_display_name hosted)
                         (\<lambda>name. if isl (validate_name name) then None else Some name),
                       hs_timeouts = timeouts\<rparr> in
         if \<not> spawn_url_ok (ce_urls (co_chat e)) url then (Inl CE_HostedService, s)
         else (Inr (Some config), s\<lparr>core_hosted := Some HS_Connecting\<rparr>)))))"

definition receive_hosted_event :: "core_env \<Rightarrow> hosted_state \<Rightarrow> core \<Rightarrow> core" where
  "receive_hosted_event e state s =
     (if \<not> is_active s then s
      else publish_status_event e
        (case HostedState_account state of Some account \<Rightarrow> s\<lparr>core_account := Some account\<rparr> | None \<Rightarrow> s))"

section \<open>Commands\<close>

text \<open>A request to the chat actor: a stopped actor answers nothing.\<close>

definition chat_call :: "core_env \<Rightarrow> chat_request \<Rightarrow> json core_op" where
  "chat_call e r s =
     (if core_chat_running s then err_st CE_Chat (chat_handle (co_chat e) r s)
      else (Inl (CE_Chat Chat_Stopped), s))"

definition path_display :: "path \<Rightarrow> string" where
  "path_display p = concat (map (\<lambda>x. ''/'' @ x) p)"

definition confirmation_issue_value :: "issued_confirmation \<Rightarrow> json" where
  "confirmation_issue_value i =
     JObj [(''token_path'', JStr (path_display (issued_path i))), (''expires_at'', JInt (uint (issued_expires_at i))),
           (''ttl_seconds'', JInt (uint CONFIRMATION_TTL_SECONDS))]"

definition core_issue :: "core_env \<Rightarrow> u64 \<Rightarrow> issued_confirmation core_op" where
  "core_issue e now s =
     (case issue (co_crates e) (sys (co_os e)) PanicErase now (core_confirmations s) (sh_disk s) of
        (r, cs, d) \<Rightarrow> (map_err core_issue_error r, s\<lparr>sh_disk := d, core_confirmations := cs\<rparr>))"

fun topic_name :: "topic \<Rightarrow> string" where
  "topic_name Topic_Status = ''status''"
| "topic_name Topic_Conversations = ''conversations''"
| "topic_name Topic_Messages = ''messages''"
| "topic_name Topic_Presence = ''presence''"
| "topic_name Topic_Delivery = ''delivery''"

text \<open>\<open>value[key] = x\<close> on an object; a chat snapshot is one.\<close>

definition value_set :: "string \<Rightarrow> json \<Rightarrow> json \<Rightarrow> json" where
  "value_set k x j = (case j of JObj kvs \<Rightarrow> JObj (AList.update k x kvs) | _ \<Rightarrow> j)"

fun dispatch_active :: "core_env \<Rightarrow> command \<Rightarrow> json core_op" where
  "dispatch_active e Status s = status_value e s"
| "dispatch_active e Fingerprint s = fingerprint_value e s"
| "dispatch_active e RequestPanicConfirmation s =
     then_st (core_unix_time e s) (\<lambda>now s.
     then_st (core_issue e now s) (\<lambda>issued s. (Inr (confirmation_issue_value issued), s)))"
| "dispatch_active e IdentityShow s = identity_show e s"
| "dispatch_active e IdentityExport s = identity_export e s"
| "dispatch_active e IdentityGenerate s =
     then_st (identity_generate e s) (\<lambda>v s. then_st (chat_call e Reload s) (\<lambda>_ s. (Inr v, s)))"
| "dispatch_active e (IdentityImport nsec) s =
     then_st (identity_import e nsec s) (\<lambda>v s. then_st (chat_call e Reload s) (\<lambda>_ s. (Inr v, s)))"
| "dispatch_active e ChatPrepare s = chat_call e Prepare s"
| "dispatch_active e (ContactsAdd peer) s = chat_call e (AddContact peer) s"
| "dispatch_active e (ContactsRemove npub) s = chat_call e (RemoveContact npub) s"
| "dispatch_active e ContactsList s = chat_call e ListContacts s"
| "dispatch_active e RelaysShow s = chat_call e ShowRelays s"
| "dispatch_active e (RelaysSet relays) s = chat_call e (SetRelays relays) s"
| "dispatch_active e (command.Send peer body) s = chat_call e (SendText peer body) s"
| "dispatch_active e command.Messages s = chat_call e chat_request.Messages s"
| "dispatch_active e HostedBindNostr s = hosted_bind_nostr e s"
| "dispatch_active e HostedUnbindNostr s = hosted_unbind_nostr e s"
| "dispatch_active e (HostedClaimHandle handle) s = hosted_claim_handle e handle s"
| "dispatch_active e (HostedResolveHandle handle) s =
     hosted_call e ''resolve-handle'' (JObj [(''handle'', JStr handle)]) s"
| "dispatch_active e (Subscribe topics) s =
     then_st (chat_call e Snapshot s) (\<lambda>snapshot s.
     then_st (status_value e s) (\<lambda>status s.
     (Inr (value_set ''status'' status
            (value_set ''topics'' (JArr (map (\<lambda>t. JStr (topic_name t)) topics)) snapshot)), s)))"
| "dispatch_active e (Panic _) s = (Inl CE_InvalidCommand, s)"
| "dispatch_active e (Hello _ _) s = (Inl CE_InvalidCommand, s)"

section \<open>Panic erasure\<close>

definition panic_begin :: "core \<Rightarrow> bool \<times> core" where
  "panic_begin s = (if core_panic s = Active then (True, s\<lparr>core_panic := Erasing\<rparr>) else (False, s))"

definition panic_finish :: "bool \<Rightarrow> core \<Rightarrow> core" where
  "panic_finish succeeded s = s\<lparr>core_panic := (if succeeded then CleanupComplete else CleanupFailed)\<rparr>"

text \<open>The actor leaves its loop, shuts its pool down and is dropped with what it holds in memory.\<close>

definition chat_shutdown :: "core \<Rightarrow> core" where
  "chat_shutdown s = s\<lparr>core_chat_running := False, chat_pool := None, contacts := [], messages := []\<rparr>"

text \<open>The chat actor and the transport are stopped first; then the identity, the account and the store go.\<close>

definition perform_panic_cleanup :: "core_env \<Rightarrow> json core_op" where
  "perform_panic_cleanup e s =
     (let s = chat_shutdown s;
          s = s\<lparr>core_hosted := None\<rparr>;
          s = s\<lparr>core_identity := None\<rparr>;
          s = s\<lparr>core_account := None\<rparr> in
      case panic_erase (co_os e) (sh_store s) (sh_disk s) of
        (r, store, d) \<Rightarrow>
          (and_then (map_err CE_Store r) (\<lambda>_. Inr (JObj [(''erased'', JBool True), (''restart_required'', JBool True)])),
           s\<lparr>sh_store := store, sh_disk := d\<rparr>))"

fun core_confirmation_error :: "confirmation_error \<Rightarrow> core_error" where
  "core_confirmation_error Expired = CE_ConfirmationExpired"
| "core_confirmation_error Missing = CE_ConfirmationRequired"
| "core_confirmation_error Mismatch = CE_ConfirmationRequired"

definition core_redeem :: "core_env \<Rightarrow> string \<Rightarrow> u64 \<Rightarrow> unit core_op" where
  "core_redeem e confirmation now s =
     (case redeem (sys (co_os e)) PanicErase confirmation now (core_confirmations s) (sh_disk s) of
        (r, cs, d) \<Rightarrow> (map_err core_confirmation_error r, s\<lparr>sh_disk := d, core_confirmations := cs\<rparr>))"

definition core_panic_erase :: "core_env \<Rightarrow> string \<Rightarrow> json core_op" where
  "core_panic_erase e confirmation s =
     then_st (core_unix_time e s) (\<lambda>now s.
     then_st (core_redeem e confirmation now s) (\<lambda>_ s.
     case panic_begin s of
       (False, s) \<Rightarrow> (Inl CE_Panicked, s)
     | (True, s) \<Rightarrow>
         (case perform_panic_cleanup e s of (result, s) \<Rightarrow> (result, panic_finish (\<not> isl result) s))))"

definition panic_unavailable :: response_outcome where
  "panic_unavailable =
     Outcome_Error \<lparr>error_code = Ipc_Unavailable, error_message = ''daemon is shutting down and unavailable''\<rparr>"

definition core_outcome :: "core_env \<Rightarrow> core_error + json \<Rightarrow> response_outcome" where
  "core_outcome e r =
     (case r of
        Inr result \<Rightarrow> Outcome_Ok result
      | Inl err \<Rightarrow> Outcome_Error \<lparr>error_code = CoreError_code err, error_message = CoreError_display (co_wrapped e) err\<rparr>)"

definition dispatch :: "core_env \<Rightarrow> command \<Rightarrow> core \<Rightarrow> response_outcome \<times> core" where
  "dispatch e c s =
     (if \<not> is_active s then (panic_unavailable, s)
      else
        (case (case c of Panic confirmation \<Rightarrow> core_panic_erase e confirmation s | _ \<Rightarrow> dispatch_active e c s) of
           (result, s) \<Rightarrow> (core_outcome e result, s)))"

section \<open>Reloading, shutdown and the run\<close>

definition reload :: "core_env \<Rightarrow> path \<Rightarrow> unit core_op" where
  "reload e p s =
     then_st (err_st core_config_error (with_store (\<lambda>_ d.
        DaemonConfig_load (co_crates e) (ce_json (co_chat e)) (ce_urls (co_chat e)) (co_weak e) (sys (co_os e)) p d) s))
       (\<lambda>replacement. with_active_transition (\<lambda>s.
          if hosted_server (core_config s) \<noteq> hosted_server replacement
             \<or> storage_provider (core_config s) \<noteq> storage_provider replacement
          then (Inl CE_RestartRequired, s)
          else (Inr (), s\<lparr>core_config := replacement\<rparr>)))"

text \<open>Waiting for a panic in progress does not arise: here an erasure is over when the next step starts.\<close>

definition prepare_for_shutdown :: "core \<Rightarrow> core" where
  "prepare_for_shutdown s = (if core_panic s = Active then s\<lparr>core_panic := Stopping\<rparr> else s)"

text \<open>
  One step of the daemon: a client's command, a notification of the relay pool for the chat actor,
  the transport publishing a state or handing over its event, a reload, the start of the transport,
  or the process beginning to stop.
\<close>

datatype core_input =
    Core_Command command
  | Core_Notification relay_notification
  | Core_TransportState hosted_state
  | Core_TransportEvent hosted_state
  | Core_Reload path
  | Core_StartHosted hosted_timeouts
  | Core_Shutdown

fun core_turn :: "core_env \<Rightarrow> core_input \<Rightarrow> core \<Rightarrow> core" where
  "core_turn e (Core_Command c) s = snd (dispatch e c s)"
| "core_turn e (Core_Notification n) s = (if core_chat_running s then on_notification (co_chat e) n s else s)"
| "core_turn e (Core_TransportState state) s = (if core_hosted s = None then s else s\<lparr>core_hosted := Some state\<rparr>)"
| "core_turn e (Core_TransportEvent state) s = receive_hosted_event e state s"
| "core_turn e (Core_Reload p) s = snd (reload e p s)"
| "core_turn e (Core_StartHosted timeouts) s = snd (start_hosted_with e timeouts s)"
| "core_turn e Core_Shutdown s = prepare_for_shutdown s"

section \<open>What the operations leave alone\<close>

text \<open>Only panics, reloads, shutdown and the transport change one of these.\<close>

definition vitals :: "core \<Rightarrow> sealed_store \<times> identity_secrets option \<times> panic_state \<times> hosted_state option \<times> daemon_config \<times> bool" where
  "vitals s = (sh_store s, core_identity s, core_panic s, core_hosted s, core_config s, core_chat_running s)"

lemmas vitals_eq = vitals_def prod.inject

named_theorems vital \<open>operations that keep the core's vitals\<close>

lemma vitals_update [vital]:
  "vitals (s\<lparr>sh_disk := d\<rparr>) = vitals s" "vitals (s\<lparr>sh_ticks := i\<rparr>) = vitals s"
  "vitals (s\<lparr>sh_disk := d, core_confirmations := cs\<rparr>) = vitals s" "vitals (s\<lparr>core_account := a\<rparr>) = vitals s"
  by (simp_all add: vitals_def)

lemma vitals_surroundings: "surroundings t = surroundings s \<Longrightarrow> vitals t = vitals s"
  by (cases s; cases t) (simp add: surroundings_def vitals_def)

lemma then_st_vitals:
  assumes "\<And>x t. vitals (snd (k x t)) = vitals t"
  shows "vitals (snd (then_st m k)) = vitals (snd m)"
  using assms by (cases m; cases "fst m") (auto simp: then_st_def)

lemma snd_vitals:
  assumes "vitals (snd m) = vitals s" and "m = (x, t)"
  shows "vitals t = vitals s"
  using assms by simp

lemma err_st_vitals [vital]: "vitals (snd (err_st g m)) = vitals (snd m)"
  by (simp add: err_st_def)

lemma shared_vitals [vital]:
  "vitals (snd (with_store f s)) = vitals s" "vitals (snd (use_tick g s)) = vitals s" "vitals (publish_event t j s) = vitals s"
  by (simp_all add: with_store_def use_tick_def publish_event_def vitals_def split: prod.splits)

lemma generate_secret_vitals [vital]: "vitals (snd (generate_secret e s)) = vitals s"
  by (simp add: generate_secret_def vital)

lemma reads_vitals [vital]:
  "vitals (snd (ensure_active s)) = vitals s" "vitals (snd (the_identity s)) = vitals s"
  "vitals (snd (core_unix_time e s)) = vitals s" "vitals (snd (random_bytes e s)) = vitals s"
  "vitals (snd (core_load_nostr e s)) = vitals s" "vitals (snd (core_sign_nostr e k msg s)) = vitals s"
  "vitals (snd (hosted_call e method params s)) = vitals s" "vitals (snd (core_issue e now s)) = vitals s"
  "vitals (snd (core_redeem e token now s)) = vitals s"
  by (simp_all add: ensure_active_def the_identity_def core_unix_time_def random_bytes_def core_load_nostr_def
      core_sign_nostr_def hosted_call_def core_issue_def core_redeem_def vital split: prod.splits)

lemma chat_call_vitals [vital]: "vitals (snd (chat_call e r s)) = vitals s"
  using chat_handle_grows [of s "co_chat e" r]
  by (auto simp: chat_call_def vital grows_def intro: vitals_surroundings)

lemma status_value_vitals [vital]: "vitals (snd (status_value e s)) = vitals s"
  by (simp add: status_value_def Let_def then_st_vitals vital)

lemma publish_status_event_vitals [vital]: "vitals (publish_status_event e s) = vitals s"
  by (auto simp: publish_status_event_def vital split: prod.splits sum.splits dest: snd_vitals [OF status_value_vitals])

lemma nostr_vitals [vital]:
  "vitals (snd (require_nostr e s)) = vitals s" "vitals (snd (save_new_nostr e k s)) = vitals s"
  by (simp_all add: require_nostr_def save_new_nostr_def then_st_vitals vital)

lemma hosted_vitals [vital]:
  "vitals (snd (hosted_bind_nostr e s)) = vitals s" "vitals (snd (hosted_unbind_nostr e s)) = vitals s"
  "vitals (snd (hosted_claim_handle e handle s)) = vitals s"
  by (simp_all add: hosted_bind_nostr_def hosted_unbind_nostr_def hosted_claim_handle_def Let_def then_st_vitals vital
      split: prod.splits option.splits)

lemma dispatch_active_vitals [vital]: "vitals (snd (dispatch_active e c s)) = vitals s"
  by (cases c) (simp_all add: fingerprint_value_def identity_show_def identity_export_def identity_generate_def
      identity_import_def then_st_vitals vital)

lemma receive_hosted_event_vitals [vital]: "vitals (receive_hosted_event e state s) = vitals s"
  by (simp add: receive_hosted_event_def vital split: option.splits)

lemma on_notification_vitals [vital]: "vitals (on_notification e n s) = vitals s"
  using on_notification_grows [of e n s] by (auto simp: grows_def intro: vitals_surroundings)

section \<open>The end of the daemon\<close>

definition gone :: "core \<Rightarrow> bool" where
  "gone s \<longleftrightarrow> is_terminal (core_panic s) \<and> core_identity s = None \<and> core_account s = None \<and> core_hosted s = None
     \<and> \<not> core_chat_running s \<and> chat_pool s = None \<and> contacts s = [] \<and> messages s = []
     \<and> erased (key_state (sh_store s))"

lemma gone_disk [simp]: "gone (s\<lparr>sh_disk := d\<rparr>) = gone s"
  by (simp add: gone_def)

lemma terminal_not_active [simp]: "is_terminal p \<Longrightarrow> p \<noteq> Active" "\<not> is_terminal Active" "\<not> is_terminal Stopping"
  by (auto simp: is_terminal_def)

lemma gone_inactive: "gone s \<Longrightarrow> \<not> is_active s"
  by (auto simp: gone_def is_active_def is_terminal_def)

lemma panic_erase_store:
  assumes "panic_erase e st d = (r, st', d')"
  shows "erased (key_state st')" "state_directory st' = state_directory st" "provider st' = provider st"
  using assms
  by (auto simp: panic_erase_def KeyState_erase_def Let_def split: prod.splits if_splits)

lemma cleanup_effect:
  assumes "perform_panic_cleanup e s = (r, s')"
  shows "core_identity s' = None \<and> core_account s' = None \<and> core_hosted s' = None \<and> \<not> core_chat_running s'
    \<and> chat_pool s' = None \<and> contacts s' = [] \<and> messages s' = []
    \<and> erased (key_state (sh_store s')) \<and> core_config s' = core_config s
    \<and> state_directory (sh_store s') = state_directory (sh_store s) \<and> provider (sh_store s') = provider (sh_store s)"
  using assms
  by (auto simp: perform_panic_cleanup_def chat_shutdown_def Let_def split: prod.splits dest: panic_erase_store)

lemma cleanup_Inr:
  assumes "perform_panic_cleanup e s = (Inr v, s')" and "\<not> erased (key_state (sh_store s))"
    and "prefix (state_directory (sh_store s)) p"
  shows "map_of (tree (sh_disk s')) p = None"
  using assms
  by (auto simp: perform_panic_cleanup_def chat_shutdown_def panic_erase_def KeyState_erase_def Let_def split: prod.splits if_splits
      dest: erase_files_Inr)

lemma core_redeem_Inr:
  assumes "core_redeem e token now s = (Inr u, s')"
  shows "\<exists>t. conf_pending (core_confirmations s) (action_file_name PanicErase) = Some t \<and> tok_token t = token
    \<and> \<not> tok_expires_at t \<le> now"
  using assms
  by (auto simp: core_redeem_def redeem_def consume_pending_token_def split: prod.splits option.splits if_splits)

text \<open>The panic was confirmed: the presented token is the pending one and has not expired.\<close>

definition confirmed :: "core_env \<Rightarrow> string \<Rightarrow> core \<Rightarrow> bool" where
  "confirmed e token s \<longleftrightarrow>
     (\<exists>now t. ce_clock (co_chat e) (sh_ticks s) = Some now
        \<and> conf_pending (core_confirmations s) (action_file_name PanicErase) = Some t
        \<and> tok_token t = token \<and> \<not> tok_expires_at t \<le> now)"

text \<open>A panic either is refused and changes nothing of importance, or runs the cleanup to its end.\<close>

lemma core_panic_erase_cases:
  assumes "core_panic_erase e token s = (r, s')" and "core_panic s = Active"
  obtains (refused) "vitals s' = vitals s" "isl r"
  | (erased) s1 s2 where "confirmed e token s" "sh_store s1 = sh_store s" "core_config s1 = core_config s"
      "perform_panic_cleanup e s1 = (r, s2)" "s' = panic_finish (\<not> isl r) s2"
proof -
  obtain a s0 where t: "core_unix_time e s = (a, s0)" by fastforce
  then have v0: "vitals s0 = vitals s" using snd_vitals [OF reads_vitals(3) t] by simp
  show thesis
  proof (cases a)
    case (Inl err)
    with assms t v0 show ?thesis by (intro refused) (auto simp: core_panic_erase_def)
  next
    case (Inr now)
    with t have now: "ce_clock (co_chat e) (sh_ticks s) = Some now" "core_confirmations s0 = core_confirmations s"
      by (auto simp: core_unix_time_def use_tick_def ok_or_def split: option.splits)
    obtain b s1 where b: "core_redeem e token now s0 = (b, s1)" by fastforce
    have v1: "vitals s1 = vitals s" using snd_vitals [OF reads_vitals(9) b] v0 by simp
    show ?thesis
    proof (cases b)
      case Inl: (Inl err)
      with assms t Inr b v1 show ?thesis by (intro refused) (auto simp: core_panic_erase_def)
    next
      case ok: (Inr u)
      obtain s2 where s2: "perform_panic_cleanup e (s1\<lparr>core_panic := Erasing\<rparr>) = (r, s2)" "s' = panic_finish (\<not> isl r) s2"
        using assms t Inr b ok v1 by (auto simp: core_panic_erase_def panic_begin_def vitals_eq split: prod.splits)
      have "confirmed e token s"
        using core_redeem_Inr [OF b [unfolded ok]] now by (auto simp: confirmed_def)
      with s2 v1 show ?thesis
        by (intro erased [of "s1\<lparr>core_panic := Erasing\<rparr>" s2]) (simp_all add: vitals_eq)
    qed
  qed
qed

lemma panic_finish_gone:
  assumes "perform_panic_cleanup e s1 = (r, s2)"
  shows "gone (panic_finish b s2)"
  using cleanup_effect [OF assms] by (simp add: gone_def panic_finish_def is_terminal_def)

text \<open>Nothing happens to a core that is gone, but that a reload still reads its file.\<close>

lemma config_load_tree:
  assumes "DaemonConfig_load c jc urls weak e p d = (r, d')"
  shows "tree d' = tree d"
  using assms
  by (auto simp: DaemonConfig_load_def then_st_def err_st_def split: prod.splits sum.splits
      intro: reading_calls(2) [OF surjective_pairing])

lemma gone_reload:
  assumes "gone s"
  shows "\<exists>d. snd (reload e p s) = s\<lparr>sh_disk := d\<rparr> \<and> tree d = tree (sh_disk s)"
proof -
  obtain r d where d: "DaemonConfig_load (co_crates e) (ce_json (co_chat e)) (ce_urls (co_chat e)) (co_weak e)
      (sys (co_os e)) p (sh_disk s) = (r, d)" by fastforce
  then have "snd (reload e p s) = s\<lparr>sh_disk := d\<rparr>"
    using gone_inactive [of "s\<lparr>sh_disk := d\<rparr>"] assms
    by (cases r) (simp_all add: reload_def with_store_def err_st_def with_active_transition_def ensure_active_def)
  with config_load_tree [OF d] show ?thesis by blast
qed

lemma gone_turn:
  assumes "gone s"
  shows "\<exists>d. core_turn e i s = s\<lparr>sh_disk := d\<rparr> \<and> tree d = tree (sh_disk s)"
proof (cases i)
  case (Core_Reload p)
  with gone_reload [OF assms] show ?thesis by simp
qed (use assms gone_inactive [OF assms] in
    \<open>auto intro!: exI [of _ "sh_disk s"] simp: gone_def dispatch_def receive_hosted_event_def start_hosted_with_def
      with_active_transition_def ensure_active_def prepare_for_shutdown_def\<close>)

lemma gone_run:
  assumes "gone s"
  shows "\<exists>d. fold (core_turn e) inputs s = s\<lparr>sh_disk := d\<rparr> \<and> tree d = tree (sh_disk s)"
  using assms
proof (induction inputs arbitrary: s)
  case Nil
  then show ?case by (auto intro!: exI [of _ "sh_disk s"])
next
  case (Cons i inputs)
  obtain d where d: "core_turn e i s = s\<lparr>sh_disk := d\<rparr>" "tree d = tree (sh_disk s)"
    using gone_turn [OF Cons.prems] by blast
  with Cons.IH [of "s\<lparr>sh_disk := d\<rparr>"] Cons.prems show ?case by simp
qed

text \<open>
  C37. A panic erasure is final. An active daemon leaves service through the panic command only when
  the presented token is the one pending for the operator and has not expired. Afterwards, whatever
  commands, relay notifications, transport events, reloads, starts or shutdown follow, no state
  changes and no file is touched: the device identity, the hosted account, the transport and the
  chat service with its contacts and messages are gone, the master key is erased, the signer has nothing to sign with, and every
  command is answered by the same refusal. If the command reported success, nothing is left at or
  below the state directory.
\<close>

theorem panic_is_final:
  assumes "dispatch e (Panic token) s = (out, s')" and "core_panic s = Active" and "core_panic s' \<noteq> Active"
    and "\<not> erased (key_state (sh_store s))"
  shows "confirmed e token s
    \<and> (\<exists>d. fold (core_turn e2) inputs s' = s'\<lparr>sh_disk := d\<rparr> \<and> tree d = tree (sh_disk s'))
    \<and> gone (fold (core_turn e2) inputs s')
    \<and> sign_with_device_key e2 msg (fold (core_turn e2) inputs s') = None
    \<and> dispatch e2 c (fold (core_turn e2) inputs s') = (panic_unavailable, fold (core_turn e2) inputs s')
    \<and> (\<forall>v p. out = Outcome_Ok v \<longrightarrow> prefix (state_directory (sh_store s)) p
         \<longrightarrow> map_of (tree (sh_disk (fold (core_turn e2) inputs s'))) p = None)"
proof -
  obtain r where r: "core_panic_erase e token s = (r, s')" "out = core_outcome e r"
    using assms(1,2) by (auto simp: dispatch_def is_active_def split: prod.splits)
  from r(1) assms(2) show ?thesis
  proof (cases rule: core_panic_erase_cases)
    case refused
    with assms(2,3) show ?thesis by (simp add: vitals_eq)
  next
    case (erased s1 s2)
    have g: "gone s'" using panic_finish_gone [OF erased(4)] erased(5) by simp
    obtain d where d: "fold (core_turn e2) inputs s' = s'\<lparr>sh_disk := d\<rparr>" "tree d = tree (sh_disk s')"
      using gone_run [OF g] by blast
    have "map_of (tree (sh_disk s')) p = None" if "out = Outcome_Ok v" "prefix (state_directory (sh_store s)) p" for v p
      using that r(2) erased(2,4,5) assms(4) cleanup_Inr [of e s1 _ s2 p]
      by (cases r) (auto simp: core_outcome_def panic_finish_def)
    moreover have "\<exists>da. s'\<lparr>sh_disk := d\<rparr> = s'\<lparr>sh_disk := da\<rparr> \<and> tree da = tree (sh_disk s')"
      using d(2) by blast
    ultimately show ?thesis
      using d g erased(1) gone_inactive [of "s'\<lparr>sh_disk := d\<rparr>"]
      by (simp add: dispatch_def sign_with_device_key_def) (simp add: gone_def)
  qed
qed

section \<open>Well-formed cores\<close>

text \<open>
  The identity, the master key and the services live and die together; the configuration in force
  is valid; a transport exists only where one is configured.
\<close>

definition core_ok :: "core_env \<Rightarrow> core \<Rightarrow> bool" where
  "core_ok e s \<longleftrightarrow>
     DaemonConfig_validate (co_crates e) (ce_urls (co_chat e)) (co_weak e) (core_config s) = Inr ()
     \<and> (core_hosted s \<noteq> None \<longrightarrow> hosted_server (core_config s) \<noteq> None)
     \<and> (if is_terminal (core_panic s) then gone s
        else core_panic s \<noteq> Erasing \<and> core_identity s \<noteq> None \<and> \<not> erased (key_state (sh_store s)) \<and> core_chat_running s)"

text \<open>One installation: what no step may change, and what only a panic may destroy.\<close>

definition installed :: "core \<Rightarrow> core \<Rightarrow> bool" where
  "installed s t \<longleftrightarrow>
     hosted_server (core_config t) = hosted_server (core_config s)
     \<and> storage_provider (core_config t) = storage_provider (core_config s)
     \<and> state_directory (sh_store t) = state_directory (sh_store s) \<and> provider (sh_store t) = provider (sh_store s)
     \<and> (\<not> gone t \<longrightarrow> sh_store t = sh_store s \<and> core_identity t = core_identity s)"

lemma installed_refl: "installed s s"
  by (simp add: installed_def)

lemma gone_vitals: "vitals t = vitals s \<Longrightarrow> \<not> is_terminal (core_panic s) \<Longrightarrow> \<not> gone t"
  by (simp add: vitals_eq gone_def)

lemma vitals_ok:
  assumes "vitals t = vitals s" and "\<not> is_terminal (core_panic s)"
  shows "core_ok e t = core_ok e s" "installed s0 s \<Longrightarrow> installed s0 t"
  using assms gone_vitals [OF assms] gone_vitals [of s s] by (auto simp: core_ok_def installed_def vitals_eq)

text \<open>What one step can do to the vitals of a running core.\<close>

lemma command_effect:
  assumes "\<not> is_terminal (core_panic s)"
  shows "vitals (snd (dispatch e c s)) = vitals s
    \<or> gone (snd (dispatch e c s)) \<and> core_config (snd (dispatch e c s)) = core_config s
      \<and> state_directory (sh_store (snd (dispatch e c s))) = state_directory (sh_store s)
      \<and> provider (sh_store (snd (dispatch e c s))) = provider (sh_store s)"
proof (cases "is_active s \<and> (\<exists>token. c = Panic token)")
  case True
  then obtain token where a: "core_panic s = Active" "c = Panic token" by (auto simp: is_active_def)
  obtain r s' where r: "core_panic_erase e token s = (r, s')" by fastforce
  with a have d: "snd (dispatch e c s) = s'" by (simp add: dispatch_def is_active_def)
  from r a(1) show ?thesis
  proof (cases rule: core_panic_erase_cases)
    case (erased s1 s2)
    with panic_finish_gone [OF erased(4)] cleanup_effect [OF erased(4)] show ?thesis
      unfolding d by (simp add: panic_finish_def)
  qed (simp add: d)
next
  case False
  then have "vitals (snd (dispatch e c s)) = vitals s"
    by (cases c) (simp_all add: dispatch_def case_prod_beta dispatch_active_vitals del: dispatch_active.simps)
  then show ?thesis ..
qed

lemma reload_effect:
  assumes "reload e p s = (r, s')"
  shows "vitals s' = vitals s \<or> (\<exists>cfg. vitals s' = vitals (s\<lparr>core_config := cfg\<rparr>)
    \<and> hosted_server cfg = hosted_server (core_config s) \<and> storage_provider cfg = storage_provider (core_config s)
    \<and> DaemonConfig_validate (co_crates e) (ce_urls (co_chat e)) (co_weak e) cfg = Inr ())"
proof -
  obtain l d where l: "DaemonConfig_load (co_crates e) (ce_json (co_chat e)) (ce_urls (co_chat e)) (co_weak e)
      (sys (co_os e)) p (sh_disk s) = (l, d)" by fastforce
  show ?thesis
  proof (cases l)
    case (Inl err)
    with assms l show ?thesis by (auto simp: reload_def with_store_def err_st_def vitals_def)
  next
    case (Inr cfg)
    with l have "DaemonConfig_validate (co_crates e) (ce_urls (co_chat e)) (co_weak e) cfg = Inr ()"
      by (auto simp: DaemonConfig_load_def elim!: then_st_cases)
    with assms l Inr show ?thesis
      by (auto simp: reload_def with_store_def err_st_def with_active_transition_def ensure_active_def then_st_def
          vitals_def split: if_splits)
  qed
qed

lemma start_effect:
  assumes "start_hosted_with e timeouts s = (r, s')"
  shows "s' = s \<or> s' = s\<lparr>core_hosted := Some HS_Connecting\<rparr> \<and> hosted_server (core_config s) \<noteq> None"
  using assms
  by (auto simp: start_hosted_with_def with_active_transition_def ensure_active_def the_identity_def then_st_def Let_def
      split: if_splits option.splits sum.splits)

definition fits :: "core_env \<Rightarrow> core \<Rightarrow> core \<Rightarrow> bool" where
  "fits e s0 s \<longleftrightarrow> core_ok e s \<and> installed s0 s"

lemma fits_vitals: "vitals t = vitals s \<Longrightarrow> \<not> is_terminal (core_panic s) \<Longrightarrow> fits e s0 s \<Longrightarrow> fits e s0 t"
  unfolding fits_def using vitals_ok(1) [of t s e] vitals_ok(2) [of t s s0] by blast

lemma fits_gone:
  assumes "fits e s0 s" and "gone t" and "core_config t = core_config s"
    and "state_directory (sh_store t) = state_directory (sh_store s)" and "provider (sh_store t) = provider (sh_store s)"
  shows "fits e s0 t"
proof -
  have "is_terminal (core_panic t)" "core_hosted t = None" using assms(2) by (simp_all add: gone_def)
  moreover have "core_ok e s" "installed s0 s" using assms(1) by (simp_all add: fits_def)
  ultimately show ?thesis
    using assms(2-5) unfolding fits_def
    by (intro conjI) (simp add: core_ok_def, simp add: installed_def)
qed

lemma fits_updates:
  assumes "fits e s0 s" and "\<not> is_terminal (core_panic s)"
  shows "hosted_server (core_config s) \<noteq> None \<Longrightarrow> fits e s0 (s\<lparr>core_hosted := Some h\<rparr>)"
    and "fits e s0 (s\<lparr>core_panic := Stopping\<rparr>)"
    and "hosted_server cfg = hosted_server (core_config s) \<Longrightarrow> storage_provider cfg = storage_provider (core_config s) \<Longrightarrow>
      DaemonConfig_validate (co_crates e) (ce_urls (co_chat e)) (co_weak e) cfg = Inr () \<Longrightarrow> fits e s0 (s\<lparr>core_config := cfg\<rparr>)"
proof -
  have ok: "core_ok e s" and i: "installed s0 s" using assms(1) by (simp_all add: fits_def)
  show "fits e s0 (s\<lparr>core_hosted := Some h\<rparr>)" if "hosted_server (core_config s) \<noteq> None"
    unfolding fits_def using ok i assms(2) that
    by (intro conjI) (simp add: core_ok_def, simp add: installed_def gone_def)
  show "fits e s0 (s\<lparr>core_panic := Stopping\<rparr>)"
    unfolding fits_def using ok i assms(2)
    by (intro conjI) (simp add: core_ok_def, simp add: installed_def gone_def)
  show "fits e s0 (s\<lparr>core_config := cfg\<rparr>)"
    if "hosted_server cfg = hosted_server (core_config s)" "storage_provider cfg = storage_provider (core_config s)"
      "DaemonConfig_validate (co_crates e) (ce_urls (co_chat e)) (co_weak e) cfg = Inr ()"
    unfolding fits_def using ok i assms(2) that
    by (intro conjI) (simp add: core_ok_def, simp add: installed_def gone_def)
qed

lemma reload_fits:
  assumes "fits e s0 s" and "\<not> is_terminal (core_panic s)"
  shows "fits e s0 (snd (reload e p s))"
proof -
  obtain r s' where r: "reload e p s = (r, s')" by fastforce
  from reload_effect [OF r] have "fits e s0 s'"
  proof (elim disjE exE conjE)
    fix cfg
    assume "vitals s' = vitals (s\<lparr>core_config := cfg\<rparr>)" and cfg: "hosted_server cfg = hosted_server (core_config s)"
      "storage_provider cfg = storage_provider (core_config s)"
      "DaemonConfig_validate (co_crates e) (ce_urls (co_chat e)) (co_weak e) cfg = Inr ()"
    then show ?thesis
      using fits_vitals [of s' "s\<lparr>core_config := cfg\<rparr>"] fits_updates(3) [OF assms cfg] assms(2) by simp
  qed (use fits_vitals assms in blast)
  with r show ?thesis by simp
qed

lemma core_turn_fits:
  assumes "fits e s0 s"
  shows "fits e s0 (core_turn e i s)"
proof (cases "is_terminal (core_panic s)")
  case True
  then have g: "gone s" using assms by (simp add: fits_def core_ok_def)
  then obtain d where "core_turn e i s = s\<lparr>sh_disk := d\<rparr>" using gone_turn by blast
  with fits_gone [OF assms, of "s\<lparr>sh_disk := d\<rparr>"] g show ?thesis by simp
next
  case False
  note keep = fits_vitals [OF _ False assms] and update = fits_updates [OF assms False]
  show ?thesis
  proof (cases i)
    case (Core_Command c)
    from command_effect [OF False, of e c] have "fits e s0 (snd (dispatch e c s))"
      by (elim disjE conjE) (rule keep, assumption, rule fits_gone [OF assms])
    with Core_Command show ?thesis by simp
  next
    case (Core_StartHosted timeouts)
    have "fits e s0 (snd (start_hosted_with e timeouts s))"
      using start_effect [OF surjective_pairing, of e timeouts s] update(1) [of HS_Connecting] assms by auto
    with Core_StartHosted show ?thesis by simp
  next
    case (Core_TransportState state)
    have "core_hosted s \<noteq> None \<Longrightarrow> hosted_server (core_config s) \<noteq> None" using assms by (simp add: fits_def core_ok_def)
    with update(1) [of state] assms Core_TransportState show ?thesis by simp
  next
    case (Core_Notification n)
    with keep [OF on_notification_vitals] assms show ?thesis by simp
  next
    case (Core_TransportEvent state)
    with keep [OF receive_hosted_event_vitals] show ?thesis by simp
  next
    case (Core_Reload p)
    with reload_fits [OF assms False] show ?thesis by simp
  next
    case Core_Shutdown
    with update(2) assms show ?thesis by (simp add: prepare_for_shutdown_def)
  qed
qed

interpretation daemon: step_invariant "fits e s" "core_turn e" for e s
  using core_turn_fits by unfold_locales

lemma open_not_erased: "SealedStore_open e dir req d = (Inr st, d') \<Longrightarrow> \<not> erased (key_state st)"
  by (auto simp: SealedStore_open_def Let_def elim!: then_st_cases)

lemma core_open_ok:
  assumes "core_open e directory config hub d = (Inr s, d')"
  shows "core_ok e s" "core_config s = config" "core_panic s = Active"
proof -
  from assms obtain st identity d1 d2 where
    o: "DaemonConfig_validate (co_crates e) (ce_urls (co_chat e)) (co_weak e) config = Inr ()"
      "SealedStore_open (co_os e) directory (RequestedProvider_from (storage_provider config)) d = (Inr st, d1)"
      "s = chat_start (co_chat e) (dm_relays config) (core_init directory config hub st identity d2)"
    by (auto simp: core_open_def Let_def elim!: then_st_cases err_st_cases)
  have "vitals s = vitals (core_init directory config hub st identity d2)"
    unfolding o(3) by (rule vitals_surroundings) (rule chat_start_surroundings)
  then have v: "sh_store s = st" "core_identity s = Some identity" "core_panic s = Active" "core_hosted s = None"
    "core_config s = config" "core_chat_running s"
    by (simp_all add: vitals_eq core_init_def)
  with o(1) open_not_erased [OF o(2)] show "core_ok e s" by (simp add: core_ok_def)
  from v show "core_config s = config" "core_panic s = Active" by simp_all
qed

text \<open>
  C38. Every state the daemon reaches is well formed. From a successful start, after any commands,
  notifications, transport events, reloads and shutdown: the configuration in force is valid and
  names the hosted server and the storage provider the daemon was started with; a transport exists
  only if a server is configured; and either the daemon has been erased, with every secret and
  service gone, or the device identity and the opened store are exactly those of the start, the key
  is intact and the chat service runs.
\<close>

theorem core_well_formed:
  assumes "core_open e directory config hub d = (Inr s, d')"
  shows "core_ok e (fold (core_turn e) inputs s)
    \<and> installed s (fold (core_turn e) inputs s)
    \<and> hosted_server (core_config (fold (core_turn e) inputs s)) = hosted_server config
    \<and> storage_provider (core_config (fold (core_turn e) inputs s)) = storage_provider config
    \<and> (gone (fold (core_turn e) inputs s)
       \<or> core_panic (fold (core_turn e) inputs s) \<in> {Active, Stopping}
         \<and> core_identity (fold (core_turn e) inputs s) = core_identity s \<and> core_identity s \<noteq> None)"
proof -
  let ?t = "fold (core_turn e) inputs s"
  have ok: "core_ok e ?t" and i: "installed s ?t"
    using daemon.run_inv [of e s s] core_open_ok(1) [OF assms] installed_refl by (auto simp: fits_def)
  have "hosted_server (core_config ?t) = hosted_server config" "storage_provider (core_config ?t) = storage_provider config"
    using i core_open_ok(2) [OF assms] by (simp_all add: installed_def)
  moreover have "gone ?t \<or> core_panic ?t \<in> {Active, Stopping} \<and> core_identity ?t = core_identity s \<and> core_identity s \<noteq> None"
    using ok i core_open_ok(1,3) [OF assms]
    by (cases "core_panic ?t") (auto simp: core_ok_def installed_def is_terminal_def)
  ultimately show ?thesis using ok i by blast
qed

section \<open>A concrete core\<close>

definition demo_core_env :: core_env where
  "demo_core_env = \<lparr>co_chat = demo_chat_env, co_weak = (\<lambda>_. False), co_service = (\<lambda>_ _ _. Inl HE_Stopped),
     co_wrapped = (\<lambda>_. [])\<rparr>"

definition demo_config :: daemon_config where
  "demo_config = DaemonConfig_default\<lparr>storage_provider := Provider_File\<rparr>"

text \<open>An active core with a pending panic token that the clock, which shows 5, has not outlived.\<close>

definition demo_core :: core where
  "demo_core = (core_init [''s''] demo_config \<lparr>subscribers = [], channels = []\<rparr> demo_store \<lparr>signing_seed = replicate 32 3\<rparr>
     (restart demo_tree))\<lparr>core_confirmations := \<lparr>conf_directory = [''s'', ''confirmations''],
       conf_pending = [''panic.token'' \<mapsto> \<lparr>tok_action = PanicErase, tok_token = ''t'', tok_expires_at = 9\<rparr>]\<rparr>\<rparr>"

theorem panic_is_final_witness:
  "\<exists>out s'. dispatch demo_core_env (Panic ''t'') demo_core = (out, s') \<and> core_identity demo_core \<noteq> None \<and> gone s'
     \<and> fst (dispatch demo_core_env Status (fold (core_turn demo_core_env) [Core_Command RequestPanicConfirmation] s'))
       = panic_unavailable"
proof -
  obtain out s' where d: "dispatch demo_core_env (Panic ''t'') demo_core = (out, s')" by fastforce
  have a: "core_panic demo_core = Active" "\<not> erased (key_state (sh_store demo_core))"
    by (simp_all add: demo_core_def core_init_def demo_store_def)
  have "core_panic s' \<noteq> Active"
    using d by (auto simp: dispatch_def is_active_def core_panic_erase_def core_unix_time_def use_tick_def core_redeem_def
        redeem_def consume_pending_token_def demo_core_env_def demo_chat_env_def demo_core_def core_init_def
        action_file_name_def panic_begin_def panic_finish_def split: prod.splits if_splits)
  note final = panic_is_final [OF d a(1) this a(2)]
  have "gone s'" using final [of demo_core_env "[]" "[]" Status] by simp
  moreover have "fst (dispatch demo_core_env Status (fold (core_turn demo_core_env) [Core_Command RequestPanicConfirmation] s'))
      = panic_unavailable"
    using final [of demo_core_env "[Core_Command RequestPanicConfirmation]" "[]" Status]
    by (simp del: fold.simps)
  moreover have "core_identity demo_core \<noteq> None" by (simp add: demo_core_def core_init_def)
  ultimately show ?thesis using d by blast
qed

text \<open>Starting on a directory whose store holds the device identity.\<close>

lemma demo_identity_store: "file_store [''s''] (replicate 32 7) (demo_tree_with IDENTITY_RECORD bs)"
proof -
  let ?t = "demo_tree_with IDENTITY_RECORD bs"
  have same: "map_of ?t q = map_of demo_tree q" if "q \<noteq> [''s'', ''records'', IDENTITY_RECORD]" for q
    using that by (simp add: demo_tree_with_def map_add_def split: option.split)
  have "\<not> interrupted_write IDENTITY_RECORD" by (simp add: interrupted_write_def IDENTITY_RECORD_def)
  then have "map_of ?t [''s'', ''records'', name] = map_of demo_tree [''s'', ''records'', name]" if "interrupted_write name" for name
    using that by (intro same) auto
  moreover have "is_dir ?t q = is_dir demo_tree q" if "prefix q [''s'', ''records'']" for q
    using that prefix_length_le [OF that] unfolding is_dir_def by (subst same) auto
  moreover have "map_of ?t [''s'', x] = map_of demo_tree [''s'', x]" for x by (rule same) simp
  ultimately show ?thesis
    using demo_file_store unfolding file_store_def RECORD_DIRECTORY_def KEY_BYTES_def by simp
qed

lemma demo_identity_read:
  assumes "map_of (tree d) [''s'', ''records'', IDENTITY_RECORD] = Some (Regular (demo_envelope k) 384)" and "length k = 32"
  shows "fst (IdentityVault_load_or_create reference_crates demo_codec demo_store_env demo_store d) = Inr \<lparr>signing_seed = k\<rparr>"
proof -
  have "xchacha_encrypt reference_crates (replicate 32 7) (replicate 24 0) (record_aad IDENTITY_RECORD) k
      = Some (k @ take 16 (replicate 32 7 @ replicate 16 0))"
    by (simp add: reference_crates_def)
  from record_envelope_roundtrip [OF reference_aead_laws _ _ this] assms
  have "fst (store_read reference_crates demo_store_env demo_store IDENTITY_RECORD d) = Inr k"
    by (simp add: store_read_calm demo_calm valid_records KeyState_key_def t_read_def demo_store_def
        demo_envelope_def NONCE_BYTES_def MAX_RECORD_BYTES_def)
  then show ?thesis
    by (auto simp: IdentityVault_load_or_create_def demo_codec_def ok_or_def split: prod.splits sum.splits)
qed

lemma demo_core_opens:
  "\<exists>s d'. core_open demo_core_env [''s''] demo_config \<lparr>subscribers = [], channels = []\<rparr>
     (restart (demo_tree_with IDENTITY_RECORD (demo_envelope (replicate 32 3)))) = (Inr s, d')"
proof -
  let ?d = "restart (demo_tree_with IDENTITY_RECORD (demo_envelope (replicate 32 3)))"
  have "\<not> interrupted_write IDENTITY_RECORD" by (simp add: interrupted_write_def IDENTITY_RECORD_def)
  with reopen [OF demo_calm(1), of "[''s'']" "replicate 32 7" ?d RequestFile] demo_identity_store
  obtain d1 where o: "SealedStore_open demo_store_env [''s''] RequestFile ?d = (Inr demo_store, d1)"
    and r: "map_of (tree d1) [''s'', ''records'', IDENTITY_RECORD] = map_of (tree ?d) [''s'', ''records'', IDENTITY_RECORD]"
    by (auto simp: demo_store_def request_matches_def RECORD_DIRECTORY_def)
  have "map_of (tree d1) [''s'', ''records'', IDENTITY_RECORD] = Some (Regular (demo_envelope (replicate 32 3)) 384)"
    unfolding r by (simp add: demo_tree_with_def demo_tree_def)
  from demo_identity_read [OF this] obtain d2 where
    "IdentityVault_load_or_create reference_crates demo_codec demo_store_env demo_store d1 = (Inr \<lparr>signing_seed = replicate 32 3\<rparr>, d2)"
    by (metis length_replicate prod.collapse)
  moreover have "DaemonConfig_validate c u w demo_config = Inr ()" for c u w
    by (simp add: DaemonConfig_validate_def demo_config_def DaemonConfig_default_def)
  moreover have "storage_provider demo_config = Provider_File" by (simp add: demo_config_def)
  ultimately show ?thesis
    using o by (simp add: core_open_def demo_core_env_def demo_chat_env_def Let_def err_st_def)
qed

theorem core_well_formed_witness:
  "\<exists>s d'. core_open demo_core_env [''s''] demo_config \<lparr>subscribers = [], channels = []\<rparr>
     (restart (demo_tree_with IDENTITY_RECORD (demo_envelope (replicate 32 3)))) = (Inr s, d')
   \<and> core_ok demo_core_env (fold (core_turn demo_core_env) [Core_Shutdown, Core_Command Status] s)
   \<and> storage_provider (core_config (fold (core_turn demo_core_env) [Core_Shutdown, Core_Command Status] s)) = Provider_File"
proof -
  obtain s d' where o: "core_open demo_core_env [''s''] demo_config \<lparr>subscribers = [], channels = []\<rparr>
     (restart (demo_tree_with IDENTITY_RECORD (demo_envelope (replicate 32 3)))) = (Inr s, d')"
    using demo_core_opens by blast
  have "storage_provider demo_config = Provider_File" by (simp add: demo_config_def)
  with core_well_formed [OF o, of "[Core_Shutdown, Core_Command Status]"] o show ?thesis by metis
qed

end
