(* ===== verification/Core_Threads.thy ===== *)
theory Core_Threads
  imports Daemon_Core
begin

text \<open>
  The concurrency of the daemon's core (\<open>omachatd/src/core.rs\<close>). \<open>Daemon_Core\<close> runs each operation
  whole; here the operations are the sequences of atomic steps of the tasks that run them, in any
  interleaving: client commands and transport events under the read side of \<open>operations\<close>, panic
  commands, the cleanup worker, the start of the transport and reloads under the \<open>transition\<close>
  mutex, the shutdown of the process, the chat actor and the transport. A command may be dropped
  at every wait, and the worker may die at every step. What an operation does to the data is
  reduced to an entry of a log. Shown: once the state is erased nothing else acts again, the
  process does not stop while an erasure is running, and an erasure that has begun can always be
  completed.
\<close>

section \<open>State\<close>

datatype client_pc = C_Start | C_Wait | C_Locked | C_Work | C_Done
datatype panic_pc = P_Start | P_Redeem | P_Transition | P_Swap | P_Await | P_Done
datatype worker_pc =
    W_None | W_Chat | W_Take | W_Quiesce | W_Lock | W_Identity | W_Account | W_Erase | W_Report bool | W_Done
datatype section_pc = S_Start | S_Check | S_Set | S_Done
datatype stop_pc = T_Start | T_Read | T_Store | T_Wait | T_Done
datatype chat_pc = Chat_Idle | Chat_Busy | Chat_Ended

datatype holder = By_Panic nat | By_Start | By_Reload | By_Stop

datatype act = Act_Work nat | Act_Chat | Act_Sign | Act_Reload | Act_Erase bool

text \<open>The readers of \<open>operations\<close> are the clients between acquiring and leaving; the writer is the worker.\<close>

record tasks =
  tk_panic :: panic_state
  tk_transition :: "holder option"
  tk_writer :: bool
  tk_clients :: "nat \<Rightarrow> client_pc"
  tk_panics :: "nat \<Rightarrow> panic_pc"
  tk_worker :: worker_pc
  tk_starter :: section_pc
  tk_reloader :: section_pc
  tk_stopper :: stop_pc
  tk_chat :: chat_pc
  tk_token :: bool
  tk_handle :: bool
  tk_transport :: bool
  tk_identity :: bool
  tk_account :: bool
  tk_erased :: bool
  tk_log :: "act list"

definition tasks_init :: tasks where
  "tasks_init =
     \<lparr>tk_panic = Active, tk_transition = None, tk_writer = False, tk_clients = (\<lambda>_. C_Done), tk_panics = (\<lambda>_. P_Done),
      tk_worker = W_None, tk_starter = S_Start, tk_reloader = S_Start, tk_stopper = T_Start, tk_chat = Chat_Idle,
      tk_token = False, tk_handle = False, tk_transport = False, tk_identity = True, tk_account = False,
      tk_erased = False, tk_log = []\<rparr>"

definition readers :: "tasks \<Rightarrow> nat set" where
  "readers s = {i. tk_clients s i = C_Locked \<or> tk_clients s i = C_Work}"

abbreviation client :: "nat \<Rightarrow> client_pc \<Rightarrow> tasks \<Rightarrow> tasks" where
  "client i pc s \<equiv> s\<lparr>tk_clients := (tk_clients s)(i := pc)\<rparr>"

abbreviation panicker :: "nat \<Rightarrow> panic_pc \<Rightarrow> tasks \<Rightarrow> tasks" where
  "panicker i pc s \<equiv> s\<lparr>tk_panics := (tk_panics s)(i := pc)\<rparr>"

abbreviation logged :: "act \<Rightarrow> tasks \<Rightarrow> tasks" where
  "logged a s \<equiv> s\<lparr>tk_log := tk_log s @ [a]\<rparr>"

section \<open>Steps\<close>

text \<open>
  A command that is not a panic checks the state, takes the read lock, checks again and works. An
  event of the transport starts with the lock. Work may issue the panic token or set the account.
\<close>

inductive client_step :: "tasks \<Rightarrow> tasks \<Rightarrow> bool" where
  client_command: "tk_clients s i = C_Done \<Longrightarrow> client_step s (client i C_Start s)"
| client_event: "tk_clients s i = C_Done \<Longrightarrow> client_step s (client i C_Wait s)"
| client_check: "tk_clients s i = C_Start \<Longrightarrow>
    client_step s (client i (if tk_panic s = Active then C_Wait else C_Done) s)"
| client_lock: "tk_clients s i = C_Wait \<Longrightarrow> \<not> tk_writer s \<Longrightarrow> client_step s (client i C_Locked s)"
| client_recheck: "tk_clients s i = C_Locked \<Longrightarrow>
    client_step s (client i (if tk_panic s = Active then C_Work else C_Done) s)"
| client_work: "tk_clients s i = C_Work \<Longrightarrow> client_step s (logged (Act_Work i) s)"
| client_token: "tk_clients s i = C_Work \<Longrightarrow> client_step s (logged (Act_Work i) (s\<lparr>tk_token := True\<rparr>))"
| client_account: "tk_clients s i = C_Work \<Longrightarrow> client_step s (logged (Act_Work i) (s\<lparr>tk_account := True\<rparr>))"
| client_leave: "tk_clients s i = C_Work \<Longrightarrow> client_step s (client i C_Done s)"
| client_dropped: "tk_clients s i \<noteq> C_Done \<Longrightarrow> client_step s (client i C_Done s)"

text \<open>The panic command: check, redeem, then the exchange of the state under the mutex, which spawns the worker.\<close>

inductive panic_step :: "tasks \<Rightarrow> tasks \<Rightarrow> bool" where
  panic_command: "tk_panics s i = P_Done \<Longrightarrow> panic_step s (panicker i P_Start s)"
| panic_check: "tk_panics s i = P_Start \<Longrightarrow>
    panic_step s (panicker i (if tk_panic s = Active then P_Redeem else P_Done) s)"
| panic_redeem: "tk_panics s i = P_Redeem \<Longrightarrow> tk_token s \<Longrightarrow> panic_step s (panicker i P_Transition (s\<lparr>tk_token := False\<rparr>))"
| panic_refused: "tk_panics s i = P_Redeem \<Longrightarrow> panic_step s (panicker i P_Done (s\<lparr>tk_token := False\<rparr>))"
| panic_lock: "tk_panics s i = P_Transition \<Longrightarrow> tk_transition s = None \<Longrightarrow>
    panic_step s (panicker i P_Swap (s\<lparr>tk_transition := Some (By_Panic i)\<rparr>))"
| panic_won: "tk_panics s i = P_Swap \<Longrightarrow> tk_panic s = Active \<Longrightarrow>
    panic_step s (panicker i P_Await (s\<lparr>tk_panic := Erasing, tk_worker := W_Chat, tk_transition := None\<rparr>))"
| panic_lost: "tk_panics s i = P_Swap \<Longrightarrow> tk_panic s \<noteq> Active \<Longrightarrow>
    panic_step s (panicker i P_Done (s\<lparr>tk_transition := None\<rparr>))"
| panic_answered: "tk_panics s i = P_Await \<Longrightarrow> panic_step s (panicker i P_Done s)"

text \<open>
  The cleanup worker. The chat actor takes the shutdown between two turns. Leaving the function
  releases the write lock; the supervisor records the outcome afterwards.
\<close>

inductive worker_step :: "tasks \<Rightarrow> tasks \<Rightarrow> bool" where
  worker_chat: "tk_worker s = W_Chat \<Longrightarrow> tk_chat s \<noteq> Chat_Busy \<Longrightarrow>
    worker_step s (s\<lparr>tk_chat := Chat_Ended, tk_worker := W_Take\<rparr>)"
| worker_take: "tk_worker s = W_Take \<Longrightarrow>
    worker_step s (s\<lparr>tk_handle := False, tk_worker := (if tk_handle s then W_Quiesce else W_Lock)\<rparr>)"
| worker_quiesce: "tk_worker s = W_Quiesce \<Longrightarrow> worker_step s (s\<lparr>tk_transport := False, tk_worker := W_Lock\<rparr>)"
| worker_lock: "tk_worker s = W_Lock \<Longrightarrow> readers s = {} \<Longrightarrow>
    worker_step s (s\<lparr>tk_writer := True, tk_worker := W_Identity\<rparr>)"
| worker_identity: "tk_worker s = W_Identity \<Longrightarrow> worker_step s (s\<lparr>tk_identity := False, tk_worker := W_Account\<rparr>)"
| worker_account: "tk_worker s = W_Account \<Longrightarrow> worker_step s (s\<lparr>tk_account := False, tk_worker := W_Erase\<rparr>)"
| worker_erase: "tk_worker s = W_Erase \<Longrightarrow>
    worker_step s (logged (Act_Erase ok) (s\<lparr>tk_erased := True, tk_writer := False, tk_worker := W_Report ok\<rparr>))"
| worker_report: "tk_worker s = W_Report ok \<Longrightarrow>
    worker_step s (s\<lparr>tk_panic := (if ok then CleanupComplete else CleanupFailed), tk_worker := W_Done\<rparr>)"

text \<open>A worker that dies drops what it holds, and the supervisor reports a failure.\<close>

inductive worker_dies :: "tasks \<Rightarrow> tasks \<Rightarrow> bool" where
  worker_death: "tk_worker s \<in> {W_Chat, W_Take, W_Quiesce, W_Lock, W_Identity, W_Account, W_Erase} \<Longrightarrow>
    worker_dies s (s\<lparr>tk_writer := False, tk_worker := W_Report False\<rparr>)"

text \<open>Starting the transport: lock the mutex, check, spawn and publish the handle, unlock.\<close>

inductive starter_step :: "tasks \<Rightarrow> tasks \<Rightarrow> bool" where
  start_lock: "tk_starter s = S_Start \<Longrightarrow> tk_transition s = None \<Longrightarrow>
    starter_step s (s\<lparr>tk_transition := Some By_Start, tk_starter := S_Check\<rparr>)"
| start_check: "tk_starter s = S_Check \<Longrightarrow> tk_panic s = Active \<Longrightarrow> starter_step s (s\<lparr>tk_starter := S_Set\<rparr>)"
| start_refused: "tk_starter s = S_Check \<Longrightarrow> starter_step s (s\<lparr>tk_transition := None, tk_starter := S_Done\<rparr>)"
| start_set: "tk_starter s = S_Set \<Longrightarrow>
    starter_step s (s\<lparr>tk_handle := True, tk_transport := True, tk_transition := None, tk_starter := S_Done\<rparr>)"

inductive reloader_step :: "tasks \<Rightarrow> tasks \<Rightarrow> bool" where
  reload_lock: "tk_reloader s = S_Start \<Longrightarrow> tk_transition s = None \<Longrightarrow>
    reloader_step s (s\<lparr>tk_transition := Some By_Reload, tk_reloader := S_Check\<rparr>)"
| reload_check: "tk_reloader s = S_Check \<Longrightarrow> tk_panic s = Active \<Longrightarrow> reloader_step s (s\<lparr>tk_reloader := S_Set\<rparr>)"
| reload_refused: "tk_reloader s = S_Check \<Longrightarrow> reloader_step s (s\<lparr>tk_transition := None, tk_reloader := S_Start\<rparr>)"
| reload_set: "tk_reloader s = S_Set \<Longrightarrow>
    reloader_step s (logged Act_Reload (s\<lparr>tk_transition := None, tk_reloader := S_Start\<rparr>))"

text \<open>The process stops: read and replace the state under the mutex, or wait for the erasure to end.\<close>

inductive stopper_step :: "tasks \<Rightarrow> tasks \<Rightarrow> bool" where
  stop_lock: "tk_stopper s = T_Start \<Longrightarrow> tk_transition s = None \<Longrightarrow>
    stopper_step s (s\<lparr>tk_transition := Some By_Stop, tk_stopper := T_Read\<rparr>)"
| stop_active: "tk_stopper s = T_Read \<Longrightarrow> tk_panic s = Active \<Longrightarrow> stopper_step s (s\<lparr>tk_stopper := T_Store\<rparr>)"
| stop_erasing: "tk_stopper s = T_Read \<Longrightarrow> tk_panic s = Erasing \<Longrightarrow>
    stopper_step s (s\<lparr>tk_transition := None, tk_stopper := T_Wait\<rparr>)"
| stop_other: "tk_stopper s = T_Read \<Longrightarrow> tk_panic s \<noteq> Active \<Longrightarrow> tk_panic s \<noteq> Erasing \<Longrightarrow>
    stopper_step s (s\<lparr>tk_transition := None, tk_stopper := T_Done\<rparr>)"
| stop_store: "tk_stopper s = T_Store \<Longrightarrow>
    stopper_step s (s\<lparr>tk_panic := Stopping, tk_transition := None, tk_stopper := T_Done\<rparr>)"
| stop_waited: "tk_stopper s = T_Wait \<Longrightarrow> is_terminal (tk_panic s) \<Longrightarrow> stopper_step s (s\<lparr>tk_stopper := T_Done\<rparr>)"

text \<open>The chat actor works in turns of its own; a transport signs with the device key as long as it runs.\<close>

inductive service_step :: "tasks \<Rightarrow> tasks \<Rightarrow> bool" where
  chat_begins: "tk_chat s = Chat_Idle \<Longrightarrow> service_step s (s\<lparr>tk_chat := Chat_Busy\<rparr>)"
| chat_works: "tk_chat s = Chat_Busy \<Longrightarrow> service_step s (logged Act_Chat s)"
| chat_rests: "tk_chat s = Chat_Busy \<Longrightarrow> service_step s (s\<lparr>tk_chat := Chat_Idle\<rparr>)"
| transport_signs: "tk_transport s \<Longrightarrow> tk_identity s \<Longrightarrow> service_step s (logged Act_Sign s)"
| transport_ends: "tk_transport s \<Longrightarrow> service_step s (s\<lparr>tk_transport := False\<rparr>)"

definition task_step :: "tasks \<Rightarrow> tasks \<Rightarrow> bool" where
  "task_step s t \<longleftrightarrow> client_step s t \<or> panic_step s t \<or> worker_step s t \<or> starter_step s t \<or> reloader_step s t
     \<or> stopper_step s t \<or> service_step s t"

definition any_step :: "tasks \<Rightarrow> tasks \<Rightarrow> bool" where
  "any_step s t \<longleftrightarrow> task_step s t \<or> worker_dies s t"

inductive reached :: "tasks \<Rightarrow> bool" where
  reached_init: "reached tasks_init"
| reached_step: "reached s \<Longrightarrow> any_step s t \<Longrightarrow> reached t"

lemmas step_cases = disjE client_step.cases panic_step.cases worker_step.cases worker_dies.cases starter_step.cases
  reloader_step.cases stopper_step.cases service_step.cases

section \<open>Invariants\<close>

text \<open>Who holds the mutex, and that the sections that found the daemon active still do.\<close>

definition mutex_ok :: "tasks \<Rightarrow> bool" where
  "mutex_ok s \<longleftrightarrow>
     (\<forall>i. tk_panics s i = P_Swap \<longrightarrow> tk_transition s = Some (By_Panic i))
     \<and> (tk_starter s = S_Check \<longrightarrow> tk_transition s = Some By_Start)
     \<and> (tk_starter s = S_Set \<longrightarrow> tk_transition s = Some By_Start \<and> tk_panic s = Active)
     \<and> (tk_reloader s = S_Check \<longrightarrow> tk_transition s = Some By_Reload)
     \<and> (tk_reloader s = S_Set \<longrightarrow> tk_transition s = Some By_Reload \<and> tk_panic s = Active)
     \<and> (tk_stopper s = T_Read \<longrightarrow> tk_transition s = Some By_Stop)
     \<and> (tk_stopper s = T_Store \<longrightarrow> tk_transition s = Some By_Stop \<and> tk_panic s = Active)"

text \<open>The state follows the worker.\<close>

definition phase_ok :: "tasks \<Rightarrow> bool" where
  "phase_ok s \<longleftrightarrow>
     (tk_worker s = W_None \<longleftrightarrow> tk_panic s = Active \<or> tk_panic s = Stopping)
     \<and> (tk_worker s = W_Done \<longleftrightarrow> is_terminal (tk_panic s))
     \<and> (tk_stopper s = T_Done \<longrightarrow> tk_panic s \<noteq> Active \<and> tk_panic s \<noteq> Erasing)"

text \<open>What the worker has stopped: the chat actor, the handle, the transport.\<close>

definition services_ok :: "tasks \<Rightarrow> bool" where
  "services_ok s \<longleftrightarrow>
     (tk_worker s \<in> {W_Take, W_Quiesce, W_Lock, W_Identity, W_Account, W_Erase} \<or> tk_erased s \<longrightarrow> tk_chat s = Chat_Ended)
     \<and> (tk_worker s \<in> {W_Quiesce, W_Lock, W_Identity, W_Account, W_Erase} \<or> tk_erased s \<longrightarrow> \<not> tk_handle s)
     \<and> (tk_worker s \<in> {W_None, W_Chat, W_Take} \<longrightarrow> tk_transport s \<longrightarrow> tk_handle s)
     \<and> (tk_worker s \<in> {W_Lock, W_Identity, W_Account, W_Erase} \<or> tk_erased s \<longrightarrow> \<not> tk_transport s)"

text \<open>The write lock excludes readers, and after the erasure no reader gets past its second check.\<close>

definition lock_ok :: "tasks \<Rightarrow> bool" where
  "lock_ok s \<longleftrightarrow>
     (tk_writer s \<longleftrightarrow> tk_worker s \<in> {W_Identity, W_Account, W_Erase})
     \<and> (tk_writer s \<longrightarrow> (\<forall>i. tk_clients s i \<noteq> C_Locked \<and> tk_clients s i \<noteq> C_Work))
     \<and> (tk_erased s \<longrightarrow> (\<forall>i. tk_clients s i \<noteq> C_Work))"

text \<open>What is gone, and how far the worker is when it is.\<close>

definition data_ok :: "tasks \<Rightarrow> bool" where
  "data_ok s \<longleftrightarrow>
     (tk_worker s \<in> {W_Account, W_Erase} \<or> tk_erased s \<longrightarrow> \<not> tk_identity s)
     \<and> (tk_worker s = W_Erase \<or> tk_erased s \<longrightarrow> \<not> tk_account s)
     \<and> (tk_erased s \<longrightarrow> tk_worker s \<in> {W_Report True, W_Report False, W_Done})
     \<and> (\<not> tk_erased s \<longrightarrow> tk_worker s \<noteq> W_Report True \<and> tk_panic s \<noteq> CleanupComplete)"

fun is_erase :: "act \<Rightarrow> bool" where
  "is_erase (Act_Erase _) \<longleftrightarrow> True"
| "is_erase _ \<longleftrightarrow> False"

text \<open>An erasure is in the log exactly when the state is erased, and is its last entry.\<close>

definition log_ok :: "tasks \<Rightarrow> bool" where
  "log_ok s \<longleftrightarrow>
     (if tk_erased s
      then tk_log s \<noteq> [] \<and> is_erase (last (tk_log s)) \<and> \<not> list_ex is_erase (butlast (tk_log s))
        \<and> (tk_worker s = W_Report True \<or> tk_panic s = CleanupComplete \<longrightarrow> last (tk_log s) = Act_Erase True)
      else \<not> list_ex is_erase (tk_log s))"

definition tasks_ok :: "tasks \<Rightarrow> bool" where
  "tasks_ok s \<longleftrightarrow> mutex_ok s \<and> phase_ok s \<and> services_ok s \<and> lock_ok s \<and> data_ok s \<and> log_ok s"

lemmas ok_defs = mutex_ok_def phase_ok_def services_ok_def lock_ok_def data_ok_def

lemma mutex_kept: "any_step s t \<Longrightarrow> mutex_ok s \<Longrightarrow> phase_ok s \<Longrightarrow> mutex_ok t"
  unfolding any_step_def task_step_def
  by (elim step_cases) (simp_all add: mutex_ok_def phase_ok_def,
      (metis holder.distinct holder.inject option.inject option.distinct(1) worker_pc.distinct)+)

lemma phase_kept: "any_step s t \<Longrightarrow> mutex_ok s \<Longrightarrow> phase_ok s \<Longrightarrow> phase_ok t"
  unfolding any_step_def task_step_def
  by (elim step_cases) (simp_all add: mutex_ok_def phase_ok_def is_terminal_def, (intro conjI allI impI notI; force)+)

lemma services_kept: "any_step s t \<Longrightarrow> mutex_ok s \<Longrightarrow> phase_ok s \<Longrightarrow> services_ok s \<Longrightarrow> data_ok s \<Longrightarrow> services_ok t"
  unfolding any_step_def task_step_def
  by (elim step_cases) (simp_all add: ok_defs, blast)

lemma lock_kept: "any_step s t \<Longrightarrow> phase_ok s \<Longrightarrow> lock_ok s \<Longrightarrow> data_ok s \<Longrightarrow> lock_ok t"
  unfolding any_step_def task_step_def
  by (elim step_cases) (simp_all add: ok_defs readers_def, metis worker_pc.distinct)

lemma data_kept: "any_step s t \<Longrightarrow> phase_ok s \<Longrightarrow> lock_ok s \<Longrightarrow> data_ok s \<Longrightarrow> data_ok t"
  unfolding any_step_def task_step_def
  by (elim step_cases) (simp_all add: ok_defs, metis)

text \<open>Once the state is erased, every task that could still act is past acting.\<close>

definition quiet :: "tasks \<Rightarrow> bool" where
  "quiet s \<longleftrightarrow>
     (\<forall>i. tk_clients s i \<noteq> C_Work) \<and> tk_chat s = Chat_Ended \<and> \<not> tk_transport s \<and> tk_reloader s \<noteq> S_Set
     \<and> tk_worker s \<noteq> W_Erase"

lemma erased_quiet:
  assumes "mutex_ok s" and "phase_ok s" and "services_ok s" and "lock_ok s" and "data_ok s" and "tk_erased s"
  shows "quiet s"
proof -
  have w: "tk_worker s \<noteq> W_None" "tk_worker s \<noteq> W_Erase" using assms(5,6) by (auto simp: data_ok_def)
  then have "tk_reloader s \<noteq> S_Set" using assms(1,2) by (auto simp: mutex_ok_def phase_ok_def)
  with w assms(3,4,6) show ?thesis by (simp add: quiet_def services_ok_def lock_ok_def)
qed

lemma log_kept:
  assumes "any_step s t" and "log_ok s" and "tk_erased s \<longrightarrow> quiet s"
    and "\<not> tk_erased s \<longrightarrow> tk_worker s \<noteq> W_Report True \<and> tk_panic s \<noteq> CleanupComplete"
  shows "log_ok t"
proof (cases "tk_erased s")
  case True
  with assms show ?thesis unfolding any_step_def task_step_def
    by (elim step_cases) (simp_all add: log_ok_def quiet_def)
next
  case False
  with assms show ?thesis unfolding any_step_def task_step_def
    by (elim step_cases) (simp_all add: log_ok_def)
qed

lemma reached_ok:
  assumes "reached s"
  shows "tasks_ok s"
  using assms
proof induction
  case reached_init
  show ?case by (simp add: tasks_ok_def ok_defs log_ok_def tasks_init_def)
next
  case (reached_step s t)
  then have ok: "mutex_ok s" "phase_ok s" "services_ok s" "lock_ok s" "data_ok s" "log_ok s"
    by (simp_all add: tasks_ok_def)
  note step = reached_step.hyps(2)
  have "log_ok t"
    using log_kept [OF step ok(6)] erased_quiet [OF ok(1-5)] ok(5) by (simp add: data_ok_def)
  then show ?case
    unfolding tasks_ok_def using mutex_kept [OF step ok(1,2)] phase_kept [OF step ok(1,2)]
      services_kept [OF step ok(1-3,5)] lock_kept [OF step ok(2,4,5)] data_kept [OF step ok(2,4,5)] by blast
qed

section \<open>Nothing acts after the erasure\<close>

lemma quiet_step: "any_step s t \<Longrightarrow> quiet s \<Longrightarrow> tk_erased s \<Longrightarrow> tk_log t = tk_log s \<and> tk_erased t"
  unfolding any_step_def task_step_def by (elim step_cases) (simp_all add: quiet_def)

lemma erased_final:
  assumes "any_step\<^sup>*\<^sup>* s t" and "reached s" and "tk_erased s"
  shows "reached t \<and> tk_erased t \<and> tk_log t = tk_log s"
  using assms
proof (induction rule: rtranclp_induct)
  case (step t u)
  then have t: "reached t" "tk_erased t" "tk_log t = tk_log s" by simp_all
  have "tasks_ok t" by (rule reached_ok [OF t(1)])
  then have "quiet t" using erased_quiet t(2) by (simp add: tasks_ok_def)
  with quiet_step [OF step.hyps(2)] t reached.reached_step [OF t(1) step.hyps(2)] show ?case by simp
qed simp

text \<open>
  C39. An erasure excludes everything else, in every interleaving. While the worker holds the write
  lock no command is past its check, no chat turn is running and no transport exists. Once the
  store is erased, the identity, the account, the handle and the transport are gone, the daemon is
  not active again, the erasure is the last thing in the log of all work, chat turns, device
  signatures and reloads, and no continuation adds anything to that log. A cleanup reported as
  complete really erased the store, and the process does not go on to stop while an erasure is
  under way.
\<close>

theorem erasure_excludes:
  assumes "reached s"
  shows "(tk_writer s \<longrightarrow> readers s = {} \<and> tk_chat s = Chat_Ended \<and> \<not> tk_transport s \<and> tk_panic s = Erasing)
    \<and> (tk_erased s \<longleftrightarrow> list_ex is_erase (tk_log s))
    \<and> (tk_erased s \<longrightarrow> \<not> tk_identity s \<and> \<not> tk_account s \<and> \<not> tk_handle s \<and> \<not> tk_transport s \<and> tk_panic s \<noteq> Active
         \<and> is_erase (last (tk_log s)) \<and> \<not> list_ex is_erase (butlast (tk_log s))
         \<and> (\<forall>t. any_step\<^sup>*\<^sup>* s t \<longrightarrow> tk_log t = tk_log s))
    \<and> (tk_panic s = CleanupComplete \<longrightarrow> tk_erased s \<and> last (tk_log s) = Act_Erase True)
    \<and> (tk_stopper s = T_Done \<longrightarrow> tk_panic s \<noteq> Active \<and> tk_panic s \<noteq> Erasing)"
proof -
  have ok: "mutex_ok s" "phase_ok s" "services_ok s" "lock_ok s" "data_ok s" "log_ok s"
    using reached_ok [OF assms] by (simp_all add: tasks_ok_def)
  have 1: "tk_writer s \<longrightarrow> readers s = {} \<and> tk_chat s = Chat_Ended \<and> \<not> tk_transport s \<and> tk_panic s = Erasing"
  proof
    assume w: "tk_writer s"
    then have pc: "tk_worker s \<in> {W_Identity, W_Account, W_Erase}" using ok(4) by (simp add: lock_ok_def)
    have "readers s = {}" using ok(4) w by (simp add: lock_ok_def readers_def)
    moreover have "tk_chat s = Chat_Ended" "\<not> tk_transport s" using ok(3) pc unfolding services_ok_def by blast+
    moreover have "tk_worker s \<noteq> W_None" "tk_worker s \<noteq> W_Done" using pc by auto
    then have "tk_panic s = Erasing"
      using ok(2) by (cases "tk_panic s") (simp_all add: phase_ok_def is_terminal_def)
    ultimately show "readers s = {} \<and> tk_chat s = Chat_Ended \<and> \<not> tk_transport s \<and> tk_panic s = Erasing" by simp
  qed
  have 2: "tk_erased s \<longleftrightarrow> list_ex is_erase (tk_log s)"
  proof (cases "tk_erased s")
    case True
    with ok(6) have "is_erase (last (tk_log s))" "last (tk_log s) \<in> set (tk_log s)" by (simp_all add: log_ok_def)
    then have "list_ex is_erase (tk_log s)" unfolding list_ex_iff by blast
    with True show ?thesis by simp
  qed (use ok(6) in \<open>simp add: log_ok_def\<close>)
  have 3: "tk_erased s \<longrightarrow> \<not> tk_identity s \<and> \<not> tk_account s \<and> \<not> tk_handle s \<and> \<not> tk_transport s \<and> tk_panic s \<noteq> Active
         \<and> is_erase (last (tk_log s)) \<and> \<not> list_ex is_erase (butlast (tk_log s))
         \<and> (\<forall>t. any_step\<^sup>*\<^sup>* s t \<longrightarrow> tk_log t = tk_log s)"
  proof
    assume e: "tk_erased s"
    then have "tk_worker s \<noteq> W_None" using ok(5) by (auto simp: data_ok_def)
    then have "tk_panic s \<noteq> Active" using ok(2) by (simp add: phase_ok_def)
    moreover have "\<not> tk_identity s" "\<not> tk_account s" using e ok(5) by (simp_all add: data_ok_def)
    moreover have "\<not> tk_handle s" "\<not> tk_transport s" using e ok(3) by (simp_all add: services_ok_def)
    moreover have "is_erase (last (tk_log s))" "\<not> list_ex is_erase (butlast (tk_log s))"
      using e ok(6) by (simp_all add: log_ok_def)
    moreover have "\<forall>t. any_step\<^sup>*\<^sup>* s t \<longrightarrow> tk_log t = tk_log s" using erased_final [OF _ assms e] by blast
    ultimately show "\<not> tk_identity s \<and> \<not> tk_account s \<and> \<not> tk_handle s \<and> \<not> tk_transport s \<and> tk_panic s \<noteq> Active
         \<and> is_erase (last (tk_log s)) \<and> \<not> list_ex is_erase (butlast (tk_log s))
         \<and> (\<forall>t. any_step\<^sup>*\<^sup>* s t \<longrightarrow> tk_log t = tk_log s)" by blast
  qed
  have 4: "tk_panic s = CleanupComplete \<longrightarrow> tk_erased s \<and> last (tk_log s) = Act_Erase True"
    using ok(5,6) by (cases "tk_erased s") (simp_all add: data_ok_def log_ok_def)
  have 5: "tk_stopper s = T_Done \<longrightarrow> tk_panic s \<noteq> Active \<and> tk_panic s \<noteq> Erasing"
    using ok(2) by (simp add: phase_ok_def)
  show ?thesis by (intro conjI 1 2 3 4 5)
qed

section \<open>An erasure can always be completed\<close>

definition completes :: "tasks \<Rightarrow> bool" where
  "completes s \<longleftrightarrow> (\<exists>t. task_step\<^sup>*\<^sup>* s t \<and> tk_panic t = CleanupComplete \<and> tk_erased t)"

lemma completes_step: "task_step s t \<Longrightarrow> completes t \<Longrightarrow> completes s"
  unfolding completes_def by (meson converse_rtranclp_into_rtranclp)

lemma completes_worker: "worker_step s t \<Longrightarrow> completes t \<Longrightarrow> completes s"
  by (rule completes_step [of s t]) (simp_all add: task_step_def)

lemma erase_completes:
  assumes "tk_worker s = W_Erase"
  shows "completes s"
proof (rule completes_worker [OF worker_erase [OF assms, of True]], rule completes_worker [OF worker_report])
  let ?t = "logged (Act_Erase True) (s\<lparr>tk_erased := True, tk_writer := False, tk_worker := W_Report True\<rparr>)"
  show "tk_worker ?t = W_Report True" by simp
  show "completes (?t\<lparr>tk_panic := if True then CleanupComplete else CleanupFailed, tk_worker := W_Done\<rparr>)"
    unfolding completes_def by (rule exI, rule conjI, rule rtranclp.rtrancl_refl) simp
qed

lemma account_completes: "tk_worker s = W_Account \<Longrightarrow> completes s"
  by (rule completes_worker [OF worker_account]) (simp_all add: erase_completes)

lemma identity_completes: "tk_worker s = W_Identity \<Longrightarrow> completes s"
  by (rule completes_worker [OF worker_identity]) (simp_all add: account_completes)

text \<open>A reader either works and leaves, or finds at its second check that the daemon is not active.\<close>

lemma reader_leaves:
  assumes "tk_panic s \<noteq> Active" and "i \<in> readers s"
  shows "task_step s (client i C_Done s)"
proof -
  have "client_step s (client i C_Done s)"
    using assms client_leave [of s i] client_recheck [of s i] unfolding readers_def by (auto split: if_splits)
  then show ?thesis by (simp add: task_step_def)
qed

lemma lock_completes:
  assumes "finite (readers s)" and "tk_worker s = W_Lock" and "tk_panic s \<noteq> Active"
  shows "completes s"
  using assms
proof (induction "card (readers s)" arbitrary: s)
  case 0
  then have "readers s = {}" by simp
  with 0 show ?case
    using completes_worker [OF worker_lock] by (simp add: identity_completes)
next
  case (Suc n)
  then obtain i where i: "i \<in> readers s" by fastforce
  have r: "readers (client i C_Done s) = readers s - {i}" by (auto simp: readers_def)
  have "completes (client i C_Done s)"
    using Suc.hyps(2) Suc.prems i by (intro Suc.hyps(1)) (simp_all add: r)
  with reader_leaves [OF Suc.prems(3) i] show ?case by (rule completes_step)
qed

lemma readers_frame:
  "readers (s\<lparr>tk_transport := b, tk_worker := w\<rparr>) = readers s" "readers (s\<lparr>tk_handle := b, tk_worker := w\<rparr>) = readers s"
  "readers (s\<lparr>tk_chat := x, tk_worker := w\<rparr>) = readers s" "readers (s\<lparr>tk_chat := x\<rparr>) = readers s"
  by (simp_all add: readers_def)

lemma quiesce_completes:
  "tk_worker s = W_Quiesce \<Longrightarrow> finite (readers s) \<Longrightarrow> tk_panic s \<noteq> Active \<Longrightarrow> completes s"
  by (rule completes_worker [OF worker_quiesce]) (simp_all add: lock_completes readers_frame)

lemma take_completes:
  "tk_worker s = W_Take \<Longrightarrow> finite (readers s) \<Longrightarrow> tk_panic s \<noteq> Active \<Longrightarrow> completes s"
  by (rule completes_worker [OF worker_take], assumption)
    (cases "tk_handle s"; simp add: quiesce_completes lock_completes readers_frame)

lemma idle_completes:
  assumes "tk_worker s = W_Chat" and "finite (readers s)" and "tk_panic s \<noteq> Active" and "tk_chat s \<noteq> Chat_Busy"
  shows "completes s"
proof (rule completes_worker [OF worker_chat [OF assms(1,4)]])
  show "completes (s\<lparr>tk_chat := Chat_Ended, tk_worker := W_Take\<rparr>)"
    using assms(2,3) by (intro take_completes) (simp_all add: readers_frame)
qed

lemma chat_completes:
  assumes "tk_worker s = W_Chat" and "finite (readers s)" and "tk_panic s \<noteq> Active"
  shows "completes s"
proof (cases "tk_chat s = Chat_Busy")
  case True
  have "task_step s (s\<lparr>tk_chat := Chat_Idle\<rparr>)"
    unfolding task_step_def using chat_rests [OF True] by (intro disjI2)
  moreover have "completes (s\<lparr>tk_chat := Chat_Idle\<rparr>)"
    using assms by (intro idle_completes) (simp_all add: readers_frame)
  ultimately show ?thesis by (rule completes_step)
next
  case False
  show ?thesis by (rule idle_completes [OF assms False])
qed

lemma one_client: "any_step s t \<Longrightarrow> \<exists>i pc. tk_clients t = (tk_clients s)(i := pc)"
proof -
  have keep: "\<exists>i pc. f = f(i := pc)" for f :: "nat \<Rightarrow> client_pc" by (metis fun_upd_triv)
  have upd: "\<exists>j p. f(i := pc) = f(j := p)" for f :: "nat \<Rightarrow> client_pc" and i pc by blast
  show "any_step s t \<Longrightarrow> \<exists>i pc. tk_clients t = (tk_clients s)(i := pc)"
    unfolding any_step_def task_step_def by (elim step_cases) (simp_all add: keep upd)
qed

lemma few_clients: "reached s \<Longrightarrow> finite {i. tk_clients s i \<noteq> C_Done}"
proof (induction rule: reached.induct)
  case reached_init
  show ?case by (simp add: tasks_init_def)
next
  case (reached_step s t)
  obtain i pc where "tk_clients t = (tk_clients s)(i := pc)" using one_client [OF reached_step.hyps(2)] by blast
  then have "{j. tk_clients t j \<noteq> C_Done} \<subseteq> insert i {j. tk_clients s j \<noteq> C_Done}" by auto
  with reached_step.IH show ?case by (meson finite_insert finite_subset)
qed


section \<open>A concrete run\<close>

lemma reached_client: "reached s \<Longrightarrow> client_step s t \<Longrightarrow> reached t"
  by (erule reached_step) (simp add: any_step_def task_step_def)

lemma reached_panic: "reached s \<Longrightarrow> panic_step s t \<Longrightarrow> reached t"
  by (erule reached_step) (simp add: any_step_def task_step_def)

lemma reached_run: "task_step\<^sup>*\<^sup>* s t \<Longrightarrow> reached s \<Longrightarrow> reached t"
  by (induction rule: rtranclp_induct) (auto intro: reached_step simp: any_step_def)

text \<open>An idle client obtains a token and leaves; an idle panic command that finds a token wins the exchange.\<close>

lemma token_issued:
  assumes "reached s" and "tk_clients s i = C_Done" and "tk_panic s = Active" and "\<not> tk_writer s"
  shows "reached (s\<lparr>tk_token := True, tk_log := tk_log s @ [Act_Work i]\<rparr>)"
proof -
  let ?s = "client i C_Wait s"
  have "client_step s ?s" by (rule client_event [OF assms(2)])
  moreover have "client_step ?s (client i C_Locked s)" using client_lock [of ?s i] assms(4) by simp
  moreover have "client_step (client i C_Locked s) (client i C_Work s)"
    using client_recheck [of "client i C_Locked s" i] assms(3) by simp
  moreover have "client_step (client i C_Work s) (logged (Act_Work i) ((client i C_Work s)\<lparr>tk_token := True\<rparr>))"
    by (rule client_token) simp
  moreover have "(tk_clients s)(i := C_Done) = tk_clients s" using assms(2) by auto
  then have "client_step (logged (Act_Work i) ((client i C_Work s)\<lparr>tk_token := True\<rparr>))
      (s\<lparr>tk_token := True, tk_log := tk_log s @ [Act_Work i]\<rparr>)"
    using client_leave [of "logged (Act_Work i) ((client i C_Work s)\<lparr>tk_token := True\<rparr>)" i] by simp
  ultimately show ?thesis using assms(1) by (metis reached_client)
qed

lemma panic_wins:
  assumes "reached s" and "tk_panics s i = P_Done" and "tk_panic s = Active" and "tk_token s" and "tk_transition s = None"
  shows "reached (panicker i P_Await (s\<lparr>tk_token := False, tk_panic := Erasing, tk_worker := W_Chat\<rparr>))"
proof -
  let ?b = "panicker i P_Redeem s"
  let ?c = "panicker i P_Transition (s\<lparr>tk_token := False\<rparr>)"
  let ?d = "panicker i P_Swap (s\<lparr>tk_token := False, tk_transition := Some (By_Panic i)\<rparr>)"
  have "panic_step s (panicker i P_Start s)" by (rule panic_command [OF assms(2)])
  moreover have "panic_step (panicker i P_Start s) ?b" using panic_check [of "panicker i P_Start s" i] assms(3) by simp
  moreover have "panic_step ?b ?c" using panic_redeem [of ?b i] assms(4) by simp
  moreover have "panic_step ?c ?d" using panic_lock [of ?c i] assms(5) by simp
  moreover have "s\<lparr>tk_transition := None\<rparr> = s" using assms(5) by simp
  then have "panic_step ?d (panicker i P_Await (s\<lparr>tk_token := False, tk_panic := Erasing, tk_worker := W_Chat\<rparr>))"
    using panic_won [of ?d i] assms(3,5) by (cases s) simp
  ultimately show ?thesis using assms(1) by (metis reached_panic)
qed

lemma demo_erasing:
  "\<exists>s. reached s \<and> tk_panic s = Erasing \<and> tk_worker s = W_Chat \<and> tk_log s = [Act_Work 0] \<and> readers s = {}"
proof -
  let ?s = "tasks_init\<lparr>tk_token := True, tk_log := tk_log tasks_init @ [Act_Work 0]\<rparr>"
  have "reached ?s" by (rule token_issued [OF reached_init]) (simp_all add: tasks_init_def)
  then have "reached (panicker 1 P_Await (?s\<lparr>tk_token := False, tk_panic := Erasing, tk_worker := W_Chat\<rparr>))"
    by (rule panic_wins) (simp_all add: tasks_init_def)
  then show ?thesis by (intro exI conjI) (assumption, simp_all add: tasks_init_def readers_def)
qed


theorem erasure_excludes_witness:
  "\<exists>s. reached s \<and> tk_panic s = CleanupComplete \<and> \<not> tk_identity s \<and> last (tk_log s) = Act_Erase True
     \<and> \<not> list_ex is_erase (butlast (tk_log s))"
proof -
  obtain s where s: "reached s" "tk_panic s = Erasing" "tk_worker s = W_Chat" "readers s = {}" using demo_erasing by blast
  then have "completes s" by (intro chat_completes) simp_all
  then obtain t where t: "task_step\<^sup>*\<^sup>* s t" "tk_panic t = CleanupComplete" unfolding completes_def by blast
  have r: "reached t" by (rule reached_run [OF t(1) s(1)])
  note ex = erasure_excludes [OF r]
  then have "tk_erased t" "last (tk_log t) = Act_Erase True" using t(2) by blast+
  with ex r t(2) show ?thesis by blast
qed

end
