(* ===== verification/Ipc_Wire.thy ===== *)
theory Ipc_Wire
  imports Ipc Serde
begin

text \<open>
  The JSON of the local protocol (\<open>omachat-proto/src/ipc.rs\<close>): what the messages are written as, and
  the derived reader of the strict wire form. Only the text form of JSON values is a parameter. The
  requests a client writes are shown to reach the daemon as they were, in whatever chunks.
\<close>

section \<open>Writing\<close>

definition topic_name :: "topic \<Rightarrow> string" where
  "topic_name t =
     (case t of Topic_Status \<Rightarrow> ''status'' | Topic_Conversations \<Rightarrow> ''conversations'' | Topic_Messages \<Rightarrow> ''messages''
      | Topic_Presence \<Rightarrow> ''presence'' | Topic_Delivery \<Rightarrow> ''delivery'')"

definition ipc_error_code_name :: "ipc_error_code \<Rightarrow> string" where
  "ipc_error_code_name k =
     (case k of Ipc_InvalidRequest \<Rightarrow> ''invalid-request'' | Ipc_VersionMismatch \<Rightarrow> ''version-mismatch''
      | Ipc_NotFound \<Rightarrow> ''not-found'' | Ipc_Conflict \<Rightarrow> ''conflict'' | Ipc_Unavailable \<Rightarrow> ''unavailable''
      | Ipc_Internal \<Rightarrow> ''internal'')"

text \<open>The adjacently tagged form of a command: its method and, for a variant with fields, its parameters.\<close>

fun command_json :: "command \<Rightarrow> (string \<times> json) list" where
  "command_json (Hello lo hi) = [(''method'', JStr ''hello''),
     (''params'', JObj [(''minimum_version'', JInt (uint lo)), (''maximum_version'', JInt (uint hi))])]"
| "command_json Status = [(''method'', JStr ''status'')]"
| "command_json Fingerprint = [(''method'', JStr ''fingerprint'')]"
| "command_json IdentityShow = [(''method'', JStr ''identity-show'')]"
| "command_json IdentityExport = [(''method'', JStr ''identity-export'')]"
| "command_json IdentityGenerate = [(''method'', JStr ''identity-generate'')]"
| "command_json (IdentityImport nsec) = [(''method'', JStr ''identity-import''), (''params'', JObj [(''nsec'', JStr nsec)])]"
| "command_json RequestPanicConfirmation = [(''method'', JStr ''request-panic-confirmation'')]"
| "command_json (Panic confirmation) = [(''method'', JStr ''panic''), (''params'', JObj [(''confirmation'', JStr confirmation)])]"
| "command_json (Subscribe topics) = [(''method'', JStr ''subscribe''),
     (''params'', JObj [(''topics'', JArr (map (\<lambda>t. JStr (topic_name t)) topics))])]"
| "command_json (HostedClaimHandle handle) = [(''method'', JStr ''hosted-claim-handle''), (''params'', JObj [(''handle'', JStr handle)])]"
| "command_json (HostedResolveHandle handle) = [(''method'', JStr ''hosted-resolve-handle''), (''params'', JObj [(''handle'', JStr handle)])]"
| "command_json HostedBindNostr = [(''method'', JStr ''hosted-bind-nostr'')]"
| "command_json HostedUnbindNostr = [(''method'', JStr ''hosted-unbind-nostr'')]"
| "command_json ChatPrepare = [(''method'', JStr ''chat-prepare'')]"
| "command_json (ContactsAdd peer) = [(''method'', JStr ''contacts-add''), (''params'', JObj [(''peer'', JStr peer)])]"
| "command_json (ContactsRemove npub) = [(''method'', JStr ''contacts-remove''), (''params'', JObj [(''npub'', JStr npub)])]"
| "command_json ContactsList = [(''method'', JStr ''contacts-list'')]"
| "command_json RelaysShow = [(''method'', JStr ''relays-show'')]"
| "command_json (RelaysSet relays) = [(''method'', JStr ''relays-set''), (''params'', JObj [(''relays'', JArr (map JStr relays))])]"
| "command_json (Send peer body) = [(''method'', JStr ''send''),
     (''params'', JObj [(''peer'', JStr peer), (''text'', JStr body)])]"
| "command_json Messages = [(''method'', JStr ''messages'')]"

text \<open>The command is flattened into the request, the outcome into the response.\<close>

definition request_json :: "request \<Rightarrow> json" where
  "request_json r =
     JObj ([(''version'', JInt (uint (version r))), (''id'', JStr (request_id r))] @ command_json (request_command r))"

definition response_json :: "response \<Rightarrow> json" where
  "response_json r =
     JObj ([(''version'', JInt (uint (response_version r))), (''id'', JStr (response_id r))]
       @ (case outcome r of
            Outcome_Ok result \<Rightarrow> [(''status'', JStr ''ok''), (''result'', result)]
          | Outcome_Error err \<Rightarrow> [(''status'', JStr ''error''),
              (''error'', JObj [(''code'', JStr (ipc_error_code_name (error_code err))), (''message'', JStr (error_message err))])]))"

definition ipc_event_json :: "ipc_event \<Rightarrow> json" where
  "ipc_event_json ev =
     JObj [(''version'', JInt (uint (event_version ev))), (''sequence'', JInt (uint (event_sequence ev))),
           (''topic'', JStr (topic_name (event_topic ev))), (''payload'', event_payload ev)]"

section \<open>Reading\<close>

definition de_topic :: "json \<Rightarrow> topic option" where
  "de_topic j =
     Option.bind (content_variant j) (\<lambda>s.
       if s = ''status'' then Some Topic_Status
       else if s = ''conversations'' then Some Topic_Conversations
       else if s = ''messages'' then Some Topic_Messages
       else if s = ''presence'' then Some Topic_Presence
       else if s = ''delivery'' then Some Topic_Delivery
       else None)"

text \<open>
  A struct of one field, and the variants of the wire form without and with parameters. None of them
  takes unknown fields.
\<close>

definition de_single :: "string \<Rightarrow> (json \<Rightarrow> 'a option) \<Rightarrow> json \<Rightarrow> 'a option" where
  "de_single name f j = (case de_struct [name] j of Some [x] \<Rightarrow> f x | _ \<Rightarrow> None)"

definition de_bare :: "(u16 \<Rightarrow> string \<Rightarrow> 'w) \<Rightarrow> json \<Rightarrow> 'w option" where
  "de_bare W j =
     (case de_struct [''version'', ''id''] j of
        Some [v, i] \<Rightarrow> Option.bind (de_u16 v) (\<lambda>v. map_option (W v) (de_string i))
      | _ \<Rightarrow> None)"

definition de_with :: "(u16 \<Rightarrow> string \<Rightarrow> 'p \<Rightarrow> 'w) \<Rightarrow> (json \<Rightarrow> 'p option) \<Rightarrow> json \<Rightarrow> 'w option" where
  "de_with W f j =
     (case de_struct [''version'', ''id'', ''params''] j of
        Some [v, i, p] \<Rightarrow>
          Option.bind (de_u16 v) (\<lambda>v. Option.bind (de_string i) (\<lambda>i. map_option (W v i) (f p)))
      | _ \<Rightarrow> None)"

definition de_hello_params :: "json \<Rightarrow> hello_params option" where
  "de_hello_params j =
     (case de_struct [''minimum_version'', ''maximum_version''] j of
        Some [lo, hi] \<Rightarrow>
          Option.bind (de_u16 lo) (\<lambda>lo. map_option (\<lambda>hi. \<lparr>minimum_version = lo, maximum_version = hi\<rparr>) (de_u16 hi))
      | _ \<Rightarrow> None)"

definition de_handle_params :: "json \<Rightarrow> handle_params option" where
  "de_handle_params j = map_option handle_params.make (de_single ''handle'' de_string j)"

definition de_identity_import_params :: "json \<Rightarrow> identity_import_params option" where
  "de_identity_import_params j = map_option identity_import_params.make (de_single ''nsec'' de_string j)"

definition de_confirmation_params :: "json \<Rightarrow> confirmation_params option" where
  "de_confirmation_params j = map_option confirmation_params.make (de_single ''confirmation'' de_string j)"

definition de_subscribe_params :: "json \<Rightarrow> subscribe_params option" where
  "de_subscribe_params j = map_option subscribe_params.make (de_single ''topics'' (de_vec de_topic) j)"

definition de_peer_params :: "json \<Rightarrow> peer_params option" where
  "de_peer_params j = map_option peer_params.make (de_single ''peer'' de_string j)"

definition de_npub_params :: "json \<Rightarrow> npub_params option" where
  "de_npub_params j = map_option npub_params.make (de_single ''npub'' de_string j)"

definition de_relays_params :: "json \<Rightarrow> relays_params option" where
  "de_relays_params j = map_option relays_params.make (de_single ''relays'' (de_vec de_string) j)"

definition de_send_params :: "json \<Rightarrow> send_params option" where
  "de_send_params j =
     (case de_struct [''peer'', ''text''] j of
        Some [peer, body] \<Rightarrow>
          Option.bind (de_string peer) (\<lambda>peer.
            map_option (\<lambda>body. \<lparr>send_peer = peer, send_text_param = body\<rparr>) (de_string body))
      | _ \<Rightarrow> None)"

lemmas de_params = de_hello_params_def de_handle_params_def de_identity_import_params_def de_confirmation_params_def
  de_subscribe_params_def de_peer_params_def de_npub_params_def de_relays_params_def de_send_params_def de_single_def

lemmas params_make = handle_params.make_def identity_import_params.make_def confirmation_params.make_def
  subscribe_params.make_def peer_params.make_def npub_params.make_def relays_params.make_def

definition de_strict_request :: "json \<Rightarrow> strict_request_wire option" where
  "de_strict_request j =
     Option.bind (de_tagged ''method'' j) (\<lambda>(tag, rest).
       if tag = ''hello'' then de_with Wire_Hello de_hello_params rest
       else if tag = ''status'' then de_bare Wire_Status rest
       else if tag = ''fingerprint'' then de_bare Wire_Fingerprint rest
       else if tag = ''identity-show'' then de_bare Wire_IdentityShow rest
       else if tag = ''identity-export'' then de_bare Wire_IdentityExport rest
       else if tag = ''identity-generate'' then de_bare Wire_IdentityGenerate rest
       else if tag = ''identity-import'' then de_with Wire_IdentityImport de_identity_import_params rest
       else if tag = ''request-panic-confirmation'' then de_bare Wire_RequestPanicConfirmation rest
       else if tag = ''panic'' then de_with Wire_Panic de_confirmation_params rest
       else if tag = ''subscribe'' then de_with Wire_Subscribe de_subscribe_params rest
       else if tag = ''hosted-claim-handle'' then de_with Wire_HostedClaimHandle de_handle_params rest
       else if tag = ''hosted-resolve-handle'' then de_with Wire_HostedResolveHandle de_handle_params rest
       else if tag = ''hosted-bind-nostr'' then de_bare Wire_HostedBindNostr rest
       else if tag = ''hosted-unbind-nostr'' then de_bare Wire_HostedUnbindNostr rest
       else if tag = ''chat-prepare'' then de_bare Wire_ChatPrepare rest
       else if tag = ''contacts-add'' then de_with Wire_ContactsAdd de_peer_params rest
       else if tag = ''contacts-remove'' then de_with Wire_ContactsRemove de_npub_params rest
       else if tag = ''contacts-list'' then de_bare Wire_ContactsList rest
       else if tag = ''relays-show'' then de_bare Wire_RelaysShow rest
       else if tag = ''relays-set'' then de_with Wire_RelaysSet de_relays_params rest
       else if tag = ''send'' then de_with Wire_Send de_send_params rest
       else if tag = ''messages'' then de_bare Wire_Messages rest
       else None)"

definition serde_of :: "json_crate \<Rightarrow> serde" where
  "serde_of jc =
     \<lparr>wire_from_slice = (\<lambda>bs. Option.bind (json_from_slice jc bs) de_strict_request),
      request_to_vec = (\<lambda>r. json_to_vec jc (request_json r)),
      response_to_vec = (\<lambda>r. json_to_vec jc (response_json r)),
      event_to_vec = (\<lambda>ev. json_to_vec jc (ipc_event_json ev))\<rparr>"

section \<open>Round trip\<close>

text \<open>Compact JSON has no line breaks: control characters in strings are escaped.\<close>

definition json_compact :: "json_crate \<Rightarrow> bool" where
  "json_compact jc \<longleftrightarrow> (\<forall>j bs. json_to_vec jc j = Some bs \<longrightarrow> 10 \<notin> set bs \<and> 13 \<notin> set bs)"

text \<open>The strings of a request are Rust strings.\<close>

fun command_utf8 :: "command \<Rightarrow> bool" where
  "command_utf8 (IdentityImport x) = is_utf8 x"
| "command_utf8 (Panic x) = is_utf8 x"
| "command_utf8 (HostedClaimHandle x) = is_utf8 x"
| "command_utf8 (HostedResolveHandle x) = is_utf8 x"
| "command_utf8 (ContactsAdd x) = is_utf8 x"
| "command_utf8 (ContactsRemove x) = is_utf8 x"
| "command_utf8 (RelaysSet xs) = list_all is_utf8 xs"
| "command_utf8 (Send x y) = (is_utf8 x \<and> is_utf8 y)"
| "command_utf8 _ = True"

definition request_utf8 :: "request \<Rightarrow> bool" where
  "request_utf8 r \<longleftrightarrow> is_utf8 (request_id r) \<and> command_utf8 (request_command r)"

lemma topic_name_reads [simp]: "de_topic (JStr (topic_name t)) = Some t"
  by (cases t) (simp_all add: de_topic_def topic_name_def content_variant_def)

lemma topic_name_utf8 [simp]: "is_utf8 (topic_name t)"
  by (cases t) (simp_all add: topic_name_def is_utf8_ascii)

lemma topics_read [simp]: "de_vec de_topic (JArr (map (\<lambda>t. JStr (topic_name t)) ts)) = Some ts"
  by (simp add: de_vec_def)

lemma strict_request_reads:
  "map_option Request_from (de_strict_request (request_json r)) = Some r"
proof -
  obtain v i c where r: "r = make_request v i c" by (cases r) (simp add: make_request_def)
  show ?thesis
    unfolding r
    by (cases c) (simp_all add: de_strict_request_def request_json_def make_request_def de_tagged_def de_bare_def de_with_def
        de_struct_def de_params params_make)
qed

lemma request_json_exact:
  assumes "request_utf8 r"
  shows "json_exact 127 (request_json r)"
proof -
  have "json_exact 127 (JObj ([(''version'', JInt (uint v)), (''id'', JStr i)] @ command_json c))"
    if "is_utf8 i" "command_utf8 c" for v :: u16 and i c
    using that by (cases c) (auto simp: json_exact_object json_exact_array is_utf8_ascii list_all_iff)
  then show ?thesis using assms by (simp add: request_utf8_def request_json_def)
qed

lemma decode_encoded_line:
  assumes "json_laws jc" and "json_compact jc" and "request_utf8 r" and "validate_request r = Inr ()"
    and "encode_line (request_to_vec (serde_of jc)) r = Inr l"
  shows "decode_stream (serde_of jc) MAX_LINE_BYTES (l @ xs) =
    map_option (\<lambda>(rs, rest). (r # rs, rest)) (decode_stream (serde_of jc) MAX_LINE_BYTES xs)"
proof -
  from assms(5) obtain bs where bs: "json_to_vec jc (request_json r) = Some bs" "length bs \<le> MAX_LINE_BYTES" "l = bs @ [10]"
    by (auto simp: encode_line_def serde_of_def split: option.splits if_splits)
  note rd = json_laws_read(1,2) [OF assms(1) request_json_exact [OF assms(3)] bs(1)]
  have line: "10 \<notin> set bs" "last bs \<noteq> 13"
    using assms(2) bs(1) last_in_set [OF rd(2)] unfolding json_compact_def by metis+
  have "map_option Request_from (wire_from_slice (serde_of jc) bs) = Some r"
    using rd(1) strict_request_reads [of r] by (simp add: serde_of_def)
  then have "read_line (serde_of jc) bs = Inr r"
    using line assms(4) by (auto simp: read_line_def Request_deserialize_def strip_cr_def)
  with bs(2) split_lines_line [OF line(1), of xs] show ?thesis
    by (auto simp: decode_stream_def bs(3) line_ok_def split: prod.splits)
qed

text \<open>
  C21. Requests survive the wire. Any valid requests that \<open>encode_line\<close> accepts, written as JSON one
  after the other and read in any chunks through the strict wire form, are decoded to the same
  requests in the same order, and the decoder ends at a line boundary.
\<close>

theorem requests_roundtrip:
  assumes "json_laws jc" and "json_compact jc"
    and "list_all (\<lambda>r. request_utf8 r \<and> validate_request r = Inr ()) rs"
    and "list_all2 (\<lambda>r l. encode_line (request_to_vec (serde_of jc)) r = Inr l) rs ls"
    and "concat cs = concat ls"
  shows "feed (serde_of jc) decoder_default cs = Inr (rs, decoder_default) \<and> finish decoder_default = Inr ()"
proof -
  have "decode_stream (serde_of jc) MAX_LINE_BYTES (concat ls) = Some (rs, [])"
    using assms(4,3)
  proof (induction rule: list_all2_induct)
    case Nil
    show ?case by (simp add: decode_stream_nil)
  next
    case (Cons r rs l ls)
    then show ?case using decode_encoded_line [OF assms(1,2) _ _ Cons.hyps(1)] by simp
  qed
  moreover have "decoder_inv decoder_default" "buffer decoder_default = []" "maximum decoder_default = MAX_LINE_BYTES"
    by (simp_all add: decoder_default_def decoder_new_def decoder_inv_def)
  ultimately show ?thesis
    using feed_Inr [of decoder_default "serde_of jc" cs rs decoder_default] assms(5) by (simp add: finish_def)
qed

lemma reference_json_compact: "json_compact reference_json"
proof -
  have "b \<noteq> 10 \<and> b \<noteq> 13" if "b \<in> set (as_bytes (hex_string xs))" for b xs
  proof -
    from that obtain ch where ch: "ch \<in> set (hex_string xs)" "b = of_char ch" by (auto simp: as_bytes_def)
    then have "is_lower_hexdigit ch" using hex_string_lower [of xs] by (auto simp: list_all_iff)
    then show ?thesis using ch(2) unat_of_char_byte [of ch] by (auto simp: ascii_defs)
  qed
  then show ?thesis by (auto simp: json_compact_def reference_json_def split: if_splits)
qed

text \<open>Two requests of a client, the second with parameters.\<close>

definition demo_requests :: "request list" where
  "demo_requests = [make_request 4 ''1'' Status, make_request 4 ''2'' (Send ''ada'' ''hi'')]"

definition demo_line :: "request \<Rightarrow> bytes" where
  "demo_line r = the (request_to_vec (serde_of reference_json) r) @ [10]"

lemma demo_lines:
  assumes "r \<in> set demo_requests"
  shows "request_utf8 r" "validate_request r = Inr ()" "encode_line (request_to_vec (serde_of reference_json)) r = Inr (demo_line r)"
proof -
  show u: "request_utf8 r"
    using assms by (auto simp: demo_requests_def make_request_def request_utf8_def is_utf8_ascii)
  show "validate_request r = Inr ()"
    using assms by (auto simp: demo_requests_def validate_request_def make_request_def ipc_consts chars_ascii char_is_control_def)
  have len: "length (put_json 127 (request_json r)) \<le> 1000"
    using assms by (auto simp: demo_requests_def request_json_def make_request_def put_json_container length_put)
  have "request_to_vec (serde_of reference_json) r = Some (as_bytes (hex_string (put_json 127 (request_json r))))"
    using request_json_exact [OF u] by (simp add: serde_of_def reference_json_def)
  with len show "encode_line (request_to_vec (serde_of reference_json)) r = Inr (demo_line r)"
    by (simp add: encode_line_def demo_line_def ipc_consts length_hex_string)
qed

theorem requests_roundtrip_witness:
  "feed (serde_of reference_json) decoder_default
     [take 5 (concat (map demo_line demo_requests)), [], drop 5 (concat (map demo_line demo_requests))]
   = Inr ([make_request 4 ''1'' Status, make_request 4 ''2'' (Send ''ada'' ''hi'')], decoder_default)"
proof -
  have "list_all (\<lambda>r. request_utf8 r \<and> validate_request r = Inr ()) demo_requests"
    "list_all2 (\<lambda>r l. encode_line (request_to_vec (serde_of reference_json)) r = Inr l) demo_requests (map demo_line demo_requests)"
    using demo_lines by (auto simp: list_all_iff list_all2_conv_all_nth)
  from conjunct1 [OF requests_roundtrip [OF reference_json_laws reference_json_compact this,
      of "[take 5 (concat (map demo_line demo_requests)), [], drop 5 (concat (map demo_line demo_requests))]"]]
  show ?thesis unfolding demo_requests_def [symmetric] by (simp only: concat.simps append.simps append_Nil2 append_take_drop_id)
qed

end
