(* ===== verification/Spec2Isabelle.thy ===== *)
theory Spec2Isabelle
  imports Server_Session Confirmation Sealed_Erase Dm_Inbox Relay_Cache Nip05_Client Nostr_Chat Hosted_Link Core_Threads Ipc_Wire
begin

text \<open>
  A verification development of OmaChat, a chat program in Rust.

  \<^bold>\<open>The program.\<close> A daemon, \<open>omachatd\<close>, keeps a device identity, a Nostr key, contacts and messages in
  an encrypted store (\<open>omachat-store\<close>). Local clients command it over a Unix socket with lines of JSON
  (\<open>omachat-proto/src/ipc.rs\<close>, \<open>omachatd/src/ipc_server.rs\<close>). Messages travel as gift-wrapped Nostr
  events over several relays (\<open>omachat-nostr\<close>, \<open>omachatd/src/nostr_chat.rs\<close>). Optionally the daemon
  holds a WebSocket session with a server that maps handles to Nostr keys
  (\<open>omachatd/src/hosted_service.rs\<close> towards \<open>omachat-server\<close>, with the shared protocol in
  \<open>omachat-proto/src/hosted.rs\<close>). The core of the daemon (\<open>omachatd/src/core.rs\<close>) dispatches the commands
  to these parts and erases everything on a confirmed panic command.

  \<^bold>\<open>Conventions.\<close> Rust's \<open>u8\<close>, \<open>u16\<close>, \<open>u32\<close> and \<open>u64\<close> are words of that width, \<open>usize\<close> is \<open>nat\<close>, a \<open>str\<close>
  is the list of its UTF-8 bytes, a \<open>Result\<close> is a sum with the error on the left. Code with effects
  takes its state and returns it updated. Structs are records and enums datatypes; a definition
  carries the name of the function it translates, with the type as prefix where names would
  clash. Third-party crates are arguments: \<open>crates\<close> (hashes, signatures, encryption, encodings),
  \<open>nip44_crates\<close>, \<open>json_crate\<close> (the text form of JSON values) and \<open>url_crate\<close>. Nothing is known of them but
  the laws that a theorem names as hypotheses, which state documented behaviour such as that a
  signature of the key verifies or that JSON text reads back as the value it was written from;
  \<open>reference_crates\<close>, \<open>reference_json\<close> and \<open>reference_urls\<close> are executable instances that satisfy them and
  carry the concrete runs. What the program itself says about JSON, its derived and written-out
  readers and writers, is defined. The file system, SQLite, sockets, clocks and the random source
  are inputs whose every failure is a case: each call of \<open>Files\<close> may fail, each statement of
  \<open>Server_Storage\<close> may fail, and the trail of disk states includes those between two calls.

  \<^bold>\<open>Foundations.\<close>
  \<^item> \<open>Prelude\<close>: machine arithmetic, result and state-passing combinators, and the interface
    \<open>step_invariant\<close>, from which an invariant of all runs follows once a step keeps it. It is
    interpreted for the account service, the event hub, the relay connection, the chat actor, the
    hosted client and the daemon core.
  \<^item> \<open>Text\<close>, \<open>Primitives\<close>, \<open>Json\<close>, \<open>Serde\<close>, \<open>Urls\<close>, \<open>Files\<close>: strings, the crates and their laws, JSON values and
    derived readers, URLs, the file system.

  \<^bold>\<open>Server\<close> (\<open>omachat-server/src\<close>).
  \<^item> \<open>Hosted_Proto\<close>, \<open>Keys\<close>: transcripts, frames, validators, handles and keys. Two different protocol
    statements never have the same signed bytes.
  \<^item> \<open>Server_Storage\<close> (\<open>storage.rs\<close>), \<open>Server_Service\<close> (\<open>service.rs\<close>, \<open>protocol.rs\<close>, \<open>auth.rs\<close>): the tables, the
    migration, the sealed values and every command. \<open>Server_Directory\<close> is the abstract machine they
    implement; \<open>Server_Properties\<close> shows the refinement, that handles are permanent and unique, that a
    bound key changes only on fresh proofs signed by the device and the new key, and what replay
    protection covers and does not cover. \<open>Server_Lookup\<close> has the public lookup and the key check of the
    database.
  \<^item> \<open>Server_Session\<close> (\<open>session.rs\<close>): reading requests, the handshake, the request loop and the token bucket.
    Authentication implies a signature over this connection's challenge, each request is answered
    once, and the rate limit holds between any two times.

  \<^bold>\<open>Store\<close> (\<open>omachat-store/src\<close>).
  \<^item> \<open>Sealed_Store\<close>, \<open>Sealed_Props\<close>, \<open>Sealed_Restart\<close>, \<open>Sealed_Examples\<close>, \<open>Sealed_Erase\<close>: the record store. At every
    disk state a record reads as before or as written, the next start finds the same key and
    records, and erasure is terminal.
  \<^item> \<open>Vaults\<close>: the identity is created once; what importing a Nostr key does when its read fails.

  \<^bold>\<open>Nostr\<close> (\<open>omachat-nostr/src\<close>, \<open>omachat-crypto/src/nip44.rs\<close>).
  \<^item> \<open>Nip44\<close>, \<open>Nostr_Event\<close>, \<open>Nostr_Frame\<close>, \<open>Gift_Wrap\<close>: encryption, events, frames and gift wraps, with their
    round trips; an identifier binds its event and an opened wrap is authentic.
  \<^item> \<open>Dedup\<close>, \<open>Dm_Inbox\<close>, \<open>Relay_Actor\<close>, \<open>Relay_Pool\<close>: the bounded memory of seen events, the inbox, one relay
    connection and the pool. Over any history a wrap is not new twice within the window, and a
    connection that has to authenticate sends nothing else before.
  \<^item> \<open>Relay_Lists\<close>, \<open>Relay_Cache\<close>: signed relay lists, the two caches (the interface \<open>newest_cache\<close>, interpreted
    for both) and routing. A message goes to the relays its recipient last asked for.
  \<^item> \<open>Nip05_Client\<close>: resolving a name.

  \<^bold>\<open>Daemon\<close> (\<open>omachatd/src\<close>).
  \<^item> \<open>Ipc\<close>, \<open>Ipc_Wire\<close>, \<open>Ipc_Server\<close>, \<open>Confirmation\<close>, \<open>Config\<close>: the decoder against a reference that sees the whole
    stream, the JSON of the messages and their round trip, the event hub, negotiation, the private
    socket, single-use confirmations, the configuration.
  \<^item> \<open>Nostr_Chat\<close>: the chat actor; a message shown as received was sealed by the contact it is shown for.
  \<^item> \<open>Hosted_Client\<close>, \<open>Hosted_Link\<close>: the client side of the hosted protocol, and both sides together: answers
    reach the request they belong to, the device key signs for the pinned server only, and the
    handshake of a client and a server that fit each other completes.
  \<^item> \<open>Daemon_Core\<close>: opening, every command, reload, panic and shutdown, each run whole; a panic is final.
    \<open>Core_Threads\<close>: the same operations as atomic steps of concurrent tasks, in any interleaving;
    nothing acts after an erasure, and an erasure that has begun can be completed.

  \<^bold>\<open>Bounds.\<close> Loops are structural or proved to terminate; no definition uses fuel. Two numbers
  stand for limits of libraries: JSON is read back up to 127 levels of nesting (the limit of
  \<open>serde_json\<close>; the program's own records nest far less deep), and integers in JSON have 64 bits. The
  WebSocket and timer inputs of a session are finite lists of any length, so statements about
  runs are about every finite prefix.

  \<^bold>\<open>Not modelled.\<close> The terminal interface and the command line client, process start and signal
  handling, the HTTP fetchers, relay information documents, profiles, and the drivers that run
  discovery and delivery over the network: input, output and timing around the modelled code.
  Zeroizing of memory is modelled only where the store overwrites its key. In \<open>Core_Threads\<close> the effect
  of an operation on the data is one log entry; the data is in \<open>Daemon_Core\<close>.
\<close>

end
